(* ===== verification/Prelude.thy ===== *)
theory Prelude
  imports Main "HOL-Library.AList" "HOL-Library.Word" "HOL-Library.Sublist"
    "HOL-Library.Signed_Division" "HOL-Library.Multiset" "HOL-Library.Char_ord"
    "HOL-Library.List_Lexorder" "HOL-Library.Product_Lexorder"
begin

text \<open>
  Shared material of the development: the Go-level types (bytes, errors, results), association
  lists as the model of Go maps, the sum of a measure over a map (the shape of every disk-usage
  account in the program), and generic list lemmas. A Go map has no iteration order; an
  association list with distinct keys has one, and because every theorem quantifies over the
  list, it holds for every order in which Go may range over the map.
\<close>

named_theorems alist_simps "lookup, domain and sum laws of association-list maps"
named_theorems inv_defs "definitions of the components' invariants"

section \<open>Bytes, errors and results\<close>

text \<open>Go strings and byte slices are sequences of bytes; a \<open>char\<close> of HOL is one byte.\<close>

type_synonym bytes = string
type_synonym u32 = "32 word"
type_synonym path = string

text \<open>
  Errors as values. \<open>ErrNotExist\<close> and \<open>ErrNoSpace\<close> are the two kernel errors the code tells
  apart (\<open>os.IsNotExist\<close>, \<open>errors.Is(err, syscall.ENOSPC)\<close>); \<open>ErrIO\<close> is any other error of
  an operating-system call; \<open>ErrMsg\<close> an error the program makes with \<open>errors.New\<close> or
  \<open>fmt.Errorf\<close>; \<open>ErrWrap\<close> one that wraps another with \<open>%w\<close>; \<open>ErrPanic\<close> a run-time panic;
  \<open>ErrHang\<close> stands for a call that never returns.
\<close>

datatype go_error =
    ErrNotExist
  | ErrNoSpace
  | ErrIO string
  | ErrMsg string
  | ErrWrap string go_error
  | ErrPanic string
  | ErrHang

type_synonym 'a result = "go_error + 'a"

text \<open>\<open>os.IsNotExist\<close> does not look through \<open>%w\<close>; \<open>errors.Is\<close> does.\<close>

fun isNotExist :: "go_error \<Rightarrow> bool" where
  "isNotExist ErrNotExist = True"
| "isNotExist _ = False"

fun isNoSpace :: "go_error \<Rightarrow> bool" where
  "isNoSpace ErrNoSpace = True"
| "isNoSpace (ErrWrap _ e) = isNoSpace e"
| "isNoSpace _ = False"

section \<open>Go maps as association lists\<close>

abbreviation mkeys :: "('k \<times> 'v) list \<Rightarrow> 'k list" where
  "mkeys m \<equiv> map fst m"

abbreviation wf_map :: "('k \<times> 'v) list \<Rightarrow> bool" where
  "wf_map m \<equiv> distinct (map fst m)"

definition msum :: "('v \<Rightarrow> int) \<Rightarrow> ('k \<times> 'v) list \<Rightarrow> int" where
  "msum f m = sum_list (map (\<lambda>kv. f (snd kv)) m)"

text \<open>\<open>m[k]\<close> on a missing key yields the zero value of the element type.\<close>

definition mget0 :: "'v \<Rightarrow> ('k \<times> 'v) list \<Rightarrow> 'k \<Rightarrow> 'v" where
  "mget0 z m k = (case map_of m k of None \<Rightarrow> z | Some v \<Rightarrow> v)"

section \<open>Lemmas\<close>

lemma map_of_update [simp, alist_simps]:
  "map_of (AList.update k v m) k' = (if k = k' then Some v else map_of m k')"
  by (simp add: update_conv')

lemma map_of_delete [simp, alist_simps]:
  "map_of (AList.delete k m) k' = (if k = k' then None else map_of m k')"
  by (simp add: delete_conv')

lemma wf_update [simp, intro]: "wf_map m \<Longrightarrow> wf_map (AList.update k v m)"
  by (rule distinct_update)

lemma wf_delete [simp, intro]: "wf_map m \<Longrightarrow> wf_map (AList.delete k m)"
  by (rule distinct_delete)

lemma keys_update [simp]: "fst ` set (AList.update k v m) = insert k (fst ` set m)"
  by (simp add: dom_update)

lemma keys_delete [simp]: "fst ` set (AList.delete k m) = fst ` set m - {k}"
  by (auto simp: AList.delete_eq image_iff)

lemma set_delete: "set (AList.delete k m) = {kv \<in> set m. fst kv \<noteq> k}"
  by (auto simp: AList.delete_eq)

lemma set_update_wf:
  "wf_map m \<Longrightarrow> set (AList.update k v m) = insert (k, v) {kv \<in> set m. fst kv \<noteq> k}"
  by (induction m) (auto simp: image_iff)

lemma map_of_None_delete: "map_of m k = None \<Longrightarrow> AList.delete k m = m"
  by (simp add: map_of_eq_None_iff delete_id)

lemma msum_Nil [simp]: "msum f [] = 0"
  by (simp add: msum_def)

lemma msum_Cons [simp]: "msum f ((k, v) # m) = f v + msum f m"
  by (simp add: msum_def)

lemma delete_notin: "k \<notin> fst ` set m \<Longrightarrow> AList.delete k m = m"
  by (simp add: delete_id)

lemma msum_delete [alist_simps]:
  "wf_map m \<Longrightarrow> msum f (AList.delete k m) =
     msum f m - (case map_of m k of None \<Rightarrow> 0 | Some v \<Rightarrow> f v)"
  by (induction m) (auto simp: delete_notin map_of_eq_None_iff [THEN iffD2])

lemma msum_update [alist_simps]:
  "wf_map m \<Longrightarrow> msum f (AList.update k v m) =
     msum f m + f v - (case map_of m k of None \<Rightarrow> 0 | Some w \<Rightarrow> f w)"
  by (induction m) (auto simp: map_of_eq_None_iff [THEN iffD2])

lemma msum_nonneg: "(\<And>k v. (k, v) \<in> set m \<Longrightarrow> 0 \<le> f v) \<Longrightarrow> 0 \<le> msum f m"
  by (induction m) fastforce+

lemma msum_empty_map: "(\<And>k. map_of m k = None) \<Longrightarrow> msum f m = 0"
  by (cases m) (auto dest: meta_spec [where x = "fst (hd m)"])

lemma length_delete_less: "map_of m k = Some v \<Longrightarrow> length (AList.delete k m) < length m"
proof (induction m)
  case (Cons a m)
  then show ?case
    using length_delete_le [of k m] by (cases a) (auto split: if_splits)
qed simp

lemma map_of_Some_set: "wf_map m \<Longrightarrow> map_of m k = Some v \<longleftrightarrow> (k, v) \<in> set m"
  by simp

lemma sum_list_take_le:
  fixes xs :: "int list"
  shows "(\<And>x. x \<in> set xs \<Longrightarrow> 0 \<le> x) \<Longrightarrow> sum_list (take n xs) \<le> sum_list xs"
proof (induction xs arbitrary: n)
  case (Cons x xs)
  then show ?case by (cases n) (auto intro: sum_list_nonneg add_nonneg_nonneg)
qed simp

text \<open>Reasoning about maps stays on the level of lookups, not of list members.\<close>

declare map_of_eq_Some_iff [simp del] Some_eq_map_of_iff [simp del]

lemma wf_map_all:
  "wf_map m \<Longrightarrow> (\<forall>(k, v) \<in> set m. P k v) \<longleftrightarrow> (\<forall>k v. map_of m k = Some v \<longrightarrow> P k v)"
  by (auto simp: map_of_eq_Some_iff)

lemma butlast_last_split:
  assumes "xs \<noteq> []"
  shows "set xs = insert (last xs) (set (butlast xs))"
    and "distinct xs \<Longrightarrow> distinct (butlast xs) \<and> last xs \<notin> set (butlast xs)"
  using assms by (induction xs rule: rev_induct) auto

end
