(* ===== verification/Go_Lib.thy ===== *)
theory Go_Lib
  imports Prelude
begin

text \<open>
  What the program uses of Go's standard library on strings and paths: \<open>strings.TrimSpace\<close>,
  \<open>strings.Split\<close>/\<open>Join\<close> on one character, \<open>bufio.Scanner\<close> with \<open>ScanLines\<close> and a token
  limit, \<open>filepath.Clean\<close>/\<open>Join\<close>/\<open>IsAbs\<close> on Unix (where \<open>FromSlash\<close> and \<open>ToSlash\<close> are the
  identity), \<open>url.QueryEscape\<close> and the decimal rendering and parsing of \<open>strconv\<close>. Strings are
  byte sequences, as in Go.
\<close>

section \<open>strings.TrimSpace\<close>

text \<open>
  The UTF-8 encodings of the code points \<open>unicode.IsSpace\<close> accepts. \<open>TrimSpace\<close> removes such
  encodings from both ends; every one of them is a complete UTF-8 sequence, so matching bytes is
  matching runes.
\<close>

definition space_seqs :: "string list" where
  "space_seqs =
     [[CHR 0x09], [CHR 0x0A], [CHR 0x0B], [CHR 0x0C], [CHR 0x0D], [CHR 0x20],
      [CHR 0xC2, CHR 0x85], [CHR 0xC2, CHR 0xA0], [CHR 0xE1, CHR 0x9A, CHR 0x80],
      [CHR 0xE2, CHR 0x80, CHR 0x80], [CHR 0xE2, CHR 0x80, CHR 0x81],
      [CHR 0xE2, CHR 0x80, CHR 0x82], [CHR 0xE2, CHR 0x80, CHR 0x83],
      [CHR 0xE2, CHR 0x80, CHR 0x84], [CHR 0xE2, CHR 0x80, CHR 0x85],
      [CHR 0xE2, CHR 0x80, CHR 0x86], [CHR 0xE2, CHR 0x80, CHR 0x87],
      [CHR 0xE2, CHR 0x80, CHR 0x88], [CHR 0xE2, CHR 0x80, CHR 0x89],
      [CHR 0xE2, CHR 0x80, CHR 0x8A], [CHR 0xE2, CHR 0x80, CHR 0xA8],
      [CHR 0xE2, CHR 0x80, CHR 0xA9], [CHR 0xE2, CHR 0x80, CHR 0xAF],
      [CHR 0xE2, CHR 0x81, CHR 0x9F], [CHR 0xE3, CHR 0x80, CHR 0x80]]"

function strip_front :: "string list \<Rightarrow> string \<Rightarrow> string" where
  "strip_front ws s =
     (case find (\<lambda>w. w \<noteq> [] \<and> prefix w s) ws of
        None \<Rightarrow> s
      | Some w \<Rightarrow> strip_front ws (drop (length w) s))"
  by pat_completeness auto
termination
  by (relation "measure (\<lambda>(ws, s). length s)") (auto simp: find_Some_iff prefix_def)

declare strip_front.simps [simp del]

definition trimSpace :: "string \<Rightarrow> string" where
  "trimSpace s =
     rev (strip_front (map rev space_seqs) (rev (strip_front space_seqs s)))"

section \<open>Splitting and joining on one character\<close>

fun split_on :: "char \<Rightarrow> string \<Rightarrow> string list" where
  "split_on c [] = [[]]"
| "split_on c (x # xs) =
     (if x = c then [] # split_on c xs
      else (case split_on c xs of [] \<Rightarrow> [[x]] | y # ys \<Rightarrow> (x # y) # ys))"

fun join_with :: "char \<Rightarrow> string list \<Rightarrow> string" where
  "join_with c [] = []"
| "join_with c [x] = x"
| "join_with c (x # y # ys) = x @ c # join_with c (y # ys)"

section \<open>bufio.Scanner with ScanLines\<close>

definition nl :: char where "nl = CHR 0x0A"

definition drop_cr :: "string \<Rightarrow> string" where
  "drop_cr s = (if s \<noteq> [] \<and> last s = CHR 0x0D then butlast s else s)"

text \<open>
  The raw lines of the input: a final line without a newline counts, an empty rest does not. A
  line whose bytes (a trailing carriage return included) reach the token limit fills the buffer
  before its end is seen, and the scan ends with \<open>bufio.ErrTooLong\<close>.
\<close>

definition raw_lines :: "bytes \<Rightarrow> string list" where
  "raw_lines s = (let ps = split_on nl s in if last ps = [] then butlast ps else ps)"

definition scan_lines :: "int \<Rightarrow> bytes \<Rightarrow> string list result" where
  "scan_lines limit s =
     (if \<exists>l \<in> set (raw_lines s). limit \<le> int (length l)
      then Inl (ErrMsg ''bufio.Scanner: token too long'')
      else Inr (map drop_cr (raw_lines s)))"

section \<open>filepath on Unix\<close>

definition sep :: char where "sep = CHR ''/''"

definition isAbs :: "path \<Rightarrow> bool" where
  "isAbs p = (p \<noteq> [] \<and> hd p = sep)"

text \<open>
  \<open>filepath.Clean\<close> drops empty and \<open>.\<close> elements and lets \<open>..\<close> remove the element before it;
  a leading \<open>..\<close> is kept in a relative path and dropped at the root. The elements kept so far
  are a stack, last element first.
\<close>

fun clean_elems :: "bool \<Rightarrow> string list \<Rightarrow> string list \<Rightarrow> string list" where
  "clean_elems rooted acc [] = rev acc"
| "clean_elems rooted acc (c # cs) =
     (if c = [] \<or> c = ''.'' then clean_elems rooted acc cs
      else if c = ''..'' then
        (case acc of
           [] \<Rightarrow> if rooted then clean_elems rooted [] cs
                  else clean_elems rooted [''..''] cs
         | a # as \<Rightarrow> if a = ''..'' then clean_elems rooted (''..'' # acc) cs
                     else clean_elems rooted as cs)
      else clean_elems rooted (c # acc) cs)"

definition clean :: "path \<Rightarrow> path" where
  "clean p =
     (if p = [] then ''.''
      else (let es = clean_elems (isAbs p) [] (split_on sep p)
            in if isAbs p then sep # join_with sep es
               else if es = [] then ''.'' else join_with sep es))"

text \<open>\<open>filepath.Join\<close>: leading empty elements are dropped, the rest joined and cleaned.\<close>

definition joinPath :: "path list \<Rightarrow> path" where
  "joinPath es =
     (let es' = dropWhile (\<lambda>e. e = []) es in if es' = [] then [] else clean (join_with sep es'))"

section \<open>url.QueryEscape\<close>

definition is_alnum :: "char \<Rightarrow> bool" where
  "is_alnum c = (let n = of_char c :: nat in
     (0x30 \<le> n \<and> n \<le> 0x39) \<or> (0x41 \<le> n \<and> n \<le> 0x5A) \<or> (0x61 \<le> n \<and> n \<le> 0x7A))"

definition hexdigit :: "nat \<Rightarrow> char" where
  "hexdigit n = (if n < 10 then char_of (0x30 + n) else char_of (0x41 + (n - 10)))"

definition escape_char :: "char \<Rightarrow> string" where
  "escape_char c =
     (if is_alnum c \<or> c = CHR ''-'' \<or> c = CHR ''_'' \<or> c = CHR ''.'' \<or> c = CHR ''~'' then [c]
      else if c = CHR '' '' then [CHR ''+'']
      else [CHR ''%'', hexdigit (of_char c div 16), hexdigit (of_char c mod 16)])"

definition queryEscape :: "string \<Rightarrow> string" where
  "queryEscape s = concat (map escape_char s)"

section \<open>Decimal numbers\<close>

definition digit_char :: "nat \<Rightarrow> char" where
  "digit_char d = char_of (0x30 + d)"

fun dec :: "nat \<Rightarrow> string" where
  "dec n = (if n < 10 then [digit_char n] else dec (n div 10) @ [digit_char (n mod 10)])"

declare dec.simps [simp del]

definition is_digit :: "char \<Rightarrow> bool" where
  "is_digit c = (let n = of_char c :: nat in 0x30 \<le> n \<and> n \<le> 0x39)"

definition undec :: "string \<Rightarrow> nat" where
  "undec s = foldl (\<lambda>n c. 10 * n + (of_char c - 0x30)) 0 s"

section \<open>Lemmas on splitting, joining and scanning\<close>

lemma split_on_nonempty [simp]: "split_on c s \<noteq> []"
  by (induction s) (auto split: list.splits)

lemma join_split: "join_with c (split_on c s) = s"
proof (induction s)
  case (Cons x xs)
  obtain y ys where "split_on c xs = y # ys"
    by (cases "split_on c xs") auto
  with Cons show ?case by (cases ys) auto
qed simp

lemma split_on_parts: "p \<in> set (split_on c s) \<Longrightarrow> c \<notin> set p"
proof (induction s arbitrary: p)
  case (Cons x xs)
  obtain y ys where "split_on c xs = y # ys"
    by (cases "split_on c xs") auto
  with Cons show ?case by (auto split: if_splits)
qed simp

lemma split_on_absent: "c \<notin> set s \<Longrightarrow> split_on c s = [s]"
  by (induction s) auto

lemma split_on_append: "c \<notin> set s \<Longrightarrow> split_on c (s @ c # t) = s # split_on c t"
  by (induction s) auto

lemma split_join:
  "xs \<noteq> [] \<Longrightarrow> \<forall>x \<in> set xs. c \<notin> set x \<Longrightarrow> split_on c (join_with c xs) = xs"
  by (induction c xs rule: join_with.induct) (auto simp: split_on_absent split_on_append)

lemma join_with_append:
  "xs \<noteq> [] \<Longrightarrow> ys \<noteq> [] \<Longrightarrow> join_with c (xs @ ys) = join_with c xs @ c # join_with c ys"
proof (induction c xs rule: join_with.induct)
  case (2 c x)
  then show ?case by (cases ys) auto
qed auto

lemma split_on_join_append:
  "xs \<noteq> [] \<Longrightarrow> \<forall>x \<in> set xs. c \<notin> set x \<Longrightarrow>
     split_on c (join_with c xs @ c # t) = xs @ split_on c t"
  by (induction c xs rule: join_with.induct) (auto simp: split_on_append)

lemma split_on_two: "split_on c (s @ c # t) = split_on c s @ split_on c t"
proof (induction s)
  case (Cons x xs)
  obtain y ys where "split_on c xs = y # ys"
    by (cases "split_on c xs") auto
  with Cons show ?case by auto
qed simp

lemma raw_lines_Nil [simp]: "raw_lines [] = []"
  by (simp add: raw_lines_def)

lemma raw_lines_line:
  "nl \<notin> set l \<Longrightarrow> raw_lines (l @ nl # s) = l # raw_lines s"
  by (simp add: raw_lines_def split_on_append Let_def)

lemma raw_lines_concat:
  "\<forall>l \<in> set ls. nl \<notin> set l \<Longrightarrow> raw_lines (concat (map (\<lambda>l. l @ [nl]) ls)) = ls"
  by (induction ls) (auto simp: raw_lines_line)

lemma join_with_nl:
  "xs \<noteq> [] \<Longrightarrow> join_with c xs @ [c] = concat (map (\<lambda>l. l @ [c]) xs)"
  by (induction c xs rule: join_with.induct) auto

lemma raw_lines_no_nl: "l \<in> set (raw_lines s) \<Longrightarrow> nl \<notin> set l"
  by (auto simp: raw_lines_def Let_def dest: in_set_butlastD split_on_parts split: if_splits)

section \<open>Lemmas on TrimSpace\<close>

lemma strip_front_suffix: "suffix (strip_front ws s) s"
proof (induction ws s rule: strip_front.induct)
  case (1 ws s)
  show ?case
  proof (cases "find (\<lambda>w. w \<noteq> [] \<and> prefix w s) ws")
    case None
    then show ?thesis by (subst strip_front.simps) simp
  next
    case (Some w)
    have "suffix (strip_front ws (drop (length w) s)) s"
      using 1 [OF Some] suffix_drop suffix_order.order_trans by blast
    with Some show ?thesis by (subst strip_front.simps) simp
  qed
qed

lemma strip_front_stuck:
  "find (\<lambda>w. w \<noteq> [] \<and> prefix w (strip_front ws s)) ws = None"
proof (induction ws s rule: strip_front.induct)
  case (1 ws s)
  show ?case
  proof (cases "find (\<lambda>w. w \<noteq> [] \<and> prefix w s) ws")
    case None
    then have "strip_front ws s = s" by (subst strip_front.simps) simp
    with None show ?thesis by simp
  next
    case (Some w)
    then have "strip_front ws s = strip_front ws (drop (length w) s)"
      by (subst strip_front.simps) simp
    with 1 [OF Some] show ?thesis by simp
  qed
qed

lemma strip_front_id_iff:
  "strip_front ws s = s \<longleftrightarrow> find (\<lambda>w. w \<noteq> [] \<and> prefix w s) ws = None"
proof
  assume "strip_front ws s = s"
  with strip_front_stuck [of ws s] show "find (\<lambda>w. w \<noteq> [] \<and> prefix w s) ws = None" by simp
next
  assume "find (\<lambda>w. w \<noteq> [] \<and> prefix w s) ws = None"
  then show "strip_front ws s = s" by (subst strip_front.simps) simp
qed

lemma strip_front_Nil [simp]: "strip_front ws [] = []"
  by (subst strip_front_id_iff) (simp add: find_None_iff)

text \<open>
  A string is trimmed when no space encoding starts or ends it; exactly these strings are the
  fixed points of \<open>trimSpace\<close>.
\<close>

definition trimmed :: "string \<Rightarrow> bool" where
  "trimmed s = (\<forall>w \<in> set space_seqs. \<not> prefix w s \<and> \<not> prefix (rev w) (rev s))"

lemma space_seqs_nonempty: "w \<in> set space_seqs \<Longrightarrow> w \<noteq> []"
  by (auto simp: space_seqs_def)

lemma trimmed_strip:
  "trimmed s \<longleftrightarrow> strip_front space_seqs s = s \<and> strip_front (map rev space_seqs) (rev s) = rev s"
  using space_seqs_nonempty
  by (fastforce simp: trimmed_def strip_front_id_iff find_None_iff)

lemma trimSpace_trimmed: "trimmed s \<Longrightarrow> trimSpace s = s"
  by (simp add: trimmed_strip trimSpace_def)

lemma trimSpace_Nil [simp]: "trimSpace [] = []"
  by (simp add: trimSpace_def)

lemma trimSpace_set: "set (trimSpace s) \<subseteq> set s"
proof -
  have "set (strip_front ws t) \<subseteq> set t" for ws t
    using strip_front_suffix by (rule set_mono_suffix)
  then show ?thesis
    unfolding trimSpace_def by (metis set_rev subset_trans)
qed

lemma length_trimSpace: "length (trimSpace s) \<le> length s"
proof -
  have "length (strip_front ws t) \<le> length t" for ws t
    using strip_front_suffix by (rule suffix_length_le)
  then show ?thesis
    unfolding trimSpace_def by (metis length_rev le_trans)
qed

lemma space_seqs_not_alnum:
  "w \<in> set space_seqs \<Longrightarrow> \<not> is_alnum (hd w) \<and> \<not> is_alnum (last w)"
  by (auto simp: space_seqs_def is_alnum_def)

lemma trimmed_alnum_ends:
  assumes "s \<noteq> []" "is_alnum (hd s)" "is_alnum (last s)"
  shows "trimmed s"
proof -
  have "\<not> prefix w s \<and> \<not> prefix (rev w) (rev s)" if w: "w \<in> set space_seqs" for w
  proof -
    have "w \<noteq> []" using w by (rule space_seqs_nonempty)
    then have "hd s = hd w" if "prefix w s" using that by (auto simp: prefix_def)
    moreover have "last s = last w" if "prefix (rev w) (rev s)"
      using that \<open>w \<noteq> []\<close> by (auto simp: suffix_to_prefix [symmetric] suffix_def)
    ultimately show ?thesis
      using space_seqs_not_alnum [OF w] assms by metis
  qed
  then show ?thesis by (simp add: trimmed_def)
qed

section \<open>Lemmas on cleaned paths\<close>

text \<open>A normal element is what survives cleaning other than a leading \<open>..\<close>.\<close>

definition normal_elem :: "string \<Rightarrow> bool" where
  "normal_elem e = (e \<noteq> [] \<and> e \<noteq> ''.'' \<and> e \<noteq> ''..'' \<and> sep \<notin> set e)"

lemma clean_elems_normal:
  "\<forall>e \<in> set es. normal_elem e \<Longrightarrow> clean_elems r acc es = rev acc @ es"
  by (induction es arbitrary: acc) (auto simp: normal_elem_def)

lemma clean_elems_append_normal:
  "\<forall>e \<in> set es. normal_elem e \<Longrightarrow> clean_elems r acc (es @ fs) = clean_elems r (rev es @ acc) fs"
  by (induction es arbitrary: acc) (auto simp: normal_elem_def)

lemma clean_elems_rooted:
  "\<forall>e \<in> set acc. normal_elem e \<Longrightarrow> \<forall>e \<in> set es. sep \<notin> set e \<Longrightarrow>
     \<forall>e \<in> set (clean_elems True acc es). normal_elem e"
proof (induction es arbitrary: acc)
  case (Cons c cs)
  consider "c = [] \<or> c = ''.''" | "c = ''..''" | "normal_elem c"
    using Cons.prems(2) by (auto simp: normal_elem_def)
  then show ?case
  proof cases
    case 1
    with Cons.prems Cons.IH [of acc] show ?thesis by auto
  next
    case 2
    have eq: "clean_elems True acc (c # cs) = clean_elems True (tl acc) cs"
      using 2 Cons.prems(1) by (cases acc) (auto simp: normal_elem_def)
    have "\<forall>e \<in> set (tl acc). normal_elem e"
      using Cons.prems(1) by (cases acc) auto
    then show ?thesis unfolding eq by (rule Cons.IH) (use Cons.prems in auto)
  next
    case 3
    then have eq: "clean_elems True acc (c # cs) = clean_elems True (c # acc) cs"
      by (simp add: normal_elem_def)
    show ?thesis unfolding eq by (rule Cons.IH) (use 3 Cons.prems in auto)
  qed
qed simp

text \<open>In a relative path the cleaned elements are some \<open>..\<close> followed by normal elements.\<close>

definition dotdots_then_normal :: "string list \<Rightarrow> bool" where
  "dotdots_then_normal es =
     (\<exists>n ns. es = replicate n ''..'' @ ns \<and> (\<forall>e \<in> set ns. normal_elem e))"

lemma replicate_snoc_append: "replicate n x @ x # xs = x # replicate n x @ xs"
  by (induction n) auto

lemma dotdots_Cons_normal:
  "dotdots_then_normal (rev as) \<Longrightarrow> normal_elem c \<Longrightarrow> dotdots_then_normal (rev as @ [c])"
proof -
  assume "dotdots_then_normal (rev as)" and c: "normal_elem c"
  then obtain n ns where "rev as = replicate n ''..'' @ ns" "\<forall>e \<in> set ns. normal_elem e"
    by (auto simp: dotdots_then_normal_def)
  then show ?thesis
    using c unfolding dotdots_then_normal_def
    by (intro exI [of _ n] exI [of _ "ns @ [c]"]) auto
qed

lemma dotdots_butlast:
  "dotdots_then_normal (es @ [a]) \<Longrightarrow> a \<noteq> ''..'' \<Longrightarrow> dotdots_then_normal es"
proof -
  assume "dotdots_then_normal (es @ [a])" and a: "a \<noteq> ''..''"
  then obtain n ns where *: "es @ [a] = replicate n ''..'' @ ns" "\<forall>e \<in> set ns. normal_elem e"
    by (auto simp: dotdots_then_normal_def)
  have "ns \<noteq> []"
  proof
    assume "ns = []"
    with * have "a \<in> set (replicate n ''..'')" by (metis append_Nil2 in_set_conv_decomp)
    with a show False by simp
  qed
  then have "es = replicate n ''..'' @ butlast ns"
    using *(1) by (metis butlast_append butlast_snoc)
  then show ?thesis
    using *(2) unfolding dotdots_then_normal_def by (auto dest: in_set_butlastD)
qed

lemma dotdots_snoc_dotdot:
  "dotdots_then_normal (es @ [''..'']) \<Longrightarrow> dotdots_then_normal (es @ [''..'', ''..''])"
proof -
  assume "dotdots_then_normal (es @ [''..''])"
  then obtain n ns where *: "es @ [''..''] = replicate n ''..'' @ ns"
    "\<forall>e \<in> set ns. normal_elem e"
    by (auto simp: dotdots_then_normal_def)
  have "ns = []"
  proof (rule ccontr)
    assume "ns \<noteq> []"
    with *(1) have "last ns = ''..''" by (metis last_appendR last_snoc)
    with *(2) \<open>ns \<noteq> []\<close> show False by (metis last_in_set normal_elem_def)
  qed
  with * have "es @ [''..'', ''..''] = replicate (Suc n) ''..'' @ []"
    by (metis append.assoc append_Cons append_Nil append_Nil2 replicate_append_same replicate_Suc)
  then show ?thesis unfolding dotdots_then_normal_def by fastforce
qed

lemma clean_elems_relative:
  "dotdots_then_normal (rev acc) \<Longrightarrow> \<forall>e \<in> set es. sep \<notin> set e \<Longrightarrow>
     dotdots_then_normal (clean_elems False acc es)"
proof (induction es arbitrary: acc)
  case (Cons c cs)
  consider "c = [] \<or> c = ''.''" | "c = ''..''" "acc = []"
    | a as where "c = ''..''" "acc = a # as" | "normal_elem c"
    using Cons.prems(2) by (cases acc) (auto simp: normal_elem_def)
  then show ?case
  proof cases
    case 2
    have "dotdots_then_normal (rev [''..''])"
      unfolding dotdots_then_normal_def by (rule exI [of _ 1], rule exI [of _ "[]"]) simp
    with 2 Cons show ?thesis by simp
  next
    case (3 a as)
    then show ?thesis
      using Cons dotdots_snoc_dotdot dotdots_butlast by (cases "a = ''..''") auto
  next
    case 4
    then show ?thesis
      using Cons dotdots_Cons_normal by (auto simp: normal_elem_def)
  qed (use Cons in auto)
qed simp

lemma isAbs_sep [simp]: "isAbs (sep # s)" and isAbs_Nil [simp]: "\<not> isAbs []"
  by (simp_all add: isAbs_def)

lemma split_on_sep_rooted: "split_on sep (sep # s) = [] # split_on sep s"
  by simp

lemma normal_elems_split:
  "es \<noteq> [] \<Longrightarrow> \<forall>e \<in> set es. normal_elem e \<Longrightarrow> split_on sep (join_with sep es) = es"
  by (rule split_join) (auto simp: normal_elem_def)

lemma join_with_ne:
  "es \<noteq> [] \<Longrightarrow> \<forall>e \<in> set es. normal_elem e \<Longrightarrow>
     join_with c es \<noteq> [] \<and> hd (join_with c es) = hd (hd es)"
  by (cases "(c, es)" rule: join_with.cases) (auto simp: normal_elem_def)

lemma isAbs_join_normal:
  "es \<noteq> [] \<Longrightarrow> \<forall>e \<in> set es. normal_elem e \<Longrightarrow> \<not> isAbs (join_with sep es)"
  using join_with_ne [of es sep]
  by (cases es; cases "hd es") (auto simp: isAbs_def normal_elem_def)

lemma clean_abs_join:
  assumes "\<forall>e \<in> set es. normal_elem e"
  shows "clean (sep # join_with sep es) = sep # join_with sep es"
proof (cases "es = []")
  case True
  then show ?thesis by (simp add: clean_def)
next
  case False
  with assms have "split_on sep (sep # join_with sep es) = [] # es"
    by (simp add: normal_elems_split)
  with assms show ?thesis by (simp add: clean_def clean_elems_normal Let_def)
qed

lemma clean_rel_join:
  assumes "es \<noteq> []" "\<forall>e \<in> set es. normal_elem e"
  shows "clean (join_with sep es) = join_with sep es"
  using assms join_with_ne [of es sep] isAbs_join_normal [of es]
  by (simp add: clean_def normal_elems_split clean_elems_normal Let_def)

text \<open>Joining a cleaned absolute directory with normal relative elements appends them.\<close>

lemma joinPath_abs:
  assumes "\<forall>e \<in> set ds. normal_elem e" "\<forall>e \<in> set es. normal_elem e" "es \<noteq> []"
  shows "joinPath [sep # join_with sep ds, join_with sep es] = sep # join_with sep (ds @ es)"
proof -
  have "split_on sep (sep # join_with sep ds @ sep # join_with sep es) =
          [] # split_on sep (join_with sep ds) @ es"
    by (simp add: split_on_two normal_elems_split assms)
  moreover have "clean_elems True [] (split_on sep (join_with sep ds) @ es) = ds @ es"
  proof (cases "ds = []")
    case True
    with assms show ?thesis by (simp add: clean_elems_normal)
  next
    case False
    with assms show ?thesis
      by (simp add: normal_elems_split clean_elems_append_normal clean_elems_normal)
  qed
  ultimately show ?thesis by (simp add: joinPath_def clean_def Let_def)
qed

lemma joinPath_abs_elems:
  assumes "\<forall>e \<in> set ds. normal_elem e" "\<forall>e \<in> set es. normal_elem e" "es \<noteq> []"
  shows "joinPath ((sep # join_with sep ds) # es) = sep # join_with sep (ds @ es)"
proof -
  obtain e es' where es: "es = e # es'" using assms(3) by (cases es) auto
  have "joinPath ((sep # join_with sep ds) # es) =
          joinPath [sep # join_with sep ds, join_with sep es]"
    using es by (simp add: joinPath_def)
  then show ?thesis using joinPath_abs [OF assms] by simp
qed

text \<open>A cleaned absolute directory, the shape \<open>toAbsPath\<close> gives every store directory.\<close>

definition abs_clean :: "path \<Rightarrow> bool" where
  "abs_clean d = (isAbs d \<and> clean d = d)"

lemma clean_abs_shape:
  assumes "isAbs p"
  shows "\<exists>ds. (\<forall>e \<in> set ds. normal_elem e) \<and> clean p = sep # join_with sep ds"
proof -
  have "\<forall>e \<in> set (clean_elems True [] (split_on sep p)). normal_elem e"
    by (rule clean_elems_rooted) (auto dest: split_on_parts)
  moreover have "p \<noteq> []" using assms by (auto simp: isAbs_def)
  ultimately show ?thesis using assms by (auto simp: clean_def Let_def)
qed

lemma abs_cleanE:
  assumes "abs_clean d"
  obtains ds where "\<forall>e \<in> set ds. normal_elem e" "d = sep # join_with sep ds"
  using assms clean_abs_shape [of d] by (auto simp: abs_clean_def)

lemma abs_clean_clean: "isAbs p \<Longrightarrow> abs_clean (clean p)"
  using clean_abs_shape [of p] clean_abs_join by (auto simp: abs_clean_def)

lemma join_normal_inj:
  assumes "\<forall>e \<in> set xs. normal_elem e" "\<forall>e \<in> set ys. normal_elem e"
    and "join_with sep xs = join_with sep ys"
  shows "xs = ys"
proof (cases "xs = [] \<or> ys = []")
  case True
  with assms join_with_ne [of xs sep] join_with_ne [of ys sep] show ?thesis
    by (metis join_with.simps(1))
next
  case False
  with assms show ?thesis by (metis normal_elems_split)
qed

lemma joinPath_abs_inj:
  assumes "abs_clean d" "\<forall>e \<in> set es. normal_elem e" "\<forall>e \<in> set fs. normal_elem e"
    and "es \<noteq> []" "fs \<noteq> []" and eq: "joinPath (d # es) = joinPath (d # fs)"
  shows "es = fs"
proof -
  obtain ds where ds: "\<forall>e \<in> set ds. normal_elem e" "d = sep # join_with sep ds"
    using assms(1) by (rule abs_cleanE)
  then have "join_with sep (ds @ es) = join_with sep (ds @ fs)"
    using eq joinPath_abs_elems [OF ds(1)] assms by simp
  then have "ds @ es = ds @ fs"
    by (rule join_normal_inj [rotated 2]) (use ds assms in auto)
  then show ?thesis by simp
qed

section \<open>Lemmas on QueryEscape and decimals\<close>

lemma hexdigit_inj: "m < 16 \<Longrightarrow> n < 16 \<Longrightarrow> hexdigit m = hexdigit n \<Longrightarrow> m = n"
  by (auto simp: hexdigit_def split: if_splits dest: arg_cong [where f = "of_char :: char \<Rightarrow> nat"])

lemma escape_char_nonempty [simp]: "escape_char c \<noteq> []"
  by (simp add: escape_char_def)

text \<open>The escape of a character can be read back from the front of any string it starts.\<close>

lemma escape_char_prefix:
  assumes "escape_char c @ s = escape_char d @ t"
  shows "c = d \<and> s = t"
proof -
  have bound: "(of_char x :: nat) div 16 < 16" "(of_char x :: nat) mod 16 < 16" for x :: char
    using nat_of_char_less_256 [of x] by (simp_all add: less_mult_imp_div_less)
  have split: "(of_char x :: nat) = 16 * (of_char x div 16) + of_char x mod 16" for x :: char
    by simp
  have eq: "c = d" if "hexdigit (of_char c div 16) = hexdigit (of_char d div 16)"
    "hexdigit (of_char c mod 16) = hexdigit (of_char d mod 16)"
  proof -
    have "(of_char c :: nat) = of_char d"
      using split [of c] split [of d] hexdigit_inj [OF bound(1) bound(1) that(1)]
        hexdigit_inj [OF bound(2) bound(2) that(2)] by simp
    then show ?thesis by simp
  qed
  have n: "\<not> is_alnum (CHR ''%'')" "\<not> is_alnum (CHR ''+'')" "\<not> is_alnum (CHR '' '')"
    by (simp_all add: is_alnum_def)
  from assms show ?thesis
    unfolding escape_char_def by (auto simp: n split: if_splits intro: eq)
qed

lemma queryEscape_inj: "queryEscape s = queryEscape t \<Longrightarrow> s = t"
proof (induction s arbitrary: t)
  case Nil
  then show ?case by (cases t) (auto simp: queryEscape_def)
next
  case (Cons c s)
  then obtain d t' where t: "t = d # t'"
    by (cases t) (auto simp: queryEscape_def)
  with Cons.prems have "escape_char c @ queryEscape s = escape_char d @ queryEscape t'"
    by (simp add: queryEscape_def)
  then have "c = d" "queryEscape s = queryEscape t'"
    by (auto dest: escape_char_prefix)
  with Cons.IH t show ?case by simp
qed

lemma hexdigit_alnum: "n < 16 \<Longrightarrow> is_alnum (hexdigit n)"
  by (auto simp: hexdigit_def is_alnum_def Let_def)

lemma queryEscape_no_sep: "sep \<notin> set (queryEscape s)"
proof -
  have sep: "\<not> is_alnum sep" "sep \<noteq> CHR ''-''" "sep \<noteq> CHR ''_''" "sep \<noteq> CHR ''.''"
    "sep \<noteq> CHR ''~''" "sep \<noteq> CHR ''+''" "sep \<noteq> CHR ''%''"
    by (simp_all add: sep_def is_alnum_def)
  have "sep \<notin> set (escape_char c)" for c
  proof -
    have "is_alnum (hexdigit (of_char c div 16))" "is_alnum (hexdigit (of_char c mod 16))"
      using nat_of_char_less_256 [of c]
      by (simp_all add: hexdigit_alnum less_mult_imp_div_less)
    then show ?thesis using sep by (auto simp: escape_char_def)
  qed
  then show ?thesis by (simp add: queryEscape_def)
qed

lemma digit_value: "d < 10 \<Longrightarrow> (of_char (digit_char d) :: nat) = 0x30 + d"
  by (simp add: digit_char_def)

lemma undec_snoc: "undec (s @ [c]) = 10 * undec s + (of_char c - 0x30)"
  by (simp add: undec_def)

lemma undec_dec: "undec (dec n) = n"
proof (induction n rule: dec.induct)
  case (1 n)
  show ?case
  proof (cases "n < 10")
    case True
    then have "dec n = [digit_char n]" by (subst dec.simps) simp
    with True show ?thesis by (simp add: undec_def digit_value)
  next
    case False
    then have "dec n = dec (n div 10) @ [digit_char (n mod 10)]" by (subst dec.simps) simp
    with 1 False show ?thesis by (simp add: undec_snoc digit_value)
  qed
qed

lemma dec_digits: "c \<in> set (dec n) \<Longrightarrow> is_digit c"
proof (induction n rule: dec.induct)
  case (1 n)
  then show ?case
    by (subst (asm) dec.simps) (auto simp: is_digit_def digit_value split: if_splits)
qed

lemma dec_nonempty [simp]: "dec n \<noteq> []"
  by (subst dec.simps) simp

end
