(* ===== verification/Manifest.thy ===== *)
theory Manifest
  imports Go_Lib
begin

text \<open>
  The manifest layer of the native cache store (\<open>internal/gocache/store.go\<close>): which relative
  object paths are accepted (\<open>cleanRelativePath\<close>), where the manifest of a commit, of a pull
  request (changes-id) and an upload session live on disk, and the text format of a manifest
  body: how it is printed (\<open>joinManifestBody\<close>), read back and deduplicated (\<open>loadManifest\<close>,
  \<open>readManifestPaths\<close>) and merged (\<open>unionManifestPaths\<close>). These are pure functions; the store
  operations that read and write the files are in \<open>Gocache_Store\<close>.
\<close>

section \<open>Relative object paths\<close>

definition cleanRelativePath :: "path \<Rightarrow> path result" where
  "cleanRelativePath p =
     (let path = trimSpace p in
      if path = [] then Inl (ErrMsg ''empty path'')
      else if isAbs path then Inl (ErrMsg ''absolute path is not allowed'')
      else (let cleaned = clean path in
        if cleaned = ''.'' \<or> cleaned = [] then Inl (ErrMsg ''invalid path'')
        else if cleaned = ''..'' \<or> prefix (''..'' @ [sep]) cleaned
             then Inl (ErrMsg ''path escapes cache root'')
        else Inr cleaned))"

section \<open>Manifest and upload-session paths\<close>

definition validScopedKeyName :: "string \<Rightarrow> bool" where
  "validScopedKeyName s =
     (s \<noteq> [] \<and> is_alnum (hd s) \<and>
      list_all (\<lambda>c. is_alnum c \<or> c = CHR ''.'' \<or> c = CHR ''_'' \<or> c = CHR ''-'') (tl s))"

definition maxManifestKeyLen :: nat where "maxManifestKeyLen = 100"

definition manifestExt :: string where "manifestExt = ''.zst''"

definition manifestPrefixLen :: nat where "manifestPrefixLen = 1"

definition manifestScopeDir :: "string \<Rightarrow> string result" where
  "manifestScopeDir buildType0 =
     (let buildType = trimSpace buildType0 in
      if buildType = [] then Inr ''default''
      else if maxManifestKeyLen < length buildType then Inl (ErrMsg ''build-type too long'')
      else if \<not> validScopedKeyName buildType then Inl (ErrMsg ''invalid build-type'')
      else Inr (''buildtype-'' @ buildType))"

definition commitManifestPath :: "path \<Rightarrow> string \<Rightarrow> string \<Rightarrow> path result" where
  "commitManifestPath dir commit0 buildType =
     (let commit = trimSpace commit0 in
      if maxManifestKeyLen < length commit then Inl (ErrMsg ''commit too long'')
      else if \<not> validScopedKeyName commit then Inl (ErrMsg ''invalid commit'')
      else (let pre = (if manifestPrefixLen < length commit then take manifestPrefixLen commit
                       else commit) in
        case manifestScopeDir buildType of
          Inl e \<Rightarrow> Inl e
        | Inr scopeDir \<Rightarrow>
            Inr (joinPath [dir, ''manifests'', scopeDir, pre, commit @ manifestExt])))"

definition changesManifestPath :: "path \<Rightarrow> string \<Rightarrow> string \<Rightarrow> path result" where
  "changesManifestPath dir changesID0 buildType =
     (let changesID = trimSpace changesID0 in
      if changesID = [] then Inl (ErrMsg ''invalid changes-id'')
      else if maxManifestKeyLen < length changesID then Inl (ErrMsg ''changes-id too long'')
      else (case manifestScopeDir buildType of
          Inl e \<Rightarrow> Inl e
        | Inr scopeDir \<Rightarrow>
            Inr (joinPath [dir, ''manifests'', scopeDir, ''changes'',
                           queryEscape changesID @ manifestExt])))"

definition uploadSessionPath :: "path \<Rightarrow> string \<Rightarrow> path result" where
  "uploadSessionPath dir uploadID0 =
     (let uploadID = trimSpace uploadID0 in
      if uploadID = [] then Inl (ErrMsg ''invalid upload-id'')
      else if maxManifestKeyLen < length uploadID then Inl (ErrMsg ''upload-id too long'')
      else if \<not> validScopedKeyName uploadID then Inl (ErrMsg ''invalid upload-id'')
      else (let pre = (if 2 < length uploadID then take 2 uploadID else uploadID) in
            Inr (joinPath [dir, ''uploads'', pre, uploadID])))"

definition resolveCommitManifestPath :: "path \<Rightarrow> string \<Rightarrow> string \<Rightarrow> path result" where
  "resolveCommitManifestPath dir commit buildType =
     (if trimSpace commit = [] then Inl ErrNotExist
      else commitManifestPath dir commit buildType)"

definition resolveChangesManifestPath :: "path \<Rightarrow> string \<Rightarrow> string \<Rightarrow> path result" where
  "resolveChangesManifestPath dir changesID buildType =
     (if trimSpace changesID = [] then Inl ErrNotExist
      else changesManifestPath dir changesID buildType)"

section \<open>Manifest bodies\<close>

definition joinManifestBody :: "string list \<Rightarrow> bytes" where
  "joinManifestBody paths =
     (let body = join_with nl paths in if body \<noteq> [] then body @ [nl] else body)"

text \<open>
  The loops over scanned lines. Both keep a \<open>seen\<close> set of exactly the paths appended so far, so
  the set is read off the accumulated result.
\<close>

fun loadManifest_lines :: "string list \<Rightarrow> string list \<Rightarrow> bool \<Rightarrow> string list \<times> bool" where
  "loadManifest_lines candidates [] changed = (candidates, changed)"
| "loadManifest_lines candidates (line # lines) changed =
     (let raw = trimSpace line in
      if raw = [] then loadManifest_lines candidates lines True
      else (case cleanRelativePath raw of
          Inl _ \<Rightarrow> loadManifest_lines candidates lines True
        | Inr relPath \<Rightarrow>
            if relPath \<in> set candidates then loadManifest_lines candidates lines True
            else loadManifest_lines (candidates @ [relPath]) lines changed))"

fun readManifestPaths_lines :: "string list \<Rightarrow> string list \<Rightarrow> string list" where
  "readManifestPaths_lines res [] = res"
| "readManifestPaths_lines res (line # lines) =
     (case cleanRelativePath line of
        Inl _ \<Rightarrow> readManifestPaths_lines res lines
      | Inr relPath \<Rightarrow>
          if relPath \<in> set res then readManifestPaths_lines res lines
          else readManifestPaths_lines (res @ [relPath]) lines)"

definition scanLimit :: int where "scanLimit = 10 * 1024 * 1024"

text \<open>\<open>unionManifestPaths\<close>: the inner loop over one list, then the loop over the lists.\<close>

fun union_one :: "string list \<Rightarrow> string list \<Rightarrow> string list" where
  "union_one merged [] = merged"
| "union_one merged (p # ps) =
     (let relPath = trimSpace p in
      if relPath = [] \<or> relPath \<in> set merged then union_one merged ps
      else union_one (merged @ [relPath]) ps)"

definition unionManifestPaths :: "string list list \<Rightarrow> string list" where
  "unionManifestPaths pathLists = foldl union_one [] pathLists"

section \<open>Accepted paths\<close>

text \<open>
  A relative path in normal form: every element is non-empty and neither \<open>.\<close> nor \<open>..\<close>.
\<close>

definition relative_clean :: "path \<Rightarrow> bool" where
  "relative_clean p = list_all normal_elem (split_on sep p)"

lemma relative_clean_join:
  "es \<noteq> [] \<Longrightarrow> \<forall>e \<in> set es. normal_elem e \<Longrightarrow> relative_clean (join_with sep es)"
  by (simp add: relative_clean_def normal_elems_split list_all_iff)

lemma relative_cleanE:
  assumes "relative_clean p"
  obtains es where "es \<noteq> []" "\<forall>e \<in> set es. normal_elem e" "p = join_with sep es"
  using assms join_split [of sep p] that [of "split_on sep p"]
  by (simp add: relative_clean_def list_all_iff)

lemma relative_clean_nonempty: "relative_clean p \<Longrightarrow> p \<noteq> []"
  by (auto simp: relative_clean_def normal_elem_def)

lemma relative_clean_not_abs: "relative_clean p \<Longrightarrow> \<not> isAbs p"
  by (metis relative_cleanE isAbs_join_normal)

lemma clean_relative: "relative_clean p \<Longrightarrow> clean p = p"
  by (metis relative_cleanE clean_rel_join)

lemma relative_clean_no_dots:
  assumes "relative_clean p"
  shows "p \<noteq> ''.''" "p \<noteq> ''..''" "\<not> prefix (''..'' @ [sep]) p"
proof -
  show "p \<noteq> ''.''" "p \<noteq> ''..''"
    using assms by (auto simp: relative_clean_def normal_elem_def sep_def)
  show "\<not> prefix (''..'' @ [sep]) p"
  proof
    assume "prefix (''..'' @ [sep]) p"
    then obtain t where "p = ''..'' @ sep # t" by (auto simp: prefix_def)
    then have "split_on sep p = ''..'' # split_on sep t"
      using split_on_append [of sep "''..''" t] by (simp add: sep_def)
    with assms show False by (simp add: relative_clean_def normal_elem_def)
  qed
qed

lemma cleanRelativePath_accepts:
  assumes "cleanRelativePath p = Inr q"
  shows "relative_clean q"
proof -
  let ?s = "trimSpace p" and ?es = "clean_elems False [] (split_on sep (trimSpace p))"
  from assms have s: "?s \<noteq> []" "\<not> isAbs ?s" and q: "clean ?s = q" and dot: "q \<noteq> ''.''"
    and dd: "q \<noteq> ''..''" "\<not> prefix (''..'' @ [sep]) q"
    by (auto simp: cleanRelativePath_def Let_def split: if_splits)
  from q s dot have es: "?es \<noteq> []" "q = join_with sep ?es"
    by (auto simp: clean_def Let_def split: if_splits)
  have "dotdots_then_normal ?es"
    by (rule clean_elems_relative) (auto simp: dotdots_then_normal_def dest: split_on_parts)
  then obtain n ns where n: "?es = replicate n ''..'' @ ns" "\<forall>e \<in> set ns. normal_elem e"
    by (auto simp: dotdots_then_normal_def)
  have "n = 0"
  proof (rule ccontr)
    assume "n \<noteq> 0"
    then obtain rest where r: "?es = ''..'' # rest" using n by (cases n) auto
    show False
    proof (cases rest)
      case Nil
      with r es dd show False by simp
    next
      case (Cons a list)
      with r es have "q = (''..'' @ [sep]) @ join_with sep rest" by simp
      with dd(2) show False by (metis prefixI)
    qed
  qed
  with n es show ?thesis by (simp add: relative_clean_join)
qed

text \<open>
  Claim C24. Whatever string a client sends, a path that \<open>cleanRelativePath\<close> accepts is in normal
  form: it is not empty, not absolute, and no element of it is empty, \<open>.\<close> or \<open>..\<close>, so it cannot
  leave the directory it is joined to.
\<close>

theorem cleanRelativePath_safe:
  assumes "cleanRelativePath p = Inr q"
  shows "relative_clean q"
  using assms by (rule cleanRelativePath_accepts)

text \<open>Witness of C1: a path with \<open>.\<close>, \<open>..\<close> and a doubled slash is accepted, cleaned.\<close>

theorem cleanRelativePath_safe_witness:
  "cleanRelativePath ''ab/./x//../1f-d'' = Inr ''ab/1f-d'' \<and> relative_clean ''ab/1f-d''"
proof -
  have "cleanRelativePath ''ab/./x//../1f-d'' = Inr ''ab/1f-d''"
    by code_simp
  with cleanRelativePath_safe show ?thesis by blast
qed

lemma cleanRelativePath_fixed:
  assumes "relative_clean p" "trimmed p"
  shows "cleanRelativePath p = Inr p"
  using assms relative_clean_nonempty relative_clean_not_abs clean_relative
    relative_clean_no_dots trimSpace_trimmed
  by (simp add: cleanRelativePath_def)

section \<open>Printing and reading a manifest\<close>

text \<open>
  The paths a manifest line can carry: in normal form, with no white space at either end, no
  newline inside and shorter than the scanner's token limit.
\<close>

definition manifest_path :: "path \<Rightarrow> bool" where
  "manifest_path p = (relative_clean p \<and> trimmed p \<and> nl \<notin> set p \<and> int (length p) < scanLimit)"

lemma trimmed_drop_cr: "trimmed p \<Longrightarrow> drop_cr p = p"
proof -
  assume "trimmed p"
  moreover have "[CHR 0x0D] \<in> set space_seqs" by (simp add: space_seqs_def)
  ultimately have "\<not> prefix (rev [CHR 0x0D]) (rev p)" unfolding trimmed_def by blast
  then show ?thesis
    by (cases p rule: rev_cases) (auto simp: drop_cr_def)
qed

lemma joinManifestBody_lines:
  assumes "\<forall>p \<in> set ps. p \<noteq> []"
  shows "joinManifestBody ps = concat (map (\<lambda>l. l @ [nl]) ps)"
proof (cases "ps = []")
  case False
  then have "join_with nl ps \<noteq> []"
    using assms by (cases "(nl, ps)" rule: join_with.cases) auto
  with False show ?thesis by (simp add: joinManifestBody_def join_with_nl)
qed (simp add: joinManifestBody_def)

lemma scan_joinManifestBody:
  assumes "\<forall>p \<in> set ps. manifest_path p"
  shows "scan_lines scanLimit (joinManifestBody ps) = Inr ps"
proof -
  have "raw_lines (joinManifestBody ps) = ps"
    using assms relative_clean_nonempty
    by (simp add: joinManifestBody_lines raw_lines_concat manifest_path_def)
  moreover have "map drop_cr ps = ps"
    using assms trimmed_drop_cr by (auto simp: manifest_path_def intro: map_idI)
  moreover have "\<not> (\<exists>l \<in> set ps. scanLimit \<le> int (length l))"
    using assms by (auto simp: manifest_path_def)
  ultimately show ?thesis by (simp add: scan_lines_def)
qed

lemma loadManifest_lines_clean:
  "\<forall>p \<in> set ps. manifest_path p \<Longrightarrow> distinct (cs @ ps) \<Longrightarrow>
     loadManifest_lines cs ps b = (cs @ ps, b)"
  using relative_clean_nonempty
  by (induction ps arbitrary: cs)
     (auto simp: Let_def manifest_path_def trimSpace_trimmed cleanRelativePath_fixed)

lemma readManifestPaths_lines_clean:
  "\<forall>p \<in> set ps. manifest_path p \<Longrightarrow> distinct (cs @ ps) \<Longrightarrow>
     readManifestPaths_lines cs ps = cs @ ps"
  by (induction ps arbitrary: cs) (auto simp: manifest_path_def cleanRelativePath_fixed)

text \<open>
  Claim C25. Printing a list of distinct manifest paths with \<open>joinManifestBody\<close> and scanning it
  back gives exactly that list: \<open>loadManifest\<close>'s loop finds nothing to heal (\<open>changed\<close> stays
  false) and \<open>readManifestPaths\<close>' loop agrees with it.
\<close>

theorem manifest_body_roundtrip:
  assumes "\<forall>p \<in> set ps. manifest_path p" "distinct ps"
  shows "\<exists>ls. scan_lines scanLimit (joinManifestBody ps) = Inr ls \<and>
    loadManifest_lines [] ls False = (ps, False) \<and> readManifestPaths_lines [] ls = ps"
  using scan_joinManifestBody [OF assms(1)] loadManifest_lines_clean [of ps "[]" False]
    readManifestPaths_lines_clean [of ps "[]"] assms by simp

theorem manifest_body_roundtrip_witness:
  "\<exists>ls. scan_lines scanLimit (joinManifestBody [''00/a-a'', ''1f/b-d'']) = Inr ls \<and>
    loadManifest_lines [] ls False = ([''00/a-a'', ''1f/b-d''], False) \<and>
    readManifestPaths_lines [] ls = [''00/a-a'', ''1f/b-d'']"
proof -
  have 1: "\<forall>p \<in> set [''00/a-a'', ''1f/b-d'']. manifest_path p"
    by (simp add: manifest_path_def relative_clean_def normal_elem_def sep_def nl_def
        scanLimit_def trimmed_alnum_ends is_alnum_def)
  have 2: "distinct [''00/a-a'', ''1f/b-d'']" by simp
  show ?thesis by (rule manifest_body_roundtrip [OF 1 2])
qed

text \<open>Whatever the lines are, the loop yields distinct accepted paths.\<close>

lemma loadManifest_lines_sound:
  assumes "loadManifest_lines cs ls b = (ps, b')" "distinct cs" "\<forall>c \<in> set cs. relative_clean c"
  shows "distinct ps \<and> (\<forall>p \<in> set ps. relative_clean p)"
  using assms
proof (induction cs ls b rule: loadManifest_lines.induct)
  case (2 cs l ls b)
  show ?case
  proof (cases "cleanRelativePath (trimSpace l)")
    case (Inl e)
    with 2 show ?thesis by (auto simp: Let_def split: if_splits)
  next
    case (Inr q)
    then have "relative_clean q" by (rule cleanRelativePath_accepts)
    with Inr 2 show ?thesis by (auto simp: Let_def split: if_splits)
  qed
qed simp

section \<open>Merging manifests\<close>

lemma union_one_prefix: "\<exists>rest. union_one m ps = m @ rest"
  by (induction m ps rule: union_one.induct) (auto simp: Let_def)

lemma union_one_distinct: "distinct m \<Longrightarrow> distinct (union_one m ps)"
  by (induction m ps rule: union_one.induct) (auto simp: Let_def)

lemma union_one_set: "set (union_one m ps) = set m \<union> (trimSpace ` set ps - {[]})"
  by (induction m ps rule: union_one.induct) (auto simp: Let_def)

lemma union_one_trimmed:
  "\<forall>p \<in> set ps. trimSpace p = p \<and> p \<noteq> [] \<Longrightarrow> distinct (m @ ps) \<Longrightarrow> union_one m ps = m @ ps"
  by (induction m ps rule: union_one.induct) (auto simp: Let_def)

text \<open>
  Merging saved paths into an existing manifest loses nothing and invents nothing: the
  merged list has no duplicates, contains exactly the non-blank (trimmed) entries of both lists,
  and keeps the existing manifest, when it is already deduplicated and trimmed, as its prefix.
\<close>

theorem unionManifestPaths_merge:
  assumes "distinct existing" "\<forall>p \<in> set existing. trimSpace p = p \<and> p \<noteq> []"
  shows "distinct (unionManifestPaths [existing, paths]) \<and>
    set (unionManifestPaths [existing, paths]) = set existing \<union> (trimSpace ` set paths - {[]}) \<and>
    prefix existing (unionManifestPaths [existing, paths])"
proof -
  have "union_one [] existing = existing"
    using assms union_one_trimmed [of existing "[]"] by simp
  then show ?thesis
    using union_one_prefix [of existing paths] union_one_set [of existing paths]
      union_one_distinct [OF assms(1), of paths]
    by (auto simp: unionManifestPaths_def)
qed

theorem unionManifestPaths_merge_witness:
  "distinct (unionManifestPaths [[''00/a''], ['' 1f/b '', ''00/a'', []]]) \<and>
    set (unionManifestPaths [[''00/a''], ['' 1f/b '', ''00/a'', []]]) =
      set [''00/a''] \<union> (trimSpace ` set ['' 1f/b '', ''00/a'', []] - {[]}) \<and>
    prefix [''00/a''] (unionManifestPaths [[''00/a''], ['' 1f/b '', ''00/a'', []]])"
proof -
  have 1: "distinct [''00/a'']" by simp
  have 2: "\<forall>p \<in> set [''00/a'']. trimSpace p = p \<and> p \<noteq> []"
    by (simp add: trimSpace_trimmed trimmed_alnum_ends is_alnum_def)
  show ?thesis by (rule unionManifestPaths_merge [OF 1 2])
qed

section \<open>Manifest locations\<close>

lemma validScopedKeyName_normal:
  assumes "validScopedKeyName k"
  shows "normal_elem k"
proof -
  obtain c cs where k: "k = c # cs" "is_alnum c"
    using assms by (cases k) (auto simp: validScopedKeyName_def)
  have "\<not> is_alnum sep" by (simp add: is_alnum_def sep_def)
  moreover have "sep \<noteq> CHR ''.''" "sep \<noteq> CHR ''_''" "sep \<noteq> CHR ''-''" by (simp_all add: sep_def)
  ultimately have "sep \<notin> set k"
    using assms k by (auto simp: validScopedKeyName_def list_all_iff)
  moreover have "c \<noteq> CHR ''.''" using k by (auto simp: is_alnum_def)
  ultimately show ?thesis using k by (auto simp: normal_elem_def)
qed

lemma normal_ext: "sep \<notin> set k \<Longrightarrow> normal_elem (k @ manifestExt)"
  by (auto simp: normal_elem_def manifestExt_def sep_def append_eq_Cons_conv)

lemma normal_prefix_key:
  "validScopedKeyName k \<Longrightarrow>
     normal_elem (if manifestPrefixLen < length k then take manifestPrefixLen k else k)"
  using validScopedKeyName_normal [of k]
  by (cases k) (auto simp: manifestPrefixLen_def validScopedKeyName_def normal_elem_def is_alnum_def)

lemma manifestScopeDir_normal: "manifestScopeDir bt = Inr sc \<Longrightarrow> normal_elem sc"
  using validScopedKeyName_normal [of "trimSpace bt"]
  by (auto simp: manifestScopeDir_def Let_def normal_elem_def sep_def split: if_splits)

lemma manifestScopeDir_inj:
  "manifestScopeDir bt = Inr sc \<Longrightarrow> manifestScopeDir bt' = Inr sc \<Longrightarrow> trimSpace bt = trimSpace bt'"
  by (auto simp: manifestScopeDir_def Let_def split: if_splits)

text \<open>The path elements a manifest path is made of.\<close>

definition commit_elems :: "string \<Rightarrow> string \<Rightarrow> string list" where
  "commit_elems sc k =
     [''manifests'', sc, (if manifestPrefixLen < length k then take manifestPrefixLen k else k),
      k @ manifestExt]"

definition changes_elems :: "string \<Rightarrow> string \<Rightarrow> string list" where
  "changes_elems sc k = [''manifests'', sc, ''changes'', queryEscape k @ manifestExt]"

lemma commitManifestPath_elems:
  assumes "commitManifestPath dir c bt = Inr p"
  obtains sc where "manifestScopeDir bt = Inr sc" "p = joinPath (dir # commit_elems sc (trimSpace c))"
    "\<forall>e \<in> set (commit_elems sc (trimSpace c)). normal_elem e" "validScopedKeyName (trimSpace c)"
proof -
  from assms obtain sc where sc: "manifestScopeDir bt = Inr sc"
    "p = joinPath (dir # commit_elems sc (trimSpace c))" and v: "validScopedKeyName (trimSpace c)"
    by (auto simp: commitManifestPath_def commit_elems_def Let_def split: if_splits sum.splits)
  have "normal_elem ''manifests''" by (simp add: normal_elem_def sep_def)
  then have "\<forall>e \<in> set (commit_elems sc (trimSpace c)). normal_elem e"
    using v manifestScopeDir_normal [OF sc(1)] normal_prefix_key [OF v]
      validScopedKeyName_normal [OF v] normal_ext [of "trimSpace c"]
    by (simp add: commit_elems_def normal_elem_def)
  with sc v that show ?thesis by blast
qed

lemma changesManifestPath_elems:
  assumes "changesManifestPath dir c bt = Inr p"
  obtains sc where "manifestScopeDir bt = Inr sc" "p = joinPath (dir # changes_elems sc (trimSpace c))"
    "\<forall>e \<in> set (changes_elems sc (trimSpace c)). normal_elem e"
proof -
  from assms obtain sc where sc: "manifestScopeDir bt = Inr sc"
    "p = joinPath (dir # changes_elems sc (trimSpace c))"
    by (auto simp: changesManifestPath_def changes_elems_def Let_def split: if_splits sum.splits)
  have "normal_elem ''manifests''" "normal_elem ''changes''"
    by (simp_all add: normal_elem_def sep_def)
  then have "\<forall>e \<in> set (changes_elems sc (trimSpace c)). normal_elem e"
    using manifestScopeDir_normal [OF sc(1)] normal_ext [OF queryEscape_no_sep]
    by (simp add: changes_elems_def)
  with sc that show ?thesis by blast
qed

lemma commit_paths_inj:
  assumes dir: "abs_clean dir"
    and "commitManifestPath dir c bt = Inr p" "commitManifestPath dir c' bt' = Inr p"
  shows "trimSpace c = trimSpace c' \<and> trimSpace bt = trimSpace bt'"
proof -
  obtain sc where 1: "manifestScopeDir bt = Inr sc"
    "p = joinPath (dir # commit_elems sc (trimSpace c))"
    "\<forall>e \<in> set (commit_elems sc (trimSpace c)). normal_elem e"
    using assms(2) by (rule commitManifestPath_elems)
  obtain sc' where 2: "manifestScopeDir bt' = Inr sc'"
    "p = joinPath (dir # commit_elems sc' (trimSpace c'))"
    "\<forall>e \<in> set (commit_elems sc' (trimSpace c')). normal_elem e"
    using assms(3) by (rule commitManifestPath_elems)
  have "commit_elems sc (trimSpace c) = commit_elems sc' (trimSpace c')"
    by (rule joinPath_abs_inj [OF dir]) (use 1 2 in \<open>auto simp: commit_elems_def\<close>)
  then have "sc = sc'" "trimSpace c = trimSpace c'" by (auto simp: commit_elems_def)
  with 1(1) 2(1) manifestScopeDir_inj [of bt sc bt'] show ?thesis by blast
qed

lemma changes_paths_inj:
  assumes dir: "abs_clean dir"
    and "changesManifestPath dir c bt = Inr p" "changesManifestPath dir c' bt' = Inr p"
  shows "trimSpace c = trimSpace c' \<and> trimSpace bt = trimSpace bt'"
proof -
  obtain sc where 1: "manifestScopeDir bt = Inr sc"
    "p = joinPath (dir # changes_elems sc (trimSpace c))"
    "\<forall>e \<in> set (changes_elems sc (trimSpace c)). normal_elem e"
    using assms(2) by (rule changesManifestPath_elems)
  obtain sc' where 2: "manifestScopeDir bt' = Inr sc'"
    "p = joinPath (dir # changes_elems sc' (trimSpace c'))"
    "\<forall>e \<in> set (changes_elems sc' (trimSpace c')). normal_elem e"
    using assms(3) by (rule changesManifestPath_elems)
  have "changes_elems sc (trimSpace c) = changes_elems sc' (trimSpace c')"
    by (rule joinPath_abs_inj [OF dir]) (use 1 2 in \<open>auto simp: changes_elems_def\<close>)
  then have "sc = sc'" "queryEscape (trimSpace c) = queryEscape (trimSpace c')"
    by (auto simp: changes_elems_def)
  with 1(1) 2(1) manifestScopeDir_inj [of bt sc bt'] queryEscape_inj show ?thesis by blast
qed

lemma commit_changes_disjoint:
  assumes dir: "abs_clean dir"
    and "commitManifestPath dir c bt = Inr p" "changesManifestPath dir c' bt' = Inr p"
  shows False
proof -
  obtain sc where 1: "p = joinPath (dir # commit_elems sc (trimSpace c))"
    "\<forall>e \<in> set (commit_elems sc (trimSpace c)). normal_elem e"
    using assms(2) by (rule commitManifestPath_elems)
  obtain sc' where 2: "p = joinPath (dir # changes_elems sc' (trimSpace c'))"
    "\<forall>e \<in> set (changes_elems sc' (trimSpace c')). normal_elem e"
    using assms(3) by (rule changesManifestPath_elems)
  have "commit_elems sc (trimSpace c) = changes_elems sc' (trimSpace c')"
    by (rule joinPath_abs_inj [OF dir]) (use 1 2 in \<open>auto simp: commit_elems_def changes_elems_def\<close>)
  then have "length (if manifestPrefixLen < length (trimSpace c)
      then take manifestPrefixLen (trimSpace c) else trimSpace c) = length ''changes''"
    by (simp only: commit_elems_def changes_elems_def list.inject)
  then show False by (auto simp: manifestPrefixLen_def split: if_splits)
qed

text \<open>
  No two scopes share a manifest file: in one store directory, two commit keys (or two
  changes-ids) that resolve to the same path have the same trimmed key and the same trimmed build
  type, and a commit manifest never coincides with a changes manifest.
\<close>

theorem manifest_paths_distinct:
  assumes dir: "abs_clean dir"
  shows "(commitManifestPath dir c bt = Inr p \<and> commitManifestPath dir c' bt' = Inr p
          \<longrightarrow> trimSpace c = trimSpace c' \<and> trimSpace bt = trimSpace bt')
    \<and> (changesManifestPath dir c bt = Inr p \<and> changesManifestPath dir c' bt' = Inr p
          \<longrightarrow> trimSpace c = trimSpace c' \<and> trimSpace bt = trimSpace bt')
    \<and> \<not> (commitManifestPath dir c bt = Inr p \<and> changesManifestPath dir c' bt' = Inr p)"
  by (intro conjI impI notI)
    (blast dest: commit_paths_inj [OF dir] changes_paths_inj [OF dir] commit_changes_disjoint [OF dir])+

theorem manifest_paths_distinct_witness:
  "abs_clean ''/srv/cache'' \<and>
   commitManifestPath ''/srv/cache'' '' 1f2e '' ''unit'' =
     Inr ''/srv/cache/manifests/buildtype-unit/1/1f2e.zst'' \<and>
   trimSpace '' 1f2e '' = trimSpace ''1f2e'' \<and>
   changesManifestPath ''/srv/cache'' ''o/r#7'' ''unit'' \<noteq>
     Inr ''/srv/cache/manifests/buildtype-unit/1/1f2e.zst''"
proof -
  have dir: "abs_clean ''/srv/cache''" by code_simp
  have 1: "commitManifestPath ''/srv/cache'' '' 1f2e '' ''unit'' =
      Inr ''/srv/cache/manifests/buildtype-unit/1/1f2e.zst''" by code_simp
  have 2: "commitManifestPath ''/srv/cache'' ''1f2e'' ''unit'' =
      Inr ''/srv/cache/manifests/buildtype-unit/1/1f2e.zst''" by code_simp
  from manifest_paths_distinct [OF dir] 1 2 dir show ?thesis by blast
qed

text \<open>
  \<open>cleanRelativePath\<close> trims before it cleans, so its result need not be a fixed point:
  the path \<open>./ a\<close> is accepted as \<open> a\<close> (with a leading blank), which the manifest reader then
  reads back as \<open>a\<close>. An object saved under such a path is listed in the manifest under a key the
  index does not have.
\<close>

theorem cleanRelativePath_not_idempotent:
  "cleanRelativePath ''./ a'' = Inr '' a'' \<and> cleanRelativePath '' a'' = Inr ''a'' \<and>
   readManifestPaths_lines [] (raw_lines (joinManifestBody ['' a''])) = [''a'']"
  by code_simp

end
