(* ===== verification/Eviction_Heap.thy ===== *)
theory Eviction_Heap
  imports Prelude
begin

text \<open>
  The eviction order and the eviction heap (\<open>internal/gocache/eviction_heap.go\<close>, and
  \<open>moreEvictable\<close> of \<open>internal/gocache/store.go\<close>), with the sift-up and sift-down loops of Go's
  \<open>container/heap\<close> on which the heap type runs. A comparison divides by the bucket's microseconds
  and so can panic; the heap operations pass the panic on.

  The locale \<open>ordered_less\<close> states what the loops need of the comparison: it answers by comparing
  keys of a linear order. It is interpreted on \<open>heapLess\<close> for the buckets that do not panic.
\<close>

section \<open>The order\<close>

record evictionHeapEntry =
  he_path :: string
  he_size :: int
  he_modTimeMicro :: int

record evictionHeap =
  items :: "evictionHeapEntry list"
  bucket :: int \<comment> \<open>a \<open>time.Duration\<close>, in nanoseconds\<close>

definition newEvictionHeap :: "int \<Rightarrow> evictionHeap" where
  "newEvictionHeap b = \<lparr>items = [], bucket = b\<rparr>"

definition moreEvictable :: "int \<Rightarrow> int \<Rightarrow> int \<Rightarrow> int \<Rightarrow> int \<Rightarrow> bool result" where
  "moreEvictable modA sizeA modB sizeB b =
     (if b \<le> 0 then Inr (modA < modB)
      else (let bucketMicro = b sdiv 1000 in
        if bucketMicro = 0 then Inl (ErrPanic ''integer divide by zero'')
        else (let bucketA = modA sdiv bucketMicro; bucketB = modB sdiv bucketMicro in
          if bucketA \<noteq> bucketB then Inr (bucketA < bucketB) else Inr (sizeB < sizeA))))"

definition heapLess :: "int \<Rightarrow> evictionHeapEntry \<Rightarrow> evictionHeapEntry \<Rightarrow> bool result" where
  "heapLess b x y =
     moreEvictable (he_modTimeMicro x) (he_size x) (he_modTimeMicro y) (he_size y) b"

section \<open>The loops of \<open>container/heap\<close>\<close>

definition swap :: "nat \<Rightarrow> nat \<Rightarrow> 'a list \<Rightarrow> 'a list" where
  "swap i j xs = xs[i := xs ! j, j := xs ! i]"

function heap_up :: "('a \<Rightarrow> 'a \<Rightarrow> bool result) \<Rightarrow> 'a list \<Rightarrow> nat \<Rightarrow> 'a list result" where
  "heap_up cmp xs j =
     (let i = (j - 1) div 2 in
      if i = j then Inr xs
      else (case cmp (xs ! j) (xs ! i) of
          Inl e \<Rightarrow> Inl e
        | Inr b \<Rightarrow> (if b then heap_up cmp (swap i j xs) i else Inr xs)))"
  by pat_completeness auto
termination
  by (relation "measure (\<lambda>(cmp, xs, j). j)") auto

function heap_down :: "('a \<Rightarrow> 'a \<Rightarrow> bool result) \<Rightarrow> 'a list \<Rightarrow> nat \<Rightarrow> nat \<Rightarrow> 'a list result" where
  "heap_down cmp xs i n =
     (let j1 = 2 * i + 1 in
      if n \<le> j1 then Inr xs
      else (case (if j1 + 1 < n then cmp (xs ! (j1 + 1)) (xs ! j1) else Inr False) of
          Inl e \<Rightarrow> Inl e
        | Inr right \<Rightarrow>
            (let j = (if right then j1 + 1 else j1) in
             case cmp (xs ! j) (xs ! i) of
               Inl e \<Rightarrow> Inl e
             | Inr b \<Rightarrow> (if b then heap_down cmp (swap i j xs) j n else Inr xs))))"
  by pat_completeness auto
termination
  by (relation "measure (\<lambda>(cmp, xs, i, n). n - i)") (auto split: if_splits)

declare heap_up.simps [simp del] heap_down.simps [simp del]

definition heapPush :: "evictionHeap \<Rightarrow> string \<Rightarrow> int \<Rightarrow> int \<Rightarrow> evictionHeap result" where
  "heapPush h path sz modTimeMicro =
     (let xs = items h @ [\<lparr>he_path = path, he_size = sz, he_modTimeMicro = modTimeMicro\<rparr>] in
      case heap_up (heapLess (bucket h)) xs (length xs - 1) of
        Inl e \<Rightarrow> Inl e
      | Inr ys \<Rightarrow> Inr (h\<lparr>items := ys\<rparr>))"

definition heapPop :: "evictionHeap \<Rightarrow> (evictionHeapEntry option \<times> evictionHeap) result" where
  "heapPop h =
     (if items h = [] then Inr (None, h)
      else (let n = length (items h) - 1 in
        case heap_down (heapLess (bucket h)) (swap 0 n (items h)) 0 n of
          Inl e \<Rightarrow> Inl e
        | Inr ys \<Rightarrow> Inr (Some (last ys), h\<lparr>items := butlast ys\<rparr>)))"

section \<open>Correctness of the loops over a keyed order\<close>

abbreviation parent :: "nat \<Rightarrow> nat" where
  "parent j \<equiv> (j - 1) div 2"

lemma length_swap [simp]: "length (swap i j xs) = length xs"
  by (simp add: swap_def)

lemma mset_swap_idx [simp]: "i < length xs \<Longrightarrow> j < length xs \<Longrightarrow> mset (swap i j xs) = mset xs"
  by (simp add: swap_def mset_swap)

lemma nth_swap:
  "i < length xs \<Longrightarrow> j < length xs \<Longrightarrow> k < length xs \<Longrightarrow>
     swap i j xs ! k = (if k = i then xs ! j else if k = j then xs ! i else xs ! k)"
  by (auto simp: swap_def nth_list_update)

locale ordered_less =
  fixes cmp :: "'a \<Rightarrow> 'a \<Rightarrow> bool result"
    and key :: "'a \<Rightarrow> 'k :: linorder"
  assumes less_key: "cmp x y = Inr (key x < key y)"
begin

definition heap_on :: "nat \<Rightarrow> 'a list \<Rightarrow> bool" where
  "heap_on n xs = (\<forall>k < n. 0 < k \<longrightarrow> key (xs ! parent k) \<le> key (xs ! k))"

text \<open>Heap everywhere but between \<open>i\<close> and its parent (sifting up) or children (sifting down).\<close>

definition up_inv :: "'a list \<Rightarrow> nat \<Rightarrow> bool" where
  "up_inv xs j =
     (j < length xs \<and>
      (\<forall>k < length xs. 0 < k \<longrightarrow> k \<noteq> j \<longrightarrow> key (xs ! parent k) \<le> key (xs ! k)) \<and>
      (\<forall>k < length xs. 0 < k \<longrightarrow> 0 < j \<longrightarrow> parent k = j \<longrightarrow> key (xs ! parent j) \<le> key (xs ! k)))"

definition down_inv :: "'a list \<Rightarrow> nat \<Rightarrow> nat \<Rightarrow> bool" where
  "down_inv xs i n =
     (n \<le> length xs \<and>
      (\<forall>k < n. 0 < k \<longrightarrow> parent k \<noteq> i \<longrightarrow> key (xs ! parent k) \<le> key (xs ! k)) \<and>
      (\<forall>k < n. 0 < k \<longrightarrow> 0 < i \<longrightarrow> parent k = i \<longrightarrow> key (xs ! parent i) \<le> key (xs ! k)))"

lemma up_inv_swap:
  assumes inv: "up_inv xs j" and j: "0 < j" and lt: "key (xs ! j) < key (xs ! parent j)"
  shows "up_inv (swap (parent j) j xs) (parent j)"
proof -
  let ?i = "parent j"
  have jl: "j < length xs" and il: "?i < length xs" using inv j by (auto simp: up_inv_def)
  have nth: "k < length xs \<Longrightarrow> swap ?i j xs ! k =
      (if k = ?i then xs ! j else if k = j then xs ! ?i else xs ! k)" for k
    using nth_swap [OF il jl] .
  have ord: "k < length xs \<Longrightarrow> 0 < k \<Longrightarrow> k \<noteq> j \<Longrightarrow> key (xs ! parent k) \<le> key (xs ! k)" for k
    using inv by (simp add: up_inv_def)
  have kids: "k < length xs \<Longrightarrow> 0 < k \<Longrightarrow> parent k = j \<Longrightarrow> key (xs ! ?i) \<le> key (xs ! k)" for k
    using inv j by (simp add: up_inv_def)
  have pk: "parent k < length xs" "parent k < k" if "k < length xs" "0 < k" for k using that by auto
  show ?thesis
    unfolding up_inv_def
  proof (intro conjI allI impI)
    show "?i < length (swap ?i j xs)" using il by simp
  next
    fix k assume k: "k < length (swap ?i j xs)" "0 < k" "k \<noteq> ?i"
    then have kl: "k < length xs" by simp
    note n = nth [OF kl] nth [OF pk(1) [OF kl k(2)]]
    show "key (swap ?i j xs ! parent k) \<le> key (swap ?i j xs ! k)"
    proof (cases "k = j")
      case True
      then show ?thesis using n lt k(3) by auto
    next
      case False
      have o: "key (xs ! parent k) \<le> key (xs ! k)" using ord [OF kl k(2) False] .
      consider "parent k = ?i" | "parent k = j" | "parent k \<noteq> ?i" "parent k \<noteq> j" by blast
      then show ?thesis
      proof cases
        case 1
        then show ?thesis using n o lt False k(3) by auto
      next
        case 2
        have "j \<noteq> ?i" using j by auto
        then show ?thesis using n 2 kids [OF kl k(2) 2] False k(3) by auto
      next
        case 3
        then show ?thesis using n o False k(3) by auto
      qed
    qed
  next
    fix k assume k: "k < length (swap ?i j xs)" "0 < k" "0 < ?i" "parent k = ?i"
    then have kl: "k < length xs" by simp
    have gl: "parent ?i < length xs" "parent ?i \<noteq> ?i" "parent ?i \<noteq> j" using k(3) il j by auto
    have ij: "?i \<noteq> j" using j by auto
    have g: "key (xs ! parent ?i) \<le> key (xs ! ?i)" using ord [OF il k(3) ij] .
    have "key (xs ! parent ?i) \<le> key (swap ?i j xs ! k)"
    proof (cases "k = j")
      case True
      then show ?thesis using nth [OF kl] g ij by auto
    next
      case False
      have "key (xs ! ?i) \<le> key (xs ! k)" using ord [OF kl k(2) False] k(4) by simp
      moreover have "k \<noteq> ?i" using k(2,4) by auto
      ultimately show ?thesis using nth [OF kl] False g by auto
    qed
    then show "key (swap ?i j xs ! parent ?i) \<le> key (swap ?i j xs ! k)"
      using nth [OF gl(1)] gl by simp
  qed
qed

lemma heap_up_spec:
  "up_inv xs j \<Longrightarrow>
     \<exists>ys. heap_up cmp xs j = Inr ys \<and> heap_on (length ys) ys \<and> mset ys = mset xs \<and>
       length ys = length xs"
proof (induction j arbitrary: xs rule: less_induct)
  case (less j)
  show ?case
  proof (cases "j = 0")
    case True
    then have "heap_on (length xs) xs" using less.prems by (auto simp: up_inv_def heap_on_def)
    then show ?thesis using True by (subst heap_up.simps) simp
  next
    case False
    then have ij: "parent j < j" by simp
    have jl: "j < length xs" using less.prems by (simp add: up_inv_def)
    have e: "heap_up cmp xs j =
        (if key (xs ! j) < key (xs ! parent j) then heap_up cmp (swap (parent j) j xs) (parent j)
         else Inr xs)"
      using ij less_key [of "xs ! j" "xs ! parent j"] by (subst heap_up.simps) (simp add: Let_def)
    show ?thesis
    proof (cases "key (xs ! j) < key (xs ! parent j)")
      case True
      have "up_inv (swap (parent j) j xs) (parent j)"
        using less.prems False True by (intro up_inv_swap) simp_all
      from less.IH [OF ij this] show ?thesis unfolding e using ij jl True by simp
    next
      case nlt: False
      then have "heap_on (length xs) xs"
        using less.prems unfolding up_inv_def heap_on_def by (metis linorder_not_less)
      then show ?thesis unfolding e using nlt by simp
    qed
  qed
qed

lemma down_inv_swap:
  assumes inv: "down_inv xs i n" and j: "j < n" "0 < j" "parent j = i"
    and least: "\<And>k. k < n \<Longrightarrow> 0 < k \<Longrightarrow> parent k = i \<Longrightarrow> key (xs ! j) \<le> key (xs ! k)"
    and lt: "key (xs ! j) < key (xs ! i)"
  shows "down_inv (swap i j xs) j n"
proof -
  have nl: "n \<le> length xs" using inv by (simp add: down_inv_def)
  then have jl: "j < length xs" and ij: "i < j" and il: "i < length xs" using j by auto
  have nth: "k < n \<Longrightarrow> swap i j xs ! k =
      (if k = i then xs ! j else if k = j then xs ! i else xs ! k)" for k
    using nth_swap [OF il jl, of k] nl by simp
  have ord: "k < n \<Longrightarrow> 0 < k \<Longrightarrow> parent k \<noteq> i \<Longrightarrow> key (xs ! parent k) \<le> key (xs ! k)" for k
    using inv by (simp add: down_inv_def)
  have kids: "k < n \<Longrightarrow> 0 < k \<Longrightarrow> 0 < i \<Longrightarrow> parent k = i \<Longrightarrow> key (xs ! parent i) \<le> key (xs ! k)" for k
    using inv by (simp add: down_inv_def)
  show ?thesis
    unfolding down_inv_def
  proof (intro conjI allI impI)
    show "n \<le> length (swap i j xs)" using nl by simp
  next
    fix k assume k: "k < n" "0 < k" "parent k \<noteq> j"
    have pk: "parent k < n" "parent k < k" using k by auto
    note e = nth [OF k(1)] nth [OF pk(1)]
    consider "k = i" | "k = j" | "parent k = i" "k \<noteq> j" | "k \<noteq> i" "k \<noteq> j" "parent k \<noteq> i" by blast
    then show "key (swap i j xs ! parent k) \<le> key (swap i j xs ! k)"
    proof cases
      case 1
      then show ?thesis using e pk k kids [OF j(1,2) _ j(3)] ij by auto
    next
      case 2
      then show ?thesis using e j(3) lt ij by auto
    next
      case 3
      then show ?thesis using e least [OF k(1,2)] pk by auto
    next
      case 4
      then show ?thesis using e ord [OF k(1,2)] k(3) by auto
    qed
  next
    fix k assume k: "k < n" "0 < k" "0 < j" "parent k = j"
    have "i \<noteq> k" "j \<noteq> k" "parent k \<noteq> i" using k ij by auto
    then show "key (swap i j xs ! parent j) \<le> key (swap i j xs ! k)"
      using nth [OF k(1)] nth [of i] ord [OF k(1,2)] k(4) j ij by auto
  qed
qed

text \<open>The children of \<open>i\<close>, and the one the loop picks.\<close>

lemma child_cases: "0 < k \<Longrightarrow> parent k = i \<longleftrightarrow> k = 2 * i + 1 \<or> k = 2 * i + 2"
  by auto

lemma heap_down_spec:
  "down_inv xs i n \<Longrightarrow>
     \<exists>ys. heap_down cmp xs i n = Inr ys \<and> heap_on n ys \<and> mset ys = mset xs \<and>
       length ys = length xs \<and> (\<forall>k. n \<le> k \<longrightarrow> ys ! k = xs ! k)"
proof (induction "n - i" arbitrary: xs i rule: less_induct)
  case less
  let ?j1 = "2 * i + 1"
  show ?case
  proof (cases "n \<le> ?j1")
    case True
    then have "\<And>k. k < n \<Longrightarrow> 0 < k \<Longrightarrow> parent k \<noteq> i" by (auto simp: child_cases)
    then have "heap_on n xs" using less.prems by (auto simp: down_inv_def heap_on_def)
    then show ?thesis using True by (subst heap_down.simps) simp
  next
    case False
    define right where "right = (?j1 + 1 < n \<and> key (xs ! (?j1 + 1)) < key (xs ! ?j1))"
    define j where "j = (if right then ?j1 + 1 else ?j1)"
    have j: "j < n" "0 < j" "parent j = i" "i < j" using False by (auto simp: j_def right_def)
    have least: "key (xs ! j) \<le> key (xs ! k)" if "k < n" "0 < k" "parent k = i" for k
    proof -
      have "k = 2 * i + 1 \<or> k = 2 * i + 2" using that child_cases by blast
      then show ?thesis using that(1) by (elim disjE) (auto simp: j_def right_def)
    qed
    have pick: "(if ?j1 + 1 < n then cmp (xs ! (?j1 + 1)) (xs ! ?j1) else Inr False) = Inr right"
      using less_key [of "xs ! (?j1 + 1)" "xs ! ?j1"] by (simp add: right_def)
    have e: "heap_down cmp xs i n =
        (if key (xs ! j) < key (xs ! i) then heap_down cmp (swap i j xs) j n else Inr xs)"
      unfolding heap_down.simps [of cmp xs i n] Let_def pick
      using False less_key [of "xs ! j" "xs ! i"] by (simp flip: j_def)
    have nl: "n \<le> length xs" using less.prems by (simp add: down_inv_def)
    show ?thesis
    proof (cases "key (xs ! j) < key (xs ! i)")
      case True
      have "down_inv (swap i j xs) j n" using less.prems j(1-3) least True by (rule down_inv_swap)
      have smaller: "n - j < n - i" using j by linarith
      from less.hyps [OF smaller \<open>down_inv (swap i j xs) j n\<close>] obtain ys where ys: "heap_down cmp (swap i j xs) j n = Inr ys"
        "heap_on n ys" "mset ys = mset (swap i j xs)" "length ys = length xs"
        "\<And>k. n \<le> k \<Longrightarrow> ys ! k = swap i j xs ! k" by auto
      have "n \<le> k \<Longrightarrow> swap i j xs ! k = xs ! k" for k
        using j by (simp add: swap_def)
      then show ?thesis using e True ys j nl by auto
    next
      case nlt: False
      have "heap_on n xs" unfolding heap_on_def
      proof (intro allI impI)
        fix k assume k: "k < n" "0 < k"
        show "key (xs ! parent k) \<le> key (xs ! k)"
        proof (cases "parent k = i")
          case True
          then show ?thesis using least [OF k] nlt by auto
        next
          case False
          then show ?thesis using less.prems k by (simp add: down_inv_def)
        qed
      qed
      then show ?thesis using e nlt by auto
    qed
  qed
qed

lemma heap_min:
  assumes "heap_on n xs" "k < n"
  shows "key (xs ! 0) \<le> key (xs ! k)"
  using assms(2)
proof (induction k rule: less_induct)
  case (less k)
  show ?case
  proof (cases "k = 0")
    case False
    then have "key (xs ! 0) \<le> key (xs ! parent k)" using less by simp
    moreover have "key (xs ! parent k) \<le> key (xs ! k)"
      using assms(1) less.prems False by (simp add: heap_on_def)
    ultimately show ?thesis by simp
  qed simp
qed

text \<open>The two operations of the heap: adding an entry, and taking out the first one.\<close>

lemma push_spec:
  assumes "heap_on (length xs) xs"
  shows "\<exists>ys. heap_up cmp (xs @ [x]) (length xs) = Inr ys \<and> heap_on (length ys) ys \<and>
    mset ys = add_mset x (mset xs)"
proof -
  have "parent k < length xs" if "k < length xs" for k using that by auto
  moreover have "0 < k \<Longrightarrow> parent k < k" for k by auto
  ultimately have "up_inv (xs @ [x]) (length xs)"
    using assms by (fastforce simp: up_inv_def heap_on_def nth_append)
  from heap_up_spec [OF this] show ?thesis by auto
qed

lemma pop_spec:
  assumes h: "heap_on (length xs) xs" and ne: "xs \<noteq> []"
  shows "\<exists>ys. heap_down cmp (swap 0 (length xs - 1) xs) 0 (length xs - 1) = Inr ys \<and> ys \<noteq> [] \<and>
    heap_on (length ys - 1) (butlast ys) \<and> mset xs = add_mset (last ys) (mset (butlast ys)) \<and>
    (\<forall>y \<in> set xs. key (last ys) \<le> key y)"
proof -
  let ?n = "length xs - 1"
  let ?s = "swap 0 ?n xs"
  have len: "0 < length xs" using ne by simp
  have "down_inv ?s 0 ?n"
    using h len by (auto simp: down_inv_def heap_on_def swap_def nth_list_update)
  from heap_down_spec [OF this] obtain ys where ys: "heap_down cmp ?s 0 ?n = Inr ys"
    "heap_on ?n ys" "mset ys = mset xs" "length ys = length xs" "\<And>k. ?n \<le> k \<Longrightarrow> ys ! k = ?s ! k"
    using len by auto
  have ne': "ys \<noteq> []" using ys(4) len by auto
  have last: "last ys = xs ! 0"
    using ys(4) ys(5) [of ?n] len ne' by (auto simp: last_conv_nth swap_def nth_list_update)
  have "heap_on ?n (butlast ys)"
    unfolding heap_on_def
  proof (intro allI impI)
    fix k assume k: "k < ?n" "0 < k"
    then have "parent k < ?n" by auto
    then show "key (butlast ys ! parent k) \<le> key (butlast ys ! k)"
      using k ys(2,4) by (simp add: heap_on_def nth_butlast)
  qed
  moreover have "mset xs = add_mset (last ys) (mset (butlast ys))"
    using ys(3) ne' by (metis append_butlast_last_id mset.simps(1,2) union_mset_add_mset_right
        mset_append empty_neutral(2))
  moreover have "\<forall>y \<in> set xs. key (last ys) \<le> key y"
    unfolding last using heap_min [OF h] by (metis in_set_conv_nth)
  ultimately show ?thesis using ys ne' by auto
qed

end


section \<open>The eviction order as a key\<close>

text \<open>A bucket of less than a microsecond (but positive) makes every comparison panic.\<close>

definition bucketPanics :: "int \<Rightarrow> bool" where
  "bucketPanics b = (0 < b \<and> b < 1000)"

definition evictKey :: "int \<Rightarrow> evictionHeapEntry \<Rightarrow> int \<times> int" where
  "evictKey b e =
     (if b \<le> 0 then (he_modTimeMicro e, 0)
      else (he_modTimeMicro e sdiv (b sdiv 1000), - he_size e))"

definition soundBucket :: "int \<Rightarrow> int" where
  "soundBucket b = (if bucketPanics b then 0 else b)"

lemma bucketMicro: "0 < b \<Longrightarrow> b sdiv 1000 = b div (1000 :: int)"
  by (simp add: signed_divide_int_def)

lemma heapLess_key: "\<not> bucketPanics b \<Longrightarrow> heapLess b x y = Inr (evictKey b x < evictKey b y)"
  by (auto simp: heapLess_def moreEvictable_def evictKey_def bucketPanics_def less_prod_def'
    bucketMicro Let_def)

lemma heapLess_panics: "bucketPanics b \<Longrightarrow> heapLess b x y = Inl (ErrPanic ''integer divide by zero'')"
  by (auto simp: heapLess_def moreEvictable_def bucketPanics_def bucketMicro Let_def)

interpretation eh: ordered_less "heapLess (soundBucket b)" "evictKey (soundBucket b)" for b
  by unfold_locales (rule heapLess_key, simp add: soundBucket_def bucketPanics_def)

definition is_heap :: "evictionHeap \<Rightarrow> bool" where
  "is_heap h =
     (\<forall>k < length (items h). 0 < k \<longrightarrow>
        evictKey (bucket h) (items h ! parent k) \<le> evictKey (bucket h) (items h ! k))"

lemma is_heap_on: "\<not> bucketPanics (bucket h) \<Longrightarrow>
    is_heap h = eh.heap_on (bucket h) (length (items h)) (items h)"
  using eh.heap_on_def [of "bucket h" "length (items h)" "items h"]
  by (simp add: is_heap_def soundBucket_def)

lemma heapPush_ok:
  assumes "\<not> bucketPanics (bucket h)" "is_heap h"
  shows "\<exists>h'. heapPush h path sz t = Inr h' \<and> is_heap h' \<and> bucket h' = bucket h \<and>
    mset (items h') = add_mset \<lparr>he_path = path, he_size = sz, he_modTimeMicro = t\<rparr> (mset (items h))"
proof -
  let ?e = "\<lparr>he_path = path, he_size = sz, he_modTimeMicro = t\<rparr>"
  have s: "soundBucket (bucket h) = bucket h" using assms(1) by (simp add: soundBucket_def)
  obtain ys where ys: "heap_up (heapLess (bucket h)) (items h @ [?e]) (length (items h)) = Inr ys"
    "eh.heap_on (bucket h) (length ys) ys" "mset ys = add_mset ?e (mset (items h))"
    using eh.push_spec [of "bucket h" "items h" ?e] assms is_heap_on s by auto
  then show ?thesis
    using is_heap_on [of "h\<lparr>items := ys\<rparr>"] assms(1) by (simp add: heapPush_def)
qed

lemma heapPop_ok:
  assumes "\<not> bucketPanics (bucket h)" "is_heap h" "items h \<noteq> []"
  shows "\<exists>e h'. heapPop h = Inr (Some e, h') \<and> is_heap h' \<and> bucket h' = bucket h \<and>
    mset (items h) = add_mset e (mset (items h')) \<and>
    (\<forall>y \<in> set (items h). evictKey (bucket h) e \<le> evictKey (bucket h) y)"
proof -
  have s: "soundBucket (bucket h) = bucket h" using assms(1) by (simp add: soundBucket_def)
  let ?n = "length (items h) - 1"
  obtain ys where ys: "heap_down (heapLess (bucket h)) (swap 0 ?n (items h)) 0 ?n = Inr ys"
    "eh.heap_on (bucket h) (length ys - 1) (butlast ys)"
    "mset (items h) = add_mset (last ys) (mset (butlast ys))"
    "\<forall>y \<in> set (items h). evictKey (bucket h) (last ys) \<le> evictKey (bucket h) y"
    using eh.pop_spec [of "bucket h" "items h"] assms is_heap_on s by auto
  then show ?thesis
    using is_heap_on [of "h\<lparr>items := butlast ys\<rparr>"] assms by (simp add: heapPop_def Let_def)
qed


text \<open>Termination of loops that pop: every pop shortens the heap.\<close>

lemma heap_down_length: "heap_down cmp xs i n = Inr ys \<Longrightarrow> length ys = length xs"
proof (induction "n - i" arbitrary: xs i ys rule: less_induct)
  case less
  have ih: "heap_down cmp (swap i j xs) j n = Inr ys \<Longrightarrow> length ys = length xs"
    if "i < j" "i < n" for j
    using less.hyps [of j "swap i j xs" ys] that by simp
  from less.prems show ?case
    unfolding heap_down.simps [of cmp xs i n] Let_def
    by (auto split: if_splits sum.splits dest: ih [rotated 2])
qed

lemma heapPop_shrinks:
  "heapPop h = Inr (Some e, h') \<Longrightarrow> length (items h') < length (items h) \<and> bucket h' = bucket h"
  by (auto simp: heapPop_def Let_def split: if_splits sum.splits dest: heap_down_length)

section \<open>Properties\<close>

fun pushAll :: "evictionHeap \<Rightarrow> evictionHeapEntry list \<Rightarrow> evictionHeap result" where
  "pushAll h [] = Inr h"
| "pushAll h (e # es) =
     (case heapPush h (he_path e) (he_size e) (he_modTimeMicro e) of
        Inl err \<Rightarrow> Inl err | Inr h' \<Rightarrow> pushAll h' es)"

text \<open>Popping until the heap is empty; every pop shortens the list of items.\<close>

fun popAll :: "nat \<Rightarrow> evictionHeap \<Rightarrow> evictionHeapEntry list result" where
  "popAll 0 h = Inr []"
| "popAll (Suc n) h =
     (case heapPop h of
        Inl err \<Rightarrow> Inl err
      | Inr (None, h') \<Rightarrow> Inr []
      | Inr (Some e, h') \<Rightarrow> (case popAll n h' of Inl err \<Rightarrow> Inl err | Inr es \<Rightarrow> Inr (e # es)))"

lemma pushAll_ok:
  assumes "\<not> bucketPanics (bucket h)" "is_heap h"
  shows "\<exists>h'. pushAll h es = Inr h' \<and> is_heap h' \<and> bucket h' = bucket h \<and>
    mset (items h') = mset (items h) + mset es"
  using assms
proof (induction es arbitrary: h)
  case (Cons e es)
  obtain h1 where h1: "heapPush h (he_path e) (he_size e) (he_modTimeMicro e) = Inr h1" "is_heap h1"
    "bucket h1 = bucket h" "mset (items h1) = add_mset e (mset (items h))"
    using heapPush_ok [OF Cons.prems, of "he_path e" "he_size e" "he_modTimeMicro e"] by auto
  then show ?case using Cons.IH [of h1] Cons.prems by auto
qed simp

lemma popAll_ok:
  assumes "\<not> bucketPanics (bucket h)" "is_heap h" "length (items h) \<le> n"
  shows "\<exists>es. popAll n h = Inr es \<and> mset es = mset (items h) \<and>
    sorted_wrt (\<lambda>x y. evictKey (bucket h) x \<le> evictKey (bucket h) y) es"
  using assms
proof (induction n arbitrary: h)
  case (Suc n)
  show ?case
  proof (cases "items h = []")
    case True
    then show ?thesis by (simp add: heapPop_def)
  next
    case False
    obtain e h' where e: "heapPop h = Inr (Some e, h')" "is_heap h'" "bucket h' = bucket h"
      "mset (items h) = add_mset e (mset (items h'))"
      "\<forall>y \<in> set (items h). evictKey (bucket h) e \<le> evictKey (bucket h) y"
      using heapPop_ok [OF Suc.prems(1,2) False] by blast
    have "length (items h') \<le> n" using Suc.prems(3) e(4) by (metis size_mset size_add_mset Suc_le_mono)
    then obtain es where es: "popAll n h' = Inr es" "mset es = mset (items h')"
      "sorted_wrt (\<lambda>x y. evictKey (bucket h) x \<le> evictKey (bucket h) y) es"
      using Suc.IH [of h'] Suc.prems e by auto
    have "set es \<subseteq> set (items h)" using es(2) e(4) by (metis mset_eq_setD set_mset_mset
        set_mset_add_mset_insert subset_insertI)
    then show ?thesis using e es by auto
  qed
qed simp

text \<open>
  Claim C33. The eviction heap is a priority queue for the eviction order: starting empty, pushing
  any entries and then popping until it is empty yields exactly the entries pushed (none lost, none
  twice), ordered by \<open>moreEvictable\<close>: oldest recency bucket first and, within a bucket, the largest
  first. No operation fails, for every bucket that is not a positive duration below 1 microsecond.\<close>

theorem eviction_heap_sorts:
  assumes "\<not> bucketPanics b"
  shows "\<exists>h out. pushAll (newEvictionHeap b) es = Inr h \<and> popAll (length es) h = Inr out \<and>
    mset out = mset es \<and>
    sorted_wrt (\<lambda>x y. moreEvictable (he_modTimeMicro y) (he_size y) (he_modTimeMicro x) (he_size x) b
      = Inr False) out"
proof -
  have "is_heap (newEvictionHeap b)" "bucket (newEvictionHeap b) = b" "items (newEvictionHeap b) = []"
    by (simp_all add: is_heap_def newEvictionHeap_def)
  then obtain h where h: "pushAll (newEvictionHeap b) es = Inr h" "is_heap h" "bucket h = b"
    "mset (items h) = mset es"
    using pushAll_ok [of "newEvictionHeap b" es] assms by auto
  have "length (items h) \<le> length es" using h(4) by (metis mset_eq_length order_refl)
  then obtain out where out: "popAll (length es) h = Inr out" "mset out = mset es"
    "sorted_wrt (\<lambda>x y. evictKey b x \<le> evictKey b y) out"
    using popAll_ok [of h "length es"] assms h by auto
  have "sorted_wrt (\<lambda>x y. heapLess b y x = Inr False) out"
    using out(3) by (rule sorted_wrt_mono_rel [rotated]) (simp add: heapLess_key [OF assms] not_less)
  then show ?thesis using h out by (auto simp: heapLess_def)
qed

theorem eviction_heap_sorts_witness:
  "\<exists>h out. pushAll (newEvictionHeap 0) [\<lparr>he_path = ''a'', he_size = 1, he_modTimeMicro = 9\<rparr>,
      \<lparr>he_path = ''b'', he_size = 1, he_modTimeMicro = 3\<rparr>] = Inr h \<and> popAll 2 h = Inr out \<and>
    sorted_wrt (\<lambda>x y. moreEvictable (he_modTimeMicro y) (he_size y) (he_modTimeMicro x) (he_size x) 0
      = Inr False) out"
  using eviction_heap_sorts [of 0 "[\<lparr>he_path = ''a'', he_size = 1, he_modTimeMicro = 9\<rparr>,
      \<lparr>he_path = ''b'', he_size = 1, he_modTimeMicro = 3\<rparr>]"]
  by (auto simp: bucketPanics_def numeral_2_eq_2)

text \<open>
  A recency bucket that is positive but shorter than a microsecond crashes the store: its
  microseconds round to zero, and pushing a second entry divides by zero.\<close>

theorem eviction_bucket_panics:
  assumes "0 < b" "b < 1000" "items h \<noteq> []" "bucket h = b"
  shows "heapPush h path sz t = Inl (ErrPanic ''integer divide by zero'')"
proof -
  have "parent (length (items h)) < length (items h)" using assms(3) by (cases "items h") auto
  moreover have "bucketPanics (bucket h)" using assms by (simp add: bucketPanics_def)
  ultimately show ?thesis
    by (simp add: heapPush_def heap_up.simps [of _ _ "length (items h)"] heapLess_panics Let_def)
qed

theorem eviction_bucket_panics_witness:
  "heapPush \<lparr>items = [\<lparr>he_path = ''a'', he_size = 1, he_modTimeMicro = 9\<rparr>], bucket = 500\<rparr> ''b'' 2 10
     = Inl (ErrPanic ''integer divide by zero'')"
  by (rule eviction_bucket_panics [of 500]) simp_all

end
