(* ===== verification/Environment.thy ===== *)
theory Environment
  imports Go_Lib
begin

text \<open>
  What the stores use of the operating system, the clock and the zstd package.

  The file system of a store is one map from absolute paths to files. What the outside decides is a
  record \<open>env\<close>, an argument of every operation that needs it: the time, for each path whether a call
  on it fails and with which error, the outcome of the record pool's own I/O calls, and the zstd
  package (\<open>github.com/klauspost/compress\<close>, not part of the repository). Failures that are only
  logged leave no trace in the model. Directories are created by the code before each write and
  appear only through the paths of the files in them; a write that fails because of them is a
  \<open>writeErr\<close>.
\<close>

record osfile =
  content :: bytes
  mtime :: int
  fmode :: nat

type_synonym fs = "(path \<times> osfile) list"

text \<open>A reader: the bytes it delivers, and the error it ends with (\<open>None\<close> is EOF).\<close>

type_synonym reader = "bytes \<times> go_error option"

text \<open>The outcome of the calls in the record pool's \<open>createPageLocked\<close>, and of one \<open>WriteAt\<close>: a failed
  write may have put a prefix of the record into the file.\<close>

datatype create_io =
    CreateOK
  | MkdirFails go_error
  | CreateFails go_error
  | WriteFails go_error
  | CloseFails go_error
  | RenameFails go_error
  | ReopenFails go_error

datatype write_io = WriteOK | WriteShort nat go_error

record env =
  now :: int \<comment> \<open>microseconds since the epoch\<close>
  readErr :: "path \<Rightarrow> go_error option"
  writeErr :: "path \<Rightarrow> go_error option"
  removeErr :: "path \<Rightarrow> go_error option"
  statErr :: "path \<Rightarrow> go_error option"
  chtimesErr :: "path \<Rightarrow> go_error option"
  listErr :: "path \<Rightarrow> go_error option"
  poolCreate :: create_io
  poolWrite :: write_io
  zenc :: "bytes \<Rightarrow> bytes"
  zdec :: "bytes \<Rightarrow> bytes result"
  zstream :: "bytes \<Rightarrow> reader"

text \<open>The documented behaviour of zstd: decoding what was encoded gives it back, in one piece or as
  a stream.\<close>

definition zstd_ok :: "env \<Rightarrow> bool" where
  "zstd_ok E = (\<forall>b. zdec E (zenc E b) = Inr b \<and> zstream E (zenc E b) = (b, None))"

text \<open>An environment in which every call succeeds and compression is the identity.\<close>

definition calm :: "int \<Rightarrow> env" where
  "calm t = \<lparr>now = t, readErr = \<lambda>_. None, writeErr = \<lambda>_. None, removeErr = \<lambda>_. None,
     statErr = \<lambda>_. None, chtimesErr = \<lambda>_. None, listErr = \<lambda>_. None,
     poolCreate = CreateOK, poolWrite = WriteOK,
     zenc = \<lambda>b. b, zdec = Inr, zstream = \<lambda>b. (b, None)\<rparr>"

lemma zstd_ok_calm: "zstd_ok (calm t)"
  by (simp add: zstd_ok_def calm_def)

section \<open>File system calls\<close>

definition statFile :: "env \<Rightarrow> fs \<Rightarrow> path \<Rightarrow> osfile result" where
  "statFile E fs p =
     (case statErr E p of Some e \<Rightarrow> Inl e
      | None \<Rightarrow> (case map_of fs p of None \<Rightarrow> Inl ErrNotExist | Some f \<Rightarrow> Inr f))"

definition readFile :: "env \<Rightarrow> fs \<Rightarrow> path \<Rightarrow> bytes result" where
  "readFile E fs p =
     (case readErr E p of Some e \<Rightarrow> Inl e
      | None \<Rightarrow> (case map_of fs p of None \<Rightarrow> Inl ErrNotExist | Some f \<Rightarrow> Inr (content f)))"

definition removeFile :: "env \<Rightarrow> fs \<Rightarrow> path \<Rightarrow> go_error option \<times> fs" where
  "removeFile E fs p =
     (case removeErr E p of Some e \<Rightarrow> (Some e, fs)
      | None \<Rightarrow> (case map_of fs p of
            None \<Rightarrow> (Some ErrNotExist, fs) | Some f \<Rightarrow> (None, AList.delete p fs)))"

text \<open>\<open>os.Remove\<close> where the caller ignores a missing file.\<close>

definition removeIfExists :: "env \<Rightarrow> fs \<Rightarrow> path \<Rightarrow> go_error option \<times> fs" where
  "removeIfExists E fs p =
     (case removeFile E fs p of
        (Some e, fs') \<Rightarrow> (if isNotExist e then None else Some e, fs')
      | (None, fs') \<Rightarrow> (None, fs'))"

text \<open>A write to a temporary file that is renamed into place: nothing or all of it becomes visible.\<close>

definition writeRename :: "env \<Rightarrow> fs \<Rightarrow> path \<Rightarrow> bytes \<Rightarrow> nat \<Rightarrow> go_error option \<times> fs" where
  "writeRename E fs p data mode =
     (case writeErr E p of Some e \<Rightarrow> (Some e, fs)
      | None \<Rightarrow> (None, AList.update p \<lparr>content = data, mtime = now E, fmode = mode\<rparr> fs))"

definition hasSuffix :: "string \<Rightarrow> string \<Rightarrow> bool" where
  "hasSuffix s suf = suffix suf s"

text \<open>\<open>filepath.WalkDir\<close> below a root, in its order: the entries of a directory by name.\<close>

definition under :: "path \<Rightarrow> path \<Rightarrow> bool" where
  "under root p = (p = root \<or> prefix (root @ ''/'') p)"

definition walkFiles :: "fs \<Rightarrow> path \<Rightarrow> path list" where
  "walkFiles fs root = sort_key (split_on sep) (filter (under root) (mkeys fs))"

lemma map_of_removeIfExists:
  "removeIfExists E fs p = (r, fs') \<Longrightarrow>
     map_of fs' q = (if q = p \<and> removeErr E p = None then None else map_of fs q)"
  by (auto simp: removeIfExists_def removeFile_def split: option.splits if_splits)

lemma wf_removeIfExists: "wf_map fs \<Longrightarrow> removeIfExists E fs p = (r, fs') \<Longrightarrow> wf_map fs'"
  by (auto simp: removeIfExists_def removeFile_def split: option.splits if_splits)

lemma set_walkFiles: "set (walkFiles fs root) = {p \<in> set (mkeys fs). under root p}"
  by (auto simp: walkFiles_def)

end
