(* ===== verification/Record_Pool.thy ===== *)
theory Record_Pool
  imports Environment
begin

text \<open>
  The record pool (\<open>internal/recordpool/recordpool.go\<close>): many small records of one size packed
  into page files. A \<open>pool\<close> holds the size classes, the promotion counters and the contents of
  the pool's directory (file name to bytes). A page's \<open>*os.File\<close> handle is the name it was opened
  under. Page and slot numbers are \<open>uint32\<close> and wrap. What the operating system decides (whether a
  call fails, how much of a failed write reached the file) is an argument of the operations;
  failures of \<open>Close\<close> and \<open>Remove\<close> are only logged by the code, and the model takes these two
  calls to succeed. The pool's mutex makes every operation atomic, so each is one function on the
  state.
\<close>

section \<open>Data\<close>

record loc =
  Page :: u32
  Slot :: u32

definition isZero :: "loc \<Rightarrow> bool" where
  "isZero l = (Page l = 0)"

definition zeroLoc :: loc where
  "zeroLoc = \<lparr>Page = 0, Slot = 0\<rparr>"

definition DefaultMaxRecordBytes :: int where "DefaultMaxRecordBytes = 4096"

definition DefaultPageBytes :: int where "DefaultPageBytes = 8 * 2 ^ 20"

record page =
  pg_file :: string
  pg_free :: "u32 list" \<comment> \<open>a stack: the last element is popped first\<close>

record pclass =
  recordSize :: int
  capacity :: u32
  pages :: "(u32 \<times> page) list"
  nextPage :: u32

record pool =
  maxRecordBytes :: int
  pageBytes :: int
  breakeven :: int
  writeSeq :: nat
  classes :: "(int \<times> pclass) list"
  counts :: "(int \<times> int) list"
  files :: "(string \<times> bytes) list"

section \<open>Construction and names\<close>

text \<open>\<open>New\<close> with the options' final values and the directory as found; \<open>/\<close> truncates.\<close>

definition newPool :: "int \<Rightarrow> int \<Rightarrow> (string \<times> bytes) list \<Rightarrow> pool" where
  "newPool maxRec pageB dirFiles =
     \<lparr>maxRecordBytes = maxRec, pageBytes = pageB, breakeven = pageB sdiv 4096, writeSeq = 0,
      classes = [], counts = [], files = dirFiles\<rparr>"

definition pageFileName :: "int \<Rightarrow> u32 \<Rightarrow> string" where
  "pageFileName sz pageNum =
     ''records.'' @ dec (nat sz) @ ''.p'' @ dec (unat pageNum) @ ''.bin''"

text \<open>The regular expression \<open>^records\.(\d+)\.p(\d+)\.bin$\<close>, returning its two groups.\<close>

definition pageNameRe :: "string \<Rightarrow> (string \<times> string) option" where
  "pageNameRe name =
     (if \<not> prefix ''records.'' name then None
      else (let r1 = drop 8 name; d1 = takeWhile is_digit r1; r2 = dropWhile is_digit r1 in
        if d1 = [] \<or> \<not> prefix ''.p'' r2 then None
        else (let r3 = drop 2 r2; d2 = takeWhile is_digit r3; r4 = dropWhile is_digit r3 in
          if d2 = [] \<or> r4 \<noteq> ''.bin'' then None else Some (d1, d2))))"

text \<open>\<open>ParseInt(m[1], 10, 64)\<close> with the sign check, then \<open>ParseUint(m[2], 10, 32)\<close>.\<close>

definition parsePageName :: "string \<Rightarrow> (int \<times> u32) option" where
  "parsePageName name =
     (case pageNameRe name of
        None \<Rightarrow> None
      | Some (d1, d2) \<Rightarrow>
          (if 2 ^ 63 \<le> undec d1 \<or> undec d1 \<le> 0 then None
           else if 2 ^ 32 \<le> undec d2 then None
           else Some (int (undec d1), of_nat (undec d2))))"

definition newClass :: "pool \<Rightarrow> int \<Rightarrow> pclass" where
  "newClass p sz =
     \<lparr>recordSize = sz, capacity = word_of_int (pageBytes p sdiv sz), pages = [],
      nextPage = 0\<rparr>"

section \<open>Startup reconciliation\<close>

definition discoverOne :: "pool \<Rightarrow> string \<Rightarrow> pool" where
  "discoverOne p name =
     (case parsePageName name of
        None \<Rightarrow> p
      | Some (sz, pageNum) \<Rightarrow>
          (let c = (case map_of (classes p) sz of None \<Rightarrow> newClass p sz | Some c \<Rightarrow> c);
               c' = c\<lparr>pages := AList.update pageNum \<lparr>pg_file = name, pg_free = []\<rparr> (pages c),
                      nextPage := (if nextPage c < pageNum then pageNum else nextPage c)\<rparr>
           in p\<lparr>classes := AList.update sz c' (classes p)\<rparr>))"

text \<open>
  The loop over the directory entries. \<open>openErr\<close> gives the error of opening a page file, if any;
  only files that are parsed as pages are opened.
\<close>

fun discoverLoop :: "pool \<Rightarrow> (string \<Rightarrow> go_error option) \<Rightarrow> string list \<Rightarrow> unit result \<times> pool" where
  "discoverLoop p openErr [] = (Inr (), p)"
| "discoverLoop p openErr (name # names) =
     (if parsePageName name = None then discoverLoop p openErr names
      else (case openErr name of
          Some e \<Rightarrow> (Inl (ErrWrap ''open pool page'' e), p)
        | None \<Rightarrow> discoverLoop (discoverOne p name) openErr names))"

definition discoverPages ::
  "pool \<Rightarrow> go_error option \<Rightarrow> (string \<Rightarrow> go_error option) \<Rightarrow> unit result \<times> pool" where
  "discoverPages p readDirErr openErr =
     (case readDirErr of
        Some e \<Rightarrow> (if isNotExist e then Inr () else Inl e, p)
      | None \<Rightarrow> discoverLoop p openErr (mkeys (files p)))"

definition valid :: "pool \<Rightarrow> int \<Rightarrow> loc \<Rightarrow> bool" where
  "valid p sz l =
     (if isZero l then True
      else (case map_of (classes p) sz of
          None \<Rightarrow> False
        | Some c \<Rightarrow> map_of (pages c) (Page l) \<noteq> None \<and> Slot l < capacity c))"

definition noteOccupied :: "pool \<Rightarrow> int \<Rightarrow> loc \<Rightarrow> pool" where
  "noteOccupied p sz l =
     (if isZero l then p
      else (case map_of (classes p) sz of
          None \<Rightarrow> p
        | Some c \<Rightarrow> (case map_of (pages c) (Page l) of
              None \<Rightarrow> p
            | Some pg \<Rightarrow>
                p\<lparr>classes := AList.update sz
                    (c\<lparr>pages := AList.update (Page l) (pg\<lparr>pg_free := pg_free pg @ [Slot l]\<rparr>)
                                 (pages c)\<rparr>) (classes p)\<rparr>)))"

definition noteUnpromoted :: "pool \<Rightarrow> int \<Rightarrow> pool" where
  "noteUnpromoted p sz =
     (if map_of (classes p) sz \<noteq> None then p
      else p\<lparr>counts := AList.update sz (mget0 0 (counts p) sz + 1) (counts p)\<rparr>)"

text \<open>\<open>for slot := uint32(0); slot < c.capacity; slot++\<close>.\<close>

definition allSlots :: "u32 \<Rightarrow> u32 list" where
  "allSlots cap = map of_nat [0..<unat cap]"

definition finishPage :: "u32 \<Rightarrow> page \<Rightarrow> page" where
  "finishPage cap pg =
     pg\<lparr>pg_free := filter (\<lambda>slot. slot \<notin> set (pg_free pg)) (allSlots cap)\<rparr>"

definition finishReconcile :: "pool \<Rightarrow> pool" where
  "finishReconcile p =
     p\<lparr>classes := map (\<lambda>(sz, c).
         (sz, c\<lparr>pages := map (\<lambda>(pn, pg). (pn, finishPage (capacity c) pg)) (pages c)\<rparr>))
       (classes p)\<rparr>"

section \<open>Allocation\<close>

text \<open>\<open>writeZeroes\<close> writes in chunks of at most 1 MiB.\<close>

function writeZeroes :: "int \<Rightarrow> bytes" where
  "writeZeroes n =
     (if n \<le> 0 then []
      else (let chunk = min n (2 ^ 20) in
        replicate (nat chunk) (CHR 0x00) @ writeZeroes (n - chunk)))"
  by pat_completeness auto
termination
  by (relation "measure nat") (auto simp: min_def)

declare writeZeroes.simps [simp del]

definition createPageLocked ::
  "pool \<Rightarrow> pclass \<Rightarrow> u32 \<Rightarrow> create_io \<Rightarrow> page result \<times> pool" where
  "createPageLocked p c pageNum cio =
     (let name = pageFileName (recordSize c) pageNum;
          p1 = p\<lparr>writeSeq := Suc (writeSeq p)\<rparr>;
          zeroes = writeZeroes (uint (capacity c) * recordSize c);
          p2 = p1\<lparr>files := AList.update name zeroes (files p1)\<rparr>
      in case cio of
           MkdirFails e \<Rightarrow> (Inl (ErrWrap ''create pool dir'' e), p)
         | CreateFails e \<Rightarrow> (Inl (ErrWrap ''create pool page'' e), p1)
         | WriteFails e \<Rightarrow> (Inl (ErrWrap ''write pool page'' e), p1)
         | CloseFails e \<Rightarrow> (Inl (ErrWrap ''close pool page'' e), p1)
         | RenameFails e \<Rightarrow> (Inl (ErrWrap ''rename pool page'' e), p1)
         | ReopenFails e \<Rightarrow> (Inl (ErrWrap ''reopen pool page'' e), p2)
         | CreateOK \<Rightarrow> (Inr \<lparr>pg_file = name, pg_free = allSlots (capacity c)\<rparr>, p2))"

text \<open>
  The loop \<open>for pn := uint32(1); pn <= c.nextPage; pn++\<close>. The counter wraps: when \<open>nextPage\<close> is
  the largest \<open>uint32\<close> the condition never fails, and without a free slot anywhere the loop runs
  forever, which is the value \<open>None\<close>.
\<close>

partial_function (option) allocScan :: "pclass \<Rightarrow> u32 \<Rightarrow> u32 option option" where
  "allocScan c pn =
     (if pn \<le> nextPage c then
        (case map_of (pages c) pn of
           None \<Rightarrow> allocScan c (pn + 1)
         | Some pg \<Rightarrow> (if pg_free pg = [] then allocScan c (pn + 1) else Some (Some pn)))
      else Some None)"

declare allocScan.simps [code]

text \<open>Popping the last free slot of page \<open>pn\<close> of class \<open>c\<close>.\<close>

definition takeSlot :: "pool \<Rightarrow> int \<Rightarrow> pclass \<Rightarrow> u32 \<Rightarrow> page \<Rightarrow> (u32 \<times> u32) result \<times> pool" where
  "takeSlot p sz c pn pg =
     (if pg_free pg = [] then
        (Inl (ErrPanic ''index out of range [-1]''), p\<lparr>classes := AList.update sz c (classes p)\<rparr>)
      else (Inr (pn, last (pg_free pg)),
            p\<lparr>classes := AList.update sz
                (c\<lparr>pages := AList.update pn (pg\<lparr>pg_free := butlast (pg_free pg)\<rparr>) (pages c)\<rparr>)
                (classes p)\<rparr>))"

definition allocateLocked ::
  "pool \<Rightarrow> int \<Rightarrow> pclass \<Rightarrow> create_io \<Rightarrow> (u32 \<times> u32) result \<times> pool" where
  "allocateLocked p sz c cio =
     (case allocScan c 1 of
        None \<Rightarrow> (Inl ErrHang, p)
      | Some (Some pn) \<Rightarrow>
          (case map_of (pages c) pn of
             None \<Rightarrow> (Inl (ErrPanic ''nil page''), p)
           | Some pg \<Rightarrow> takeSlot p sz c pn pg)
      | Some None \<Rightarrow>
          (let np = nextPage c + 1 in
           case createPageLocked p (c\<lparr>nextPage := np\<rparr>) np cio of
             (Inl e, p') \<Rightarrow> (Inl e, p')
           | (Inr pg, p') \<Rightarrow>
               takeSlot p' sz (c\<lparr>nextPage := np, pages := AList.update np pg (pages c)\<rparr>) np pg))"

section \<open>Put, Read and Free\<close>

definition write_at :: "nat \<Rightarrow> bytes \<Rightarrow> bytes \<Rightarrow> bytes" where
  "write_at off b f =
     take off (f @ replicate (off - length f) (CHR 0x00)) @ b @ drop (off + length b) f"

definition freeLocked :: "pool \<Rightarrow> int \<Rightarrow> pclass \<Rightarrow> u32 \<Rightarrow> u32 \<Rightarrow> pool" where
  "freeLocked p sz c pageNum slot =
     (case map_of (pages c) pageNum of
        None \<Rightarrow> p
      | Some pg \<Rightarrow>
          (let free = pg_free pg @ [slot] in
           if length free < unat (capacity c) then
             p\<lparr>classes := AList.update sz
                 (c\<lparr>pages := AList.update pageNum (pg\<lparr>pg_free := free\<rparr>) (pages c)\<rparr>) (classes p)\<rparr>
           else
             p\<lparr>classes := AList.update sz
                 (c\<lparr>pages := AList.delete pageNum (pages c)\<rparr>) (classes p),
               files := AList.delete (pageFileName (recordSize c) pageNum) (files p)\<rparr>))"

text \<open>The part of \<open>Put\<close> after the class is known; the class is a pointer, so it is read from the
  state again where the code dereferences it.\<close>

definition putInClass ::
  "pool \<Rightarrow> int \<Rightarrow> bytes \<Rightarrow> pclass \<Rightarrow> create_io \<Rightarrow> write_io \<Rightarrow> loc option result \<times> pool" where
  "putInClass p sz body c cio wio =
     (case allocateLocked p sz c cio of
        (Inl e, p') \<Rightarrow> (Inl e, p')
      | (Inr (pn, slot), p') \<Rightarrow>
          (case map_of (classes p') sz of
             None \<Rightarrow> (Inl (ErrPanic ''nil class''), p')
           | Some c' \<Rightarrow>
          (case map_of (pages c') pn of
             None \<Rightarrow> (Inl (ErrPanic ''nil page''), p')
           | Some pg \<Rightarrow>
               (let f = mget0 [] (files p') (pg_file pg);
                    off = nat (uint slot * sz);
                    upd = (\<lambda>b. p'\<lparr>files := AList.update (pg_file pg) (write_at off b f) (files p')\<rparr>)
                in case wio of
                     WriteOK \<Rightarrow> (Inr (Some \<lparr>Page = pn, Slot = slot\<rparr>), upd body)
                   | WriteShort n e \<Rightarrow>
                       (Inl e, freeLocked (upd (take n body)) sz c' pn slot)))))"

definition poolPut ::
  "pool \<Rightarrow> int \<Rightarrow> bytes \<Rightarrow> create_io \<Rightarrow> write_io \<Rightarrow> loc option result \<times> pool" where
  "poolPut p sz body cio wio =
     (if sz \<le> 0 \<or> maxRecordBytes p < sz \<or> int (length body) \<noteq> sz then (Inr None, p)
      else (case map_of (classes p) sz of
          Some c \<Rightarrow> putInClass p sz body c cio wio
        | None \<Rightarrow>
            (let n = mget0 0 (counts p) sz + 1;
                 p1 = p\<lparr>counts := AList.update sz n (counts p)\<rparr>
             in if n < breakeven p then (Inr None, p1)
                else (let c = newClass p1 sz;
                          p2 = p1\<lparr>classes := AList.update sz c (classes p1),
                                  counts := AList.delete sz (counts p1)\<rparr>
                      in putInClass p2 sz body c cio wio))))"

definition poolRead :: "pool \<Rightarrow> int \<Rightarrow> loc \<Rightarrow> bytes result" where
  "poolRead p sz l =
     (case map_of (classes p) sz of
        None \<Rightarrow> Inl (ErrMsg ''recordpool: unknown class for size'')
      | Some c \<Rightarrow> (case map_of (pages c) (Page l) of
            None \<Rightarrow> Inl (ErrMsg ''recordpool: unknown page for size'')
          | Some pg \<Rightarrow>
              (let f = mget0 [] (files p) (pg_file pg); off = nat (uint (Slot l) * sz) in
               if length f < off + nat sz then Inl (ErrMsg ''EOF'')
               else Inr (take (nat sz) (drop off f)))))"

definition poolFree :: "pool \<Rightarrow> int \<Rightarrow> loc \<Rightarrow> pool" where
  "poolFree p sz l =
     (case map_of (classes p) sz of
        None \<Rightarrow> p
      | Some c \<Rightarrow> freeLocked p sz c (Page l) (Slot l))"

section \<open>Page names\<close>

lemma takeWhile_digits_dec:
  "s \<noteq> [] \<Longrightarrow> \<not> is_digit (hd s) \<Longrightarrow>
     takeWhile is_digit (dec n @ s) = dec n \<and> dropWhile is_digit (dec n @ s) = s"
  by (cases s) (auto simp: takeWhile_append2 dropWhile_append2 dec_digits)

lemma pageNameRe_pageFileName:
  "pageNameRe (pageFileName sz pn) = Some (dec (nat sz), dec (unat pn))"
proof -
  let ?b = "dec (unat pn) @ ''.bin''"
  have a: "takeWhile is_digit (dec (nat sz) @ CHR ''.'' # CHR ''p'' # ?b) = dec (nat sz)"
    "dropWhile is_digit (dec (nat sz) @ CHR ''.'' # CHR ''p'' # ?b) = CHR ''.'' # CHR ''p'' # ?b"
    using takeWhile_digits_dec [of "CHR ''.'' # CHR ''p'' # ?b"] by (simp_all add: is_digit_def)
  have b: "takeWhile is_digit ?b = dec (unat pn)" "dropWhile is_digit ?b = ''.bin''"
    using takeWhile_digits_dec [of "''.bin''"] by (simp_all add: is_digit_def)
  show ?thesis by (simp add: pageNameRe_def pageFileName_def a b Let_def)
qed

lemma pageFileName_inj:
  assumes "0 < sz" "0 < sz'" "pageFileName sz pn = pageFileName sz' pn'"
  shows "sz = sz' \<and> pn = pn'"
proof -
  have "dec (nat sz) = dec (nat sz')" "dec (unat pn) = dec (unat pn')"
    using assms(3) pageNameRe_pageFileName [of sz pn] pageNameRe_pageFileName [of sz' pn'] by auto
  then have "nat sz = nat sz'" "unat pn = unat pn'"
    by (metis undec_dec)+
  with assms show ?thesis by (simp add: unsigned_word_eqI)
qed

lemma parse_pageFileName:
  assumes "0 < sz" "sz < 2 ^ 63"
  shows "parsePageName (pageFileName sz pn) = Some (sz, pn)"
proof -
  have "unat pn < 2 ^ 32" using unsigned_less [of pn, where ?'a = nat] by simp
  moreover have "nat sz < 2 ^ 63" using assms by (simp add: nat_less_iff)
  ultimately show ?thesis
    using assms by (simp add: parsePageName_def pageNameRe_pageFileName undec_dec)
qed

section \<open>Slots, files and the invariant\<close>

lemma set_allSlots: "set (allSlots cap) = {s. s < cap}"
proof (intro set_eqI iffI)
  fix s :: u32 assume "s \<in> {s. s < cap}"
  then have "s = of_nat (unat s)" "unat s < unat cap" by (simp_all add: word_less_nat_alt)
  then show "s \<in> set (allSlots cap)" by (force simp: allSlots_def)
qed (auto simp: allSlots_def word_less_nat_alt unat_of_nat intro: order.strict_trans1 [OF mod_less_eq_dividend])

lemma length_allSlots [simp]: "length (allSlots cap) = unat cap"
  by (simp add: allSlots_def)

lemma distinct_allSlots: "distinct (allSlots cap)"
proof -
  have "inj_on (of_nat :: nat \<Rightarrow> u32) {0..<unat cap}"
  proof (rule inj_onI)
    fix a b assume "a \<in> {0..<unat cap}" "b \<in> {0..<unat cap}" "(of_nat a :: u32) = of_nat b"
    moreover have "unat cap < 2 ^ 32" using unsigned_less [of cap, where ?'a = nat] by simp
    ultimately show "a = b" by (simp add: of_nat_inverse word_of_nat_eq_iff take_bit_eq_mod)
  qed
  then show ?thesis by (simp add: allSlots_def distinct_map)
qed

lemma card_slots: "card {s :: u32. s < cap} = unat cap"
  using distinct_card [OF distinct_allSlots [of cap]] by (simp add: set_allSlots)

text \<open>A duplicate-free list of slots below the capacity that is as long as the capacity lists
  every slot.\<close>

lemma slots_full:
  fixes cap :: u32
  assumes "distinct xs" "\<forall>s \<in> set xs. s < cap" "unat cap \<le> length xs"
  shows "set xs = {s. s < cap}"
proof (rule card_subset_eq)
  show "finite {s :: u32. s < cap}" by simp
  show "set xs \<subseteq> {s. s < cap}" using assms by auto
  then have "card (set xs) \<le> card {s :: u32. s < cap}" by (intro card_mono) simp_all
  moreover have "card (set xs) = length xs" using assms(1) by (rule distinct_card)
  ultimately show "card (set xs) = card {s. s < cap}"
    using assms(3) card_slots [of cap] by linarith
qed

lemma length_writeZeroes [simp]: "length (writeZeroes n) = nat n"
proof (induction n rule: writeZeroes.induct)
  case (1 n)
  then show ?case by (subst writeZeroes.simps) (auto simp: Let_def min_def)
qed

lemma length_write_at: "off + length b \<le> length f \<Longrightarrow> length (write_at off b f) = length f"
  by (simp add: write_at_def)

lemma write_at_same:
  "off + length b \<le> length f \<Longrightarrow> take (length b) (drop off (write_at off b f)) = b"
  by (simp add: write_at_def)

lemma write_at_other:
  assumes "off + length b \<le> length f" "o' + n \<le> off \<or> off + length b \<le> o'"
  shows "take n (drop o' (write_at off b f)) = take n (drop o' f)"
  using assms by (auto simp: write_at_def drop_append take_append min_def drop_take)

definition page_ok :: "pool \<Rightarrow> int \<Rightarrow> pclass \<Rightarrow> u32 \<Rightarrow> page \<Rightarrow> bool" where
  "page_ok p sz c pn pg =
     (pn \<noteq> 0 \<and> pn \<le> nextPage c \<and> distinct (pg_free pg) \<and>
      (\<forall>s \<in> set (pg_free pg). s < capacity c) \<and> pg_file pg = pageFileName sz pn \<and>
      (case map_of (files p) (pg_file pg) of
         None \<Rightarrow> False | Some f \<Rightarrow> length f = unat (capacity c) * nat sz))"

definition class_ok :: "pool \<Rightarrow> int \<Rightarrow> pclass \<Rightarrow> bool" where
  "class_ok p sz c =
     (0 < sz \<and> recordSize c = sz \<and> wf_map (pages c) \<and>
      (\<forall>(pn, pg) \<in> set (pages c). page_ok p sz c pn pg))"

text \<open>
  The pool invariant: every class holds pages with positive numbers up to \<open>nextPage\<close>, each backed
  by a file of exactly \<open>capacity\<close> records under the page's own name, with a duplicate-free free
  list of slots in range.
\<close>

definition pool_ok :: "pool \<Rightarrow> bool" where
  "pool_ok p =
     (wf_map (classes p) \<and> wf_map (files p) \<and> (\<forall>(sz, c) \<in> set (classes p). class_ok p sz c))"

text \<open>A location is allocated when its page exists and its slot is in range and not free.\<close>

definition allocated :: "pool \<Rightarrow> int \<Rightarrow> loc \<Rightarrow> bool" where
  "allocated p sz l =
     (case map_of (classes p) sz of
        None \<Rightarrow> False
      | Some c \<Rightarrow> (case map_of (pages c) (Page l) of
            None \<Rightarrow> False
          | Some pg \<Rightarrow> Slot l < capacity c \<and> Slot l \<notin> set (pg_free pg)))"

lemma pool_okD:
  assumes "pool_ok p" "map_of (classes p) sz = Some c"
  shows "class_ok p sz c"
  using assms map_of_SomeD by (fastforce simp: pool_ok_def)

lemma class_okD:
  assumes "class_ok p sz c" "map_of (pages c) pn = Some pg"
  shows "page_ok p sz c pn pg"
  using assms map_of_SomeD by (fastforce simp: class_ok_def)

lemma page_okD:
  assumes "pool_ok p" "map_of (classes p) sz = Some c" "map_of (pages c) pn = Some pg"
  shows "page_ok p sz c pn pg"
  using pool_okD [OF assms(1,2)] assms(3) by (rule class_okD)

lemma page_ok_file:
  assumes "page_ok p sz c pn pg"
  obtains f where "map_of (files p) (pageFileName sz pn) = Some f"
    "length f = unat (capacity c) * nat sz"
  using assms by (auto simp: page_ok_def split: option.splits)


lemma pool_ok_iff:
  "pool_ok p \<longleftrightarrow> wf_map (classes p) \<and> wf_map (files p) \<and>
     (\<forall>sz c. map_of (classes p) sz = Some c \<longrightarrow> class_ok p sz c)"
  by (auto simp: pool_ok_def wf_map_all)

lemma class_ok_iff:
  "class_ok p sz c \<longleftrightarrow> 0 < sz \<and> recordSize c = sz \<and> wf_map (pages c) \<and>
     (\<forall>pn pg. map_of (pages c) pn = Some pg \<longrightarrow> page_ok p sz c pn pg)"
  by (auto simp: class_ok_def wf_map_all)

text \<open>The bytes a slot stands for, read straight from the page's file.\<close>

definition slotBytes :: "pool \<Rightarrow> int \<Rightarrow> loc \<Rightarrow> bytes" where
  "slotBytes p sz l =
     take (nat sz) (drop (unat (Slot l) * nat sz)
       (mget0 [] (files p) (pageFileName sz (Page l))))"

lemma allocatedE:
  assumes "pool_ok p" "allocated p sz l"
  obtains c pg f where "map_of (classes p) sz = Some c" "map_of (pages c) (Page l) = Some pg"
    "Slot l < capacity c" "Slot l \<notin> set (pg_free pg)" "pg_file pg = pageFileName sz (Page l)"
    "map_of (files p) (pageFileName sz (Page l)) = Some f"
    "length f = unat (capacity c) * nat sz" "0 < sz" "class_ok p sz c" "page_ok p sz c (Page l) pg"
proof -
  obtain c pg where c: "map_of (classes p) sz = Some c" "map_of (pages c) (Page l) = Some pg"
    "Slot l < capacity c" "Slot l \<notin> set (pg_free pg)"
    using assms(2) by (auto simp: allocated_def split: option.splits)
  have k: "class_ok p sz c" using assms(1) c(1) by (rule pool_okD)
  have q: "page_ok p sz c (Page l) pg" using k c(2) by (rule class_okD)
  obtain f where f: "map_of (files p) (pageFileName sz (Page l)) = Some f"
    "length f = unat (capacity c) * nat sz" using q by (rule page_ok_file)
  have "pg_file pg = pageFileName sz (Page l)" using q by (simp add: page_ok_def)
  moreover have "0 < sz" using k by (simp add: class_ok_def)
  ultimately show thesis using c f k q that by blast
qed

lemma slot_offset: "0 < sz \<Longrightarrow> nat (uint (s :: u32) * sz) = unat s * nat sz"
  by (simp add: nat_mult_distrib)

lemma slot_fits:
  assumes "(s :: u32) < cap"
  shows "unat s * n + n \<le> unat cap * n"
proof -
  have "Suc (unat s) \<le> unat cap" using assms by (simp add: word_less_nat_alt)
  then have "Suc (unat s) * n \<le> unat cap * n" by (rule mult_le_mono1)
  then show ?thesis by simp
qed

lemma slot_apart:
  assumes "(s :: u32) \<noteq> s'"
  shows "unat s' * n + n \<le> unat s * n \<or> unat s * n + n \<le> unat s' * n"
proof -
  have "unat s \<noteq> unat s'" using assms by (metis unsigned_word_eqI)
  then have "Suc (unat s') \<le> unat s \<or> Suc (unat s) \<le> unat s'" by linarith
  then have "Suc (unat s') * n \<le> unat s * n \<or> Suc (unat s) * n \<le> unat s' * n"
    using mult_le_mono1 by blast
  then show ?thesis by (simp add: add.commute)
qed

lemma poolRead_allocated:
  assumes "pool_ok p" "allocated p sz l"
  shows "poolRead p sz l = Inr (slotBytes p sz l)" and "length (slotBytes p sz l) = nat sz"
proof -
  obtain c pg f where c: "map_of (classes p) sz = Some c" "map_of (pages c) (Page l) = Some pg"
    "Slot l < capacity c" "pg_file pg = pageFileName sz (Page l)"
    "map_of (files p) (pageFileName sz (Page l)) = Some f"
    "length f = unat (capacity c) * nat sz" "0 < sz"
    using allocatedE [OF assms] by metis
  have "unat (Slot l) * nat sz + nat sz \<le> length f" using c(3,6) slot_fits by simp
  then show "poolRead p sz l = Inr (slotBytes p sz l)" "length (slotBytes p sz l) = nat sz"
    using c by (simp_all add: poolRead_def slotBytes_def mget0_def slot_offset Let_def)
qed

section \<open>Free\<close>

text \<open>Replacing one class by a class that is well-formed in the new state keeps the pool
  well-formed, when the files of the other pages are untouched.\<close>

lemma page_ok_cong:
  assumes "page_ok p sz c pn pg" "capacity c' = capacity c" "nextPage c \<le> nextPage c'"
    "map_of (files p') (pageFileName sz pn) = map_of (files p) (pageFileName sz pn)"
  shows "page_ok p' sz c' pn pg"
  using assms by (auto simp: page_ok_def split: option.splits)

lemma class_ok_frame:
  assumes "class_ok p sz c"
    "\<And>pn. map_of (pages c) pn \<noteq> None \<Longrightarrow>
       map_of (files p') (pageFileName sz pn) = map_of (files p) (pageFileName sz pn)"
  shows "class_ok p' sz c"
  using assms page_ok_cong [of p sz c _ _ c p'] by (auto simp: class_ok_iff)

lemma class_ok_set_page:
  assumes k: "class_ok p sz c"
    and c': "recordSize c' = recordSize c" "capacity c' = capacity c" "nextPage c \<le> nextPage c'"
      "wf_map (pages c')"
    and pn: "\<And>pg. map_of (pages c') pn = Some pg \<Longrightarrow> page_ok p' sz c' pn pg"
    and other: "\<And>n. n \<noteq> pn \<Longrightarrow> map_of (pages c') n = map_of (pages c) n"
      "\<And>n. n \<noteq> pn \<Longrightarrow> map_of (pages c) n \<noteq> None \<Longrightarrow>
         map_of (files p') (pageFileName sz n) = map_of (files p) (pageFileName sz n)"
  shows "class_ok p' sz c'"
  unfolding class_ok_iff
proof (intro conjI allI impI)
  show "0 < sz" "recordSize c' = sz" "wf_map (pages c')" using k c' by (simp_all add: class_ok_def)
  fix n pg assume h: "map_of (pages c') n = Some pg"
  show "page_ok p' sz c' n pg"
  proof (cases "n = pn")
    case True
    then show ?thesis using h pn by simp
  next
    case False
    then have n: "map_of (pages c) n = Some pg" using h other(1) by simp
    with k have "page_ok p sz c n pg" by (rule class_okD)
    then show ?thesis
      by (rule page_ok_cong) (use c' other(2) [OF False] n in simp_all)
  qed
qed

lemma pool_ok_set_class:
  assumes "pool_ok p" "class_ok p' sz c'" "classes p' = AList.update sz c' (classes p)"
    "wf_map (files p')"
    "\<And>sz' pn. 0 < sz' \<Longrightarrow> sz' \<noteq> sz \<Longrightarrow>
       map_of (files p') (pageFileName sz' pn) = map_of (files p) (pageFileName sz' pn)"
  shows "pool_ok p'"
  unfolding pool_ok_iff
proof (intro conjI allI impI)
  show "wf_map (classes p')" "wf_map (files p')" using assms by (auto simp: pool_ok_def)
  fix s c assume h: "map_of (classes p') s = Some c"
  show "class_ok p' s c"
  proof (cases "s = sz")
    case True
    then show ?thesis using h assms(2,3) by simp
  next
    case False
    then have k: "class_ok p s c" using h assms(1,3) by (simp add: pool_ok_iff)
    then have "0 < s" by (simp add: class_ok_def)
    with k show ?thesis using assms(5) False class_ok_frame [of p s c p'] by blast
  qed
qed

lemma freeLocked_keep:
  assumes ok: "pool_ok p" and c: "map_of (classes p) sz = Some c" "map_of (pages c) pn = Some pg"
    and s: "slot < capacity c" "slot \<notin> set (pg_free pg)"
    and room: "Suc (length (pg_free pg)) < unat (capacity c)"
  shows "pool_ok (freeLocked p sz c pn slot)"
    and "allocated (freeLocked p sz c pn slot) s' l' \<longleftrightarrow>
           allocated p s' l' \<and> (s', l') \<noteq> (sz, \<lparr>Page = pn, Slot = slot\<rparr>)"
    and "files (freeLocked p sz c pn slot) = files p"
proof -
  let ?pg = "pg\<lparr>pg_free := pg_free pg @ [slot]\<rparr>"
  let ?c = "c\<lparr>pages := AList.update pn ?pg (pages c)\<rparr>"
  let ?p = "p\<lparr>classes := AList.update sz ?c (classes p)\<rparr>"
  have e: "freeLocked p sz c pn slot = ?p"
    using c room by (simp add: freeLocked_def Let_def)
  have k: "class_ok p sz c" using ok c(1) by (rule pool_okD)
  have q: "page_ok p sz c pn pg" using k c(2) by (rule class_okD)
  have q': "page_ok ?p sz ?c pn ?pg" using q s by (auto simp: page_ok_def split: option.splits)
  have "class_ok ?p sz ?c"
  proof (rule class_ok_set_page [OF k, where pn = pn])
    show "wf_map (pages ?c)" using k by (simp add: class_ok_def)
  qed (use q' in simp_all)
  then show "pool_ok (freeLocked p sz c pn slot)"
    unfolding e by (rule pool_ok_set_class [OF ok]) (use ok in \<open>simp_all add: pool_ok_def\<close>)
  show "files (freeLocked p sz c pn slot) = files p" by (simp add: e)
  show "allocated (freeLocked p sz c pn slot) s' l' \<longleftrightarrow>
          allocated p s' l' \<and> (s', l') \<noteq> (sz, \<lparr>Page = pn, Slot = slot\<rparr>)"
    unfolding e using c s by (cases l') (auto simp: allocated_def split: option.splits)
qed


text \<open>When the freed slot was the last one in use, the page goes and with it its file.\<close>

lemma freeLocked_drop:
  assumes ok: "pool_ok p" and c: "map_of (classes p) sz = Some c" "map_of (pages c) pn = Some pg"
    and s: "slot < capacity c" "slot \<notin> set (pg_free pg)"
    and full: "\<not> Suc (length (pg_free pg)) < unat (capacity c)"
  shows "pool_ok (freeLocked p sz c pn slot)"
    and "allocated (freeLocked p sz c pn slot) s' l' \<longleftrightarrow>
           allocated p s' l' \<and> (s', l') \<noteq> (sz, \<lparr>Page = pn, Slot = slot\<rparr>)"
    and "files (freeLocked p sz c pn slot) = AList.delete (pageFileName sz pn) (files p)"
    and "allocated p sz \<lparr>Page = pn, Slot = s2\<rparr> \<Longrightarrow> s2 = slot"
proof -
  let ?c = "c\<lparr>pages := AList.delete pn (pages c)\<rparr>"
  let ?p = "p\<lparr>classes := AList.update sz ?c (classes p),
              files := AList.delete (pageFileName sz pn) (files p)\<rparr>"
  have k: "class_ok p sz c" using ok c(1) by (rule pool_okD)
  then have sz: "recordSize c = sz" "0 < sz" by (simp_all add: class_ok_def)
  have e: "freeLocked p sz c pn slot = ?p"
    using c full sz by (simp add: freeLocked_def Let_def)
  have q: "page_ok p sz c pn pg" using k c(2) by (rule class_okD)
  have "set (pg_free pg @ [slot]) = {x. x < capacity c}"
    using q s full by (intro slots_full) (auto simp: page_ok_def)
  then have only: "x < capacity c \<Longrightarrow> x \<notin> set (pg_free pg) \<Longrightarrow> x = slot" for x by auto
  show "s2 = slot" if "allocated p sz \<lparr>Page = pn, Slot = s2\<rparr>"
    using that c only by (simp add: allocated_def)
  have "class_ok ?p sz ?c"
  proof (rule class_ok_set_page [OF k, where pn = pn])
    show "wf_map (pages ?c)" using k by (simp add: class_ok_def)
    fix n assume "n \<noteq> pn"
    then show "map_of (files ?p) (pageFileName sz n) = map_of (files p) (pageFileName sz n)"
      using pageFileName_inj [of sz sz pn n] sz by auto
  qed simp_all
  then show "pool_ok (freeLocked p sz c pn slot)"
    unfolding e
  proof (rule pool_ok_set_class [OF ok])
    fix s' :: int and n assume "0 < s'" "s' \<noteq> sz"
    then show "map_of (files ?p) (pageFileName s' n) = map_of (files p) (pageFileName s' n)"
      using pageFileName_inj [of sz s' pn n] sz by auto
  qed (use ok in \<open>simp_all add: pool_ok_def\<close>)
  show "files (freeLocked p sz c pn slot) = AList.delete (pageFileName sz pn) (files p)"
    by (simp add: e)
  show "allocated (freeLocked p sz c pn slot) s' l' \<longleftrightarrow>
          allocated p s' l' \<and> (s', l') \<noteq> (sz, \<lparr>Page = pn, Slot = slot\<rparr>)"
    unfolding e using c only by (cases l') (auto simp: allocated_def split: option.splits)
qed

text \<open>Giving back an allocated slot: the invariant is kept, exactly this location stops being
  allocated, and every other record reads as before.\<close>

lemma freeLocked_spec:
  assumes ok: "pool_ok p" and a: "allocated p sz l" and c: "map_of (classes p) sz = Some c"
  shows "pool_ok (freeLocked p sz c (Page l) (Slot l))"
    and "allocated (freeLocked p sz c (Page l) (Slot l)) s' l' \<longleftrightarrow>
           allocated p s' l' \<and> (s', l') \<noteq> (sz, l)"
    and "allocated p s' l' \<Longrightarrow> (s', l') \<noteq> (sz, l) \<Longrightarrow>
           slotBytes (freeLocked p sz c (Page l) (Slot l)) s' l' = slotBytes p s' l'"
proof -
  obtain pg where pg: "map_of (pages c) (Page l) = Some pg" "Slot l < capacity c"
    "Slot l \<notin> set (pg_free pg)"
    using allocatedE [OF ok a] c by (metis option.inject)
  note keep = freeLocked_keep [OF ok c pg] and drop = freeLocked_drop [OF ok c pg]
  show "pool_ok (freeLocked p sz c (Page l) (Slot l))"
    using keep(1) drop(1) by blast
  show "allocated (freeLocked p sz c (Page l) (Slot l)) s' l' \<longleftrightarrow>
          allocated p s' l' \<and> (s', l') \<noteq> (sz, l)"
    using keep(2) drop(2) by (cases l) fastforce
  assume a': "allocated p s' l'" "(s', l') \<noteq> (sz, l)"
  have pos: "0 < sz" "0 < s'" using allocatedE [OF ok a] allocatedE [OF ok a'(1)] by blast+
  show "slotBytes (freeLocked p sz c (Page l) (Slot l)) s' l' = slotBytes p s' l'"
  proof (cases "Suc (length (pg_free pg)) < unat (capacity c)")
    case True
    then show ?thesis using keep(3) by (simp add: slotBytes_def)
  next
    case False
    have "pageFileName s' (Page l') \<noteq> pageFileName sz (Page l)"
    proof
      assume "pageFileName s' (Page l') = pageFileName sz (Page l)"
      then have e: "s' = sz" "Page l' = Page l" using pageFileName_inj pos by blast+
      then have "Slot l' = Slot l" using drop(4) [OF False, of "Slot l'"] a'(1) by (cases l') simp
      then show False using a'(2) e by simp
    qed
    then show ?thesis using drop(3) [OF False] by (simp add: slotBytes_def mget0_def)
  qed
qed

lemma poolFree_allocated:
  assumes "pool_ok p" "allocated p sz l"
  shows "pool_ok (poolFree p sz l)"
    and "allocated (poolFree p sz l) s' l' \<longleftrightarrow> allocated p s' l' \<and> (s', l') \<noteq> (sz, l)"
    and "allocated p s' l' \<Longrightarrow> (s', l') \<noteq> (sz, l) \<Longrightarrow>
           poolRead (poolFree p sz l) s' l' = poolRead p s' l'"
proof -
  obtain c where c: "map_of (classes p) sz = Some c" using allocatedE [OF assms] by metis
  have e: "poolFree p sz l = freeLocked p sz c (Page l) (Slot l)"
    using c by (simp add: poolFree_def)
  note f = freeLocked_spec [OF assms c]
  show ok': "pool_ok (poolFree p sz l)" unfolding e by (rule f(1))
  show al: "allocated (poolFree p sz l) s' l' \<longleftrightarrow> allocated p s' l' \<and> (s', l') \<noteq> (sz, l)"
    unfolding e by (rule f(2))
  assume a: "allocated p s' l'" "(s', l') \<noteq> (sz, l)"
  have a2: "allocated (poolFree p sz l) s' l'" using a al by blast
  show "poolRead (poolFree p sz l) s' l' = poolRead p s' l'"
    using poolRead_allocated(1) [OF assms(1) a(1)] poolRead_allocated(1) [OF ok' a2] f(3) [OF a]
    by (simp add: e)
qed


section \<open>Allocation\<close>

lemma u32_succ: "(m :: u32) < m + 1 \<longleftrightarrow> m \<noteq> - 1"
  by (simp add: inc_less_eq_self_iff_eq flip: not_le)

lemma u32_succ_trans: "(m :: u32) < m + 1 \<Longrightarrow> n \<le> m \<Longrightarrow> n < n + 1"
  unfolding u32_succ by (metis max_word_max antisym)

definition scan_post :: "pclass \<Rightarrow> u32 option \<Rightarrow> bool" where
  "scan_post c r =
     (case r of Some n \<Rightarrow> (\<exists>pg. map_of (pages c) n = Some pg \<and> pg_free pg \<noteq> [])
      | None \<Rightarrow> nextPage c < nextPage c + 1)"

lemma allocScan_result:
  assumes "allocScan c pn = Some r"
  shows "scan_post c r"
proof (rule allocScan.raw_induct [where P = "\<lambda>c pn r. scan_post c r", OF _ assms])
  fix f c pn r
  assume ih: "\<And>c pn r. f c pn = Some r \<Longrightarrow> scan_post c r"
    and e: "(if pn \<le> nextPage c then
        case map_of (pages c) pn of None \<Rightarrow> f c (pn + 1)
        | Some pg \<Rightarrow> if pg_free pg = [] then f c (pn + 1) else Some (Some pn)
      else Some None) = Some r"
  show "scan_post c r"
  proof (cases "pn \<le> nextPage c")
    case True
    then show ?thesis using e ih [of c "pn + 1" r]
      by (auto simp: scan_post_def split: if_splits option.splits)
  next
    case False
    then have "nextPage c \<noteq> - 1" using max_word_max [of pn] by metis
    then show ?thesis using False e by (auto simp: u32_succ scan_post_def)
  qed
qed

lemma allocScan_terminates:
  assumes "nextPage c < nextPage c + 1"
  shows "\<exists>r. allocScan c pn = Some r"
proof (induction "unat (nextPage c + 1) - unat pn" arbitrary: pn rule: less_induct)
  case less
  show ?case
  proof (cases "pn \<le> nextPage c")
    case True
    then have "unat pn < unat (nextPage c + 1)" "unat pn < unat (pn + 1)"
      using assms u32_succ_trans [of "nextPage c" pn]
      by (simp_all add: word_less_nat_alt word_le_nat_alt)
    then have "unat (nextPage c + 1) - unat (pn + 1) < unat (nextPage c + 1) - unat pn"
      by linarith
    from less [OF this] show ?thesis
      by (subst allocScan.simps) (auto split: option.splits)
  next
    case False
    then show ?thesis by (subst allocScan.simps) simp
  qed
qed


text \<open>
  \<open>moves p p' A\<close>: the step from \<open>p\<close> to \<open>p'\<close> keeps the invariant, leaves exactly the locations \<open>A\<close>
  allocated, and the records allocated before and after have the same bytes.
\<close>

definition alloc_set :: "pool \<Rightarrow> (int \<times> loc) set" where
  "alloc_set p = {(sz, l). allocated p sz l}"

definition moves :: "pool \<Rightarrow> pool \<Rightarrow> (int \<times> loc) set \<Rightarrow> bool" where
  "moves p p' A =
     (pool_ok p' \<and> alloc_set p' = A \<and>
      (\<forall>sz l. allocated p sz l \<longrightarrow> (sz, l) \<in> A \<longrightarrow> slotBytes p' sz l = slotBytes p sz l))"

lemma in_alloc_set [simp]: "(sz, l) \<in> alloc_set p \<longleftrightarrow> allocated p sz l"
  by (simp add: alloc_set_def)

lemma moves_ok: "moves p p' A \<Longrightarrow> pool_ok p'"
  by (simp add: moves_def)

lemma moves_refl: "pool_ok p \<Longrightarrow> moves p p (alloc_set p)"
  by (simp add: moves_def)

lemma moves_alloc: "moves p p' A \<Longrightarrow> alloc_set p' = A"
  by (simp add: moves_def)

lemma moves_trans:
  assumes "moves p p' A" "moves p' p'' B" "alloc_set p \<inter> B \<subseteq> A"
  shows "moves p p'' B"
  unfolding moves_def
proof (intro conjI allI impI)
  show "pool_ok p''" "alloc_set p'' = B" using assms(2) by (simp_all add: moves_def)
  fix sz l assume a: "allocated p sz l" "(sz, l) \<in> B"
  then have "(sz, l) \<in> A" using assms(3) by auto
  then have "allocated p' sz l" "slotBytes p' sz l = slotBytes p sz l"
    using assms(1) a by (auto simp: moves_def)
  then show "slotBytes p'' sz l = slotBytes p sz l" using assms(2) a by (auto simp: moves_def)
qed

lemma moves_read:
  assumes "pool_ok p" "moves p p' A" "allocated p sz l" "(sz, l) \<in> A"
  shows "allocated p' sz l" "poolRead p' sz l = poolRead p sz l"
proof -
  show a: "allocated p' sz l" using moves_alloc [OF assms(2)] assms(4) by (metis in_alloc_set)
  have "slotBytes p' sz l = slotBytes p sz l" using assms by (auto simp: moves_def)
  then show "poolRead p' sz l = poolRead p sz l"
    using poolRead_allocated(1) [OF assms(1,3)] poolRead_allocated(1) [OF moves_ok [OF assms(2)] a]
    by simp
qed

lemma freeLocked_moves:
  assumes "pool_ok p" "allocated p sz l" "map_of (classes p) sz = Some c"
  shows "moves p (freeLocked p sz c (Page l) (Slot l)) (alloc_set p - {(sz, l)})"
  using freeLocked_spec [OF assms] by (auto simp: moves_def alloc_set_def)

lemma takeSlot_moves:
  assumes ok: "pool_ok p" and c: "map_of (classes p) sz = Some c" "map_of (pages c) pn = Some pg"
    and ne: "pg_free pg \<noteq> []"
  obtains p' c' pg' where
    "takeSlot p sz c pn pg = (Inr (pn, last (pg_free pg)), p')"
    "moves p p' (insert (sz, \<lparr>Page = pn, Slot = last (pg_free pg)\<rparr>) (alloc_set p))"
    "\<not> allocated p sz \<lparr>Page = pn, Slot = last (pg_free pg)\<rparr>" "last (pg_free pg) < capacity c"
    "map_of (classes p') sz = Some c'" "map_of (pages c') pn = Some pg'"
    "pg_file pg' = pageFileName sz pn" "capacity c' = capacity c" "files p' = files p"
proof -
  let ?pg = "pg\<lparr>pg_free := butlast (pg_free pg)\<rparr>"
  let ?c = "c\<lparr>pages := AList.update pn ?pg (pages c)\<rparr>"
  let ?p = "p\<lparr>classes := AList.update sz ?c (classes p)\<rparr>"
  let ?s = "last (pg_free pg)"
  have k: "class_ok p sz c" using ok c(1) by (rule pool_okD)
  have q: "page_ok p sz c pn pg" using k c(2) by (rule class_okD)
  have d: "distinct (butlast (pg_free pg))" "?s \<notin> set (butlast (pg_free pg))"
    using q butlast_last_split(2) [OF ne] by (simp_all add: page_ok_def)
  have s: "?s < capacity c" using q ne by (simp add: page_ok_def)
  have mem: "x \<in> set (pg_free pg) \<longleftrightarrow> x = ?s \<or> x \<in> set (butlast (pg_free pg))" for x
    using butlast_last_split(1) [OF ne] by auto
  have q': "page_ok ?p sz ?c pn ?pg"
    using q d by (auto simp: page_ok_def mem split: option.splits)
  have "class_ok ?p sz ?c"
  proof (rule class_ok_set_page [OF k, where pn = pn])
    show "wf_map (pages ?c)" using k by (simp add: class_ok_def)
  qed (use q' in simp_all)
  then have "pool_ok ?p"
    by (rule pool_ok_set_class [OF ok]) (use ok in \<open>simp_all add: pool_ok_def\<close>)
  moreover have "allocated ?p s' l' \<longleftrightarrow>
      allocated p s' l' \<or> (s', l') = (sz, \<lparr>Page = pn, Slot = ?s\<rparr>)" for s' l'
    using c d(2) s by (cases l') (auto simp: allocated_def mem split: option.splits)
  ultimately have "moves p ?p (insert (sz, \<lparr>Page = pn, Slot = ?s\<rparr>) (alloc_set p))"
    by (auto simp: moves_def alloc_set_def slotBytes_def)
  moreover have "\<not> allocated p sz \<lparr>Page = pn, Slot = ?s\<rparr>"
    using c ne by (simp add: allocated_def)
  moreover have "pg_file ?pg = pageFileName sz pn" using q by (simp add: page_ok_def)
  ultimately show thesis
    using that [of ?p ?c ?pg] ne s by (simp add: takeSlot_def)
qed


text \<open>Adding a fresh page, all of whose slots are free.\<close>

lemma createPage_moves:
  assumes ok: "pool_ok p" and c: "map_of (classes p) sz = Some c"
    and np: "nextPage c < nextPage c + 1"
    and c2: "c2 = c\<lparr>nextPage := nextPage c + 1, pages := AList.update (nextPage c + 1)
        \<lparr>pg_file = pageFileName sz (nextPage c + 1), pg_free = allSlots (capacity c)\<rparr> (pages c)\<rparr>"
    and p2: "p2 = p\<lparr>writeSeq := n, classes := AList.update sz c2 (classes p),
        files := AList.update (pageFileName sz (nextPage c + 1))
                   (writeZeroes (uint (capacity c) * sz)) (files p)\<rparr>"
  shows "moves p p2 (alloc_set p)"
proof -
  let ?np = "nextPage c + 1"
  have k: "class_ok p sz c" using ok c by (rule pool_okD)
  then have sz: "0 < sz" by (simp add: class_ok_def)
  have fresh: "map_of (pages c) ?np = None"
  proof (cases "map_of (pages c) ?np")
    case (Some pg)
    then have "?np \<le> nextPage c" using class_okD [OF k] by (simp add: page_ok_def)
    with np show ?thesis by (simp flip: not_le)
  qed simp
  have np0: "?np \<noteq> 0" using np by auto
  have apart: "0 < s' \<Longrightarrow> (s', m) \<noteq> (sz, ?np) \<Longrightarrow>
      map_of (files p2) (pageFileName s' m) = map_of (files p) (pageFileName s' m)" for s' m
    using pageFileName_inj [OF sz, of s' ?np m] by (auto simp: p2)
  have "class_ok p2 sz c2"
  proof (rule class_ok_set_page [OF k, where pn = ?np])
    fix pg assume "map_of (pages c2) ?np = Some pg"
    then show "page_ok p2 sz c2 ?np pg"
      using np0 slot_offset [OF sz, of "capacity c"]
      by (auto simp: c2 p2 page_ok_def distinct_allSlots set_allSlots)
  next
    show "wf_map (pages c2)" using k by (simp add: c2 class_ok_def)
  qed (use np sz apart in \<open>auto simp: c2\<close>)
  then have "pool_ok p2"
    by (rule pool_ok_set_class [OF ok]) (use ok sz apart in \<open>auto simp: p2 pool_ok_def\<close>)
  moreover have "allocated p2 s' l' \<longleftrightarrow> allocated p s' l'" for s' l'
    using c fresh by (auto simp: p2 c2 allocated_def set_allSlots split: option.splits)
  moreover have "slotBytes p2 s' l' = slotBytes p s' l'" if a: "allocated p s' l'" for s' l'
  proof -
    have "0 < s'" using allocatedE [OF ok a] by blast
    moreover have "(s', Page l') \<noteq> (sz, ?np)" using a c fresh by (auto simp: allocated_def)
    ultimately show ?thesis using apart by (simp add: slotBytes_def mget0_def)
  qed
  ultimately show ?thesis by (auto simp: moves_def alloc_set_def)
qed

lemma pool_ok_writeSeq: "pool_ok p \<Longrightarrow> moves p (p\<lparr>writeSeq := n\<rparr>) (alloc_set p)"
  by (auto simp: moves_def pool_ok_def class_ok_def page_ok_def alloc_set_def allocated_def
    slotBytes_def)


lemma fresh_file_moves:
  assumes ok: "pool_ok p" and c: "map_of (classes p) sz = Some c" and sz: "0 < sz"
    and np: "nextPage c < np"
  shows "moves p (p\<lparr>writeSeq := n, files := AList.update (pageFileName sz np) f (files p)\<rparr>)
    (alloc_set p)"
proof -
  let ?p = "p\<lparr>writeSeq := n, files := AList.update (pageFileName sz np) f (files p)\<rparr>"
  have fresh: "map_of (pages c) np = None"
  proof (cases "map_of (pages c) np")
    case (Some pg)
    then have "np \<le> nextPage c" using page_okD [OF ok c] by (simp add: page_ok_def)
    with np show ?thesis by (simp flip: not_le)
  qed simp
  have apart: "map_of (files ?p) (pageFileName s' m) = map_of (files p) (pageFileName s' m)"
    if "map_of (classes p) s' = Some c'" "map_of (pages c') m \<noteq> None" for s' c' m
  proof -
    have "(s', m) \<noteq> (sz, np)" using that c fresh by auto
    moreover have "0 < s'" using pool_okD [OF ok that(1)] by (simp add: class_ok_def)
    ultimately show ?thesis using pageFileName_inj [OF sz, of s' np m] by auto
  qed
  have "pool_ok ?p"
    unfolding pool_ok_iff
  proof (intro conjI allI impI)
    fix s' c' assume h: "map_of (classes ?p) s' = Some c'"
    then have "class_ok p s' c'" using ok by (simp add: pool_ok_iff)
    then show "class_ok ?p s' c'" using h apart by (intro class_ok_frame [of p s' c' ?p]) auto
  qed (use ok in \<open>simp_all add: pool_ok_def\<close>)
  moreover have "slotBytes ?p s' l' = slotBytes p s' l'" if a: "allocated p s' l'" for s' l'
    using allocatedE [OF ok a] apart [of s' _ "Page l'"]
    by (metis mget0_def option.distinct(1) slotBytes_def)
  ultimately show ?thesis by (auto simp: moves_def alloc_set_def allocated_def)
qed

text \<open>What an allocation leaves behind, on success and on every failure.\<close>

definition alloc_post :: "pool \<Rightarrow> int \<Rightarrow> (u32 \<times> u32) result \<times> pool \<Rightarrow> bool" where
  "alloc_post p sz r =
     (case r of
        (Inl e, p') \<Rightarrow> moves p p' (alloc_set p)
      | (Inr (pn, slot), p') \<Rightarrow>
          moves p p' (insert (sz, \<lparr>Page = pn, Slot = slot\<rparr>) (alloc_set p)) \<and>
          \<not> allocated p sz \<lparr>Page = pn, Slot = slot\<rparr> \<and> pn \<noteq> 0)"

lemma takeSlot_post:
  assumes ok: "pool_ok p" and c: "map_of (classes p) sz = Some c" "map_of (pages c) pn = Some pg"
  shows "alloc_post p sz (takeSlot p sz c pn pg)"
proof (cases "pg_free pg = []")
  case True
  have "AList.update sz c (classes p) = classes p" using c(1) by (rule update_triv)
  then show ?thesis using True ok by (simp add: takeSlot_def alloc_post_def moves_refl)
next
  case False
  have "pn \<noteq> 0" using page_okD [OF ok c] by (simp add: page_ok_def)
  then show ?thesis by (rule_tac takeSlot_moves [OF ok c False]) (simp add: alloc_post_def)
qed


lemma alloc_post_before:
  assumes "moves p p1 (alloc_set p)" "alloc_post p1 sz r"
  shows "alloc_post p sz r"
proof -
  have a: "allocated p1 s l \<longleftrightarrow> allocated p s l" for s l
    using moves_alloc [OF assms(1)] by (metis in_alloc_set)
  obtain x p' where r: "r = (x, p')" by (cases r)
  have e: "alloc_set p1 = alloc_set p" by (rule moves_alloc [OF assms(1)])
  show ?thesis
  proof (cases x)
    case (Inl e)
    then have "moves p1 p' (alloc_set p)" using assms(2) r e by (simp add: alloc_post_def)
    with assms(1) have "moves p p' (alloc_set p)" by (rule moves_trans) simp
    then show ?thesis using Inl r by (simp add: alloc_post_def)
  next
    case (Inr ps)
    obtain pn s where ps: "ps = (pn, s)" by (cases ps)
    let ?A = "insert (sz, \<lparr>Page = pn, Slot = s\<rparr>) (alloc_set p)"
    have h: "moves p1 p' ?A" "\<not> allocated p sz \<lparr>Page = pn, Slot = s\<rparr>" "pn \<noteq> 0"
      using assms(2) r Inr ps e a by (simp_all add: alloc_post_def)
    have "moves p p' ?A" using assms(1) h(1) by (rule moves_trans) (use h(2) in auto)
    then show ?thesis using h Inr r ps by (simp add: alloc_post_def)
  qed
qed

lemma takeSlot_classes_irrelevant:
  "takeSlot (p\<lparr>classes := AList.update sz x (classes p)\<rparr>) sz c pn pg = takeSlot p sz c pn pg"
  by (simp add: takeSlot_def)

lemma allocateLocked_create:
  assumes ok: "pool_ok p" and c: "map_of (classes p) sz = Some c"
    and np: "nextPage c < nextPage c + 1" and scan: "allocScan c 1 = Some None"
  shows "alloc_post p sz (allocateLocked p sz c cio)"
proof -
  let ?np = "nextPage c + 1"
  let ?pg = "\<lparr>pg_file = pageFileName sz ?np, pg_free = allSlots (capacity c)\<rparr>"
  let ?c2 = "c\<lparr>nextPage := ?np, pages := AList.update ?np ?pg (pages c)\<rparr>"
  let ?p1 = "p\<lparr>writeSeq := Suc (writeSeq p),
      files := AList.update (pageFileName sz ?np)
                 (writeZeroes (uint (capacity c) * sz)) (files p)\<rparr>"
  let ?p2 = "?p1\<lparr>classes := AList.update sz ?c2 (classes ?p1)\<rparr>"
  have sz: "0 < sz" "recordSize c = sz" using pool_okD [OF ok c] by (simp_all add: class_ok_def)
  have size: "nat (uint (capacity c) * sz) = unat (capacity c) * nat sz"
    using sz by (simp add: slot_offset)
  have m2: "moves p ?p2 (alloc_set p)"
    by (rule createPage_moves [OF ok c np refl, of _ "Suc (writeSeq p)"]) simp
  have "alloc_post ?p2 sz (takeSlot ?p2 sz ?c2 ?np ?pg)"
    by (rule takeSlot_post) (use moves_ok [OF m2] in simp_all)
  then have t: "alloc_post p sz (takeSlot ?p1 sz ?c2 ?np ?pg)"
    unfolding takeSlot_classes_irrelevant using alloc_post_before [OF m2] by blast
  have w: "moves p (p\<lparr>writeSeq := n\<rparr>) (alloc_set p)" for n using ok by (rule pool_ok_writeSeq)
  have f: "moves p ?p1 (alloc_set p)" by (rule fresh_file_moves [OF ok c sz(1) np])
  have e: "allocateLocked p sz c cio =
      (case createPageLocked p (c\<lparr>nextPage := ?np\<rparr>) ?np cio of
         (Inl e, p') \<Rightarrow> (Inl e, p')
       | (Inr pg, p') \<Rightarrow>
           takeSlot p' sz (c\<lparr>nextPage := ?np, pages := AList.update ?np pg (pages c)\<rparr>) ?np pg)"
    by (simp add: allocateLocked_def scan Let_def)
  show ?thesis
    unfolding e createPageLocked_def
    using t w [of "Suc (writeSeq p)"] f moves_refl [OF ok]
    by (cases cio) (simp_all add: sz size alloc_post_def [of _ _ "(Inl _, _)"] Let_def)
qed

lemma allocateLocked_post:
  assumes ok: "pool_ok p" and c: "map_of (classes p) sz = Some c"
  shows "alloc_post p sz (allocateLocked p sz c cio)"
proof (cases "allocScan c 1")
  case None
  then show ?thesis using ok by (simp add: allocateLocked_def alloc_post_def moves_refl)
next
  case (Some r)
  show ?thesis
  proof (cases r)
    case None
    then have "allocScan c 1 = Some None" using Some by simp
    moreover from allocScan_result [OF this] have "nextPage c < nextPage c + 1"
      by (simp add: scan_post_def)
    ultimately show ?thesis using allocateLocked_create [OF ok c] by blast
  next
    case (Some pn)
    with \<open>allocScan c 1 = Some r\<close> allocScan_result [of c 1 r] obtain pg where
      "map_of (pages c) pn = Some pg" by (auto simp: scan_post_def)
    then show ?thesis
      using takeSlot_post [OF ok c] Some \<open>allocScan c 1 = Some r\<close> by (simp add: allocateLocked_def)
  qed
qed


section \<open>Writing a record\<close>

lemma write_slot:
  assumes ok: "pool_ok p" and a: "allocated p sz l" and b: "length b \<le> nat sz"
    and p2: "p2 = p\<lparr>files := AList.update (pageFileName sz (Page l))
        (write_at (unat (Slot l) * nat sz) b (mget0 [] (files p) (pageFileName sz (Page l))))
        (files p)\<rparr>"
  shows "pool_ok p2" and "alloc_set p2 = alloc_set p"
    and "allocated p s' l' \<Longrightarrow> (s', l') \<noteq> (sz, l) \<Longrightarrow> slotBytes p2 s' l' = slotBytes p s' l'"
    and "length b = nat sz \<Longrightarrow> slotBytes p2 sz l = b"
proof -
  let ?n = "pageFileName sz (Page l)" and ?off = "unat (Slot l) * nat sz"
  obtain c f where c: "map_of (classes p) sz = Some c" "Slot l < capacity c"
    "map_of (files p) ?n = Some f" "length f = unat (capacity c) * nat sz" "0 < sz"
    using allocatedE [OF ok a] by metis
  have fits: "?off + nat sz \<le> length f" using c slot_fits by simp
  then have fits_b: "?off + length b \<le> length f" using b by simp
  have files2: "map_of (files p2) x = (if x = ?n then Some (write_at ?off b f) else map_of (files p) x)"
    for x using c(3) by (simp add: p2 mget0_def)
  have len: "length (write_at ?off b f) = length f" using fits_b by (rule length_write_at)
  have page: "page_ok p2 s' c' m pg" if "page_ok p s' c' m pg" for s' c' m pg
    using that len c(3) by (auto simp: page_ok_def files2 split: option.splits)
  show "pool_ok p2"
    using ok page unfolding pool_ok_iff class_ok_iff by (simp add: p2)
  show "alloc_set p2 = alloc_set p" by (simp add: alloc_set_def allocated_def p2)
  show "slotBytes p2 sz l = b" if "length b = nat sz"
    using write_at_same [OF fits_b] that by (simp add: slotBytes_def mget0_def files2)
  assume a': "allocated p s' l'" "(s', l') \<noteq> (sz, l)"
  have "0 < s'" using allocatedE [OF ok a'(1)] by blast
  show "slotBytes p2 s' l' = slotBytes p s' l'"
  proof (cases "pageFileName s' (Page l') = ?n")
    case False
    then show ?thesis by (simp add: slotBytes_def mget0_def files2)
  next
    case True
    then have e: "s' = sz" "Page l' = Page l" using pageFileName_inj \<open>0 < s'\<close> c(5) by blast+
    then have "Slot l \<noteq> Slot l'" using a'(2) by auto
    from slot_apart [OF this, of "nat sz"] b
    have "unat (Slot l') * nat sz + nat sz \<le> ?off \<or> ?off + length b \<le> unat (Slot l') * nat sz"
      by linarith
    from write_at_other [OF fits_b this] show ?thesis
      using c(3) e by (simp add: slotBytes_def mget0_def files2)
  qed
qed

text \<open>A slot that was just taken can be written without touching any older record.\<close>

lemma alloc_write_moves:
  assumes m: "moves p p1 (insert (sz, l) (alloc_set p))" and new: "\<not> allocated p sz l"
    and b: "length b \<le> nat sz"
    and p2: "p2 = p1\<lparr>files := AList.update (pageFileName sz (Page l))
        (write_at (unat (Slot l) * nat sz) b (mget0 [] (files p1) (pageFileName sz (Page l))))
        (files p1)\<rparr>"
  shows "moves p p2 (insert (sz, l) (alloc_set p))"
    and "length b = nat sz \<Longrightarrow> poolRead p2 sz l = Inr b"
proof -
  have ok1: "pool_ok p1" using m by (rule moves_ok)
  have a1: "allocated p1 sz l" using moves_alloc [OF m] by (metis in_alloc_set insertI1)
  note w = write_slot [OF ok1 a1 b p2]
  have al: "alloc_set p2 = insert (sz, l) (alloc_set p)" using w(2) moves_alloc [OF m] by simp
  then have a2: "allocated p2 sz l" by (metis in_alloc_set insertI1)
  show "poolRead p2 sz l = Inr b" if "length b = nat sz"
    using poolRead_allocated(1) [OF w(1) a2] w(4) [OF that] by simp
  show "moves p p2 (insert (sz, l) (alloc_set p))"
    unfolding moves_def
  proof (intro conjI allI impI)
    fix s' l' assume a: "allocated p s' l'" "(s', l') \<in> insert (sz, l) (alloc_set p)"
    then have "(s', l') \<noteq> (sz, l)" using new by auto
    moreover have "allocated p1 s' l'" using a moves_alloc [OF m] by (metis in_alloc_set)
    moreover have "slotBytes p1 s' l' = slotBytes p s' l'" using m a by (auto simp: moves_def)
    ultimately show "slotBytes p2 s' l' = slotBytes p s' l'" using w(3) by simp
  qed (use w(1) al in simp_all)
qed

text \<open>What \<open>Put\<close> leaves behind: a stored record is at a location that was not in use and reads
  back as the body; a refusal or an error changes no allocation.\<close>

definition put_post :: "pool \<Rightarrow> int \<Rightarrow> bytes \<Rightarrow> loc option result \<times> pool \<Rightarrow> bool" where
  "put_post p sz body r =
     (case r of
        (Inr (Some l), p') \<Rightarrow>
          moves p p' (insert (sz, l) (alloc_set p)) \<and> \<not> allocated p sz l \<and> \<not> isZero l \<and>
          poolRead p' sz l = Inr body
      | (_, p') \<Rightarrow> moves p p' (alloc_set p))"

lemma putInClass_post:
  assumes ok: "pool_ok p" and c: "map_of (classes p) sz = Some c" and b: "int (length body) = sz"
  shows "put_post p sz body (putInClass p sz body c cio wio)"
proof -
  obtain r p1 where r: "allocateLocked p sz c cio = (r, p1)" by fastforce
  have post: "alloc_post p sz (r, p1)" using allocateLocked_post [OF ok c, of cio] r by simp
  show ?thesis
  proof (cases r)
    case (Inl e)
    then show ?thesis using r post by (simp add: putInClass_def put_post_def alloc_post_def)
  next
    case (Inr ps)
    obtain pn slot where ps: "ps = (pn, slot)" by (cases ps)
    let ?l = "\<lparr>Page = pn, Slot = slot\<rparr>"
    have h: "moves p p1 (insert (sz, ?l) (alloc_set p))" "\<not> allocated p sz ?l" "pn \<noteq> 0"
      using post Inr ps by (simp_all add: alloc_post_def)
    have ok1: "pool_ok p1" using h(1) by (rule moves_ok)
    have a1: "allocated p1 sz ?l" using moves_alloc [OF h(1)] by (metis in_alloc_set insertI1)
    obtain c1 pg where c1: "map_of (classes p1) sz = Some c1" "map_of (pages c1) pn = Some pg"
      "pg_file pg = pageFileName sz pn" "0 < sz"
      using allocatedE [OF ok1 a1] by (metis loc.select_convs(1))
    let ?n = "pageFileName sz pn"
    let ?w = "\<lambda>x. p1\<lparr>files := AList.update ?n
        (write_at (unat slot * nat sz) x (mget0 [] (files p1) ?n)) (files p1)\<rparr>"
    have len: "length body = nat sz" "length (take n body) \<le> nat sz" for n using b by simp_all
    have w: "moves p (?w x) (insert (sz, ?l) (alloc_set p))" if "length x \<le> nat sz" for x
      by (rule alloc_write_moves(1) [OF h(1,2) that]) simp
    show ?thesis
    proof (cases wio)
      case WriteOK
      have "poolRead (?w body) sz ?l = Inr body"
        by (rule alloc_write_moves(2) [OF h(1,2), of body]) (simp_all add: len)
      then show ?thesis
        using r Inr ps WriteOK c1 h w len
        by (simp add: putInClass_def put_post_def Let_def slot_offset isZero_def)
    next
      case (WriteShort n e)
      let ?p2 = "?w (take n body)"
      have m: "moves p ?p2 (insert (sz, ?l) (alloc_set p))" by (rule w) (simp add: len)
      have "allocated ?p2 sz ?l" using moves_alloc [OF m] by (metis in_alloc_set insertI1)
      moreover have "map_of (classes ?p2) sz = Some c1" using c1(1) by simp
      ultimately have "moves ?p2 (freeLocked ?p2 sz c1 pn slot) (alloc_set ?p2 - {(sz, ?l)})"
        using freeLocked_moves [OF moves_ok [OF m], of sz ?l c1] by simp
      moreover have "alloc_set ?p2 - {(sz, ?l)} = alloc_set p"
        unfolding moves_alloc [OF m] using h(2) by auto
      ultimately have "moves p (freeLocked ?p2 sz c1 pn slot) (alloc_set p)"
        using moves_trans [OF m, of _ "alloc_set p"] by auto
      then show ?thesis
        using r Inr ps WriteShort c1 by (simp add: putInClass_def put_post_def Let_def slot_offset)
    qed
  qed
qed


lemma newClass_moves:
  assumes ok: "pool_ok p" and new: "map_of (classes p) sz = None" and sz: "0 < sz"
  shows "moves p (p\<lparr>classes := AList.update sz (newClass q sz) (classes p), counts := m\<rparr>) (alloc_set p)"
    (is "moves p ?p _")
proof -
  have "class_ok ?p sz (newClass q sz)" using sz by (simp add: class_ok_def newClass_def)
  then have "pool_ok ?p"
    by (rule pool_ok_set_class [OF ok]) (use ok in \<open>simp_all add: pool_ok_def\<close>)
  moreover have "allocated ?p s l \<longleftrightarrow> allocated p s l" for s l
    using new by (auto simp: allocated_def newClass_def split: option.splits)
  ultimately show ?thesis by (auto simp: moves_def alloc_set_def slotBytes_def)
qed

lemma counts_moves: "pool_ok p \<Longrightarrow> moves p (p\<lparr>counts := m\<rparr>) (alloc_set p)"
  by (auto simp: moves_def pool_ok_def class_ok_def page_ok_def alloc_set_def allocated_def
    slotBytes_def)

lemma put_post_before:
  assumes m: "moves p p1 (alloc_set p)" and post: "put_post p1 sz body r"
  shows "put_post p sz body r"
proof -
  have e: "alloc_set p1 = alloc_set p" by (rule moves_alloc [OF m])
  have a: "allocated p1 s l \<longleftrightarrow> allocated p s l" for s l
    using e by (metis in_alloc_set)
  obtain x p' where r: "r = (x, p')" by (cases r)
  have same: "moves p p' (alloc_set p)" if "moves p1 p' (alloc_set p)"
    using m that by (rule moves_trans) simp
  have new: "moves p p' (insert (sz, l) (alloc_set p))"
    if "moves p1 p' (insert (sz, l) (alloc_set p))" "\<not> allocated p sz l" for l
    using m that(1) by (rule moves_trans) (use that(2) in auto)
  show ?thesis
    using post same new r e a
    by (cases x) (auto simp: put_post_def split: option.splits)
qed

lemma poolPut_post:
  assumes ok: "pool_ok p"
  shows "put_post p sz body (poolPut p sz body cio wio)"
proof (cases "sz \<le> 0 \<or> maxRecordBytes p < sz \<or> int (length body) \<noteq> sz")
  case True
  then show ?thesis using moves_refl [OF ok] by (auto simp: poolPut_def put_post_def)
next
  case False
  then have sz: "0 < sz" "int (length body) = sz" by simp_all
  show ?thesis
  proof (cases "map_of (classes p) sz")
    case (Some c)
    then show ?thesis using False putInClass_post [OF ok Some sz(2)] by (simp add: poolPut_def)
  next
    case None
    let ?n = "mget0 0 (counts p) sz + 1"
    let ?p1 = "p\<lparr>counts := AList.update sz ?n (counts p)\<rparr>"
    let ?p2 = "?p1\<lparr>classes := AList.update sz (newClass ?p1 sz) (classes ?p1),
                  counts := AList.delete sz (counts ?p1)\<rparr>"
    have m: "moves p ?p2 (alloc_set p)"
      using newClass_moves [OF ok None sz(1), where m = "AList.delete sz (counts ?p1)" and q = ?p1]
      by simp
    have "put_post ?p2 sz body (putInClass ?p2 sz body (newClass ?p1 sz) cio wio)"
      by (rule putInClass_post [OF moves_ok [OF m]]) (simp_all add: sz)
    from put_post_before [OF m this] show ?thesis
      using False None counts_moves [OF ok] by (simp add: poolPut_def put_post_def Let_def)
  qed
qed

lemma poolFree_moves:
  assumes "pool_ok p" "allocated p sz l"
  shows "moves p (poolFree p sz l) (alloc_set p - {(sz, l)})"
proof -
  obtain c where "map_of (classes p) sz = Some c" using allocatedE [OF assms] by metis
  then show ?thesis using freeLocked_moves [OF assms] by (simp add: poolFree_def)
qed


section \<open>The interface the stores rely on\<close>

text \<open>
  A store of records under locations: every step keeps the invariant, gives back only the
  locations it frees, and leaves the other records in use and readable. The stores of
  \<open>internal/gocache\<close> and \<open>internal/local\<close> keep locations in their index and rely on this.
\<close>

locale slot_store =
  fixes inv :: "'s \<Rightarrow> bool"
    and used :: "'s \<Rightarrow> 'k set"
    and rd :: "'s \<Rightarrow> 'k \<Rightarrow> bytes result"
    and step :: "'s \<Rightarrow> 'op \<Rightarrow> 's"
    and frees :: "'op \<Rightarrow> 'k set"
  assumes step_inv: "inv s \<Longrightarrow> frees op \<subseteq> used s \<Longrightarrow> inv (step s op)"
    and step_used: "inv s \<Longrightarrow> frees op \<subseteq> used s \<Longrightarrow> k \<in> used s \<Longrightarrow> k \<notin> frees op \<Longrightarrow>
      k \<in> used (step s op)"
    and step_rd: "inv s \<Longrightarrow> frees op \<subseteq> used s \<Longrightarrow> k \<in> used s \<Longrightarrow> k \<notin> frees op \<Longrightarrow>
      rd (step s op) k = rd s k"
begin

fun legal :: "'s \<Rightarrow> 'op list \<Rightarrow> bool" where
  "legal s [] = True"
| "legal s (op # ops) = (frees op \<subseteq> used s \<and> legal (step s op) ops)"

lemma run_inv: "inv s \<Longrightarrow> legal s ops \<Longrightarrow> inv (foldl step s ops)"
  by (induction ops arbitrary: s) (auto intro: step_inv)

lemma record_stays:
  "inv s \<Longrightarrow> legal s ops \<Longrightarrow> k \<in> used s \<Longrightarrow> \<forall>op \<in> set ops. k \<notin> frees op \<Longrightarrow>
     k \<in> used (foldl step s ops) \<and> rd (foldl step s ops) k = rd s k"
proof (induction ops arbitrary: s)
  case (Cons op ops)
  then have "inv (step s op)" "k \<in> used (step s op)" "rd (step s op) k = rd s k"
    using step_inv step_used step_rd by simp_all
  then show ?case using Cons by simp
qed simp

end

datatype pool_op =
    PoolPut int bytes create_io write_io
  | PoolFree int loc

fun poolStep :: "pool \<Rightarrow> pool_op \<Rightarrow> pool" where
  "poolStep p (PoolPut sz body cio wio) = snd (poolPut p sz body cio wio)"
| "poolStep p (PoolFree sz l) = poolFree p sz l"

fun poolFrees :: "pool_op \<Rightarrow> (int \<times> loc) set" where
  "poolFrees (PoolPut _ _ _ _) = {}"
| "poolFrees (PoolFree sz l) = {(sz, l)}"

lemma poolPut_moves:
  assumes "pool_ok p"
  shows "moves p (snd (poolPut p sz body cio wio)) (alloc_set (snd (poolPut p sz body cio wio)))"
    and "alloc_set p \<subseteq> alloc_set (snd (poolPut p sz body cio wio))"
  using poolPut_post [OF assms, of sz body cio wio]
  by (auto simp: put_post_def moves_def split: prod.splits sum.splits option.splits)

lemma poolStep_moves:
  assumes "pool_ok p" "poolFrees op \<subseteq> alloc_set p"
  shows "moves p (poolStep p op) (alloc_set (poolStep p op))"
    and "alloc_set p - poolFrees op \<subseteq> alloc_set (poolStep p op)"
proof -
  show "moves p (poolStep p op) (alloc_set (poolStep p op))"
  proof (cases op)
    case (PoolPut sz body cio wio)
    then show ?thesis using poolPut_moves(1) [OF assms(1)] by simp
  next
    case (PoolFree sz l)
    with assms have m: "moves p (poolFree p sz l) (alloc_set p - {(sz, l)})"
      by (intro poolFree_moves) auto
    then show ?thesis using PoolFree moves_alloc [OF m] by simp
  qed
  show "alloc_set p - poolFrees op \<subseteq> alloc_set (poolStep p op)"
  proof (cases op)
    case (PoolPut sz body cio wio)
    then show ?thesis using poolPut_moves(2) [OF assms(1)] by auto
  next
    case (PoolFree sz l)
    with assms have m: "moves p (poolFree p sz l) (alloc_set p - {(sz, l)})"
      by (intro poolFree_moves) auto
    then show ?thesis using PoolFree moves_alloc [OF m] by simp
  qed
qed

interpretation rp: slot_store pool_ok alloc_set "\<lambda>p (sz, l). poolRead p sz l" poolStep poolFrees
proof
  fix p :: pool and op k
  assume h: "pool_ok p" "poolFrees op \<subseteq> alloc_set p"
  show "pool_ok (poolStep p op)" using poolStep_moves(1) [OF h] by (rule moves_ok)
  assume k: "k \<in> alloc_set p" "k \<notin> poolFrees op"
  show u: "k \<in> alloc_set (poolStep p op)" using poolStep_moves(2) [OF h] k by auto
  show "(case k of (sz, l) \<Rightarrow> poolRead (poolStep p op) sz l) = (case k of (sz, l) \<Rightarrow> poolRead p sz l)"
    using moves_read(2) [OF h(1) poolStep_moves(1) [OF h]] k u by (auto simp: alloc_set_def)
qed


section \<open>Reconciliation after a restart\<close>

text \<open>The page a size and page number lead to.\<close>

definition page_lookup :: "pool \<Rightarrow> int \<Rightarrow> u32 \<Rightarrow> page option" where
  "page_lookup p sz pn =
     (case map_of (classes p) sz of None \<Rightarrow> None | Some c \<Rightarrow> map_of (pages c) pn)"

definition pageCapacity :: "int \<Rightarrow> int \<Rightarrow> u32" where
  "pageCapacity pageB sz = word_of_int (pageB sdiv sz)"

text \<open>The shape every class has from discovery on; the free lists are left open.\<close>

definition shape_class :: "int \<Rightarrow> int \<Rightarrow> pclass \<Rightarrow> bool" where
  "shape_class pageB sz c =
     (0 < sz \<and> sz < 2 ^ 63 \<and> recordSize c = sz \<and> capacity c = pageCapacity pageB sz \<and>
      wf_map (pages c) \<and> (\<forall>pn pg. map_of (pages c) pn = Some pg \<longrightarrow> pn \<le> nextPage c))"

definition shape :: "pool \<Rightarrow> bool" where
  "shape p =
     (wf_map (classes p) \<and> wf_map (files p) \<and>
      (\<forall>sz c. map_of (classes p) sz = Some c \<longrightarrow> shape_class (pageBytes p) sz c))"

text \<open>A directory whose page files all carry the names the pool gives them and have full length,
  which is what \<open>createPageLocked\<close> guarantees of the files it renames into place.\<close>

definition dir_ok :: "int \<Rightarrow> (string \<times> bytes) list \<Rightarrow> bool" where
  "dir_ok pageB fs =
     (wf_map fs \<and>
      (\<forall>(name, f) \<in> set fs. case parsePageName name of None \<Rightarrow> True
         | Some (sz, pn) \<Rightarrow> name = pageFileName sz pn \<and> pn \<noteq> 0 \<and>
             length f = unat (pageCapacity pageB sz) * nat sz))"

lemma shapeD: "shape p \<Longrightarrow> map_of (classes p) sz = Some c \<Longrightarrow> shape_class (pageBytes p) sz c"
  by (simp add: shape_def)

lemma parsePageName_pos: "parsePageName name = Some (sz, pn) \<Longrightarrow> 0 < sz \<and> sz < 2 ^ 63"
  by (auto simp: parsePageName_def split: option.splits if_splits)

lemma shape_set_class:
  assumes "shape p" "shape_class (pageBytes p) sz c"
  shows "shape (p\<lparr>classes := AList.update sz c (classes p)\<rparr>)"
  using assms by (auto simp: shape_def)

lemma discoverOne_page:
  assumes s: "shape p" and n: "parsePageName name = Some (sz, pn)"
  shows "shape (discoverOne p name)"
    and "page_lookup (discoverOne p name) s' m =
      (if (s', m) = (sz, pn) then Some \<lparr>pg_file = name, pg_free = []\<rparr> else page_lookup p s' m)"
    and "files (discoverOne p name) = files p" "pageBytes (discoverOne p name) = pageBytes p"
proof -
  let ?c = "case map_of (classes p) sz of None \<Rightarrow> newClass p sz | Some c \<Rightarrow> c"
  let ?c' = "?c\<lparr>pages := AList.update pn \<lparr>pg_file = name, pg_free = []\<rparr> (pages ?c),
                nextPage := (if nextPage ?c < pn then pn else nextPage ?c)\<rparr>"
  have e: "discoverOne p name = p\<lparr>classes := AList.update sz ?c' (classes p)\<rparr>"
    using n by (simp add: discoverOne_def Let_def)
  have "shape_class (pageBytes p) sz ?c"
    using s parsePageName_pos [OF n]
    by (auto simp: shape_class_def newClass_def pageCapacity_def split: option.splits dest: shapeD)
  then have "shape_class (pageBytes p) sz ?c'"
    by (auto simp: shape_class_def split: if_splits intro: order.trans less_imp_le)
  then show "shape (discoverOne p name)" unfolding e by (rule shape_set_class [OF s])
  show "page_lookup (discoverOne p name) s' m =
      (if (s', m) = (sz, pn) then Some \<lparr>pg_file = name, pg_free = []\<rparr> else page_lookup p s' m)"
    by (auto simp: e page_lookup_def newClass_def split: option.splits)
qed (auto simp: discoverOne_def Let_def split: option.splits)


lemma discoverLoop_pages:
  assumes "shape p"
    "\<forall>name \<in> set names. \<forall>sz pn. parsePageName name = Some (sz, pn) \<longrightarrow> name = pageFileName sz pn"
  shows "\<exists>p'. discoverLoop p (\<lambda>_. None) names = (Inr (), p') \<and> shape p' \<and> files p' = files p \<and>
     pageBytes p' = pageBytes p \<and>
     (\<forall>sz pn. page_lookup p' sz pn =
        (if 0 < sz \<and> sz < 2 ^ 63 \<and> pageFileName sz pn \<in> set names
         then Some \<lparr>pg_file = pageFileName sz pn, pg_free = []\<rparr> else page_lookup p sz pn))"
  using assms
proof (induction names arbitrary: p)
  case (Cons name names)
  show ?case
  proof (cases "parsePageName name")
    case None
    then have "0 < sz \<Longrightarrow> sz < 2 ^ 63 \<Longrightarrow> pageFileName sz pn \<noteq> name" for sz pn
      using parse_pageFileName by (metis option.distinct(1))
    then show ?thesis using Cons.IH [OF Cons.prems(1)] Cons.prems(2) None by force
  next
    case (Some sp)
    obtain sz pn where sp: "sp = (sz, pn)" by (cases sp)
    then have n: "parsePageName name = Some (sz, pn)" "name = pageFileName sz pn"
      using Some Cons.prems(2) by auto
    note one = discoverOne_page [OF Cons.prems(1) n(1)]
    have pos: "0 < sz" "sz < 2 ^ 63" using parsePageName_pos [OF n(1)] by auto
    have eq: "0 < s' \<Longrightarrow> pageFileName s' m = name \<longleftrightarrow> (s', m) = (sz, pn)" for s' m
      using n(2) pageFileName_inj [of s' sz m pn] pos by auto
    obtain p' where p': "discoverLoop (discoverOne p name) (\<lambda>_. None) names = (Inr (), p')" "shape p'"
      "files p' = files p" "pageBytes p' = pageBytes p"
      "\<forall>s' m. page_lookup p' s' m =
        (if 0 < s' \<and> s' < 2 ^ 63 \<and> pageFileName s' m \<in> set names
         then Some \<lparr>pg_file = pageFileName s' m, pg_free = []\<rparr>
         else page_lookup (discoverOne p name) s' m)"
      using Cons.IH [OF one(1)] Cons.prems(2) one(3,4) by auto
    have "page_lookup p' s' m =
        (if 0 < s' \<and> s' < 2 ^ 63 \<and> pageFileName s' m \<in> set (name # names)
         then Some \<lparr>pg_file = pageFileName s' m, pg_free = []\<rparr> else page_lookup p s' m)" for s' m
      using p'(5) one(2) [of s' m] eq [of s' m] pos n(2) by auto
    then show ?thesis using p'(1-4) n(1) by auto
  qed
qed simp

lemma noteOccupied_page:
  assumes s: "shape p"
  shows "shape (noteOccupied p sz l)"
    and "page_lookup (noteOccupied p sz l) s' m =
      (if (s', m) = (sz, Page l) \<and> \<not> isZero l
       then map_option (\<lambda>pg. pg\<lparr>pg_free := pg_free pg @ [Slot l]\<rparr>) (page_lookup p s' m)
       else page_lookup p s' m)"
    and "files (noteOccupied p sz l) = files p" "pageBytes (noteOccupied p sz l) = pageBytes p"
proof -
  show "shape (noteOccupied p sz l)"
  proof (cases "isZero l \<or> page_lookup p sz (Page l) = None")
    case True
    then show ?thesis
      using s by (auto simp: noteOccupied_def page_lookup_def split: option.splits)
  next
    case False
    then obtain c pg where c: "map_of (classes p) sz = Some c" "map_of (pages c) (Page l) = Some pg"
      by (auto simp: page_lookup_def split: option.splits)
    have "shape_class (pageBytes p) sz
        (c\<lparr>pages := AList.update (Page l) (pg\<lparr>pg_free := pg_free pg @ [Slot l]\<rparr>) (pages c)\<rparr>)"
      using shapeD [OF s c(1)] c(2) by (auto simp: shape_class_def)
    from shape_set_class [OF s this] show ?thesis
      using False c by (simp add: noteOccupied_def)
  qed
qed (auto simp: noteOccupied_def page_lookup_def split: option.splits)

definition noteAll :: "pool \<Rightarrow> (int \<times> loc) list \<Rightarrow> pool" where
  "noteAll p ns = foldl (\<lambda>p (sz, l). noteOccupied p sz l) p ns"

lemma noteAll_page:
  assumes "shape p"
  shows "shape (noteAll p ns) \<and> files (noteAll p ns) = files p \<and>
    pageBytes (noteAll p ns) = pageBytes p \<and>
    (\<forall>sz pn. page_lookup (noteAll p ns) sz pn =
       map_option (\<lambda>pg. pg\<lparr>pg_free := pg_free pg @
         [Slot l. (s, l) \<leftarrow> ns, s = sz \<and> Page l = pn \<and> \<not> isZero l]\<rparr>) (page_lookup p sz pn))"
  using assms
proof (induction ns arbitrary: p)
  case (Cons n ns)
  obtain sz l where n: "n = (sz, l)" by (cases n)
  note one = noteOccupied_page [OF Cons.prems, of sz l]
  have "noteAll p (n # ns) = noteAll (noteOccupied p sz l) ns"
    by (simp add: noteAll_def n)
  then show ?case
    using Cons.IH [OF one(1)] one(3,4)
    by (auto simp: one(2) n option.map_comp comp_def split: if_splits)
qed (simp add: noteAll_def option.map_ident)

lemma finishReconcile_page:
  assumes s: "shape p"
  shows "shape (finishReconcile p)"
    and "page_lookup (finishReconcile p) sz pn =
      map_option (finishPage (pageCapacity (pageBytes p) sz)) (page_lookup p sz pn)"
    and "files (finishReconcile p) = files p" "pageBytes (finishReconcile p) = pageBytes p"
proof -
  have m: "map_of (classes (finishReconcile p)) sz = map_option
      (\<lambda>c. c\<lparr>pages := map (\<lambda>(pn, pg). (pn, finishPage (capacity c) pg)) (pages c)\<rparr>)
      (map_of (classes p) sz)" for sz
    by (simp add: finishReconcile_def map_of_map)
  have k: "wf_map (map (\<lambda>(pn, pg). (pn, finishPage (capacity c) pg)) (pages c)) = wf_map (pages c)"
    for c by (simp add: comp_def case_prod_beta)
  have f: "wf_map (classes (finishReconcile p)) = wf_map (classes p)"
    by (simp add: finishReconcile_def comp_def case_prod_beta)
  have c: "shape_class (pageBytes p) sz
      (c\<lparr>pages := map (\<lambda>(pn, pg). (pn, finishPage (capacity c) pg)) (pages c)\<rparr>)"
    if "shape_class (pageBytes p) sz c" for sz c
    using that k [of c] by (auto simp: shape_class_def map_of_map)
  have "pageBytes (finishReconcile p) = pageBytes p" "files (finishReconcile p) = files p"
    by (simp_all add: finishReconcile_def)
  then show "shape (finishReconcile p)"
    using s c f by (auto simp: shape_def m)
  show "page_lookup (finishReconcile p) sz pn =
      map_option (finishPage (pageCapacity (pageBytes p) sz)) (page_lookup p sz pn)"
    using shapeD [OF s, of sz]
    by (auto simp: page_lookup_def m map_of_map shape_class_def split: option.splits)
qed (simp_all add: finishReconcile_def)


lemma pool_ok_lookup:
  assumes s: "shape p"
    and pg: "\<And>sz pn pg. page_lookup p sz pn = Some pg \<Longrightarrow>
      pn \<noteq> 0 \<and> distinct (pg_free pg) \<and> (\<forall>x \<in> set (pg_free pg). x < pageCapacity (pageBytes p) sz) \<and>
      pg_file pg = pageFileName sz pn \<and>
      (\<exists>f. map_of (files p) (pageFileName sz pn) = Some f \<and>
           length f = unat (pageCapacity (pageBytes p) sz) * nat sz)"
  shows "pool_ok p"
  unfolding pool_ok_iff class_ok_iff
proof (intro conjI allI impI)
  fix sz c assume c: "map_of (classes p) sz = Some c"
  note k = shapeD [OF s c]
  show "0 < sz" "recordSize c = sz" "wf_map (pages c)" using k by (simp_all add: shape_class_def)
  fix pn q assume q: "map_of (pages c) pn = Some q"
  then have "page_lookup p sz pn = Some q" using c by (simp add: page_lookup_def)
  from pg [OF this] show "page_ok p sz c pn q"
    using k q by (auto simp: page_ok_def shape_class_def)
qed (use s in \<open>simp_all add: shape_def\<close>)

lemma allocated_lookup:
  assumes "shape p"
  shows "allocated p sz l \<longleftrightarrow> (\<exists>pg. page_lookup p sz (Page l) = Some pg \<and>
    Slot l < pageCapacity (pageBytes p) sz \<and> Slot l \<notin> set (pg_free pg))"
  using shapeD [OF assms, of sz]
  by (auto simp: allocated_def page_lookup_def shape_class_def split: option.splits)

text \<open>Opening a directory and reporting every location of the caller's index.\<close>

definition reopen :: "int \<Rightarrow> int \<Rightarrow> (string \<times> bytes) list \<Rightarrow> (int \<times> loc) list \<Rightarrow> pool" where
  "reopen maxRec pageB fs ns =
     finishReconcile (noteAll (snd (discoverPages (newPool maxRec pageB fs) None (\<lambda>_. None))) ns)"

lemma reopen_pages:
  assumes d: "dir_ok pageB fs"
  shows "shape (reopen maxRec pageB fs ns)" "files (reopen maxRec pageB fs ns) = fs"
    "pageBytes (reopen maxRec pageB fs ns) = pageB"
    "page_lookup (reopen maxRec pageB fs ns) sz pn =
      (if 0 < sz \<and> sz < 2 ^ 63 \<and> map_of fs (pageFileName sz pn) \<noteq> None
       then Some \<lparr>pg_file = pageFileName sz pn,
         pg_free = filter (\<lambda>s. s \<notin> {Slot l | l. (sz, l) \<in> set ns \<and> Page l = pn \<and> \<not> isZero l})
           (allSlots (pageCapacity pageB sz))\<rparr>
       else None)"
proof -
  let ?p0 = "newPool maxRec pageB fs"
  have s0: "shape ?p0" using d by (simp add: shape_def newPool_def dir_ok_def)
  have canon: "\<forall>name \<in> set (mkeys fs). \<forall>sz pn. parsePageName name = Some (sz, pn) \<longrightarrow>
      name = pageFileName sz pn"
    using d by (fastforce simp: dir_ok_def)
  obtain p1 where p1: "discoverLoop ?p0 (\<lambda>_. None) (mkeys fs) = (Inr (), p1)" "shape p1"
    "files p1 = fs" "pageBytes p1 = pageB"
    "\<And>sz pn. page_lookup p1 sz pn =
       (if 0 < sz \<and> sz < 2 ^ 63 \<and> pageFileName sz pn \<in> set (mkeys fs)
        then Some \<lparr>pg_file = pageFileName sz pn, pg_free = []\<rparr> else page_lookup ?p0 sz pn)"
    using discoverLoop_pages [OF s0 canon] by (auto simp: newPool_def)
  have e: "reopen maxRec pageB fs ns = finishReconcile (noteAll p1 ns)"
    using p1(1) by (simp add: reopen_def discoverPages_def newPool_def)
  note na = noteAll_page [OF p1(2), of ns]
  then have s2: "shape (noteAll p1 ns)" by simp
  note fr = finishReconcile_page [OF s2]
  show "shape (reopen maxRec pageB fs ns)" "files (reopen maxRec pageB fs ns) = fs"
    "pageBytes (reopen maxRec pageB fs ns) = pageB"
    unfolding e using fr na p1 by simp_all
  have "set [Slot l. (s, l) \<leftarrow> ns, s = sz \<and> Page l = pn \<and> \<not> isZero l] =
      {Slot l | l. (sz, l) \<in> set ns \<and> Page l = pn \<and> \<not> isZero l}"
    by (auto simp: image_iff)
  moreover have "page_lookup ?p0 sz pn = None" by (simp add: page_lookup_def newPool_def)
  moreover have "pageFileName sz pn \<in> set (mkeys fs) \<longleftrightarrow> map_of fs (pageFileName sz pn) \<noteq> None"
    by (simp add: map_of_eq_None_iff)
  ultimately show "page_lookup (reopen maxRec pageB fs ns) sz pn =
      (if 0 < sz \<and> sz < 2 ^ 63 \<and> map_of fs (pageFileName sz pn) \<noteq> None
       then Some \<lparr>pg_file = pageFileName sz pn,
         pg_free = filter (\<lambda>s. s \<notin> {Slot l | l. (sz, l) \<in> set ns \<and> Page l = pn \<and> \<not> isZero l})
           (allSlots (pageCapacity pageB sz))\<rparr>
       else None)"
    unfolding e fr(2) using na p1(4,5) by (simp add: finishPage_def)
qed

lemma dir_okD:
  assumes "dir_ok pageB fs" "0 < sz" "sz < 2 ^ 63" "map_of fs (pageFileName sz pn) = Some f"
  shows "pn \<noteq> 0" "length f = unat (pageCapacity pageB sz) * nat sz"
  using assms map_of_SomeD [OF assms(4)] parse_pageFileName [OF assms(2,3)]
  by (fastforce simp: dir_ok_def)+

lemma reopen_ok:
  assumes d: "dir_ok pageB fs"
  shows "pool_ok (reopen maxRec pageB fs ns)"
proof (rule pool_ok_lookup [OF reopen_pages(1) [OF d]])
  fix sz pn pg assume "page_lookup (reopen maxRec pageB fs ns) sz pn = Some pg"
  then show "pn \<noteq> 0 \<and> distinct (pg_free pg) \<and>
      (\<forall>x \<in> set (pg_free pg). x < pageCapacity (pageBytes (reopen maxRec pageB fs ns)) sz) \<and>
      pg_file pg = pageFileName sz pn \<and>
      (\<exists>f. map_of (files (reopen maxRec pageB fs ns)) (pageFileName sz pn) = Some f \<and>
         length f = unat (pageCapacity (pageBytes (reopen maxRec pageB fs ns)) sz) * nat sz)"
    unfolding reopen_pages [OF d]
    using dir_okD [OF d, of sz pn]
    by (auto simp: distinct_allSlots set_allSlots split: if_splits)
qed

lemma reopen_allocated:
  assumes d: "dir_ok pageB fs"
  shows "allocated (reopen maxRec pageB fs ns) sz l \<longleftrightarrow>
    (sz, l) \<in> set ns \<and> \<not> isZero l \<and> 0 < sz \<and> sz < 2 ^ 63 \<and>
    map_of fs (pageFileName sz (Page l)) \<noteq> None \<and> Slot l < pageCapacity pageB sz"
proof -
  have "Slot l \<in> {Slot l' | l'. (sz, l') \<in> set ns \<and> Page l' = Page l \<and> \<not> isZero l'} \<longleftrightarrow>
      (sz, l) \<in> set ns \<and> \<not> isZero l"
    by (auto simp: isZero_def dest: loc.equality)
  then show ?thesis
    unfolding allocated_lookup [OF reopen_pages(1) [OF d]] reopen_pages [OF d]
    by (auto simp: set_allSlots split: if_splits)
qed


section \<open>The directory stays fit for a restart\<close>

definition tidy :: "pool \<Rightarrow> bool" where
  "tidy p = (shape p \<and> dir_ok (pageBytes p) (files p) \<and> maxRecordBytes p < 2 ^ 63)"

lemma dir_ok_update:
  assumes "dir_ok b fs" "0 < sz" "sz < 2 ^ 63" "pn \<noteq> 0"
    "length f = unat (pageCapacity b sz) * nat sz"
  shows "dir_ok b (AList.update (pageFileName sz pn) f fs)"
  using assms parse_pageFileName [OF assms(2,3), of pn]
  by (auto simp: dir_ok_def set_update_wf)

lemma dir_ok_delete: "dir_ok b fs \<Longrightarrow> dir_ok b (AList.delete k fs)"
  by (auto simp: dir_ok_def set_delete)

lemma tidy_set_class:
  "tidy p \<Longrightarrow> shape_class (pageBytes p) sz c \<Longrightarrow>
     tidy (p\<lparr>classes := AList.update sz c (classes p)\<rparr>)"
  by (simp add: tidy_def shape_set_class)

lemma tidy_files: "tidy p \<Longrightarrow> dir_ok (pageBytes p) fs \<Longrightarrow> tidy (p\<lparr>files := fs\<rparr>)"
  by (auto simp: tidy_def shape_def dir_ok_def)

lemma tidy_class: "tidy p \<Longrightarrow> map_of (classes p) sz = Some c \<Longrightarrow> shape_class (pageBytes p) sz c"
  by (simp add: tidy_def shapeD)

lemma shape_class_page:
  "shape_class b sz c \<Longrightarrow> map_of (pages c) pn \<noteq> None \<Longrightarrow>
     shape_class b sz (c\<lparr>pages := AList.update pn pg (pages c)\<rparr>)"
  "shape_class b sz c \<Longrightarrow> shape_class b sz (c\<lparr>pages := AList.delete pn (pages c)\<rparr>)"
  by (auto simp: shape_class_def split: if_splits)

lemma freeLocked_tidy:
  assumes t: "tidy p" and c: "map_of (classes p) sz = Some c"
  shows "tidy (freeLocked p sz c pn slot)"
proof (cases "map_of (pages c) pn")
  case None
  then show ?thesis using t by (simp add: freeLocked_def)
next
  case (Some pg)
  have s: "shape_class (pageBytes p) sz c" using t c by (rule tidy_class)
  have "dir_ok (pageBytes p) (AList.delete k (files p))" for k
    using t by (simp add: tidy_def dir_ok_delete)
  moreover have "tidy (p\<lparr>classes := AList.update sz (c\<lparr>pages := AList.delete pn (pages c)\<rparr>) (classes p)\<rparr>)"
    using t shape_class_page(2) [OF s] by (rule tidy_set_class)
  ultimately have "tidy (p\<lparr>classes := AList.update sz (c\<lparr>pages := AList.delete pn (pages c)\<rparr>) (classes p),
      files := AList.delete k (files p)\<rparr>)" for k
    using tidy_files by fastforce
  then show ?thesis
    using Some t tidy_set_class [OF t shape_class_page(1) [OF s]]
    by (simp add: freeLocked_def Let_def)
qed

lemma takeSlot_tidy:
  assumes "tidy p" "shape_class (pageBytes p) sz c" "map_of (pages c) pn = Some pg"
  shows "tidy (snd (takeSlot p sz c pn pg))"
  using assms by (simp add: takeSlot_def tidy_set_class shape_class_page)

lemma tidy_writeSeq: "tidy p \<Longrightarrow> tidy (p\<lparr>writeSeq := n\<rparr>)"
  by (simp add: tidy_def shape_def)

lemma tidy_counts: "tidy p \<Longrightarrow> tidy (p\<lparr>counts := m\<rparr>)"
  by (simp add: tidy_def shape_def)

lemma createPage_tidy:
  assumes t: "tidy p" and s: "shape_class (pageBytes p) sz c" and np: "np \<noteq> 0"
    and e: "createPageLocked p c np cio = (r, p')"
  shows "tidy p'" and "pageBytes p' = pageBytes p"
proof -
  have sz: "0 < sz" "sz < 2 ^ 63" "recordSize c = sz" "capacity c = pageCapacity (pageBytes p) sz"
    using s by (simp_all add: shape_class_def)
  let ?z = "writeZeroes (uint (capacity c) * recordSize c)"
  let ?p1 = "p\<lparr>writeSeq := Suc (writeSeq p)\<rparr>"
  have t1: "tidy ?p1" using t by (rule tidy_writeSeq)
  have "length ?z = unat (pageCapacity (pageBytes p) sz) * nat sz"
    using sz by (simp add: slot_offset)
  then have "dir_ok (pageBytes p) (AList.update (pageFileName sz np) ?z (files p))"
    using t sz np by (intro dir_ok_update) (simp_all add: tidy_def)
  then have t2: "tidy (?p1\<lparr>files := AList.update (pageFileName sz np) ?z (files ?p1)\<rparr>)"
    using tidy_files [OF t1] by simp
  show "tidy p'" "pageBytes p' = pageBytes p"
    using e t t1 t2 sz(3) by (auto simp: createPageLocked_def Let_def split: create_io.splits)
qed

lemma allocateLocked_tidy:
  assumes t: "tidy p" and c: "map_of (classes p) sz = Some c"
  shows "tidy (snd (allocateLocked p sz c cio))"
proof (cases "allocScan c 1")
  case None
  then show ?thesis using t by (simp add: allocateLocked_def)
next
  case (Some r)
  have s: "shape_class (pageBytes p) sz c" using t c by (rule tidy_class)
  show ?thesis
  proof (cases r)
    case None
    let ?np = "nextPage c + 1"
    obtain q p' where q: "createPageLocked p (c\<lparr>nextPage := ?np\<rparr>) ?np cio = (q, p')" by fastforce
    have lt: "nextPage c < ?np"
      using allocScan_result [OF Some] None by (simp add: scan_post_def)
    then have s2: "shape_class (pageBytes p) sz (c\<lparr>nextPage := ?np\<rparr>)"
      using s by (auto simp: shape_class_def intro: order.trans less_imp_le)
    have "?np \<noteq> 0" using lt by auto
    note cr = createPage_tidy [OF t s2 this q]
    have "shape_class (pageBytes p') sz (c\<lparr>nextPage := ?np, pages := AList.update ?np pg (pages c)\<rparr>)"
      for pg using s2 cr(2) by (auto simp: shape_class_def)
    then have "tidy (snd (takeSlot p' sz
        (c\<lparr>nextPage := ?np, pages := AList.update ?np pg (pages c)\<rparr>) ?np pg))" for pg
      using cr(1) by (intro takeSlot_tidy) simp_all
    then show ?thesis
      using Some None q cr(1) by (simp add: allocateLocked_def Let_def split: sum.splits)
  next
    case (Some pn)
    with \<open>allocScan c 1 = Some r\<close> show ?thesis
      using t takeSlot_tidy [OF t s] by (simp add: allocateLocked_def split: option.splits)
  qed
qed


lemma write_tidy:
  assumes ok: "pool_ok p" and t: "tidy p" and a: "allocated p sz l" and b: "length b \<le> nat sz"
  shows "tidy (p\<lparr>files := AList.update (pageFileName sz (Page l))
    (write_at (unat (Slot l) * nat sz) b (mget0 [] (files p) (pageFileName sz (Page l)))) (files p)\<rparr>)"
proof -
  obtain c f where c: "map_of (classes p) sz = Some c" "Slot l < capacity c" "0 < sz"
    "map_of (files p) (pageFileName sz (Page l)) = Some f" "length f = unat (capacity c) * nat sz"
    using allocatedE [OF ok a] by metis
  have s: "shape_class (pageBytes p) sz c" using t c(1) by (rule tidy_class)
  have d: "dir_ok (pageBytes p) (files p)" using t by (simp add: tidy_def)
  have sz: "sz < 2 ^ 63" using s by (simp add: shape_class_def)
  have "unat (Slot l) * nat sz + length b \<le> length f"
    using b c(5) slot_fits [OF c(2), of "nat sz"] by simp
  from length_write_at [OF this]
  have "dir_ok (pageBytes p) (AList.update (pageFileName sz (Page l))
      (write_at (unat (Slot l) * nat sz) b f) (files p))"
    using dir_okD [OF d c(3) sz c(4)] by (intro dir_ok_update [OF d c(3) sz]) simp_all
  then show ?thesis using t c(4) by (simp add: tidy_files mget0_def)
qed

lemma putInClass_tidy:
  assumes ok: "pool_ok p" and t: "tidy p" and c: "map_of (classes p) sz = Some c"
    and b: "int (length body) = sz"
  shows "tidy (snd (putInClass p sz body c cio wio))"
proof -
  obtain r p1 where r: "allocateLocked p sz c cio = (r, p1)" by fastforce
  have t1: "tidy p1" using allocateLocked_tidy [OF t c, of cio] r by simp
  have post: "alloc_post p sz (r, p1)" using allocateLocked_post [OF ok c, of cio] r by simp
  show ?thesis
  proof (cases r)
    case (Inl e)
    then show ?thesis using r t1 by (simp add: putInClass_def)
  next
    case (Inr ps)
    obtain pn slot where ps: "ps = (pn, slot)" by (cases ps)
    let ?l = "\<lparr>Page = pn, Slot = slot\<rparr>"
    have m: "moves p p1 (insert (sz, ?l) (alloc_set p))"
      using post Inr ps by (simp add: alloc_post_def)
    have ok1: "pool_ok p1" using m by (rule moves_ok)
    have a1: "allocated p1 sz ?l" using moves_alloc [OF m] by (metis in_alloc_set insertI1)
    obtain c1 pg where c1: "map_of (classes p1) sz = Some c1" "map_of (pages c1) pn = Some pg"
      "pg_file pg = pageFileName sz pn" "0 < sz"
      using allocatedE [OF ok1 a1] by (metis loc.select_convs(1))
    let ?n = "pageFileName sz pn"
    let ?w = "\<lambda>x. p1\<lparr>files := AList.update ?n
        (write_at (unat slot * nat sz) x (mget0 [] (files p1) ?n)) (files p1)\<rparr>"
    have w: "tidy (?w x)" if "length x \<le> nat sz" for x
      using write_tidy [OF ok1 t1 a1 that] by simp
    have "tidy (freeLocked (?w (take n body)) sz c1 pn slot)" for n
      using b by (intro freeLocked_tidy w) (simp_all add: c1)
    then show ?thesis
      using r Inr ps c1 w [of body] b
      by (cases wio) (simp_all add: putInClass_def Let_def slot_offset)
  qed
qed

lemma poolPut_tidy:
  assumes ok: "pool_ok p" and t: "tidy p"
  shows "tidy (snd (poolPut p sz body cio wio))"
proof (cases "sz \<le> 0 \<or> maxRecordBytes p < sz \<or> int (length body) \<noteq> sz")
  case True
  then show ?thesis using t by (auto simp: poolPut_def)
next
  case False
  then have sz: "0 < sz" "int (length body) = sz" "sz < 2 ^ 63" using t by (simp_all add: tidy_def)
  show ?thesis
  proof (cases "map_of (classes p) sz")
    case (Some c)
    then show ?thesis using False putInClass_tidy [OF ok t Some sz(2)] by (simp add: poolPut_def)
  next
    case None
    let ?n = "mget0 0 (counts p) sz + 1"
    let ?p1 = "p\<lparr>counts := AList.update sz ?n (counts p)\<rparr>"
    let ?p2 = "?p1\<lparr>classes := AList.update sz (newClass ?p1 sz) (classes ?p1),
                  counts := AList.delete sz (counts ?p1)\<rparr>"
    have m: "moves p ?p2 (alloc_set p)"
      using newClass_moves [OF ok None sz(1), where m = "AList.delete sz (counts ?p1)" and q = ?p1]
      by simp
    have t1: "tidy ?p1" using t by (rule tidy_counts)
    have "shape_class (pageBytes ?p1) sz (newClass ?p1 sz)"
      using sz by (simp add: shape_class_def newClass_def pageCapacity_def)
    then have t2: "tidy ?p2" using tidy_counts [OF tidy_set_class [OF t1]] by blast
    have "tidy (snd (putInClass ?p2 sz body (newClass ?p1 sz) cio wio))"
      by (rule putInClass_tidy [OF moves_ok [OF m] t2]) (simp_all add: sz)
    then show ?thesis using False None t1 by (simp add: poolPut_def Let_def)
  qed
qed

lemma poolStep_tidy:
  assumes "pool_ok p" "tidy p"
  shows "tidy (poolStep p op)"
  using assms poolPut_tidy
  by (cases op) (auto simp: poolFree_def freeLocked_tidy split: option.splits)

text \<open>A caller frees only what is allocated.\<close>

fun poolLegal :: "pool \<Rightarrow> pool_op list \<Rightarrow> bool" where
  "poolLegal p [] = True"
| "poolLegal p (op # ops) = (poolFrees op \<subseteq> alloc_set p \<and> poolLegal (poolStep p op) ops)"

lemma poolLegal_eq: "poolLegal p ops = rp.legal p ops"
  by (induction ops arbitrary: p) simp_all

lemma run_tidy:
  assumes "pool_ok p" "tidy p" "poolLegal p ops"
  shows "pool_ok (foldl poolStep p ops)" "tidy (foldl poolStep p ops)"
proof -
  show "pool_ok (foldl poolStep p ops)"
    using assms rp.run_inv by (simp add: poolLegal_eq)
  show "tidy (foldl poolStep p ops)"
    using assms
  proof (induction ops arbitrary: p)
    case (Cons op ops)
    then have "pool_ok (poolStep p op)" using rp.step_inv by simp
    then show ?case using Cons poolStep_tidy by simp
  qed simp
qed

lemma reopen_reads:
  assumes ok: "pool_ok p" and t: "tidy p" and ns: "set ns \<subseteq> alloc_set p"
  shows "alloc_set (reopen m (pageBytes p) (files p) ns) = set ns"
    and "(sz, l) \<in> set ns \<Longrightarrow>
      poolRead (reopen m (pageBytes p) (files p) ns) sz l = poolRead p sz l"
proof -
  let ?q = "reopen m (pageBytes p) (files p) ns"
  have d: "dir_ok (pageBytes p) (files p)" using t by (simp add: tidy_def)
  have a: "allocated ?q sz l \<longleftrightarrow> (sz, l) \<in> set ns" for sz l
  proof
    assume h: "(sz, l) \<in> set ns"
    then have al: "allocated p sz l" using ns by auto
    obtain c pg f where c: "map_of (classes p) sz = Some c" "Slot l < capacity c"
      "map_of (files p) (pageFileName sz (Page l)) = Some f" "page_ok p sz c (Page l) pg"
      using allocatedE [OF ok al] by metis
    have "shape_class (pageBytes p) sz c" using t c(1) by (rule tidy_class)
    then show "allocated ?q sz l"
      unfolding reopen_allocated [OF d]
      using h c by (simp add: shape_class_def page_ok_def isZero_def)
  qed (simp add: reopen_allocated [OF d])
  then show "alloc_set ?q = set ns" by (auto simp: alloc_set_def)
  assume h: "(sz, l) \<in> set ns"
  then have "allocated p sz l" using ns by auto
  moreover have "slotBytes ?q sz l = slotBytes p sz l"
    by (simp add: slotBytes_def reopen_pages [OF d])
  ultimately show "poolRead ?q sz l = poolRead p sz l"
    using poolRead_allocated(1) [OF ok] poolRead_allocated(1) [OF reopen_ok [OF d]] a h by simp
qed


section \<open>Properties\<close>

lemma freeLocked_pageBytes: "pageBytes (freeLocked p sz c pn s) = pageBytes p"
  by (simp add: freeLocked_def Let_def split: option.splits)

lemma takeSlot_pageBytes: "pageBytes (snd (takeSlot p sz c pn pg)) = pageBytes p"
  by (simp add: takeSlot_def)

lemma createPage_pageBytes: "pageBytes (snd (createPageLocked p c pn cio)) = pageBytes p"
  by (simp add: createPageLocked_def Let_def split: create_io.splits)

lemma allocateLocked_pageBytes: "pageBytes (snd (allocateLocked p sz c cio)) = pageBytes p"
  using createPage_pageBytes [of p "c\<lparr>nextPage := nextPage c + 1\<rparr>" "nextPage c + 1" cio]
  by (auto simp: allocateLocked_def takeSlot_pageBytes Let_def
    split: option.splits prod.splits sum.splits)

lemma putInClass_pageBytes: "pageBytes (snd (putInClass p sz body c cio wio)) = pageBytes p"
  using allocateLocked_pageBytes [of p sz c cio]
  by (auto simp: putInClass_def freeLocked_pageBytes Let_def
    split: option.splits prod.splits sum.splits write_io.splits)

lemma poolStep_pageBytes: "pageBytes (poolStep p op) = pageBytes p"
  by (cases op) (simp_all add: poolPut_def poolFree_def putInClass_pageBytes freeLocked_pageBytes
    Let_def split: option.splits)

lemma run_pageBytes: "pageBytes (foldl poolStep p ops) = pageBytes p"
  by (induction ops arbitrary: p) (simp_all add: poolStep_pageBytes)

lemma newPool_ok: "pool_ok (newPool m b [])" "tidy (newPool m b []) \<longleftrightarrow> m < 2 ^ 63"
  "alloc_set (newPool m b []) = {}"
  by (simp_all add: pool_ok_def tidy_def shape_def dir_ok_def newPool_def alloc_set_def allocated_def)

text \<open>
  A record that \<open>Put\<close> accepts lies at a location that was not in use, is never the zero
  location, and reads back byte for byte; every record stored before stays allocated and reads as
  before, and the pool's invariant is kept.\<close>

theorem pool_put_stores:
  assumes "pool_ok p" "fst (poolPut p sz body cio wio) = Inr (Some l)"
  shows "pool_ok (snd (poolPut p sz body cio wio)) \<and> \<not> allocated p sz l \<and> \<not> isZero l \<and>
    poolRead (snd (poolPut p sz body cio wio)) sz l = Inr body \<and>
    alloc_set (snd (poolPut p sz body cio wio)) = insert (sz, l) (alloc_set p) \<and>
    (\<forall>sz' l'. allocated p sz' l' \<longrightarrow>
       poolRead (snd (poolPut p sz body cio wio)) sz' l' = poolRead p sz' l')"
proof -
  obtain p' where e: "poolPut p sz body cio wio = (Inr (Some l), p')"
    using assms(2) by (metis prod.collapse)
  have h: "moves p p' (insert (sz, l) (alloc_set p))" "\<not> allocated p sz l" "\<not> isZero l"
    "poolRead p' sz l = Inr body"
    using poolPut_post [OF assms(1), of sz body cio wio] by (simp_all add: e put_post_def)
  have "poolRead p' sz' l' = poolRead p sz' l'" if "allocated p sz' l'" for sz' l'
    by (rule moves_read(2) [OF assms(1) h(1) that]) (simp add: that)
  then show ?thesis
    unfolding e snd_conv using h moves_ok [OF h(1)] moves_alloc [OF h(1)] by blast
qed

theorem pool_put_stores_witness:
  "poolRead (snd (poolPut (newPool 4096 8 []) 4 ''abcd'' CreateOK WriteOK)) 4
     \<lparr>Page = 1, Slot = 1\<rparr> = Inr ''abcd''"
proof -
  have "fst (poolPut (newPool 4096 8 []) 4 ''abcd'' CreateOK WriteOK) =
      Inr (Some \<lparr>Page = 1, Slot = 1\<rparr>)" by code_simp
  from pool_put_stores [OF newPool_ok(1) this] show ?thesis by blast
qed

text \<open>
  When \<open>Put\<close> stores nothing, because the size is not (yet) pooled or because creating a
  page or writing the record failed half-way, the invariant holds and exactly the same records are
  allocated and readable as before: the slot taken for a failed write is given back.\<close>

theorem pool_put_refused:
  assumes "pool_ok p" "\<forall>l. fst (poolPut p sz body cio wio) \<noteq> Inr (Some l)"
  shows "pool_ok (snd (poolPut p sz body cio wio)) \<and>
    alloc_set (snd (poolPut p sz body cio wio)) = alloc_set p \<and>
    (\<forall>sz' l'. allocated p sz' l' \<longrightarrow>
       poolRead (snd (poolPut p sz body cio wio)) sz' l' = poolRead p sz' l')"
proof -
  obtain r p' where e: "poolPut p sz body cio wio = (r, p')" by fastforce
  have m: "moves p p' (alloc_set p)"
    using poolPut_post [OF assms(1), of sz body cio wio] assms(2)
    by (auto simp: e put_post_def split: sum.splits option.splits)
  have "poolRead p' sz' l' = poolRead p sz' l'" if "allocated p sz' l'" for sz' l'
    by (rule moves_read(2) [OF assms(1) m that]) (simp add: that)
  then show ?thesis unfolding e snd_conv using moves_ok [OF m] moves_alloc [OF m] by blast
qed

theorem pool_put_refused_witness:
  "alloc_set (snd (poolPut (newPool 4096 8 []) 4 ''abcd'' CreateOK (WriteShort 2 ErrNoSpace))) = {}"
proof -
  have "fst (poolPut (newPool 4096 8 []) 4 ''abcd'' CreateOK (WriteShort 2 ErrNoSpace)) =
      Inl ErrNoSpace" by code_simp
  then have "\<forall>l. fst (poolPut (newPool 4096 8 []) 4 ''abcd'' CreateOK (WriteShort 2 ErrNoSpace))
      \<noteq> Inr (Some l)" by simp
  from pool_put_refused [OF newPool_ok(1) this] show ?thesis by (simp add: newPool_ok)
qed

text \<open>
  Freeing an allocated location deallocates exactly this one: the invariant is kept, and
  every other record, also one in the same page, stays allocated and reads as before, whether or
  not the page file is deleted.\<close>

theorem pool_free_exact:
  assumes "pool_ok p" "allocated p sz l"
  shows "pool_ok (poolFree p sz l) \<and> alloc_set (poolFree p sz l) = alloc_set p - {(sz, l)} \<and>
    (\<forall>sz' l'. allocated p sz' l' \<and> (sz', l') \<noteq> (sz, l) \<longrightarrow>
       poolRead (poolFree p sz l) sz' l' = poolRead p sz' l')"
  using poolFree_allocated [OF assms] by (auto simp: alloc_set_def)

theorem pool_free_exact_witness:
  "alloc_set (poolFree (snd (poolPut (newPool 4096 8 []) 4 ''abcd'' CreateOK WriteOK)) 4
     \<lparr>Page = 1, Slot = 1\<rparr>) =
   alloc_set (snd (poolPut (newPool 4096 8 []) 4 ''abcd'' CreateOK WriteOK)) -
     {(4, \<lparr>Page = 1, Slot = 1\<rparr>)}"
proof -
  let ?p = "snd (poolPut (newPool 4096 8 []) 4 ''abcd'' CreateOK WriteOK)"
  have "pool_ok ?p" by (rule moves_ok [OF poolPut_moves(1) [OF newPool_ok(1)]])
  moreover have "allocated ?p 4 \<lparr>Page = 1, Slot = 1\<rparr>" by code_simp
  ultimately show ?thesis using pool_free_exact by blast
qed

text \<open>
  Claim C20. Through any sequence of \<open>Put\<close> and \<open>Free\<close> calls, with any failures in between, in which
  the caller frees only what is allocated, a record that nobody frees keeps its bytes.\<close>

theorem pool_record_stays:
  assumes "pool_ok p" "poolLegal p ops" "allocated p sz l"
    "\<forall>op \<in> set ops. (sz, l) \<notin> poolFrees op"
  shows "allocated (foldl poolStep p ops) sz l \<and>
    poolRead (foldl poolStep p ops) sz l = poolRead p sz l"
  using rp.record_stays [of p ops "(sz, l)"] assms by (simp add: poolLegal_eq)

theorem pool_record_stays_witness:
  "poolRead (foldl poolStep (snd (poolPut (newPool 4096 8 []) 4 ''abcd'' CreateOK WriteOK))
     [PoolPut 4 ''wxyz'' CreateOK WriteOK, PoolFree 4 \<lparr>Page = 1, Slot = 0\<rparr>]) 4 \<lparr>Page = 1, Slot = 1\<rparr>
   = Inr ''abcd''"
proof -
  let ?p = "snd (poolPut (newPool 4096 8 []) 4 ''abcd'' CreateOK WriteOK)"
  let ?ops = "[PoolPut 4 ''wxyz'' CreateOK WriteOK, PoolFree 4 \<lparr>Page = 1, Slot = 0\<rparr>]"
  have "pool_ok ?p" by (rule moves_ok [OF poolPut_moves(1) [OF newPool_ok(1)]])
  moreover have "allocated (poolStep ?p (PoolPut 4 ''wxyz'' CreateOK WriteOK)) 4 \<lparr>Page = 1, Slot = 0\<rparr>"
    by code_simp
  then have "poolLegal ?p ?ops" by simp
  moreover have "allocated ?p 4 \<lparr>Page = 1, Slot = 1\<rparr>" by code_simp
  moreover have "\<forall>op \<in> set ?ops. (4, \<lparr>Page = 1, Slot = 1\<rparr>) \<notin> poolFrees op" by simp
  moreover have "poolRead ?p 4 \<lparr>Page = 1, Slot = 1\<rparr> = Inr ''abcd''" by code_simp
  ultimately show ?thesis using pool_record_stays [of ?p ?ops] by metis
qed


text \<open>
  Claim C32. Restart: take a pool on an empty directory, run any legal sequence of calls, lose the
  in-memory state, and reopen the directory with \<open>DiscoverPages\<close>, one \<open>NoteOccupied\<close> for each
  location the caller's index still holds, and \<open>FinishReconcile\<close>. Then the invariant holds, exactly
  these locations are allocated (slots nobody reported are free again), and each record reads as
  before the restart.\<close>

theorem pool_restart:
  assumes "maxRec < 2 ^ 63" "poolLegal (newPool maxRec pageB []) ops"
    and "p = foldl poolStep (newPool maxRec pageB []) ops" "set ns \<subseteq> alloc_set p"
  shows "pool_ok (reopen maxRec pageB (files p) ns) \<and>
    alloc_set (reopen maxRec pageB (files p) ns) = set ns \<and>
    (\<forall>sz l. (sz, l) \<in> set ns \<longrightarrow>
       poolRead (reopen maxRec pageB (files p) ns) sz l = poolRead p sz l)"
proof -
  have "tidy (newPool maxRec pageB [])" using assms(1) by (simp add: newPool_ok)
  then have p: "pool_ok p" "tidy p"
    using run_tidy [OF newPool_ok(1) _ assms(2)] assms(3) by simp_all
  have b: "pageBytes p = pageB" using assms(3) by (simp add: run_pageBytes newPool_def)
  have "dir_ok pageB (files p)" using p(2) b by (simp add: tidy_def)
  then show ?thesis using reopen_ok reopen_reads [OF p assms(4)] b by blast
qed

theorem pool_restart_witness:
  "poolRead (reopen 4096 8 (files (snd (poolPut (newPool 4096 8 []) 4 ''abcd'' CreateOK WriteOK)))
     [(4, \<lparr>Page = 1, Slot = 1\<rparr>)]) 4 \<lparr>Page = 1, Slot = 1\<rparr> = Inr ''abcd''"
proof -
  let ?ops = "[PoolPut 4 ''abcd'' CreateOK WriteOK]"
  let ?p = "snd (poolPut (newPool 4096 8 []) 4 ''abcd'' CreateOK WriteOK)"
  have "allocated ?p 4 \<lparr>Page = 1, Slot = 1\<rparr>" by code_simp
  then have "set [(4, \<lparr>Page = 1, Slot = 1\<rparr>)] \<subseteq> alloc_set ?p" by simp
  moreover have "poolRead ?p 4 \<lparr>Page = 1, Slot = 1\<rparr> = Inr ''abcd''" by code_simp
  moreover have "?p = foldl poolStep (newPool 4096 8 []) ?ops" "poolLegal (newPool 4096 8 []) ?ops"
    by simp_all
  moreover have "(4096 :: int) < 2 ^ 63" by simp
  ultimately show ?thesis
    using pool_restart [of 4096 8 ?ops ?p "[(4, \<lparr>Page = 1, Slot = 1\<rparr>)]"] by (metis list.set_intros(1))
qed

text \<open>
  The search for a free slot ends in all cases but one: it runs forever exactly when the
  class's highest page number is the largest \<open>uint32\<close> (the file \<open>records.N.p4294967295.bin\<close> is
  enough, whatever other pages exist) and no page has a free slot, because the loop's
  counter wraps around before it can exceed \<open>nextPage\<close>.\<close>

theorem pool_alloc_hang:
  "allocScan c 1 = None \<longleftrightarrow>
     nextPage c = - 1 \<and>
     (\<forall>pn. case map_of (pages c) pn of None \<Rightarrow> True | Some pg \<Rightarrow> pg_free pg = [])"
  (is "_ \<longleftrightarrow> ?max \<and> ?full")
proof
  assume none: "allocScan c 1 = None"
  then have max: ?max using allocScan_terminates [of c 1] by (auto simp: u32_succ)
  have step: "allocScan c (pn + 1) = None \<and> (map_of (pages c) pn = Some pg \<longrightarrow> pg_free pg = [])"
    if "allocScan c pn = None" for pn pg
    using that max allocScan.simps [of c pn] by (auto split: option.splits if_splits)
  have all: "allocScan c (1 + of_nat n) = None" for n
  proof (induction n)
    case (Suc n)
    then have "allocScan c (1 + of_nat n + 1) = None" using step by blast
    then show ?case by (simp add: ac_simps)
  qed (use none in simp)
  have "allocScan c pn = None" for pn
    using all [of "unat (pn - 1)"] by simp
  then show "?max \<and> ?full" using max step by (auto split: option.splits)
next
  assume h: "?max \<and> ?full"
  show "allocScan c 1 = None"
  proof (cases "allocScan c 1")
    case (Some r)
    have "scan_post c r" using Some by (rule allocScan_result)
    moreover have "map_of (pages c) pn = Some pg \<Longrightarrow> pg_free pg = []" for pn pg
      using spec [OF conjunct2 [OF h], of pn] by simp
    ultimately show ?thesis
      using h by (cases r) (auto simp: scan_post_def u32_succ)
  qed simp
qed


lemma freeLocked_class:
  "map_of (classes p) s \<noteq> None \<Longrightarrow> map_of (classes (freeLocked p sz c pn x)) s \<noteq> None"
  by (auto simp: freeLocked_def Let_def split: option.splits)

lemma takeSlot_class:
  "map_of (classes p) s \<noteq> None \<Longrightarrow> map_of (classes (snd (takeSlot p sz c pn pg))) s \<noteq> None"
  by (auto simp: takeSlot_def)

lemma createPage_classes: "classes (snd (createPageLocked p c pn cio)) = classes p"
  by (simp add: createPageLocked_def Let_def split: create_io.splits)

lemma allocateLocked_class:
  "map_of (classes p) s \<noteq> None \<Longrightarrow> map_of (classes (snd (allocateLocked p sz c cio))) s \<noteq> None"
  using createPage_classes [of p "c\<lparr>nextPage := nextPage c + 1\<rparr>" "nextPage c + 1" cio]
    takeSlot_class [of _ s sz]
  by (auto simp: allocateLocked_def Let_def simp del: split_paired_Ex
    split: option.splits prod.splits sum.splits)

lemma putInClass_class:
  assumes "map_of (classes p) s \<noteq> None"
  shows "map_of (classes (snd (putInClass p sz body c cio wio))) s \<noteq> None"
    and "fst (putInClass p sz body c cio wio) \<noteq> Inr None"
proof -
  obtain r p1 where r: "allocateLocked p sz c cio = (r, p1)" by fastforce
  have k: "map_of (classes p1) s \<noteq> None"
    using allocateLocked_class [OF assms, of sz c cio] r by simp
  then show "map_of (classes (snd (putInClass p sz body c cio wio))) s \<noteq> None"
    unfolding putInClass_def r
    using freeLocked_class [of "p1\<lparr>files := f\<rparr>" s sz for f]
    by (simp add: Let_def split: sum.splits prod.splits option.splits write_io.splits)
  show "fst (putInClass p sz body c cio wio) \<noteq> Inr None"
    unfolding putInClass_def r
    by (simp add: Let_def split: sum.splits prod.splits option.splits write_io.splits)
qed

lemma poolStep_class:
  assumes "map_of (classes p) s \<noteq> None"
  shows "map_of (classes (poolStep p op)) s \<noteq> None"
proof (cases op)
  case (PoolPut sz body cio wio)
  have "map_of (classes (p\<lparr>counts := m, classes := AList.update sz x (classes p)\<rparr>)) s \<noteq> None" for m x
    using assms by simp
  then show ?thesis
    using PoolPut assms putInClass_class(1) by (simp add: poolPut_def Let_def split: option.splits)
next
  case (PoolFree sz l)
  then show ?thesis
    using assms freeLocked_class [OF assms] by (simp add: poolFree_def split: option.splits)
qed

lemma run_class:
  "map_of (classes p) s \<noteq> None \<Longrightarrow> map_of (classes (foldl poolStep p ops)) s \<noteq> None"
proof (induction ops arbitrary: p)
  case (Cons op ops)
  then show ?case using Cons.IH [OF poolStep_class [OF Cons.prems]] by simp
qed simp

text \<open>
  Promotion is for good: once a size has a class, no sequence of calls takes it away, and
  every later \<open>Put\<close> of an eligible record of that size goes to the pool or fails, it never asks the
  caller to store the record elsewhere. In particular a class whose last page was deleted by \<open>Free\<close>
  is not the same as one that was never promoted: the count does not start again.\<close>

theorem pool_promotion_permanent:
  assumes "map_of (classes p) sz \<noteq> None" "0 < sz" "sz \<le> maxRecordBytes (foldl poolStep p ops)"
    "int (length body) = sz"
  shows "map_of (classes (foldl poolStep p ops)) sz \<noteq> None \<and>
    fst (poolPut (foldl poolStep p ops) sz body cio wio) \<noteq> Inr None"
proof -
  let ?q = "foldl poolStep p ops"
  have q: "map_of (classes ?q) sz \<noteq> None" using assms(1) by (rule run_class)
  then obtain c where c: "map_of (classes ?q) sz = Some c" by blast
  have "fst (putInClass ?q sz body c cio wio) \<noteq> Inr None" using q by (rule putInClass_class(2))
  then show ?thesis using q c assms(2-4) by (simp add: poolPut_def)
qed

theorem pool_promotion_permanent_witness:
  "fst (poolPut (foldl poolStep (snd (poolPut (newPool 4096 8 []) 4 ''abcd'' CreateOK WriteOK))
     [PoolFree 4 \<lparr>Page = 1, Slot = 1\<rparr>]) 4 ''wxyz'' CreateOK WriteOK) \<noteq> Inr None"
proof -
  let ?p = "snd (poolPut (newPool 4096 8 []) 4 ''abcd'' CreateOK WriteOK)"
  have "map_of (classes ?p) 4 \<noteq> None"
    "4 \<le> maxRecordBytes (foldl poolStep ?p [PoolFree 4 \<lparr>Page = 1, Slot = 1\<rparr>])" by code_simp+
  from pool_promotion_permanent [OF this(1) _ this(2)] show ?thesis by simp
qed

end
