(* ===== verification/Cache_Item.thy ===== *)
theory Cache_Item
  imports Environment Record_Pool
begin

text \<open>
  The items of the action cache (\<open>internal/cache/store.go\<close>): \<open>ResponseItem\<close>, the readers of its body
  and \<open>WriteTo\<close>. A reader is what it will deliver; an open reader of a file delivers the file's
  content. An \<open>io.Writer\<close> takes bytes until it fails for good.
\<close>

section \<open>Items\<close>

text \<open>The \<open>bodyReader\<close> of an item: none, a ready-made one, or one that reads a pool record.\<close>

datatype body_src = NilReader | BytesReader "reader result" | PoolReader int loc

record cacheItem =
  ri_ActionID :: string
  ri_Miss :: bool
  ri_OutputID :: string
  ri_Size :: int
  ri_Time :: "int option"
  ri_IsCompressed :: bool
  ri_WireSize :: int
  ri_DiskPath :: path
  ri_body :: body_src

record preloadRequest =
  pr_MaxSize :: int
  pr_Commit :: string
  pr_ChangesID :: string
  pr_BuildType :: string
  pr_BaseCommit :: string
  pr_ParentCommit :: string

definition MinCompressionSize :: int where "MinCompressionSize = 200"

section \<open>Body readers\<close>

definition zstdReader :: "env \<Rightarrow> reader \<Rightarrow> reader" where
  "zstdReader E rd =
     (case snd rd of None \<Rightarrow> zstream E (fst rd) | Some e \<Rightarrow> (fst (zstream E (fst rd)), Some e))"

text \<open>\<open>PrepareBodyReader\<close> and the call of the reader it leaves.\<close>

definition ri_openBody :: "env \<Rightarrow> fs \<Rightarrow> pool \<Rightarrow> cacheItem \<Rightarrow> reader result" where
  "ri_openBody E d p it =
     (case ri_body it of
        BytesReader r \<Rightarrow> r
      | PoolReader sz l \<Rightarrow>
          (case poolRead p sz l of Inl e \<Rightarrow> Inl e | Inr b \<Rightarrow> Inr (b, None))
      | NilReader \<Rightarrow>
          (if ri_DiskPath it = [] then Inl (ErrMsg ''no body reader for item'')
           else (case readFile E d (ri_DiskPath it) of
               Inl e \<Rightarrow> Inl e | Inr b \<Rightarrow> Inr (b, None))))"

text \<open>The result \<open>Inr None\<close> is a nil reader.\<close>

definition ri_wireBodyReader :: "env \<Rightarrow> fs \<Rightarrow> pool \<Rightarrow> cacheItem \<Rightarrow> reader option result" where
  "ri_wireBodyReader E d p it =
     (if ri_Size it = 0 \<and> ri_WireSize it = 0 then Inr None
      else (case ri_openBody E d p it of Inl e \<Rightarrow> Inl e | Inr rd \<Rightarrow> Inr (Some rd)))"

definition ri_uncompressedBodyReader :: "env \<Rightarrow> fs \<Rightarrow> pool \<Rightarrow> cacheItem \<Rightarrow> reader option result" where
  "ri_uncompressedBodyReader E d p it =
     (if ri_Size it = 0 \<and> ri_WireSize it = 0 then Inr None
      else (case ri_openBody E d p it of Inl e \<Rightarrow> Inl e
         | Inr rd \<Rightarrow> Inr (Some (if ri_IsCompressed it then zstdReader E rd else rd))))"

text \<open>\<open>CompressedBodyReader\<close> also changes the item.\<close>

definition ri_compressedBodyReader ::
  "env \<Rightarrow> fs \<Rightarrow> pool \<Rightarrow> cacheItem \<Rightarrow> reader option result \<times> cacheItem" where
  "ri_compressedBodyReader E d p it =
     (if ri_Size it = 0 \<and> ri_WireSize it = 0 then (Inr None, it)
      else (case ri_openBody E d p it of Inl e \<Rightarrow> (Inl e, it)
         | Inr rd \<Rightarrow>
             (if ri_IsCompressed it then (Inr (Some rd), it)
              else (case snd rd of
                  Some e \<Rightarrow> (Inl e, it)
                | None \<Rightarrow>
                    (let buf = zenc E (fst rd) in
                     (Inr (Some (buf, None)),
                      it\<lparr>ri_WireSize := int (length buf), ri_IsCompressed := True\<rparr>))))))"

text \<open>A body reader that yields exactly these bytes; a nil reader stands for an empty body.\<close>

definition delivers :: "reader option result \<Rightarrow> bytes \<Rightarrow> bool" where
  "delivers r b = (r = Inr (Some (b, None)) \<or> r = Inr None \<and> b = [])"

section \<open>Reading and writing in full\<close>

definition errEOF :: go_error where "errEOF = ErrIO ''EOF''"

definition errUnexpectedEOF :: go_error where "errUnexpectedEOF = ErrIO ''unexpected EOF''"

text \<open>\<open>errors.Is(e, t)\<close> for a plain target \<open>t\<close>.\<close>

fun errorsIs :: "go_error \<Rightarrow> go_error \<Rightarrow> bool" where
  "errorsIs t (ErrWrap m e) = (t = ErrWrap m e \<or> errorsIs t e)"
| "errorsIs t e = (e = t)"

text \<open>\<open>io.ReadFull\<close> of \<open>n\<close> bytes: the bytes and the rest of the reader, or the number of bytes read and
  the error.\<close>

definition readFull :: "nat \<Rightarrow> reader \<Rightarrow> (nat \<times> go_error) + (bytes \<times> reader)" where
  "readFull n rd =
     (if n \<le> length (fst rd) then Inr (take n (fst rd), (drop n (fst rd), snd rd))
      else Inl (length (fst rd),
        case snd rd of Some e \<Rightarrow> e
        | None \<Rightarrow> (if fst rd = [] then errEOF else errUnexpectedEOF)))"

record writer =
  written :: bytes
  room :: "nat option"
  werr :: go_error

text \<open>\<open>Write\<close> returns the number of bytes written, and an error if that is not all of them.\<close>

definition wwrite :: "writer \<Rightarrow> bytes \<Rightarrow> (nat \<times> go_error option) \<times> writer" where
  "wwrite w b =
     (case room w of
        None \<Rightarrow> ((length b, None), w\<lparr>written := written w @ b\<rparr>)
      | Some n \<Rightarrow>
          (if length b \<le> n then
             ((length b, None), w\<lparr>written := written w @ b, room := Some (n - length b)\<rparr>)
           else ((n, Some (werr w)), w\<lparr>written := written w @ take n b, room := Some 0\<rparr>)))"

definition bytesBuffer :: writer where
  "bytesBuffer = \<lparr>written = [], room = None, werr = ErrPanic ''unused''\<rparr>"

text \<open>\<open>ResponseItem.WriteTo\<close>: exactly \<open>WireSize\<close> bytes of the body, or an error. A negative
  \<open>WireSize\<close> is a negative slice length, which panics.\<close>

definition ri_WriteTo ::
  "env \<Rightarrow> fs \<Rightarrow> pool \<Rightarrow> cacheItem \<Rightarrow> writer \<Rightarrow> (int \<times> go_error option) \<times> writer" where
  "ri_WriteTo E d p it w =
     (if ri_Size it = 0 \<and> ri_WireSize it = 0 then ((0, None), w)
      else (case ri_wireBodyReader E d p it of
          Inl e \<Rightarrow> ((0, Some e), w)
        | Inr None \<Rightarrow> ((0, None), w)
        | Inr (Some rd) \<Rightarrow>
            (if ri_WireSize it < 0 then ((0, Some (ErrPanic ''makeslice: len out of range'')), w)
             else (case readFull (nat (ri_WireSize it)) rd of
                 Inl (n, e) \<Rightarrow> ((int n, Some (ErrWrap ''read item'' e)), w)
               | Inr (buf, _) \<Rightarrow>
                   (case wwrite w buf of
                      ((n, Some e), w') \<Rightarrow> ((int n, Some (ErrWrap ''write item'' e)), w')
                    | ((n, None), w') \<Rightarrow>
                        (if int n \<noteq> ri_WireSize it
                         then ((int n, Some (ErrMsg ''unexpected item write'')), w')
                         else ((int n, None), w')))))))"

lemma ri_WriteTo_buffer:
  assumes "ri_WriteTo E d p it w = ((n, None), w')" "room w = None"
  shows "\<exists>b. n = int (length b) \<and> n = ri_WireSize it \<and> w' = w\<lparr>written := written w @ b\<rparr>"
proof (cases "ri_Size it = 0 \<and> ri_WireSize it = 0")
  case True
  then show ?thesis using assms by (auto simp: ri_WriteTo_def)
next
  case False
  then show ?thesis
    using assms
    by (intro exI [of _ "take (nat (ri_WireSize it)) (fst (projr (ri_openBody E d p it)))"])
      (auto simp: ri_WriteTo_def ri_wireBodyReader_def wwrite_def readFull_def
        split: if_splits sum.splits option.splits prod.splits)
qed

end
