(* ===== verification/Gocache_Store.thy ===== *)
theory Gocache_Store
  imports Manifest Eviction_Heap Cache_Item
begin

text \<open>
  The native GOCACHE object store (\<open>internal/gocache/store.go\<close>): objects under relative paths, kept
  as plain files or as records of the pool, an index with the accounting of disk usage, the
  eviction heap, and manifests that list the objects a build used. The state \<open>store\<close> has the fields
  of \<open>Store\<close> and the part of the file system below the store's directory; the pool's own directory
  is inside \<open>pool\<close>, and \<open>index.json\<close> is held as the map it encodes. Each operation takes the
  environment, and returns its result and the new state. \<open>putOne\<close> releases the store's mutex between
  its three parts, which are definitions of their own; other operations are atomic here. Ranging
  over a Go map has no fixed order; the model takes the order of the association list.
\<close>

section \<open>Data\<close>

record request =
  Commit :: string
  ChangesID :: string
  BuildType :: string
  BaseCommit :: string
  ParentCommit :: string
  MaxFileBytes :: int
  MaxPreloadTotalBytes :: int

record fileItem =
  fi_Path :: string
  fi_Size :: int
  fi_ModTime :: "int option"
  fi_Mode :: nat
  fi_IsCompressed :: bool
  fi_WireSize :: int
  fi_DiskPath :: path
  fi_body :: body_src

record indexEntry =
  ie_Size :: int
  ie_Mode :: nat
  ie_WireSize :: int
  ie_Compressed :: int
  ie_ModTimeMicro :: int
  ie_PoolPage :: u32
  ie_PoolSlot :: u32

record store =
  dir :: path
  compress :: bool
  maxDiskBytes :: int
  maxFileBytes :: int
  manifestMaxAge :: int
  index :: "(string \<times> indexEntry) list"
  dirty :: bool
  ready :: bool
  currentDiskBytes :: int
  evictionScheduled :: bool
  pool_of :: pool
  evictHeap :: evictionHeap
  disk :: fs
  savedIndex :: "(string \<times> indexEntry) list option"
  hits :: int
  puts :: int
  putsExist :: int
  errors :: int

record clearStats =
  ManifestsDeleted :: int
  ObjectsDeleted :: int
  ObjectsKept :: int

record inspectStats =
  ManifestsCount :: int
  FilesCount :: int
  CompressedBytes :: int
  UncompressedBytes :: int
  MaxFileSize :: int
  MaxBandFilesCount :: int
  MaxBandCompressedBytes :: int
  MaxBandUncompressedBytes :: int

definition entryLoc :: "indexEntry \<Rightarrow> loc" where
  "entryLoc ie = \<lparr>Page = ie_PoolPage ie, Slot = ie_PoolSlot ie\<rparr>"

definition entryStoredSize :: "indexEntry \<Rightarrow> int" where
  "entryStoredSize ie = (if 0 < ie_WireSize ie then ie_WireSize ie else ie_Size ie)"

definition objectPath :: "path \<Rightarrow> string \<Rightarrow> path" where
  "objectPath d relPath = joinPath [d, ''objects'', relPath]"

section \<open>Body readers\<close>

text \<open>\<open>PrepareBodyReader\<close> and the call of the reader it leaves.\<close>

definition openBody :: "env \<Rightarrow> fs \<Rightarrow> pool \<Rightarrow> fileItem \<Rightarrow> reader result" where
  "openBody E d p it =
     (case fi_body it of
        BytesReader r \<Rightarrow> r
      | PoolReader sz l \<Rightarrow>
          (case poolRead p sz l of Inl e \<Rightarrow> Inl e | Inr b \<Rightarrow> Inr (b, None))
      | NilReader \<Rightarrow>
          (if fi_DiskPath it = [] then Inl (ErrMsg ''no body reader for item'')
           else (case readFile E d (fi_DiskPath it) of
               Inl e \<Rightarrow> Inl e | Inr b \<Rightarrow> Inr (b, None))))"

text \<open>The result \<open>Inr None\<close> is a nil reader.\<close>

definition wireBodyReader :: "env \<Rightarrow> fs \<Rightarrow> pool \<Rightarrow> fileItem \<Rightarrow> reader option result" where
  "wireBodyReader E d p it =
     (if fi_Size it = 0 \<and> fi_WireSize it = 0 then Inr None
      else (case openBody E d p it of Inl e \<Rightarrow> Inl e | Inr rd \<Rightarrow> Inr (Some rd)))"

definition uncompressedBodyReader :: "env \<Rightarrow> fs \<Rightarrow> pool \<Rightarrow> fileItem \<Rightarrow> reader option result" where
  "uncompressedBodyReader E d p it =
     (if fi_Size it = 0 \<and> fi_WireSize it = 0 then Inr None
      else (case openBody E d p it of Inl e \<Rightarrow> Inl e
         | Inr rd \<Rightarrow> Inr (Some (if fi_IsCompressed it then zstdReader E rd else rd))))"

definition compressedBodyReader :: "env \<Rightarrow> fs \<Rightarrow> pool \<Rightarrow> fileItem \<Rightarrow> reader option result" where
  "compressedBodyReader E d p it =
     (if fi_Size it = 0 \<and> fi_WireSize it = 0 then Inr None
      else (case openBody E d p it of Inl e \<Rightarrow> Inl e
         | Inr rd \<Rightarrow>
             (if fi_IsCompressed it then Inr (Some rd)
              else (case snd rd of Some e \<Rightarrow> Inl e | None \<Rightarrow> Inr (Some (zenc E (fst rd), None))))))"

section \<open>Removing objects and eviction\<close>

definition removeObjectLocked ::
  "env \<Rightarrow> store \<Rightarrow> string \<Rightarrow> indexEntry \<Rightarrow> go_error option \<times> store" where
  "removeObjectLocked E s relPath ie =
     (if ie_PoolPage ie \<noteq> 0 then
        (None, s\<lparr>pool_of := poolFree (pool_of s) (entryStoredSize ie) (entryLoc ie)\<rparr>)
      else (case removeIfExists E (disk s) (objectPath (dir s) relPath) of
          (r, d) \<Rightarrow> (r, s\<lparr>disk := d\<rparr>)))"

text \<open>Dropping an entry from the index and its object from disk; the removal's error is only
  logged.\<close>

definition dropEntry :: "env \<Rightarrow> store \<Rightarrow> string \<Rightarrow> indexEntry \<Rightarrow> store" where
  "dropEntry E s relPath ie =
     snd (removeObjectLocked E
       (s\<lparr>index := AList.delete relPath (index s),
          currentDiskBytes := currentDiskBytes s - entryStoredSize ie, dirty := True\<rparr>) relPath ie)"

text \<open>The result tells whether an entry was evicted; comparing entries can panic.\<close>

function evictOneLocked :: "env \<Rightarrow> store \<Rightarrow> bool result \<times> store" where
  "evictOneLocked E s =
     (case heapPop (evictHeap s) of
        Inl e \<Rightarrow> (Inl e, s)
      | Inr (None, h) \<Rightarrow> (Inr False, s\<lparr>evictHeap := h\<rparr>)
      | Inr (Some e, h) \<Rightarrow>
          (let s1 = s\<lparr>evictHeap := h\<rparr> in
           case map_of (index s1) (he_path e) of
             None \<Rightarrow> evictOneLocked E s1
           | Some ie \<Rightarrow>
               (if ie_ModTimeMicro ie \<noteq> he_modTimeMicro e \<or> entryStoredSize ie \<noteq> he_size e
                then evictOneLocked E s1
                else (Inr True, dropEntry E s1 (he_path e) ie))))"
  by pat_completeness auto
termination
  by (relation "measure (\<lambda>(E, s). length (items (evictHeap s)))") (auto dest: heapPop_shrinks)

declare evictOneLocked.simps [simp del]

definition evictionMarginFraction :: int where "evictionMarginFraction = 10"

lemma removeObjectLocked_frame:
  assumes "removeObjectLocked E s relPath ie = (r, s')"
  shows "index s' = index s" "evictHeap s' = evictHeap s" "currentDiskBytes s' = currentDiskBytes s"
    "dir s' = dir s" "maxDiskBytes s' = maxDiskBytes s" "dirty s' = dirty s"
  using assms by (auto simp: removeObjectLocked_def split: if_splits prod.splits)

lemma dropEntry_frame:
  "index (dropEntry E s relPath ie) = AList.delete relPath (index s)"
  "currentDiskBytes (dropEntry E s relPath ie) = currentDiskBytes s - entryStoredSize ie"
  "evictHeap (dropEntry E s relPath ie) = evictHeap s"
  "dir (dropEntry E s relPath ie) = dir s" "maxDiskBytes (dropEntry E s relPath ie) = maxDiskBytes s"
  using removeObjectLocked_frame [OF surjective_pairing]
  by (simp_all add: dropEntry_def)

lemma evictOneLocked_shrinks:
  "evictOneLocked E s = (Inr True, s') \<Longrightarrow> length (items (evictHeap s')) < length (items (evictHeap s))"
proof (induction "length (items (evictHeap s))" arbitrary: s rule: less_induct)
  case less
  note e = less.prems [unfolded evictOneLocked.simps [of E s]]
  obtain x h where pop: "heapPop (evictHeap s) = Inr (Some x, h)"
    using e by (auto split: sum.splits prod.splits option.splits)
  have len: "length (items h) < length (items (evictHeap s))" using heapPop_shrinks [OF pop] by simp
  let ?s1 = "s\<lparr>evictHeap := h\<rparr>"
  have ih: "evictOneLocked E ?s1 = (Inr True, s') \<Longrightarrow> length (items (evictHeap s')) < length (items h)"
    using less.hyps [of ?s1] len by simp
  show ?case
  proof (cases "map_of (index s) (he_path x)")
    case None
    then show ?thesis using e pop ih len by simp
  next
    case (Some ie)
    then show ?thesis using e pop ih len by (auto simp: dropEntry_frame Let_def split: if_splits)
  qed
qed

text \<open>\<open>for s.currentDiskBytes > target && s.evictOneLocked()\<close>; the result is a panic, if any.\<close>

function evictDownTo :: "env \<Rightarrow> int \<Rightarrow> store \<Rightarrow> go_error option \<times> store" where
  "evictDownTo E target s =
     (if target < currentDiskBytes s then
        (case evictOneLocked E s of
           (Inl e, s') \<Rightarrow> (Some e, s')
         | (Inr b, s') \<Rightarrow> (if b then evictDownTo E target s' else (None, s')))
      else (None, s))"
  by pat_completeness auto
termination
  by (relation "measure (\<lambda>(E, t, s). length (items (evictHeap s)))")
    (auto dest!: evictOneLocked_shrinks [OF sym])

declare evictDownTo.simps [simp del]

definition evictIfNeededLocked :: "env \<Rightarrow> store \<Rightarrow> go_error option \<times> store" where
  "evictIfNeededLocked E s =
     (if maxDiskBytes s \<le> 0 \<or> currentDiskBytes s \<le> maxDiskBytes s then (None, s)
      else evictDownTo E (maxDiskBytes s - maxDiskBytes s sdiv evictionMarginFraction) s)"

definition EvictNow :: "env \<Rightarrow> store \<Rightarrow> go_error option \<times> store" where
  "EvictNow E s = evictIfNeededLocked E s"

definition DiskBytes :: "store \<Rightarrow> int" where
  "DiskBytes s = currentDiskBytes s"

definition EvictOne :: "env \<Rightarrow> store \<Rightarrow> bool result \<times> store" where
  "EvictOne E s = evictOneLocked E s"

definition diskFullEvictFraction :: int where "diskFullEvictFraction = 10"

fun evictTimes :: "env \<Rightarrow> nat \<Rightarrow> store \<Rightarrow> go_error option \<times> store" where
  "evictTimes E 0 s = (None, s)"
| "evictTimes E (Suc n) s =
     (case evictOneLocked E s of
        (Inl e, s') \<Rightarrow> (Some e, s')
      | (Inr b, s') \<Rightarrow> (if b then evictTimes E n s' else (None, s')))"

definition evictOnDiskFullLocked :: "env \<Rightarrow> store \<Rightarrow> go_error option \<times> store" where
  "evictOnDiskFullLocked E s =
     (let n = int (length (index s)) div diskFullEvictFraction in
      evictTimes E (nat (if n = 0 then 1 else n)) s)"

text \<open>\<open>handleWriteErr\<close> returns the error unchanged, unless the eviction panics.\<close>

definition handleWriteErr :: "env \<Rightarrow> store \<Rightarrow> go_error \<Rightarrow> go_error \<times> store" where
  "handleWriteErr E s e =
     (if isNoSpace e then
        (case evictOnDiskFullLocked E s of
           (None, s') \<Rightarrow> (e, s') | (Some panic, s') \<Rightarrow> (panic, s'))
      else (e, s))"

text \<open>Whether \<open>scheduleEvictionLocked\<close> starts the delayed goroutine.\<close>

definition scheduleEvictionLocked :: "store \<Rightarrow> store" where
  "scheduleEvictionLocked s =
     (if evictionScheduled s then s
      else if manifestMaxAge s \<le> 0 \<and> (maxDiskBytes s \<le> 0 \<or> currentDiskBytes s \<le> maxDiskBytes s) then s
      else s\<lparr>evictionScheduled := True\<rparr>)"


section \<open>Saving\<close>

definition fileMode :: "fileItem \<Rightarrow> nat" where
  "fileMode it = fi_Mode it"

definition writeAtomic :: "env \<Rightarrow> fs \<Rightarrow> path \<Rightarrow> reader option \<Rightarrow> nat \<Rightarrow> go_error option \<times> fs" where
  "writeAtomic E d outputFile rd mode =
     (case writeErr E outputFile of
        Some e \<Rightarrow> (Some (ErrWrap ''write file'' e), d)
      | None \<Rightarrow> (case rd of
            None \<Rightarrow> writeRename E d outputFile [] mode
          | Some (b, Some e) \<Rightarrow> (Some (ErrWrap ''copy to file'' e), d)
          | Some (b, None) \<Rightarrow> writeRename E d outputFile b mode))"

definition compressNowBodyReader ::
  "env \<Rightarrow> store \<Rightarrow> fileItem \<Rightarrow> indexEntry \<Rightarrow> reader option result \<times> indexEntry" where
  "compressNowBodyReader E s it ie =
     (case compressedBodyReader E (disk s) (pool_of s) it of
        Inl e \<Rightarrow> (Inl e, ie)
      | Inr None \<Rightarrow> (Inl (ErrPanic ''nil reader''), ie)
      | Inr (Some (b, Some e)) \<Rightarrow> (Inl e, ie)
      | Inr (Some (b, None)) \<Rightarrow>
          (Inr (Some (b, None)), ie\<lparr>ie_Compressed := 1, ie_WireSize := int (length b)\<rparr>))"

definition bodyReaderForPut ::
  "env \<Rightarrow> store \<Rightarrow> fileItem \<Rightarrow> indexEntry \<Rightarrow> reader option result \<times> indexEntry" where
  "bodyReaderForPut E s it ie =
     (if fi_IsCompressed it \<and> compress s then
        (wireBodyReader E (disk s) (pool_of s) it,
         ie\<lparr>ie_Compressed := 1, ie_WireSize := fi_WireSize it\<rparr>)
      else if fi_IsCompressed it \<and> \<not> compress s then
        (uncompressedBodyReader E (disk s) (pool_of s) it, ie)
      else if \<not> fi_IsCompressed it \<and> compress s \<and> MinCompressionSize \<le> fi_Size it then
        compressNowBodyReader E s it ie
      else (uncompressedBodyReader E (disk s) (pool_of s) it, ie))"

text \<open>The plain-file half of \<open>storePutBody\<close>. \<open>counted\<close> tells whether the length is still unchecked.\<close>

definition storePlain ::
  "env \<Rightarrow> store \<Rightarrow> fileItem \<Rightarrow> int \<Rightarrow> reader \<Rightarrow> bool \<Rightarrow> go_error option \<times> store" where
  "storePlain E s it recSize src counted =
     (let mode = (if fileMode it = 0 then 384 else fileMode it);
          p = objectPath (dir s) (fi_Path it)
      in case writeAtomic E (disk s) p (Some src) mode of
           (Some e, d) \<Rightarrow>
             (case handleWriteErr E (s\<lparr>disk := d\<rparr>) e of
                (e', s') \<Rightarrow> (Some (ErrWrap ''write object'' e'), s'))
         | (None, d) \<Rightarrow>
             (if counted \<and> int (length (fst src)) \<noteq> recSize then
                (Some (ErrMsg ''save body length does not match expected''),
                 s\<lparr>disk := snd (removeIfExists E d p)\<rparr>)
              else (case chtimesErr E p of
                  Some e \<Rightarrow> (Some (ErrWrap ''set object mtime'' e), s\<lparr>disk := d\<rparr>)
                | None \<Rightarrow> (None, s\<lparr>disk := d\<rparr>))))"

definition storePutBody ::
  "env \<Rightarrow> store \<Rightarrow> fileItem \<Rightarrow> indexEntry \<Rightarrow> reader option \<Rightarrow> indexEntry result \<times> store" where
  "storePutBody E s it ie rd =
     (let recSize = entryStoredSize ie;
          plain = (\<lambda>s src counted. case storePlain E s it recSize src counted of
              (Some e, s') \<Rightarrow> (Inl e, s') | (None, s') \<Rightarrow> (Inr ie, s'))
      in if 0 < recSize \<and> recSize \<le> maxRecordBytes (pool_of s) then
           (case rd of
              None \<Rightarrow> (Inl (ErrPanic ''nil reader''), s)
            | Some (body, Some e) \<Rightarrow> (Inl (ErrWrap ''read save body'' e), s)
            | Some (body, None) \<Rightarrow>
                (if int (length body) \<noteq> recSize then
                   (Inl (ErrMsg ''save body length does not match expected''), s)
                 else (case poolPut (pool_of s) recSize body (poolCreate E) (poolWrite E) of
                     (Inl e, p) \<Rightarrow>
                       (case handleWriteErr E (s\<lparr>pool_of := p\<rparr>) e of
                          (e', s') \<Rightarrow> (Inl (ErrWrap ''write pooled record'' e'), s'))
                   | (Inr (Some l), p) \<Rightarrow>
                       (Inr (ie\<lparr>ie_PoolPage := Page l, ie_PoolSlot := Slot l\<rparr>), s\<lparr>pool_of := p\<rparr>)
                   | (Inr None, p) \<Rightarrow> plain (s\<lparr>pool_of := p\<rparr>) (body, None) False)))
         else plain s (case rd of None \<Rightarrow> ([], None) | Some r \<Rightarrow> r) True)"

definition releaseSupersededLocked ::
  "env \<Rightarrow> store \<Rightarrow> string \<Rightarrow> indexEntry \<Rightarrow> indexEntry \<Rightarrow> store" where
  "releaseSupersededLocked E s relPath existing ie =
     (if ie_PoolPage existing \<noteq> 0 then
        s\<lparr>pool_of := poolFree (pool_of s) (entryStoredSize existing) (entryLoc existing)\<rparr>
      else if ie_PoolPage ie \<noteq> 0 then
        s\<lparr>disk := snd (removeIfExists E (disk s) (objectPath (dir s) relPath))\<rparr>
      else s)"

text \<open>The first part of \<open>putOne\<close>, up to the lookup of the existing entry.\<close>

definition putBegin ::
  "env \<Rightarrow> store \<Rightarrow> fileItem \<Rightarrow> (indexEntry option \<times> indexEntry) option result \<times> store" where
  "putBegin E s it =
     (if fi_Path it = [] then (Inl (ErrMsg ''empty path''), s)
      else if 0 < maxFileBytes s \<and> maxFileBytes s < fi_Size it then (Inr None, s)
      else (let existing = map_of (index s) (fi_Path it);
                s1 = s\<lparr>puts := puts s + 1,
                       putsExist := putsExist s + (if existing = None then 0 else 1)\<rparr>;
                ie = \<lparr>ie_Size = fi_Size it, ie_Mode = fi_Mode it, ie_WireSize = 0, ie_Compressed = 0,
                      ie_ModTimeMicro = (case existing of None \<Rightarrow> now E | Some x \<Rightarrow> ie_ModTimeMicro x),
                      ie_PoolPage = 0, ie_PoolSlot = 0\<rparr>
            in (Inr (Some (existing, ie)), s1)))"

text \<open>The second part: choosing the reader and writing the body, without the mutex.\<close>

definition putStore :: "env \<Rightarrow> store \<Rightarrow> fileItem \<Rightarrow> indexEntry \<Rightarrow> indexEntry result \<times> store" where
  "putStore E s it ie =
     (case bodyReaderForPut E s it ie of
        (Inl e, ie1) \<Rightarrow> (Inl (ErrWrap ''get reader for save'' e), s\<lparr>errors := errors s + 1\<rparr>)
      | (Inr rd, ie1) \<Rightarrow>
          (case storePutBody E s it ie1 rd of
             (Inl e, s') \<Rightarrow> (Inl e, s'\<lparr>errors := errors s' + 1\<rparr>)
           | (Inr ie2, s') \<Rightarrow> (Inr ie2, s')))"

text \<open>The third part: accounting and index, under the mutex. Pushing to the heap can panic.\<close>

definition putCommit ::
  "env \<Rightarrow> store \<Rightarrow> fileItem \<Rightarrow> indexEntry option \<Rightarrow> indexEntry \<Rightarrow> go_error option \<times> store" where
  "putCommit E s it existing ie =
     (let s1 = (case existing of
            None \<Rightarrow> s
          | Some x \<Rightarrow> releaseSupersededLocked E
              (s\<lparr>currentDiskBytes := currentDiskBytes s - entryStoredSize x\<rparr>) (fi_Path it) x ie);
          s2 = s1\<lparr>currentDiskBytes := currentDiskBytes s1 + entryStoredSize ie,
                  index := AList.update (fi_Path it) ie (index s1)\<rparr>;
          fin = (\<lambda>s. (None, scheduleEvictionLocked (s\<lparr>dirty := True\<rparr>)))
      in if existing \<noteq> None then fin s2
         else (case heapPush (evictHeap s2) (fi_Path it) (entryStoredSize ie) (ie_ModTimeMicro ie) of
             Inl e \<Rightarrow> (Some e, s2) | Inr h \<Rightarrow> fin (s2\<lparr>evictHeap := h\<rparr>)))"

definition putOne :: "env \<Rightarrow> store \<Rightarrow> fileItem \<Rightarrow> go_error option \<times> store" where
  "putOne E s it =
     (case putBegin E s it of
        (Inl e, s1) \<Rightarrow> (Some e, s1)
      | (Inr None, s1) \<Rightarrow> (None, s1)
      | (Inr (Some (existing, ie)), s1) \<Rightarrow>
          (case putStore E s1 it ie of
             (Inl e, s2) \<Rightarrow> (Some e, s2)
           | (Inr ie2, s2) \<Rightarrow> putCommit E s2 it existing ie2))"

definition SaveItem :: "env \<Rightarrow> store \<Rightarrow> fileItem \<Rightarrow> go_error option \<times> store" where
  "SaveItem E s it = putOne E s it"


section \<open>Manifests on disk\<close>

definition loadManifest :: "env \<Rightarrow> store \<Rightarrow> path \<Rightarrow> (string list \<times> bool) result" where
  "loadManifest E s manifestPath =
     (case readFile E (disk s) manifestPath of
        Inl e \<Rightarrow> Inl e
      | Inr raw \<Rightarrow>
          (case (if hasSuffix manifestPath manifestExt then zdec E raw else Inr raw) of
             Inl e \<Rightarrow> Inl (ErrWrap ''decode manifest'' e)
           | Inr data \<Rightarrow>
               (case scan_lines scanLimit data of
                  Inl e \<Rightarrow> Inl (ErrWrap ''scan manifest'' e)
                | Inr ls \<Rightarrow>
                    (case loadManifest_lines [] ls False of (candidates, changed) \<Rightarrow>
                      (let res = filter (\<lambda>p. map_of (index s) p \<noteq> None) candidates in
                       Inr (res, changed \<or> length res < length candidates))))))"

definition readManifestPaths :: "env \<Rightarrow> fs \<Rightarrow> path \<Rightarrow> string list result" where
  "readManifestPaths E d manifestPath =
     (case readFile E d manifestPath of
        Inl e \<Rightarrow> Inl e
      | Inr raw \<Rightarrow>
          (case (if hasSuffix manifestPath manifestExt then zdec E raw else Inr raw) of
             Inl e \<Rightarrow> Inl (ErrWrap ''decode manifest'' e)
           | Inr data \<Rightarrow>
               (case scan_lines scanLimit data of
                  Inl e \<Rightarrow> Inl (ErrWrap ''scan manifest'' e)
                | Inr ls \<Rightarrow> Inr (readManifestPaths_lines [] ls))))"

definition writeManifest :: "env \<Rightarrow> store \<Rightarrow> path \<Rightarrow> bytes \<Rightarrow> go_error option \<times> store" where
  "writeManifest E s manifestPath body =
     (let data = (if hasSuffix manifestPath manifestExt then zenc E body else body) in
      case writeRename E (disk s) manifestPath data 384 of
        (Some e, d) \<Rightarrow> (case handleWriteErr E s e of
            (e', s') \<Rightarrow> (Some (ErrWrap ''write manifest'' e'), s'))
      | (None, d) \<Rightarrow> (None, s\<lparr>disk := d\<rparr>))"

definition listManifestFiles :: "env \<Rightarrow> fs \<Rightarrow> path \<Rightarrow> path list result" where
  "listManifestFiles E d root =
     (case listErr E root of
        Some e \<Rightarrow> (if isNotExist e then Inr [] else Inl e)
      | None \<Rightarrow> Inr (filter (\<lambda>p. \<not> hasSuffix p ''.tmp'') (walkFiles d root)))"

definition mergeManifest :: "env \<Rightarrow> store \<Rightarrow> path \<Rightarrow> string list \<Rightarrow> go_error option \<times> store" where
  "mergeManifest E s manifestPath paths =
     (let merge = (\<lambda>existing. writeManifest E s manifestPath
            (joinManifestBody (unionManifestPaths [existing, paths])))
      in case loadManifest E s manifestPath of
           Inl e \<Rightarrow> (if isNotExist e then merge [] else (Some e, s))
         | Inr (existing, changed) \<Rightarrow> merge existing)"

definition MergeSavedPaths :: "env \<Rightarrow> store \<Rightarrow> request \<Rightarrow> string list \<Rightarrow> go_error option \<times> store" where
  "MergeSavedPaths E s req paths =
     (let chg = (\<lambda>s. if ChangesID req = [] then (None, s)
            else (case changesManifestPath (dir s) (ChangesID req) (BuildType req) of
                Inl e \<Rightarrow> (Some e, s) | Inr p \<Rightarrow> mergeManifest E s p paths))
      in if Commit req = [] then chg s
         else (case commitManifestPath (dir s) (Commit req) (BuildType req) of
             Inl e \<Rightarrow> (Some e, s)
           | Inr p \<Rightarrow> (case mergeManifest E s p paths of
                 (Some e, s') \<Rightarrow> (Some e, s') | (None, s') \<Rightarrow> chg s')))"

fun saveItems :: "env \<Rightarrow> store \<Rightarrow> fileItem list \<Rightarrow> string list \<Rightarrow> string list result \<times> store" where
  "saveItems E s [] paths = (Inr paths, s)"
| "saveItems E s (it # its) paths =
     (case cleanRelativePath (fi_Path it) of
        Inl e \<Rightarrow> (Inl e, s)
      | Inr p \<Rightarrow> (case putOne E s (it\<lparr>fi_Path := p\<rparr>) of
            (Some e, s') \<Rightarrow> (Inl e, s')
          | (None, s') \<Rightarrow> saveItems E s' its (paths @ [p])))"

definition Save :: "env \<Rightarrow> store \<Rightarrow> request \<Rightarrow> fileItem list \<Rightarrow> go_error option \<times> store" where
  "Save E s req batch =
     (case saveItems E s batch [] of
        (Inl e, s') \<Rightarrow> (Some e, s')
      | (Inr paths, s') \<Rightarrow> MergeSavedPaths E s' req paths)"

text \<open>The lines \<open>AppendUploadPaths\<close> appends; a write that fails mid-way keeps the lines before it,
  which the model's single failure per path leaves out.\<close>

definition AppendUploadPaths ::
  "env \<Rightarrow> store \<Rightarrow> string \<Rightarrow> string list \<Rightarrow> go_error option \<times> store" where
  "AppendUploadPaths E s uploadID paths =
     (case uploadSessionPath (dir s) uploadID of
        Inl e \<Rightarrow> (Some e, s)
      | Inr p \<Rightarrow>
          (case writeErr E p of
             Some e \<Rightarrow> (Some (ErrWrap ''append upload session'' e), s)
           | None \<Rightarrow>
               (let old = (case map_of (disk s) p of None \<Rightarrow> [] | Some f \<Rightarrow> content f);
                    new = concat (map (\<lambda>x. x @ [nl]) (filter (\<lambda>x. x \<noteq> []) (map trimSpace paths)))
                in (None, s\<lparr>disk := AList.update p
                      \<lparr>content = old @ new, mtime = now E, fmode = 384\<rparr> (disk s)\<rparr>))))"

definition FinalizeUpload :: "env \<Rightarrow> store \<Rightarrow> request \<Rightarrow> string \<Rightarrow> go_error option \<times> store" where
  "FinalizeUpload E s req uploadID =
     (case uploadSessionPath (dir s) uploadID of
        Inl e \<Rightarrow> (Some e, s)
      | Inr up \<Rightarrow>
          (case loadManifest E s up of
             Inl e \<Rightarrow> (if isNotExist e then (None, s) else (Some e, s))
           | Inr (paths, changed) \<Rightarrow>
               (case MergeSavedPaths E s req paths of
                  (Some e, s') \<Rightarrow> (Some e, s')
                | (None, s') \<Rightarrow>
                    (case removeIfExists E (disk s') up of
                       (Some e, d) \<Rightarrow> (Some (ErrWrap ''remove upload session'' e), s'\<lparr>disk := d\<rparr>)
                     | (None, d) \<Rightarrow> (None, s'\<lparr>disk := d\<rparr>)))))"

definition targetManifestPaths :: "env \<Rightarrow> store \<Rightarrow> request \<Rightarrow> path list result" where
  "targetManifestPaths E s req =
     (if trimSpace (BuildType req) \<noteq> [] \<and> trimSpace (Commit req) = [] \<and>
         trimSpace (ChangesID req) = [] \<and> trimSpace (BaseCommit req) = [] then
        (case manifestScopeDir (BuildType req) of
           Inl e \<Rightarrow> Inl e
         | Inr scopeDir \<Rightarrow> listManifestFiles E (disk s) (joinPath [dir s, ''manifests'', scopeDir]))
      else (let opt = (\<lambda>key path k. if trimSpace key = [] then k []
                  else (case path of Inl e \<Rightarrow> Inl e | Inr p \<Rightarrow> k [p]))
            in opt (Commit req) (commitManifestPath (dir s) (Commit req) (BuildType req)) (\<lambda>a.
               opt (ChangesID req) (changesManifestPath (dir s) (ChangesID req) (BuildType req)) (\<lambda>b.
               opt (BaseCommit req) (commitManifestPath (dir s) (BaseCommit req) (BuildType req)) (\<lambda>c.
                 Inr (a @ b @ c))))))"


section \<open>Restoring\<close>

text \<open>\<open>append\<close> of what has not been \<open>seen\<close>, in order; the list is the \<open>seen\<close> set.\<close>

definition addNew :: "string list \<Rightarrow> string list \<Rightarrow> string list" where
  "addNew res paths = foldl (\<lambda>r p. if p \<in> set r then r else r @ [p]) res paths"

text \<open>Loading a manifest and writing the pruned version back; a failing write is only logged.\<close>

definition loadAndHeal :: "env \<Rightarrow> store \<Rightarrow> path \<Rightarrow> string list result \<times> store" where
  "loadAndHeal E s manifestPath =
     (case loadManifest E s manifestPath of
        Inl e \<Rightarrow> (Inl e, s)
      | Inr (paths, changed) \<Rightarrow>
          (Inr paths,
           if changed then snd (writeManifest E s manifestPath (joinManifestBody paths)) else s))"

fun resolveSources ::
  "env \<Rightarrow> store \<Rightarrow> (string \<times> path result) list \<Rightarrow> string list \<Rightarrow> string list \<Rightarrow> path list \<Rightarrow>
     (string list \<times> string list \<times> path list) result \<times> store" where
  "resolveSources E s [] res srcs matched = (Inr (res, srcs, matched), s)"
| "resolveSources E s ((name, p) # cands) res srcs matched =
     (case p of
        Inl e \<Rightarrow> (if isNotExist e then resolveSources E s cands res srcs matched else (Inl e, s))
      | Inr manifestPath \<Rightarrow>
          (case loadAndHeal E s manifestPath of
             (Inl e, s') \<Rightarrow>
               (if isNotExist e then resolveSources E s' cands res srcs matched else (Inl e, s'))
           | (Inr paths, s') \<Rightarrow>
               resolveSources E s' cands (addNew res paths) (srcs @ [name])
                 (matched @ [manifestPath])))"

definition defaultManifestSampleSize :: nat where "defaultManifestSampleSize = 2"

definition isPRManifestPath :: "path \<Rightarrow> path \<Rightarrow> bool" where
  "isPRManifestPath scopeRoot p =
     (prefix (scopeRoot @ ''/'') p \<and>
      hd (split_on sep (drop (length scopeRoot + 1) p)) = ''changes'')"

text \<open>Trunk manifests first, then the most recently written; Go's sort leaves ties open, the model
  keeps them in walking order.\<close>

fun statCandidates :: "env \<Rightarrow> fs \<Rightarrow> path \<Rightarrow> path list \<Rightarrow> (path \<times> int \<times> bool) list result" where
  "statCandidates E d scopeRoot [] = Inr []"
| "statCandidates E d scopeRoot (p # ps) =
     (case statFile E d p of
        Inl e \<Rightarrow> (if isNotExist e then statCandidates E d scopeRoot ps else Inl e)
      | Inr f \<Rightarrow> (case statCandidates E d scopeRoot ps of
            Inl e \<Rightarrow> Inl e | Inr cs \<Rightarrow> Inr ((p, mtime f, isPRManifestPath scopeRoot p) # cs)))"

fun unionSamples :: "env \<Rightarrow> store \<Rightarrow> path list \<Rightarrow> string list \<Rightarrow> string list result \<times> store" where
  "unionSamples E s [] res = (Inr res, s)"
| "unionSamples E s (p # ps) res =
     (case loadAndHeal E s p of
        (Inl e, s') \<Rightarrow> (Inl e, s')
      | (Inr paths, s') \<Rightarrow> unionSamples E s' ps (addNew res paths))"

definition loadDefaultManifestPaths ::
  "env \<Rightarrow> store \<Rightarrow> string \<Rightarrow> path list \<Rightarrow> string list result \<times> store" where
  "loadDefaultManifestPaths E s buildType exclude =
     (case manifestScopeDir buildType of
        Inl e \<Rightarrow> (Inl e, s)
      | Inr scopeDir \<Rightarrow>
          (let scopeRoot = joinPath [dir s, ''manifests'', scopeDir] in
           case listManifestFiles E (disk s) scopeRoot of
             Inl e \<Rightarrow> (Inl e, s)
           | Inr fls \<Rightarrow>
               (case statCandidates E (disk s) scopeRoot (filter (\<lambda>p. p \<notin> set exclude) fls) of
                  Inl e \<Rightarrow> (Inl e, s)
                | Inr cands \<Rightarrow>
                    (if cands = [] then (Inl ErrNotExist, s)
                     else unionSamples E s
                       (map fst (take defaultManifestSampleSize
                         (sort_key (\<lambda>(p, t, pr). (pr, - t)) cands))) []))))"

definition supplementSmallResultWithDefault ::
  "env \<Rightarrow> store \<Rightarrow> string \<Rightarrow> string list \<Rightarrow> string list \<Rightarrow> path list \<Rightarrow>
     (string list \<times> string list) result \<times> store" where
  "supplementSmallResultWithDefault E s buildType res srcs exclude =
     (case loadDefaultManifestPaths E s buildType exclude of
        (Inl e, s') \<Rightarrow> (if isNotExist e then Inr (res, srcs) else Inl e, s')
      | (Inr def, s') \<Rightarrow>
          (let novel = filter (\<lambda>p. p \<notin> set res) def;
               tot = length res + length novel;
               small = (0 < tot \<and> 2 * length res < tot)
           in if \<not> small then (Inr (res, srcs), s')
              else (Inr (addNew res def, if novel = [] then srcs else srcs @ [''default'']), s')))"

definition defaultFallbackPaths :: "env \<Rightarrow> store \<Rightarrow> string \<Rightarrow> string list result \<times> store" where
  "defaultFallbackPaths E s buildType =
     (case loadDefaultManifestPaths E s buildType [] of
        (Inl e, s') \<Rightarrow> (if isNotExist e then Inr [] else Inl e, s')
      | (Inr paths, s') \<Rightarrow> (Inr (addNew [] paths), s'))"

definition restorePaths :: "env \<Rightarrow> store \<Rightarrow> request \<Rightarrow> (string list \<times> string list) result \<times> store" where
  "restorePaths E s req =
     (if trimSpace (Commit req) = [] \<and> trimSpace (ParentCommit req) = [] \<and>
         trimSpace (ChangesID req) = [] \<and> trimSpace (BaseCommit req) = []
      then (Inr ([], [''none'']), s)
      else (case resolveSources E s
          [(''commit'', resolveCommitManifestPath (dir s) (Commit req) (BuildType req)),
           (''parent'', resolveCommitManifestPath (dir s) (ParentCommit req) (BuildType req)),
           (''changes'', resolveChangesManifestPath (dir s) (ChangesID req) (BuildType req)),
           (''base'', resolveCommitManifestPath (dir s) (BaseCommit req) (BuildType req))] [] [] [] of
          (Inl e, s1) \<Rightarrow> (Inl e, s1)
        | (Inr (res, srcs, matched), s1) \<Rightarrow>
            (if srcs \<noteq> [] then
               supplementSmallResultWithDefault E s1 (BuildType req) res srcs matched
             else (case defaultFallbackPaths E s1 (BuildType req) of
                 (Inl e, s2) \<Rightarrow> (Inl e, s2)
               | (Inr def, s2) \<Rightarrow>
                   (if def = [] then (Inr (res, [''none'']), s2)
                    else (Inr (res @ def, [''default'']), s2))))))"

record restoreEntry =
  re_path :: string
  re_ie :: indexEntry

definition restoreKey :: "restoreEntry \<Rightarrow> int \<times> int \<times> string" where
  "restoreKey e = (- ie_ModTimeMicro (re_ie e), ie_Size (re_ie e), re_path e)"

fun takeBudget :: "int \<Rightarrow> int \<Rightarrow> restoreEntry list \<Rightarrow> restoreEntry list" where
  "takeBudget budget tot [] = []"
| "takeBudget budget tot (e # es) =
     (let sz = entryStoredSize (re_ie e) in
      if budget < tot + sz then [] else e # takeBudget budget (tot + sz) es)"

definition selectRestoreEntries :: "store \<Rightarrow> request \<Rightarrow> restoreEntry list \<Rightarrow> restoreEntry list" where
  "selectRestoreEntries s req entries =
     (let filtered = filter (\<lambda>e. \<not> (0 < MaxFileBytes req \<and> MaxFileBytes req < ie_Size (re_ie e)) \<and>
                                 \<not> (0 < maxFileBytes s \<and> maxFileBytes s < ie_Size (re_ie e))) entries
      in if MaxPreloadTotalBytes req \<le> 0 \<or> length filtered < 2 then
           (if 0 < MaxPreloadTotalBytes req \<and> length filtered = 1 \<and>
               MaxPreloadTotalBytes req < entryStoredSize (re_ie (hd filtered)) then [] else filtered)
         else takeBudget (MaxPreloadTotalBytes req) 0 (sort_key restoreKey filtered))"

definition responseItem :: "store \<Rightarrow> string \<Rightarrow> indexEntry \<Rightarrow> fileItem" where
  "responseItem s relPath ie =
     \<lparr>fi_Path = relPath, fi_Size = ie_Size ie,
      fi_ModTime = (if ie_ModTimeMicro ie \<noteq> 0 then Some (ie_ModTimeMicro ie) else None),
      fi_Mode = ie_Mode ie, fi_IsCompressed = (ie_Compressed ie = 1),
      fi_WireSize = (if ie_WireSize ie = 0 then ie_Size ie else ie_WireSize ie),
      fi_DiskPath = (if ie_PoolPage ie \<noteq> 0 then [] else objectPath (dir s) relPath),
      fi_body = (if ie_PoolPage ie \<noteq> 0 then PoolReader (entryStoredSize ie) (entryLoc ie)
                 else NilReader)\<rparr>"

definition removeBrokenEntry :: "env \<Rightarrow> store \<Rightarrow> string \<Rightarrow> indexEntry \<Rightarrow> store" where
  "removeBrokenEntry E s relPath ie =
     (let s1 = (case map_of (index s) relPath of
            None \<Rightarrow> s
          | Some current \<Rightarrow> s\<lparr>index := AList.delete relPath (index s),
                currentDiskBytes := currentDiskBytes s - entryStoredSize current, dirty := True\<rparr>)
      in snd (removeObjectLocked E s1 relPath ie))"

text \<open>The serving loop of \<open>Restore\<close>: the items handed to the callback.\<close>

fun serveEntries :: "env \<Rightarrow> store \<Rightarrow> restoreEntry list \<Rightarrow> fileItem list \<times> store" where
  "serveEntries E s [] = ([], s)"
| "serveEntries E s (e # es) =
     (let ie = re_ie e;
          broken = (ie_PoolPage ie = 0 \<and>
            (case statFile E (disk s) (objectPath (dir s) (re_path e)) of
               Inl _ \<Rightarrow> True | Inr f \<Rightarrow> int (length (content f)) \<noteq> entryStoredSize ie))
      in if broken then serveEntries E (removeBrokenEntry E s (re_path e) ie) es
         else (case serveEntries E (s\<lparr>hits := hits s + 1\<rparr>) es of
             (its, s') \<Rightarrow> (responseItem s (re_path e) ie # its, s')))"

definition Restore ::
  "env \<Rightarrow> store \<Rightarrow> request \<Rightarrow> (string list \<times> fileItem list) result \<times> store" where
  "Restore E s req =
     (case restorePaths E s req of
        (Inl e, s1) \<Rightarrow> (Inl e, s1)
      | (Inr (paths, srcs), s1) \<Rightarrow>
          (let entries = List.map_filter (\<lambda>p. map_option (\<lambda>ie. \<lparr>re_path = p, re_ie = ie\<rparr>)
                 (map_of (index s1) p)) paths
           in case serveEntries E s1 (selectRestoreEntries s1 req entries) of
                (its, s2) \<Rightarrow> (Inr (srcs, its), s2)))"

definition RestoreSources :: "env \<Rightarrow> store \<Rightarrow> request \<Rightarrow> string list result \<times> store" where
  "RestoreSources E s req =
     (case restorePaths E s req of (Inl e, s') \<Rightarrow> (Inl e, s') | (Inr (_, srcs), s') \<Rightarrow> (Inr srcs, s'))"


section \<open>Clearing and inspecting\<close>

fun scanRefs :: "env \<Rightarrow> fs \<Rightarrow> path list \<Rightarrow> path list \<Rightarrow> string list result" where
  "scanRefs E d skip [] = Inr []"
| "scanRefs E d skip (p # ps) =
     (if p \<in> set skip then scanRefs E d skip ps
      else (case readManifestPaths E d p of
          Inl e \<Rightarrow> (if isNotExist e then scanRefs E d skip ps else Inl e)
        | Inr paths \<Rightarrow> (case scanRefs E d skip ps of
              Inl e \<Rightarrow> Inl e | Inr refs \<Rightarrow> Inr (paths @ refs))))"

definition scanManifestRefs :: "env \<Rightarrow> store \<Rightarrow> path list \<Rightarrow> string list result" where
  "scanManifestRefs E s skip =
     (case listManifestFiles E (disk s) (joinPath [dir s, ''manifests'']) of
        Inl e \<Rightarrow> Inl e | Inr fls \<Rightarrow> scanRefs E (disk s) skip fls)"

text \<open>The first loop of \<open>Clear\<close>: read each target manifest, then remove it.\<close>

fun clearManifests ::
  "env \<Rightarrow> fs \<Rightarrow> path list \<Rightarrow> string list \<Rightarrow> int \<Rightarrow> (string list \<times> int) result \<times> fs" where
  "clearManifests E d [] refs n = (Inr (refs, n), d)"
| "clearManifests E d (p # ps) refs n =
     (case (case readManifestPaths E d p of
              Inl e \<Rightarrow> (if isNotExist e then Inr [] else Inl e) | Inr paths \<Rightarrow> Inr paths) of
        Inl e \<Rightarrow> (Inl e, d)
      | Inr paths \<Rightarrow>
          (case removeFile E d p of
             (Some e, d') \<Rightarrow>
               (if isNotExist e then clearManifests E d' ps (addNew refs paths) n
                else (Inl (ErrWrap ''remove manifest'' e), d'))
           | (None, d') \<Rightarrow> clearManifests E d' ps (addNew refs paths) (n + 1)))"

text \<open>The second loop: delete what no other manifest refers to. An object the index does not know
  is removed from disk as well.\<close>

definition clearOne :: "env \<Rightarrow> store \<Rightarrow> string \<Rightarrow> go_error option \<times> store" where
  "clearOne E s relPath =
     (case map_of (index s) relPath of
        Some ie \<Rightarrow>
          (case removeObjectLocked E
              (s\<lparr>index := AList.delete relPath (index s),
                 currentDiskBytes := currentDiskBytes s - entryStoredSize ie, dirty := True\<rparr>)
              relPath ie of
             (Some e, s') \<Rightarrow> (Some (ErrWrap ''remove object'' e), s') | (None, s') \<Rightarrow> (None, s'))
      | None \<Rightarrow>
          (case removeIfExists E (disk s) (objectPath (dir s) relPath) of
             (Some e, d) \<Rightarrow> (Some (ErrWrap ''remove object'' e), s\<lparr>disk := d\<rparr>)
           | (None, d) \<Rightarrow> (None, s\<lparr>disk := d\<rparr>)))"

fun clearObjects ::
  "env \<Rightarrow> store \<Rightarrow> string list \<Rightarrow> string list \<Rightarrow> clearStats \<Rightarrow>
     (go_error option \<times> clearStats) \<times> store" where
  "clearObjects E s keep [] st = ((None, st), s)"
| "clearObjects E s keep (p # ps) st =
     (if p \<in> set keep then clearObjects E s keep ps (st\<lparr>ObjectsKept := ObjectsKept st + 1\<rparr>)
      else (case clearOne E s p of
          (Some e, s') \<Rightarrow> ((Some e, st), s')
        | (None, s') \<Rightarrow>
            clearObjects E s' keep ps (st\<lparr>ObjectsDeleted := ObjectsDeleted st + 1\<rparr>)))"

definition noClearStats :: clearStats where
  "noClearStats = \<lparr>ManifestsDeleted = 0, ObjectsDeleted = 0, ObjectsKept = 0\<rparr>"

definition Clear :: "env \<Rightarrow> store \<Rightarrow> request \<Rightarrow> (go_error option \<times> clearStats) \<times> store" where
  "Clear E s req =
     (case targetManifestPaths E s req of
        Inl e \<Rightarrow> ((Some e, noClearStats), s)
      | Inr [] \<Rightarrow>
          ((Some (ErrMsg ''at least one of build-type, commit, or changes-id must be set''),
            noClearStats), s)
      | Inr targets \<Rightarrow>
          (case clearManifests E (disk s) targets [] 0 of
             (Inl e, d) \<Rightarrow> ((Some e, noClearStats), s\<lparr>disk := d\<rparr>)
           | (Inr (refs, n), d) \<Rightarrow>
               (let s1 = s\<lparr>disk := d\<rparr> in
                case scanManifestRefs E s1 targets of
                  Inl e \<Rightarrow> ((Some e, noClearStats), s1)
                | Inr keep \<Rightarrow>
                    clearObjects E s1 keep refs (noClearStats\<lparr>ManifestsDeleted := n\<rparr>))))"

definition objectExistsLocked :: "env \<Rightarrow> store \<Rightarrow> string \<Rightarrow> bool" where
  "objectExistsLocked E s relPath =
     (case map_of (index s) relPath of
        None \<Rightarrow> False
      | Some ie \<Rightarrow>
          (if ie_PoolPage ie \<noteq> 0 then True
           else (case statFile E (disk s) (objectPath (dir s) relPath) of
               Inl _ \<Rightarrow> False | Inr _ \<Rightarrow> True)))"

definition ExistingPaths :: "env \<Rightarrow> store \<Rightarrow> string list \<Rightarrow> string list" where
  "ExistingPaths E s paths =
     (let known = filter (\<lambda>p. map_of (index s) p \<noteq> None) paths;
          pooled = (\<lambda>p. case map_of (index s) p of None \<Rightarrow> False | Some ie \<Rightarrow> ie_PoolPage ie \<noteq> 0)
      in filter pooled known @ filter (\<lambda>p. \<not> pooled p \<and> objectExistsLocked E s p) known)"

fun targetRefs :: "env \<Rightarrow> fs \<Rightarrow> path list \<Rightarrow> string list \<Rightarrow> string list result" where
  "targetRefs E d [] refs = Inr refs"
| "targetRefs E d (p # ps) refs =
     (case readManifestPaths E d p of
        Inl e \<Rightarrow> (if isNotExist e then targetRefs E d ps refs else Inl e)
      | Inr paths \<Rightarrow> targetRefs E d ps (addNew refs paths))"

definition Inspect :: "env \<Rightarrow> store \<Rightarrow> request \<Rightarrow> inspectStats result" where
  "Inspect E s req =
     (case targetManifestPaths E s req of
        Inl e \<Rightarrow> Inl e
      | Inr [] \<Rightarrow> Inl (ErrMsg ''at least one of build-type, commit, or changes-id must be set'')
      | Inr targets \<Rightarrow>
          (case targetRefs E (disk s) targets [] of
             Inl e \<Rightarrow> Inl e
           | Inr refs \<Rightarrow>
               (let es = List.map_filter (\<lambda>p. if objectExistsLocked E s p
                      then map_of (index s) p else None) refs;
                    maxSz = foldl (\<lambda>m ie. if m < ie_Size ie then ie_Size ie else m) 0 es;
                    band = (if maxSz = 0 then []
                      else filter (\<lambda>ie. maxSz - maxSz sdiv 10 \<le> ie_Size ie) es)
                in Inr \<lparr>ManifestsCount = int (length targets), FilesCount = int (length es),
                        CompressedBytes = sum_list (map entryStoredSize es),
                        UncompressedBytes = sum_list (map ie_Size es), MaxFileSize = maxSz,
                        MaxBandFilesCount = int (length band),
                        MaxBandCompressedBytes = sum_list (map entryStoredSize band),
                        MaxBandUncompressedBytes = sum_list (map ie_Size band)\<rparr>)))"

record keyInspection =
  ki_Key :: string
  InManifest :: bool
  ExistsRemote :: bool
  ki_Size :: int
  AgeMicros :: "int option" \<comment> \<open>\<open>AgeSeconds\<close>, in microseconds\<close>

definition InspectKeys :: "env \<Rightarrow> store \<Rightarrow> request \<Rightarrow> string list \<Rightarrow> keyInspection list result" where
  "InspectKeys E s req ks =
     (case targetManifestPaths E s req of
        Inl e \<Rightarrow> Inl e
      | Inr targets \<Rightarrow>
          (case targetRefs E (disk s) targets [] of
             Inl e \<Rightarrow> Inl e
           | Inr refs \<Rightarrow>
               Inr (map (\<lambda>k. case map_of (index s) k of
                     Some ie \<Rightarrow>
                       (if objectExistsLocked E s k
                        then \<lparr>ki_Key = k, InManifest = (k \<in> set refs), ExistsRemote = True,
                              ki_Size = ie_Size ie,
                              AgeMicros = (if ie_ModTimeMicro ie \<noteq> 0
                                then Some (now E - ie_ModTimeMicro ie) else None)\<rparr>
                        else \<lparr>ki_Key = k, InManifest = (k \<in> set refs), ExistsRemote = False,
                              ki_Size = 0, AgeMicros = None\<rparr>)
                   | None \<Rightarrow> \<lparr>ki_Key = k, InManifest = (k \<in> set refs), ExistsRemote = False,
                              ki_Size = 0, AgeMicros = None\<rparr>) ks)))"

section \<open>Housekeeping, opening and closing\<close>

fun collectStale :: "env \<Rightarrow> int \<Rightarrow> fs \<Rightarrow> path list \<Rightarrow> fs" where
  "collectStale E cutoff d [] = d"
| "collectStale E cutoff d (p # ps) =
     (case statFile E d p of
        Inl _ \<Rightarrow> collectStale E cutoff d ps
      | Inr f \<Rightarrow> (if cutoff < mtime f then collectStale E cutoff d ps
                 else collectStale E cutoff (snd (removeIfExists E d p)) ps))"

definition collectStaleManifests :: "env \<Rightarrow> store \<Rightarrow> store" where
  "collectStaleManifests E s =
     (if manifestMaxAge s \<le> 0 then s
      else (case listManifestFiles E (disk s) (joinPath [dir s, ''manifests'']) of
          Inl _ \<Rightarrow> s
        | Inr fls \<Rightarrow> s\<lparr>disk := collectStale E (now E - manifestMaxAge s) (disk s) fls\<rparr>))"

text \<open>The goroutine that \<open>scheduleEvictionLocked\<close> starts, after its delay.\<close>

definition scheduledEviction :: "env \<Rightarrow> store \<Rightarrow> go_error option \<times> store" where
  "scheduledEviction E s =
     (case evictIfNeededLocked E (s\<lparr>evictionScheduled := False\<rparr>) of
        (Some e, s') \<Rightarrow> (Some e, s') | (None, s') \<Rightarrow> (None, collectStaleManifests E s'))"

definition reconcileOne :: "store \<Rightarrow> string \<times> indexEntry \<Rightarrow> store" where
  "reconcileOne s kv =
     (let relPath = fst kv; ie = snd kv; sz = entryStoredSize ie; l = entryLoc ie in
      if \<not> valid (pool_of s) sz l then
        s\<lparr>index := AList.delete relPath (index s), dirty := True\<rparr>
      else if isZero l then s\<lparr>pool_of := noteUnpromoted (pool_of s) sz\<rparr>
      else s\<lparr>pool_of := noteOccupied (pool_of s) sz l\<rparr>)"

definition reconcilePoolLocked :: "env \<Rightarrow> store \<Rightarrow> go_error option \<times> store" where
  "reconcilePoolLocked E s =
     (case discoverPages (pool_of s) (listErr E (joinPath [dir s, ''records'']))
         (\<lambda>name. readErr E (joinPath [dir s, ''records'', name])) of
        (Inl e, p) \<Rightarrow> (Some e, s\<lparr>pool_of := p\<rparr>)
      | (Inr _, p) \<Rightarrow>
          (let s1 = foldl reconcileOne (s\<lparr>pool_of := p\<rparr>) (index s) in
           (None, s1\<lparr>pool_of := finishReconcile (pool_of s1)\<rparr>)))"

definition openOne :: "env \<Rightarrow> store \<Rightarrow> string \<times> indexEntry \<Rightarrow> store" where
  "openOne E s kv =
     (let relPath = fst kv; ie = snd kv in
      if ie_PoolPage ie \<noteq> 0 then s\<lparr>currentDiskBytes := currentDiskBytes s + entryStoredSize ie\<rparr>
      else if \<not> objectExistsLocked E s relPath then
        s\<lparr>index := AList.delete relPath (index s), dirty := True\<rparr>
      else if 0 < maxFileBytes s \<and> maxFileBytes s < ie_Size ie then
        s\<lparr>index := AList.delete relPath (index s), dirty := True,
          disk := snd (removeIfExists E (disk s) (objectPath (dir s) relPath))\<rparr>
      else s\<lparr>currentDiskBytes := currentDiskBytes s + entryStoredSize ie\<rparr>)"

fun pushIndex :: "evictionHeap \<Rightarrow> (string \<times> indexEntry) list \<Rightarrow> evictionHeap result" where
  "pushIndex h [] = Inr h"
| "pushIndex h ((relPath, ie) # kvs) =
     (case heapPush h relPath (entryStoredSize ie) (ie_ModTimeMicro ie) of
        Inl e \<Rightarrow> Inl e | Inr h' \<Rightarrow> pushIndex h' kvs)"

text \<open>\<open>NewStore\<close> on a directory: \<open>s0\<close> has the options, the files and an empty index, \<open>saved\<close> is the
  outcome of reading and decoding \<open>index.json\<close>.\<close>

definition NewStore ::
  "env \<Rightarrow> store \<Rightarrow> int \<Rightarrow> (string \<times> indexEntry) list result \<Rightarrow> store result" where
  "NewStore E s0 evictionBucket saved =
     (case saved of
        Inl e \<Rightarrow> Inl (ErrWrap ''read index'' e)
      | Inr idx \<Rightarrow>
          (case reconcilePoolLocked E (s0\<lparr>index := idx\<rparr>) of
             (Some e, s1) \<Rightarrow> Inl (ErrWrap ''reconcile record pool'' e)
           | (None, s1) \<Rightarrow>
               (let s2 = foldl (openOne E) s1 (index s1) in
                case pushIndex (newEvictionHeap evictionBucket) (index s2) of
                  Inl e \<Rightarrow> Inl e
                | Inr h \<Rightarrow>
                    (case evictIfNeededLocked E (s2\<lparr>evictHeap := h\<rparr>) of
                       (Some e, s3) \<Rightarrow> Inl e
                     | (None, s3) \<Rightarrow> Inr (s3\<lparr>ready := True\<rparr>)))))"

text \<open>\<open>Close\<close> saves the index; closing the pool's files has no effect on the model's state.\<close>

definition Close :: "env \<Rightarrow> store \<Rightarrow> go_error option \<times> store" where
  "Close E s =
     (if \<not> ready s \<or> \<not> dirty s then (None, s)
      else (case writeErr E (joinPath [dir s, ''index.json'']) of
          Some e \<Rightarrow> (Some e, s)
        | None \<Rightarrow> (None, s\<lparr>savedIndex := Some (index s), dirty := False\<rparr>)))"

end
