(* ===== verification/Gocache_Account.thy ===== *)
theory Gocache_Account
  imports Gocache_Store
begin

text \<open>
  The accounting of the object store and its eviction. Every operation keeps the tracked disk usage
  equal to the sum of the stored sizes of the index (\<open>acct\<close>). Eviction takes the most evictable
  entry, and as long as every index entry has its entry in the heap (\<open>covered\<close>), an eviction pass
  ends within its budget. The properties also show what breaks: a re-save that changes the stored
  size, and puts that interleave with each other or with an eviction.
\<close>

section \<open>Invariants\<close>

definition acct :: "store \<Rightarrow> bool" where
  "acct s = (wf_map (index s) \<and> currentDiskBytes s = msum entryStoredSize (index s))"

definition heapEntry :: "string \<Rightarrow> indexEntry \<Rightarrow> evictionHeapEntry" where
  "heapEntry p ie =
     \<lparr>he_path = p, he_size = entryStoredSize ie, he_modTimeMicro = ie_ModTimeMicro ie\<rparr>"

definition covered :: "store \<Rightarrow> bool" where
  "covered s = (\<forall>(p, ie) \<in> set (index s). heapEntry p ie \<in> set (items (evictHeap s)))"

definition heap_ok :: "store \<Rightarrow> bool" where
  "heap_ok s = (\<not> bucketPanics (bucket (evictHeap s)) \<and> is_heap (evictHeap s))"

definition sizes_ok :: "store \<Rightarrow> bool" where
  "sizes_ok s = (\<forall>(p, ie) \<in> set (index s). 0 \<le> entryStoredSize ie)"

lemma acct_wf: "acct s \<Longrightarrow> wf_map (index s)"
  by (simp add: acct_def)

lemma covered_lookup:
  "covered s \<Longrightarrow> map_of (index s) p = Some ie \<Longrightarrow> heapEntry p ie \<in> set (items (evictHeap s))"
  by (auto simp: covered_def dest: map_of_SomeD)

lemma dropEntry_acct:
  "acct s \<Longrightarrow> map_of (index s) p = Some ie \<Longrightarrow> acct (dropEntry E s p ie)"
  by (simp add: acct_def dropEntry_frame msum_delete)

lemma acct_update:
  assumes "acct s" "index s' = AList.update p ie (index s)"
    "currentDiskBytes s' = currentDiskBytes s + entryStoredSize ie -
       (case map_of (index s) p of None \<Rightarrow> 0 | Some x \<Rightarrow> entryStoredSize x)"
  shows "acct s'"
  using assms by (simp add: acct_def msum_update)

lemma acct_same:
  "acct s \<Longrightarrow> index s' = index s \<Longrightarrow> currentDiskBytes s' = currentDiskBytes s \<Longrightarrow> acct s'"
  by (simp add: acct_def)

section \<open>Evicting one entry\<close>

text \<open>
  What one call of \<open>evictOneLocked\<close> does: it drops one entry of the index that no other entry
  precedes in the eviction order, or finds the index empty.
\<close>

lemma evictOneLocked_spec:
  assumes "heap_ok s" "covered s" "acct s"
  shows "\<exists>s'. evictOneLocked E s = (Inr (index s \<noteq> []), s') \<and> heap_ok s' \<and> covered s' \<and> acct s' \<and>
    bucket (evictHeap s') = bucket (evictHeap s) \<and> maxDiskBytes s' = maxDiskBytes s \<and>
    (index s = [] \<longrightarrow> index s' = []) \<and>
    (index s \<noteq> [] \<longrightarrow> (\<exists>p ie. map_of (index s) p = Some ie \<and> index s' = AList.delete p (index s) \<and>
       (\<forall>q je. map_of (index s) q = Some je \<longrightarrow>
          evictKey (bucket (evictHeap s)) (heapEntry p ie) \<le>
          evictKey (bucket (evictHeap s)) (heapEntry q je))))"
  using assms
proof (induction "length (items (evictHeap s))" arbitrary: s rule: less_induct)
  case less
  note ok = less.prems(1) and cov = less.prems(2) and ac = less.prems(3)
  have h: "\<not> bucketPanics (bucket (evictHeap s))" "is_heap (evictHeap s)"
    using ok by (simp_all add: heap_ok_def)
  show ?case
  proof (cases "items (evictHeap s) = []")
    case True
    then have "index s = []" using cov by (cases "index s") (auto simp: covered_def)
    then show ?thesis using True ok cov ac
      by (subst evictOneLocked.simps) (simp add: heapPop_def heap_ok_def covered_def acct_def)
  next
    case False
    obtain x h' where pop: "heapPop (evictHeap s) = Inr (Some x, h')" "is_heap h'"
      "bucket h' = bucket (evictHeap s)" "mset (items (evictHeap s)) = add_mset x (mset (items h'))"
      "\<forall>y \<in> set (items (evictHeap s)). evictKey (bucket (evictHeap s)) x \<le> evictKey (bucket (evictHeap s)) y"
      using heapPop_ok [OF h False] by blast
    let ?s1 = "s\<lparr>evictHeap := h'\<rparr>"
    have in_set: "set (items (evictHeap s)) = insert x (set (items h'))"
      using pop(4) by (metis set_mset_add_mset_insert set_mset_mset)
    have len: "length (items h') < length (items (evictHeap s))"
      using heapPop_shrinks [OF pop(1)] by simp
    have s1: "heap_ok ?s1" "acct ?s1" using ok ac pop(2,3) by (simp_all add: heap_ok_def acct_def)
    show ?thesis
    proof (cases "\<exists>ie. map_of (index s) (he_path x) = Some ie \<and> heapEntry (he_path x) ie = x")
      case False
      then have cov1: "covered ?s1"
        using cov in_set ac unfolding covered_def acct_def
        by (fastforce simp: heapEntry_def map_of_eq_Some_iff)
      have step: "evictOneLocked E s = evictOneLocked E ?s1"
        using pop(1) False
        by (subst evictOneLocked.simps) (auto simp: heapEntry_def Let_def split: option.splits)
      show ?thesis
        using less.hyps [OF _ s1(1) cov1 s1(2)] len pop(3) unfolding step by simp
    next
      case True
      then obtain ie where ie: "map_of (index s) (he_path x) = Some ie" "heapEntry (he_path x) ie = x"
        by blast
      then have m: "ie_ModTimeMicro ie = he_modTimeMicro x" "entryStoredSize ie = he_size x"
        by (metis evictionHeapEntry.select_convs heapEntry_def)+
      let ?s2 = "dropEntry E ?s1 (he_path x) ie"
      have step: "evictOneLocked E s = (Inr True, ?s2)"
        using pop(1) ie(1) m by (subst evictOneLocked.simps) simp
      have idx: "index ?s2 = AList.delete (he_path x) (index s)" by (simp add: dropEntry_frame)
      have cov2: "covered ?s2"
        using cov in_set ie(2) unfolding covered_def idx dropEntry_frame
        by (auto simp: set_delete heapEntry_def)
      have best: "evictKey (bucket (evictHeap s)) (heapEntry (he_path x) ie) \<le>
          evictKey (bucket (evictHeap s)) (heapEntry q je)" if "map_of (index s) q = Some je" for q je
        using pop(5) covered_lookup [OF cov that] ie(2) by simp
      have "index s \<noteq> []" using ie(1) by auto
      then show ?thesis
        using step idx cov2 s1 dropEntry_acct [OF s1(2)] ie(1) best pop(3)
        by (auto simp: dropEntry_frame heap_ok_def)
    qed
  qed
qed

section \<open>Evicting to a budget\<close>

lemma evictDownTo_spec:
  assumes "heap_ok s" "covered s" "acct s" "sizes_ok s" "0 \<le> target"
  shows "\<exists>s'. evictDownTo E target s = (None, s') \<and> heap_ok s' \<and> covered s' \<and> acct s' \<and>
    currentDiskBytes s' \<le> target \<and> map_of (index s') \<subseteq>\<^sub>m map_of (index s)"
  using assms
proof (induction "length (index s)" arbitrary: s rule: less_induct)
  case less
  show ?case
  proof (cases "target < currentDiskBytes s")
    case False
    then show ?thesis using less.prems by (subst evictDownTo.simps) simp
  next
    case True
    then have ne: "index s \<noteq> []" using less.prems by (auto simp: acct_def)
    obtain s1 p ie where s1: "evictOneLocked E s = (Inr True, s1)" "heap_ok s1" "covered s1" "acct s1"
      "map_of (index s) p = Some ie" "index s1 = AList.delete p (index s)"
      using evictOneLocked_spec [OF less.prems(1-3), of E] ne by auto
    have len: "length (index s1) < length (index s)"
      using length_delete_less [OF s1(5)] s1(6) by simp
    have sz: "sizes_ok s1" using less.prems(4) s1(6) by (auto simp: sizes_ok_def set_delete)
    have sub: "map_of (index s1) \<subseteq>\<^sub>m map_of (index s)" by (auto simp: s1(6) map_le_def dom_def)
    show ?thesis
      using less.hyps [OF len s1(2-4) sz less.prems(5)] True s1(1) sub
      by (subst evictDownTo.simps) (auto intro: map_le_trans)
  qed
qed


section \<open>Saving keeps the account\<close>

lemma evictOneLocked_acct: "acct s \<Longrightarrow> acct (snd (evictOneLocked E s))"
proof (induction "length (items (evictHeap s))" arbitrary: s rule: less_induct)
  case less
  show ?case
  proof (cases "heapPop (evictHeap s)")
    case (Inl e)
    then show ?thesis using less.prems by (subst evictOneLocked.simps) simp
  next
    case (Inr r)
    obtain x h where r: "r = (x, h)" by (cases r)
    have a1: "acct (s\<lparr>evictHeap := h\<rparr>)" using less.prems by (simp add: acct_def)
    show ?thesis
    proof (cases x)
      case None
      then show ?thesis using Inr r a1 by (subst evictOneLocked.simps) simp
    next
      case (Some e)
      have pop: "heapPop (evictHeap s) = Inr (Some e, h)" using Inr r Some by simp
      have ih: "acct (snd (evictOneLocked E (s\<lparr>evictHeap := h\<rparr>)))"
        using less.hyps [OF _ a1] heapPop_shrinks [OF pop] by simp
      show ?thesis
        using pop ih dropEntry_acct [OF a1]
        by (subst evictOneLocked.simps) (auto simp: Let_def split: option.splits)
    qed
  qed
qed

text \<open>
  What an invariant of the store needs for the operations that touch files and, on a full disk,
  evict: changed files and one eviction keep it. The operations on manifests and the writing of a
  plain file need no more.
\<close>

locale file_inv =
  fixes P :: "store \<Rightarrow> bool"
  assumes P_disk: "P s \<Longrightarrow> P (s\<lparr>disk := d\<rparr>)"
    and P_evict: "P s \<Longrightarrow> P (snd (evictOneLocked E s))"
begin

lemma evictTimes_inv: "P s \<Longrightarrow> P (snd (evictTimes E n s))"
proof (induction n arbitrary: s)
  case (Suc n)
  obtain r s' where e: "evictOneLocked E s = (r, s')" by fastforce
  then have "P s'" using P_evict [OF Suc.prems, of E] by simp
  then show ?case using Suc.IH e by (auto split: sum.splits)
qed simp

lemma handleWriteErr_inv: "handleWriteErr E s e = (e', s') \<Longrightarrow> P s \<Longrightarrow> P s'"
proof -
  assume h: "handleWriteErr E s e = (e', s')" "P s"
  then have "P (snd (evictOnDiskFullLocked E s))"
    using evictTimes_inv by (simp add: evictOnDiskFullLocked_def Let_def)
  then show "P s'" using h
    by (auto simp: handleWriteErr_def split: if_splits prod.splits option.splits)
qed

lemma writeManifest_inv: "writeManifest E s p b = (r, s') \<Longrightarrow> P s \<Longrightarrow> P s'"
  by (auto simp: writeManifest_def Let_def P_disk split: prod.splits option.splits
    elim: handleWriteErr_inv)

lemma storePlain_inv: "storePlain E s it n src c = (r, s') \<Longrightarrow> P s \<Longrightarrow> P s'"
  by (auto simp: storePlain_def Let_def P_disk split: prod.splits option.splits if_splits
    elim: handleWriteErr_inv)

lemma loadAndHeal_inv: "loadAndHeal E s p = (r, s') \<Longrightarrow> P s \<Longrightarrow> P s'"
  using writeManifest_inv [OF surjective_pairing]
  by (auto simp: loadAndHeal_def split: prod.splits sum.splits if_splits)

lemma resolveSources_inv: "resolveSources E s cs res srcs m = (r, s') \<Longrightarrow> P s \<Longrightarrow> P s'"
proof (induction cs arbitrary: s res srcs m)
  case (Cons c cs)
  obtain name p where c: "c = (name, p)" by (cases c)
  show ?case
  proof (cases p)
    case (Inl e)
    then show ?thesis using Cons c by (auto split: if_splits)
  next
    case (Inr mp)
    obtain q s1 where q: "loadAndHeal E s mp = (q, s1)" by fastforce
    have "P s1" using q Cons.prems(2) by (rule loadAndHeal_inv)
    then show ?thesis using Cons.IH [of s1] Cons.prems(1) c Inr q by (auto split: sum.splits if_splits)
  qed
qed simp

lemma unionSamples_inv: "unionSamples E s ps res = (r, s') \<Longrightarrow> P s \<Longrightarrow> P s'"
proof (induction ps arbitrary: s res)
  case (Cons p ps)
  obtain q s1 where q: "loadAndHeal E s p = (q, s1)" by fastforce
  have "P s1" using q Cons.prems(2) by (rule loadAndHeal_inv)
  then show ?case using Cons.IH [of s1] Cons.prems(1) q by (auto split: sum.splits)
qed simp

lemma loadDefault_inv: "loadDefaultManifestPaths E s bt ex = (r, s') \<Longrightarrow> P s \<Longrightarrow> P s'"
  by (auto simp: loadDefaultManifestPaths_def Let_def split: sum.splits if_splits
    dest: unionSamples_inv)

lemma supplement_inv: "supplementSmallResultWithDefault E s bt res srcs ex = (r, s') \<Longrightarrow> P s \<Longrightarrow> P s'"
  by (auto simp: supplementSmallResultWithDefault_def Let_def split: prod.splits sum.splits if_splits
    elim: loadDefault_inv)

lemma fallback_inv: "defaultFallbackPaths E s bt = (r, s') \<Longrightarrow> P s \<Longrightarrow> P s'"
  by (auto simp: defaultFallbackPaths_def split: prod.splits sum.splits if_splits elim: loadDefault_inv)

lemma restorePaths_inv:
  assumes "restorePaths E s req = (r, s')" "P s"
  shows "P s'"
proof (cases "trimSpace (Commit req) = [] \<and> trimSpace (ParentCommit req) = [] \<and>
    trimSpace (ChangesID req) = [] \<and> trimSpace (BaseCommit req) = []")
  case True
  then show ?thesis using assms by (simp add: restorePaths_def)
next
  case False
  obtain q s1 where q: "resolveSources E s
      [(''commit'', resolveCommitManifestPath (dir s) (Commit req) (BuildType req)),
       (''parent'', resolveCommitManifestPath (dir s) (ParentCommit req) (BuildType req)),
       (''changes'', resolveChangesManifestPath (dir s) (ChangesID req) (BuildType req)),
       (''base'', resolveCommitManifestPath (dir s) (BaseCommit req) (BuildType req))] [] [] [] = (q, s1)"
    by fastforce
  have "P s1" using q assms(2) by (rule resolveSources_inv)
  then show ?thesis
    using assms(1) False unfolding restorePaths_def q
    by (auto split: prod.splits sum.splits if_splits elim: supplement_inv fallback_inv)
qed

lemma mergeManifest_inv: "mergeManifest E s p ps = (r, s') \<Longrightarrow> P s \<Longrightarrow> P s'"
  by (auto simp: mergeManifest_def Let_def split: sum.splits if_splits elim: writeManifest_inv)

lemma MergeSavedPaths_inv: "MergeSavedPaths E s req ps = (r, s') \<Longrightarrow> P s \<Longrightarrow> P s'"
  by (auto simp: MergeSavedPaths_def Let_def split: sum.splits if_splits option.splits prod.splits
    dest!: mergeManifest_inv)

end

text \<open>For a whole save, changes of the pool and of the counters have to keep it as well.\<close>

locale store_inv = file_inv +
  assumes P_pool: "P s \<Longrightarrow> P (s\<lparr>pool_of := q\<rparr>)"
    and P_errors: "P s \<Longrightarrow> P (s\<lparr>errors := n\<rparr>)"
    and P_puts: "P s \<Longrightarrow> P (s\<lparr>puts := n\<rparr>)"
    and P_putsExist: "P s \<Longrightarrow> P (s\<lparr>putsExist := n\<rparr>)"
begin

lemma storePutBody_inv:
  assumes "storePutBody E s it ie rd = (r, s')" "P s"
  shows "P s'"
proof -
  let ?n = "entryStoredSize ie"
  have plain: "P s2" if "(case storePlain E s1 it ?n src c of
      (Some e, s') \<Rightarrow> (Inl e, s') | (None, s') \<Rightarrow> (Inr ie, s')) = (r, s2)" "P s1" for s1 src c s2
    using that by (auto split: prod.splits option.splits elim: storePlain_inv)
  show ?thesis
  proof (cases "0 < ?n \<and> ?n \<le> maxRecordBytes (pool_of s)")
    case False
    then have e: "storePutBody E s it ie rd =
        (case storePlain E s it ?n (case rd of None \<Rightarrow> ([], None) | Some r \<Rightarrow> r) True of
          (Some e, s') \<Rightarrow> (Inl e, s') | (None, s') \<Rightarrow> (Inr ie, s'))"
      by (simp only: storePutBody_def Let_def if_False)
    show ?thesis by (rule plain [OF assms(1) [unfolded e] assms(2)])
  next
    case True
    then show ?thesis
      using assms
      by (auto simp: storePutBody_def Let_def P_pool split: prod.splits option.splits if_splits sum.splits
        elim: handleWriteErr_inv storePlain_inv)
  qed
qed

lemma putStore_inv: "putStore E s it ie = (r, s') \<Longrightarrow> P s \<Longrightarrow> P s'"
  by (auto simp: putStore_def P_errors split: prod.splits sum.splits dest: storePutBody_inv
    intro: P_errors)

lemma putBegin_inv: "putBegin E s it = (r, s') \<Longrightarrow> P s \<Longrightarrow> P s'"
  using P_putsExist [OF P_puts] P_puts by (auto simp: putBegin_def Let_def split: if_splits)

end

interpretation acc: store_inv acct
  by unfold_locales (auto intro: acct_same evictOneLocked_acct)


text \<open>A body that was stored leaves the index, the account and the heap alone.\<close>

lemma storePlain_frame:
  "storePlain E s it n src c = (None, s') \<Longrightarrow> \<exists>d. s' = s\<lparr>disk := d\<rparr>"
  by (auto simp: storePlain_def Let_def split: prod.splits option.splits if_splits)

lemma storePutBody_frame:
  assumes "storePutBody E s it ie rd = (Inr ie2, s')"
  shows "(\<exists>q d. s' = s\<lparr>pool_of := q, disk := d\<rparr>) \<and>
    (\<exists>pg sl. ie2 = ie\<lparr>ie_PoolPage := pg, ie_PoolSlot := sl\<rparr>)"
proof -
  have same: "\<exists>pg sl. x = x\<lparr>ie_PoolPage := pg, ie_PoolSlot := sl\<rparr>" for x :: indexEntry
    by (rule exI [of _ "ie_PoolPage x"], rule exI [of _ "ie_PoolSlot x"]) simp
  have d: "\<exists>q d. s\<lparr>disk := x\<rparr> = s\<lparr>pool_of := q, disk := d\<rparr>" for x
    by (rule exI [of _ "pool_of s"], rule exI [of _ x]) simp
  have q: "\<exists>q d. s\<lparr>pool_of := x\<rparr> = s\<lparr>pool_of := q, disk := d\<rparr>" for x
    by (rule exI [of _ x], rule exI [of _ "disk s"]) simp
  show ?thesis
    using assms
    by (auto simp: storePutBody_def Let_def same d q split: prod.splits option.splits if_splits sum.splits
      dest!: storePlain_frame)
qed

lemma putStore_frame:
  assumes "putStore E s it ie = (Inr ie2, s')"
  shows "(\<exists>q d. s' = s\<lparr>pool_of := q, disk := d\<rparr>) \<and> ie_ModTimeMicro ie2 = ie_ModTimeMicro ie"
proof -
  obtain rd ie1 where b: "bodyReaderForPut E s it ie = (rd, ie1)" by fastforce
  have m: "ie_ModTimeMicro ie1 = ie_ModTimeMicro ie"
    using b by (auto simp: bodyReaderForPut_def compressNowBodyReader_def
      split: if_splits sum.splits option.splits prod.splits)
  obtain r where r: "rd = Inr r" "storePutBody E s it ie1 r = (Inr ie2, s')"
    using assms b by (auto simp: putStore_def split: sum.splits prod.splits)
  show ?thesis using storePutBody_frame [OF r(2)] m by auto
qed

lemma releaseSuperseded_frame:
  "\<exists>q d. releaseSupersededLocked E s p x ie = s\<lparr>pool_of := q, disk := d\<rparr>"
proof -
  have "\<exists>q d. s = s\<lparr>pool_of := q, disk := d\<rparr>"
    by (rule exI [of _ "pool_of s"], rule exI [of _ "disk s"]) simp
  moreover have "\<exists>q d. s\<lparr>disk := x\<rparr> = s\<lparr>pool_of := q, disk := d\<rparr>" for x
    by (rule exI [of _ "pool_of s"], rule exI [of _ x]) simp
  moreover have "\<exists>q d. s\<lparr>pool_of := x\<rparr> = s\<lparr>pool_of := q, disk := d\<rparr>" for x
    by (rule exI [of _ x], rule exI [of _ "disk s"]) simp
  ultimately show ?thesis by (simp add: releaseSupersededLocked_def)
qed

lemma scheduleEviction_frame:
  "index (scheduleEvictionLocked s) = index s"
  "currentDiskBytes (scheduleEvictionLocked s) = currentDiskBytes s"
  "evictHeap (scheduleEvictionLocked s) = evictHeap s"
  "pool_of (scheduleEvictionLocked s) = pool_of s" "disk (scheduleEvictionLocked s) = disk s"
  "dir (scheduleEvictionLocked s) = dir s" "maxDiskBytes (scheduleEvictionLocked s) = maxDiskBytes s"
  by (simp_all add: scheduleEvictionLocked_def)

lemma putCommit_frame:
  assumes "putCommit E s it existing ie = (r, s')"
  shows "index s' = AList.update (fi_Path it) ie (index s)"
    "currentDiskBytes s' = currentDiskBytes s + entryStoredSize ie -
       (case existing of None \<Rightarrow> 0 | Some x \<Rightarrow> entryStoredSize x)"
    "existing \<noteq> None \<Longrightarrow> evictHeap s' = evictHeap s"
    "existing = None \<Longrightarrow> r = None \<Longrightarrow>
       heapPush (evictHeap s) (fi_Path it) (entryStoredSize ie) (ie_ModTimeMicro ie) = Inr (evictHeap s')"
    "existing \<noteq> None \<Longrightarrow> r = None"
    "dir s' = dir s"
proof -
  obtain s1 where s1: "s1 = (case existing of None \<Rightarrow> s
      | Some x \<Rightarrow> releaseSupersededLocked E
          (s\<lparr>currentDiskBytes := currentDiskBytes s - entryStoredSize x\<rparr>) (fi_Path it) x ie)" by simp
  have f: "index s1 = index s" "evictHeap s1 = evictHeap s" "dir s1 = dir s"
    "currentDiskBytes s1 = currentDiskBytes s - (case existing of None \<Rightarrow> 0 | Some x \<Rightarrow> entryStoredSize x)"
    using releaseSuperseded_frame [of E
        "s\<lparr>currentDiskBytes := currentDiskBytes s - entryStoredSize (the existing)\<rparr>"
        "fi_Path it" "the existing" ie]
    by (auto simp: s1 split: option.splits)
  show "index s' = AList.update (fi_Path it) ie (index s)"
    "currentDiskBytes s' = currentDiskBytes s + entryStoredSize ie -
       (case existing of None \<Rightarrow> 0 | Some x \<Rightarrow> entryStoredSize x)"
    "existing \<noteq> None \<Longrightarrow> evictHeap s' = evictHeap s"
    "existing = None \<Longrightarrow> r = None \<Longrightarrow>
       heapPush (evictHeap s) (fi_Path it) (entryStoredSize ie) (ie_ModTimeMicro ie) = Inr (evictHeap s')"
    "existing \<noteq> None \<Longrightarrow> r = None" "dir s' = dir s"
    using assms f unfolding putCommit_def s1 [symmetric] Let_def
    by (auto simp: scheduleEviction_frame split: if_splits sum.splits)
qed

lemma putBegin_Some:
  assumes "putBegin E s it = (Inr (Some (existing, ie)), s1)"
  shows "existing = map_of (index s) (fi_Path it)"
    "s1 = s\<lparr>puts := puts s + 1, putsExist := putsExist s + (if existing = None then 0 else 1)\<rparr>"
    "ie_ModTimeMicro ie = (case existing of None \<Rightarrow> now E | Some x \<Rightarrow> ie_ModTimeMicro x)"
    "ie_Size ie = fi_Size it" "ie_WireSize ie = 0" "ie_Compressed ie = 0" "ie_PoolPage ie = 0"
  using assms by (auto simp: putBegin_def Let_def split: if_splits)

lemma putOne_acct:
  assumes "putOne E s it = (r, s')" "acct s"
  shows "acct s'"
proof -
  obtain b s1 where b: "putBegin E s it = (b, s1)" by fastforce
  have a1: "acct s1" using b assms(2) by (rule acc.putBegin_inv)
  consider (stop) "s' = s1" | (go) existing ie where "b = Inr (Some (existing, ie))"
    using assms(1) b by (auto simp: putOne_def split: sum.splits option.splits)
  then show ?thesis
  proof cases
    case stop
    then show ?thesis using a1 by simp
  next
    case go
    note pb = putBegin_Some [OF b [unfolded go]]
    obtain q s2 where q: "putStore E s1 it ie = (q, s2)" by fastforce
    have a2: "acct s2" using q a1 by (rule acc.putStore_inv)
    show ?thesis
    proof (cases q)
      case (Inl e)
      then show ?thesis using assms(1) b go q a2 by (simp add: putOne_def)
    next
      case (Inr ie2)
      have c: "putCommit E s2 it existing ie2 = (r, s')"
        using assms(1) b go q Inr by (simp add: putOne_def)
      have "index s2 = index s" using putStore_frame [OF q [unfolded Inr]] pb(2) by auto
      then show ?thesis
        using putCommit_frame(1,2) [OF c] pb(1) by (intro acct_update [OF a2]) simp_all
    qed
  qed
qed


section \<open>Every operation keeps the account\<close>

lemma saveItems_acct: "saveItems E s its ps = (r, s') \<Longrightarrow> acct s \<Longrightarrow> acct s'"
proof (induction its arbitrary: s ps)
  case (Cons it its)
  show ?case
  proof (cases "cleanRelativePath (fi_Path it)")
    case (Inl e)
    then show ?thesis using Cons.prems by simp
  next
    case (Inr p)
    obtain q s1 where q: "putOne E s (it\<lparr>fi_Path := p\<rparr>) = (q, s1)" by fastforce
    have "acct s1" using q Cons.prems(2) by (rule putOne_acct)
    then show ?thesis using Cons.IH [of s1] Cons.prems(1) Inr q by (auto split: option.splits)
  qed
qed simp

lemma removeObject_acct: "removeObjectLocked E s p ie = (r, s') \<Longrightarrow> acct s \<Longrightarrow> acct s'"
  by (auto dest: removeObjectLocked_frame intro: acct_same)

lemma acct_delete:
  "acct s \<Longrightarrow> map_of (index s) p = Some ie \<Longrightarrow>
     acct (s\<lparr>index := AList.delete p (index s),
            currentDiskBytes := currentDiskBytes s - entryStoredSize ie, dirty := True\<rparr>)"
  by (simp add: acct_def msum_delete)

lemma removeBrokenEntry_acct: "acct s \<Longrightarrow> acct (removeBrokenEntry E s p ie)"
  using removeObject_acct [OF surjective_pairing] acct_delete
  by (auto simp: removeBrokenEntry_def Let_def split: option.splits)

lemma serveEntries_acct: "serveEntries E s es = (its, s') \<Longrightarrow> acct s \<Longrightarrow> acct s'"
proof (induction es arbitrary: s its)
  case (Cons e es)
  have "acct (s\<lparr>hits := n\<rparr>)" for n using Cons.prems(2) by (rule acct_same) simp_all
  then show ?case
    using Cons.IH Cons.prems removeBrokenEntry_acct by (fastforce simp: Let_def split: if_splits prod.splits)
qed simp

lemma Restore_acct: "Restore E s req = (r, s') \<Longrightarrow> acct s \<Longrightarrow> acct s'"
  by (auto simp: Restore_def Let_def split: prod.splits sum.splits
    dest!: acc.restorePaths_inv serveEntries_acct)

lemma clearOne_acct: "clearOne E s p = (r, s') \<Longrightarrow> acct s \<Longrightarrow> acct s'"
  using acct_delete [of s p] removeObject_acct acct_same [of s]
  by (fastforce simp: clearOne_def split: option.splits prod.splits)

lemma clearObjects_acct: "clearObjects E s keep ps st = (r, s') \<Longrightarrow> acct s \<Longrightarrow> acct s'"
proof (induction ps arbitrary: s st)
  case (Cons p ps)
  obtain q s1 where q: "clearOne E s p = (q, s1)" by fastforce
  have "acct s1" using q Cons.prems(2) by (rule clearOne_acct)
  then show ?case using Cons q by (auto split: if_splits option.splits)
qed simp

lemma Clear_acct:
  assumes "Clear E s req = (r, s')" "acct s"
  shows "acct s'"
proof -
  have d: "acct (s\<lparr>disk := x\<rparr>)" for x using assms(2) by (rule acct_same) simp_all
  then show ?thesis
    using assms
    by (auto simp: Clear_def Let_def split: sum.splits list.splits prod.splits elim: clearObjects_acct)
qed

lemma evictDownTo_acct: "acct s \<Longrightarrow> acct (snd (evictDownTo E t s))"
proof (induction "length (items (evictHeap s))" arbitrary: s rule: less_induct)
  case less
  obtain r s1 where e: "evictOneLocked E s = (r, s1)" by fastforce
  have a1: "acct s1" using evictOneLocked_acct [OF less.prems, of E] e by simp
  have "r = Inr True \<Longrightarrow> acct (snd (evictDownTo E t s1))"
    using less.hyps [of s1] a1 e evictOneLocked_shrinks by blast
  then show ?case
    using less.prems e a1 by (subst evictDownTo.simps) (auto split: sum.splits)
qed

lemma collectStale_acct: "acct s \<Longrightarrow> acct (collectStaleManifests E s)"
  by (auto simp: collectStaleManifests_def acct_def split: sum.splits)

text \<open>The operations of the store, each with the environment it runs in.\<close>

datatype store_op =
    OpSave env request "fileItem list"
  | OpSaveItem env fileItem
  | OpRestore env request
  | OpClear env request
  | OpAppendUpload env string "string list"
  | OpFinalizeUpload env request string
  | OpEvictNow env
  | OpEvictOne env
  | OpScheduled env
  | OpClose env

fun applyOp :: "store \<Rightarrow> store_op \<Rightarrow> store" where
  "applyOp s (OpSave E req its) = snd (Save E s req its)"
| "applyOp s (OpSaveItem E it) = snd (SaveItem E s it)"
| "applyOp s (OpRestore E req) = snd (Restore E s req)"
| "applyOp s (OpClear E req) = snd (Clear E s req)"
| "applyOp s (OpAppendUpload E u ps) = snd (AppendUploadPaths E s u ps)"
| "applyOp s (OpFinalizeUpload E req u) = snd (FinalizeUpload E s req u)"
| "applyOp s (OpEvictNow E) = snd (EvictNow E s)"
| "applyOp s (OpEvictOne E) = snd (EvictOne E s)"
| "applyOp s (OpScheduled E) = snd (scheduledEviction E s)"
| "applyOp s (OpClose E) = snd (Close E s)"

lemma Save_acct: "acct s \<Longrightarrow> acct (snd (Save E s req its))"
  by (auto simp: Save_def split: prod.splits sum.splits dest!: saveItems_acct
    dest: acc.MergeSavedPaths_inv [OF surjective_pairing])

lemma FinalizeUpload_acct: "acct s \<Longrightarrow> acct (snd (FinalizeUpload E s req u))"
  by (auto simp: FinalizeUpload_def split: prod.splits sum.splits option.splits
    dest!: acc.MergeSavedPaths_inv intro: acc.P_disk)

lemma AppendUpload_acct: "acct s \<Longrightarrow> acct (snd (AppendUploadPaths E s u ps))"
  by (auto simp: AppendUploadPaths_def Let_def split: sum.splits option.splits intro: acc.P_disk)

lemma evictIfNeeded_acct: "acct s \<Longrightarrow> acct (snd (evictIfNeededLocked E s))"
  by (simp add: evictIfNeededLocked_def evictDownTo_acct)

lemma scheduledEviction_acct:
  assumes "acct s"
  shows "acct (snd (scheduledEviction E s))"
proof -
  let ?s = "s\<lparr>evictionScheduled := False\<rparr>"
  have "acct ?s" using assms by (rule acct_same) simp_all
  then have "acct (snd (evictIfNeededLocked E ?s))" by (rule evictIfNeeded_acct)
  then show ?thesis
    by (auto simp: scheduledEviction_def collectStale_acct split: prod.splits option.splits)
qed

lemma Close_acct: "acct s \<Longrightarrow> acct (snd (Close E s))"
  by (auto simp: Close_def acct_def split: option.splits)

lemma applyOp_acct: "acct s \<Longrightarrow> acct (applyOp s op)"
  using putOne_acct [OF surjective_pairing] Restore_acct [OF surjective_pairing]
    Clear_acct [OF surjective_pairing]
  by (cases op) (simp_all add: Save_acct SaveItem_def AppendUpload_acct FinalizeUpload_acct EvictNow_def
    EvictOne_def evictIfNeeded_acct evictOneLocked_acct scheduledEviction_acct Close_acct)


section \<open>The heap covers the index\<close>

definition evict_inv :: "store \<Rightarrow> bool" where
  "evict_inv s = (acct s \<and> heap_ok s \<and> covered s)"

lemma evict_inv_same:
  "evict_inv s \<Longrightarrow> index s' = index s \<Longrightarrow> currentDiskBytes s' = currentDiskBytes s \<Longrightarrow>
     evictHeap s' = evictHeap s \<Longrightarrow> evict_inv s'"
  by (simp add: evict_inv_def acct_def heap_ok_def covered_def)

lemma evictOneLocked_evict_inv: "evict_inv s \<Longrightarrow> evict_inv (snd (evictOneLocked E s))"
  using evictOneLocked_spec [of s E] by (auto simp: evict_inv_def)

interpretation evi: store_inv evict_inv
  by unfold_locales (auto intro: evict_inv_same evictOneLocked_evict_inv)

lemma putCommit_evict_inv:
  assumes i: "evict_inv s" and e: "existing = map_of (index s) (fi_Path it)"
    and same: "\<And>x. existing = Some x \<Longrightarrow> entryStoredSize ie = entryStoredSize x \<and>
      ie_ModTimeMicro ie = ie_ModTimeMicro x"
    and c: "putCommit E s it existing ie = (r, s')"
  shows "evict_inv s' \<and> r = None"
proof -
  have "acct s" using i by (simp add: evict_inv_def)
  then have a: "acct s'"
    by (rule acct_update) (use putCommit_frame(1,2) [OF c] e in simp_all)
  have h: "heap_ok s" "covered s" using i by (simp_all add: evict_inv_def)
  have wf: "wf_map (index s)" using i by (simp add: evict_inv_def acct_def)
  have idx: "index s' = AList.update (fi_Path it) ie (index s)" by (rule putCommit_frame(1) [OF c])
  show ?thesis
  proof (cases existing)
    case (Some x)
    have hp: "evictHeap s' = evictHeap s" "r = None" using putCommit_frame(3,5) [OF c] Some by simp_all
    have "heapEntry (fi_Path it) ie = heapEntry (fi_Path it) x"
      using same [OF Some] by (simp add: heapEntry_def)
    then have "covered s'"
      using h(2) covered_lookup [OF h(2), of "fi_Path it" x] e Some
      unfolding covered_def idx hp set_update_wf [OF wf] by auto
    then show ?thesis using a h hp by (simp add: evict_inv_def heap_ok_def)
  next
    case None
    obtain h' where h': "heapPush (evictHeap s) (fi_Path it) (entryStoredSize ie) (ie_ModTimeMicro ie) = Inr h'"
      "is_heap h'" "bucket h' = bucket (evictHeap s)"
      "mset (items h') = add_mset (heapEntry (fi_Path it) ie) (mset (items (evictHeap s)))"
      using heapPush_ok [of "evictHeap s" "fi_Path it" "entryStoredSize ie" "ie_ModTimeMicro ie"] h(1)
      by (auto simp: heap_ok_def heapEntry_def)
    have r: "r = None" using c h'(1) None
      by (auto simp: putCommit_def Let_def)
    then have hp: "evictHeap s' = h'" using putCommit_frame(4) [OF c None] h'(1) by simp
    have "set (items h') = insert (heapEntry (fi_Path it) ie) (set (items (evictHeap s)))"
      using h'(4) by (metis set_mset_add_mset_insert set_mset_mset)
    then have "covered s'" using h(2) unfolding covered_def idx hp set_update_wf [OF wf] by auto
    then show ?thesis using a h' h r hp by (simp add: evict_inv_def heap_ok_def)
  qed
qed

lemma putOne_evict_inv:
  assumes i: "evict_inv s" and p: "putOne E s it = (r, s')"
    and same: "\<And>x ie. map_of (index s) (fi_Path it) = Some x \<Longrightarrow>
      map_of (index s') (fi_Path it) = Some ie \<Longrightarrow> entryStoredSize ie = entryStoredSize x"
  shows "evict_inv s'"
proof -
  obtain b s1 where b: "putBegin E s it = (b, s1)" by fastforce
  have i1: "evict_inv s1" using b i by (rule evi.putBegin_inv)
  consider (stop) "s' = s1" | (go) existing ie where "b = Inr (Some (existing, ie))"
    using p b by (auto simp: putOne_def split: sum.splits option.splits)
  then show ?thesis
  proof cases
    case stop
    then show ?thesis using i1 by simp
  next
    case go
    note pb = putBegin_Some [OF b [unfolded go]]
    obtain q s2 where q: "putStore E s1 it ie = (q, s2)" by fastforce
    have i2: "evict_inv s2" using q i1 by (rule evi.putStore_inv)
    show ?thesis
    proof (cases q)
      case (Inl e)
      then show ?thesis using p b go q i2 by (simp add: putOne_def)
    next
      case (Inr ie2)
      have c: "putCommit E s2 it existing ie2 = (r, s')"
        using p b go q Inr by (simp add: putOne_def)
      have f: "index s2 = index s" "ie_ModTimeMicro ie2 = ie_ModTimeMicro ie"
        using putStore_frame [OF q [unfolded Inr]] pb(2) by auto
      have "map_of (index s') (fi_Path it) = Some ie2" using putCommit_frame(1) [OF c] by simp
      then have "existing = Some x \<Longrightarrow> entryStoredSize ie2 = entryStoredSize x \<and>
          ie_ModTimeMicro ie2 = ie_ModTimeMicro x" for x
        using same pb(1,3) f(2) by simp
      then show ?thesis using putCommit_evict_inv [OF i2 _ _ c] pb(1) f(1) by simp
    qed
  qed
qed

section \<open>Properties\<close>

text \<open>
  Claim C6. The tracked disk usage is always exactly the sum of the stored sizes of the indexed
  objects: it holds for every sequence of saves, restores, clears, uploads, evictions and closes,
  whatever calls fail on the way, the disk filling up during a save included.\<close>

theorem disk_account_exact:
  assumes "acct s"
  shows "DiskBytes (foldl applyOp s ops) = msum entryStoredSize (index (foldl applyOp s ops)) \<and>
    wf_map (index (foldl applyOp s ops))"
proof -
  have "acct (foldl applyOp s ops)"
    using assms by (induction ops arbitrary: s) (simp_all add: applyOp_acct)
  then show ?thesis by (simp add: acct_def DiskBytes_def)
qed

definition emptyStore :: "path \<Rightarrow> bool \<Rightarrow> int \<Rightarrow> store" where
  "emptyStore d cz maxBytes =
     \<lparr>dir = d, compress = cz, maxDiskBytes = maxBytes, maxFileBytes = 0, manifestMaxAge = 0,
      index = [], dirty = False, ready = True, currentDiskBytes = 0, evictionScheduled = False,
      pool_of = newPool 4096 8388608 [], evictHeap = newEvictionHeap 3600000000000, disk = [],
      savedIndex = None, hits = 0, puts = 0, putsExist = 0, errors = 0\<rparr>"

definition rawItem :: "string \<Rightarrow> bytes \<Rightarrow> fileItem" where
  "rawItem p b =
     \<lparr>fi_Path = p, fi_Size = int (length b), fi_ModTime = None, fi_Mode = 0,
      fi_IsCompressed = False, fi_WireSize = int (length b), fi_DiskPath = [],
      fi_body = BytesReader (Inr (b, None))\<rparr>"

lemma emptyStore_inv: "evict_inv (emptyStore d c m)" "sizes_ok (emptyStore d c m)"
  by (simp_all add: evict_inv_def acct_def heap_ok_def covered_def sizes_ok_def emptyStore_def
    newEvictionHeap_def bucketPanics_def is_heap_def)

theorem disk_account_exact_witness:
  "DiskBytes (foldl applyOp (emptyStore ''/c'' False 10)
     [OpSaveItem (calm 5) (rawItem ''a'' ''xy''), OpEvictOne (calm 6)]) =
   msum entryStoredSize (index (foldl applyOp (emptyStore ''/c'' False 10)
     [OpSaveItem (calm 5) (rawItem ''a'' ''xy''), OpEvictOne (calm 6)]))"
proof -
  have "acct (emptyStore ''/c'' False 10)" using emptyStore_inv(1) by (simp add: evict_inv_def)
  from disk_account_exact [OF this] show ?thesis by blast
qed

text \<open>
  One eviction removes exactly one object, and none that another object should precede:
  no indexed object comes before it in the eviction order. It reports failure only when the index
  is empty. Stale heap entries never cause anything else to be deleted.\<close>

theorem evictOne_takes_most_evictable:
  assumes "evict_inv s" "index s \<noteq> []"
  shows "\<exists>s' p ie. EvictOne E s = (Inr True, s') \<and> map_of (index s) p = Some ie \<and>
    index s' = AList.delete p (index s) \<and> evict_inv s' \<and>
    (\<forall>q je. map_of (index s) q = Some je \<longrightarrow>
       moreEvictable (ie_ModTimeMicro je) (entryStoredSize je) (ie_ModTimeMicro ie)
         (entryStoredSize ie) (bucket (evictHeap s)) = Inr False)"
proof -
  obtain s' p ie where h: "evictOneLocked E s = (Inr True, s')" "heap_ok s'" "covered s'" "acct s'"
    "map_of (index s) p = Some ie" "index s' = AList.delete p (index s)"
    "\<forall>q je. map_of (index s) q = Some je \<longrightarrow>
       evictKey (bucket (evictHeap s)) (heapEntry p ie) \<le>
       evictKey (bucket (evictHeap s)) (heapEntry q je)"
    using evictOneLocked_spec [of s E] assms by (auto simp: evict_inv_def)
  have "\<not> bucketPanics (bucket (evictHeap s))" using assms(1) by (simp add: evict_inv_def heap_ok_def)
  then have "heapLess (bucket (evictHeap s)) (heapEntry q je) (heapEntry p ie) = Inr False"
    if "map_of (index s) q = Some je" for q je
    using h(7) that by (simp add: heapLess_key not_less)
  then show ?thesis using h by (auto simp: EvictOne_def evict_inv_def heapLess_def heapEntry_def)
qed

theorem evictOne_takes_most_evictable_witness:
  "\<exists>s'. EvictOne (calm 9) (snd (SaveItem (calm 5) (emptyStore ''/c'' False 10) (rawItem ''a'' ''xy'')))
     = (Inr True, s')"
proof -
  let ?s = "snd (SaveItem (calm 5) (emptyStore ''/c'' False 10) (rawItem ''a'' ''xy''))"
  have "evict_inv ?s"
    using putOne_evict_inv [OF emptyStore_inv(1) surjective_pairing]
    by (simp add: SaveItem_def emptyStore_def)
  moreover have "index ?s \<noteq> []" by code_simp
  ultimately show ?thesis using evictOne_takes_most_evictable by blast
qed




lemma evictOneLocked_keeps:
  assumes "map_of (index s) p = Some ie" "heapEntry p ie \<notin> set (items (evictHeap s))"
    "heap_ok s" "evictOneLocked E s = (r, s')"
  shows "map_of (index s') p = Some ie \<and> set (items (evictHeap s')) \<subseteq> set (items (evictHeap s)) \<and>
    heap_ok s'"
  using assms
proof (induction "length (items (evictHeap s))" arbitrary: s rule: less_induct)
  case less
  have h: "\<not> bucketPanics (bucket (evictHeap s))" "is_heap (evictHeap s)"
    using less.prems(3) by (simp_all add: heap_ok_def)
  show ?case
  proof (cases "items (evictHeap s) = []")
    case True
    then show ?thesis using less.prems by (simp add: evictOneLocked.simps [of E s] heapPop_def)
  next
    case False
    obtain x h' where pop: "heapPop (evictHeap s) = Inr (Some x, h')" "is_heap h'"
      "bucket h' = bucket (evictHeap s)" "mset (items (evictHeap s)) = add_mset x (mset (items h'))"
      using heapPop_ok [OF h False] by blast
    let ?s1 = "s\<lparr>evictHeap := h'\<rparr>"
    have in_set: "set (items (evictHeap s)) = insert x (set (items h'))"
      using pop(4) by (metis set_mset_add_mset_insert set_mset_mset)
    have len: "length (items h') < length (items (evictHeap s))" using heapPop_shrinks [OF pop(1)] by simp
    have ok1: "heap_ok ?s1" using less.prems(3) pop(2,3) by (simp add: heap_ok_def)
    have step: "evictOneLocked E s =
        (case map_of (index s) (he_path x) of None \<Rightarrow> evictOneLocked E ?s1
         | Some je \<Rightarrow> (if ie_ModTimeMicro je \<noteq> he_modTimeMicro x \<or> entryStoredSize je \<noteq> he_size x
             then evictOneLocked E ?s1 else (Inr True, dropEntry E ?s1 (he_path x) je)))"
      using pop(1) by (subst evictOneLocked.simps) (simp add: Let_def)
    have again: "?thesis" if "evictOneLocked E ?s1 = (r, s')"
      using less.hyps [OF _ _ _ ok1 that] len less.prems(1,2) in_set by auto
    show ?thesis
    proof (cases "map_of (index s) (he_path x)")
      case None
      then show ?thesis using step less.prems(4) again by simp
    next
      case (Some je)
      show ?thesis
      proof (cases "ie_ModTimeMicro je \<noteq> he_modTimeMicro x \<or> entryStoredSize je \<noteq> he_size x")
        case True
        then show ?thesis using step less.prems(4) again Some by simp
      next
        case False
        then have hx: "heapEntry (he_path x) je = x" by (simp add: heapEntry_def)
        have "he_path x \<noteq> p"
        proof
          assume "he_path x = p"
          then have "heapEntry p ie = x" using hx Some less.prems(1) by simp
          then show False using less.prems(2) in_set by simp
        qed
        then show ?thesis
          using step less.prems(1,4) Some False in_set ok1 by (auto simp: dropEntry_frame heap_ok_def)
      qed
    qed
  qed
qed

lemma evictTimes_keeps:
  assumes "map_of (index s) p = Some ie" "heapEntry p ie \<notin> set (items (evictHeap s))" "heap_ok s"
  shows "map_of (index (snd (evictTimes E n s))) p = Some ie"
  using assms
proof (induction n arbitrary: s)
  case (Suc n)
  obtain r s' where e: "evictOneLocked E s = (r, s')" by fastforce
  have k: "map_of (index s') p = Some ie" "set (items (evictHeap s')) \<subseteq> set (items (evictHeap s))" "heap_ok s'"
    using evictOneLocked_keeps [OF Suc.prems e] by auto
  then have "heapEntry p ie \<notin> set (items (evictHeap s'))" using Suc.prems(2) by auto
  then show ?case using Suc.IH [OF k(1) _ k(3)] k(1) e by (auto split: sum.splits)
qed simp

text \<open>
  A re-save whose stored size differs from the first one (the same object saved once
  compressed and once not, or compressed anew to a different length) can never be evicted again: the
  heap still holds only the old size, every eviction discards that entry as stale, and no number of
  evictions removes the object, however far the store is over its limit.\<close>

theorem resave_size_change_unevictable:
  assumes "heap_ok s" "map_of (index s) (fi_Path it) = Some old"
    "\<forall>x \<in> set (items (evictHeap s)). he_path x = fi_Path it \<longrightarrow> x = heapEntry (fi_Path it) old"
    "putOne E s it = (None, s')"
    "map_of (index s') (fi_Path it) = Some ie" "entryStoredSize ie \<noteq> entryStoredSize old"
  shows "map_of (index (snd (evictTimes E' n s'))) (fi_Path it) = Some ie"
proof -
  obtain b s1 where b: "putBegin E s it = (b, s1)" by fastforce
  have s1: "index s1 = index s \<and> evictHeap s1 = evictHeap s"
    using b by (auto simp: putBegin_def Let_def split: if_splits)
  have "s' \<noteq> s1" using s1 assms(2,5,6) by auto
  then obtain existing ie1 where go: "b = Inr (Some (existing, ie1))"
    using assms(4) b by (auto simp: putOne_def split: sum.splits option.splits)
  note pb = putBegin_Some [OF b [unfolded go]]
  obtain q s2 where q: "putStore E s1 it ie1 = (q, s2)" by fastforce
  then obtain ie2 where r: "q = Inr ie2" "putCommit E s2 it existing ie2 = (None, s')"
    using assms(4) b go by (auto simp: putOne_def split: sum.splits)
  have "existing \<noteq> None" using pb(1) assms(2) by simp
  then have "evictHeap s' = evictHeap s"
    using putCommit_frame(3) [OF r(2)] putStore_frame [OF q [unfolded r(1)]] s1 by auto
  moreover have "heapEntry (fi_Path it) ie \<notin> set (items (evictHeap s))"
    using assms(3,6) by (auto simp: heapEntry_def)
  ultimately show ?thesis using evictTimes_keeps assms(1,5) by (simp add: heap_ok_def)
qed

theorem resave_size_change_unevictable_witness:
  "map_of (index (snd (evictTimes (calm 9) 7
     (snd (putOne (calm 6) (snd (putOne (calm 5) (emptyStore ''/c'' False 1) (rawItem ''a'' ''xy'')))
        (rawItem ''a'' ''xyz'')))))) ''a'' \<noteq> None"
proof -
  let ?s = "snd (putOne (calm 5) (emptyStore ''/c'' False 1) (rawItem ''a'' ''xy''))"
  let ?it = "rawItem ''a'' ''xyz''"
  let ?s' = "snd (putOne (calm 6) ?s ?it)"
  let ?ie = "\<lambda>n. \<lparr>ie_Size = n, ie_Mode = 0, ie_WireSize = 0, ie_Compressed = 0, ie_ModTimeMicro = 5,
    ie_PoolPage = 0, ie_PoolSlot = 0\<rparr>"
  have "heap_ok ?s"
    using putOne_evict_inv [OF emptyStore_inv(1) surjective_pairing]
    by (simp add: emptyStore_def evict_inv_def)
  moreover have "map_of (index ?s) (fi_Path ?it) = Some (?ie 2)"
    "\<forall>x \<in> set (items (evictHeap ?s)). he_path x = fi_Path ?it \<longrightarrow> x = heapEntry (fi_Path ?it) (?ie 2)"
    "fst (putOne (calm 6) ?s ?it) = None"
    "map_of (index ?s') (fi_Path ?it) = Some (?ie 3)"
    "entryStoredSize (?ie 3) \<noteq> entryStoredSize (?ie 2)" by code_simp+
  moreover have "putOne (calm 6) ?s ?it = (None, ?s')"
    using calculation(4) by (metis prod.collapse)
  ultimately have "map_of (index (snd (evictTimes (calm 9) 7 ?s'))) (fi_Path ?it) = Some (?ie 3)"
    using resave_size_change_unevictable [of ?s ?it "?ie 2" "calm 6" ?s' "?ie 3" "calm 9" 7] by blast
  then show ?thesis by (simp add: rawItem_def)
qed


text \<open>
  Two saves of the same new object that overlap are counted twice: both see that the object
  is not in the index, and after both have finished the tracked usage exceeds the sum over the index
  by the size of the first copy. Nothing ever corrects it while the process runs.\<close>

theorem concurrent_saves_double_count:
  assumes "acct s" "fi_Path it = fi_Path it'"
    and "putBegin E1 s it = (Inr (Some (None, ie)), s1)"
    and "putBegin E2 s1 it' = (Inr (Some (x, ie')), s2)"
    and "putStore E3 s2 it ie = (Inr je, s3)" "putStore E4 s3 it' ie' = (Inr je', s4)"
    and "putCommit E5 s4 it None je = (None, s5)" "putCommit E6 s5 it' x je' = (r, s6)"
  shows "x = None \<and>
    currentDiskBytes s6 = msum entryStoredSize (index s6) + entryStoredSize je"
proof -
  note b1 = putBegin_Some [OF assms(3)] and b2 = putBegin_Some [OF assms(4)]
  have x: "x = None" using b2(1) b1(1,2) assms(2) by simp
  have i4: "index s4 = index s" "currentDiskBytes s4 = currentDiskBytes s"
    using putStore_frame [OF assms(5)] putStore_frame [OF assms(6)] b1(2) b2(2) by auto
  have a5: "index s5 = AList.update (fi_Path it) je (index s)"
    "currentDiskBytes s5 = currentDiskBytes s + entryStoredSize je"
    using putCommit_frame(1,2) [OF assms(7)] i4 by simp_all
  have a6: "index s6 = AList.update (fi_Path it) je' (index s5)"
    "currentDiskBytes s6 = currentDiskBytes s5 + entryStoredSize je'"
    using putCommit_frame(1,2) [OF assms(8)] x assms(2) by simp_all
  have "map_of (index s) (fi_Path it) = None" using b1(1) by simp
  moreover have "wf_map (index s)" "currentDiskBytes s = msum entryStoredSize (index s)"
    using assms(1) by (simp_all add: acct_def)
  ultimately show ?thesis using x a5 a6 by (simp add: msum_update)
qed

text \<open>Two saves of the same two bytes as object \<open>a\<close>, step by step.\<close>

definition aItem :: fileItem where "aItem = rawItem ''a'' ''xy''"

definition aEntry :: indexEntry where
  "aEntry = \<lparr>ie_Size = 2, ie_Mode = 0, ie_WireSize = 0, ie_Compressed = 0, ie_ModTimeMicro = 5,
     ie_PoolPage = 0, ie_PoolSlot = 0\<rparr>"

definition twoSaves :: "nat \<Rightarrow> store" where
  "twoSaves n =
     (let E = calm 5; s0 = emptyStore ''/c'' False 0;
          s1 = snd (putBegin E s0 aItem); s2 = snd (putBegin E s1 aItem);
          s3 = snd (putStore E s2 aItem aEntry); s4 = snd (putStore E s3 aItem aEntry);
          s5 = snd (putCommit E s4 aItem None aEntry)
      in [s0, s1, s2, s3, s4, s5, snd (putCommit E s5 aItem None aEntry)] ! n)"

theorem concurrent_saves_double_count_witness:
  "currentDiskBytes (twoSaves 6) = msum entryStoredSize (index (twoSaves 6)) + 2"
proof -
  have "fst (putBegin (calm 5) (twoSaves 0) aItem) = Inr (Some (None, aEntry))"
    "fst (putBegin (calm 5) (twoSaves 1) aItem) = Inr (Some (None, aEntry))"
    "fst (putStore (calm 5) (twoSaves 2) aItem aEntry) = Inr aEntry"
    "fst (putStore (calm 5) (twoSaves 3) aItem aEntry) = Inr aEntry"
    "fst (putCommit (calm 5) (twoSaves 4) aItem None aEntry) = None"
    "fst (putCommit (calm 5) (twoSaves 5) aItem None aEntry) = None" by code_simp+
  moreover have "snd (putBegin (calm 5) (twoSaves 0) aItem) = twoSaves 1"
    "snd (putBegin (calm 5) (twoSaves 1) aItem) = twoSaves 2"
    "snd (putStore (calm 5) (twoSaves 2) aItem aEntry) = twoSaves 3"
    "snd (putStore (calm 5) (twoSaves 3) aItem aEntry) = twoSaves 4"
    "snd (putCommit (calm 5) (twoSaves 4) aItem None aEntry) = twoSaves 5"
    "snd (putCommit (calm 5) (twoSaves 5) aItem None aEntry) = twoSaves 6"
    by (simp_all add: twoSaves_def Let_def numeral_eq_Suc)
  ultimately have h: "putBegin (calm 5) (twoSaves 0) aItem = (Inr (Some (None, aEntry)), twoSaves 1)"
    "putBegin (calm 5) (twoSaves 1) aItem = (Inr (Some (None, aEntry)), twoSaves 2)"
    "putStore (calm 5) (twoSaves 2) aItem aEntry = (Inr aEntry, twoSaves 3)"
    "putStore (calm 5) (twoSaves 3) aItem aEntry = (Inr aEntry, twoSaves 4)"
    "putCommit (calm 5) (twoSaves 4) aItem None aEntry = (None, twoSaves 5)"
    "putCommit (calm 5) (twoSaves 5) aItem None aEntry = (None, twoSaves 6)"
    by (metis prod.collapse)+
  have "acct (twoSaves 0)"
    using emptyStore_inv(1) by (simp add: twoSaves_def evict_inv_def Let_def)
  from concurrent_saves_double_count [OF this refl h] show ?thesis
    by (simp add: aEntry_def entryStoredSize_def)
qed

text \<open>A store whose pool takes 4-byte records at once, four to a page.\<close>

definition tinyPoolStore :: store where
  "tinyPoolStore = (emptyStore ''/c'' False 0)\<lparr>pool_of := newPool 4096 16 []\<rparr>"

definition commitOf :: "env \<Rightarrow> store \<Rightarrow> fileItem \<Rightarrow> indexEntry option \<times> indexEntry \<Rightarrow> store" where
  "commitOf E s it x =
     (case putStore E s it (snd x) of
        (Inl e, s') \<Rightarrow> s' | (Inr ie, s') \<Rightarrow> snd (putCommit E s' it (fst x) ie))"

text \<open>Object \<open>a\<close> is stored in the pool; a second save of \<open>a\<close> begins; the eviction that runs before it
  stores its body removes \<open>a\<close>; the save then finishes, and \<open>d\<close> is saved.\<close>

definition raceStore :: store where
  "raceStore =
     (let s1 = snd (putOne (calm 1) tinyPoolStore (rawItem ''a'' ''aaaa''));
          s2 = snd (putOne (calm 3600000002) s1 (rawItem ''b'' ''bbbb''));
          r = putBegin (calm 3600000003) s2 (rawItem ''a'' ''aaaa'')
      in case r of
           (Inr (Some x), s3) \<Rightarrow>
             (let s4 = snd (EvictOne (calm 3600000004) s3);
                  s5 = commitOf (calm 3600000005) s4 (rawItem ''a'' ''aaaa'') x
              in snd (putOne (calm 3600000006) s5 (rawItem ''d'' ''dddd'')))
         | (_, s3) \<Rightarrow> s3)"


end
