(* ===== verification/Gocache_Content.thy ===== *)
theory Gocache_Content
  imports Gocache_Account
begin

text \<open>
  What the object store holds. Object paths of normal relative paths stay below the store's
  \<open>objects\<close> directory and are different for different objects; a save leaves every other object as
  it is and its own object readable; what a client saves comes back on a restore; a restore keeps to
  its limits; clearing keeps whatever another manifest still lists.
\<close>

section \<open>Object paths\<close>

lemma objectPath_elems:
  assumes "\<forall>e \<in> set ds. normal_elem e" "\<forall>e \<in> set es. normal_elem e" "es \<noteq> []"
  shows "objectPath (sep # join_with sep ds) (join_with sep es) =
    sep # join_with sep (ds @ ''objects'' # es)"
proof -
  have o: "normal_elem ''objects''" by (simp add: normal_elem_def sep_def)
  obtain e es' where es: "es = e # es'" using assms(3) by (cases es) auto
  have "objectPath (sep # join_with sep ds) (join_with sep es) =
      joinPath ((sep # join_with sep ds) # ''objects'' # es)"
    using es by (simp add: objectPath_def joinPath_def)
  also have "\<dots> = sep # join_with sep (ds @ ''objects'' # es)"
    by (rule joinPath_abs_elems) (use assms o in auto)
  finally show ?thesis .
qed

lemma objectPath_inj:
  assumes d: "abs_clean d" and p: "relative_clean p" "relative_clean q"
    and eq: "objectPath d p = objectPath d q"
  shows "p = q"
proof -
  obtain ds where ds: "\<forall>e \<in> set ds. normal_elem e" "d = sep # join_with sep ds"
    using d by (rule abs_cleanE)
  obtain es where es: "es \<noteq> []" "\<forall>e \<in> set es. normal_elem e" "p = join_with sep es"
    using p(1) by (rule relative_cleanE)
  obtain fs where fs: "fs \<noteq> []" "\<forall>e \<in> set fs. normal_elem e" "q = join_with sep fs"
    using p(2) by (rule relative_cleanE)
  have "join_with sep (ds @ ''objects'' # es) = join_with sep (ds @ ''objects'' # fs)"
    using eq objectPath_elems [OF ds(1) es(2,1)] objectPath_elems [OF ds(1) fs(2,1)] ds es fs by simp
  moreover have "normal_elem ''objects''" by (simp add: normal_elem_def sep_def)
  ultimately have "ds @ ''objects'' # es = ds @ ''objects'' # fs"
    using ds es fs by (intro join_normal_inj) auto
  then show ?thesis using es fs by simp
qed

section \<open>What an entry stands for\<close>

definition stored :: "store \<Rightarrow> string \<Rightarrow> indexEntry \<Rightarrow> bytes option" where
  "stored s p ie =
     (if ie_PoolPage ie \<noteq> 0 then
        (case poolRead (pool_of s) (entryStoredSize ie) (entryLoc ie) of
           Inl _ \<Rightarrow> None | Inr b \<Rightarrow> Some b)
      else map_option content (map_of (disk s) (objectPath (dir s) p)))"

definition locOf :: "indexEntry \<Rightarrow> int \<times> loc" where
  "locOf ie = (entryStoredSize ie, entryLoc ie)"

text \<open>An entry that is in the pool has an allocated slot, and no two entries share one.\<close>

definition content_ok :: "store \<Rightarrow> bool" where
  "content_ok s =
     (abs_clean (dir s) \<and> pool_ok (pool_of s) \<and>
      (\<forall>p ie. map_of (index s) p = Some ie \<longrightarrow> relative_clean p \<and>
         (ie_PoolPage ie \<noteq> 0 \<longrightarrow> locOf ie \<in> alloc_set (pool_of s))) \<and>
      (\<forall>p q ie je. map_of (index s) p = Some ie \<longrightarrow> map_of (index s) q = Some je \<longrightarrow> p \<noteq> q \<longrightarrow>
         ie_PoolPage ie \<noteq> 0 \<longrightarrow> ie_PoolPage je \<noteq> 0 \<longrightarrow> locOf ie \<noteq> locOf je))"

text \<open>\<open>keeps p s s'\<close>: from \<open>s\<close> to \<open>s'\<close>, no entry but \<open>p\<close>'s appears or changes, and those that stay
  have the same bytes.\<close>

definition keeps :: "string \<Rightarrow> store \<Rightarrow> store \<Rightarrow> bool" where
  "keeps p s s' =
     (content_ok s' \<and> dir s' = dir s \<and>
      (\<forall>q je. q \<noteq> p \<longrightarrow> map_of (index s') q = Some je \<longrightarrow>
         map_of (index s) q = Some je \<and> stored s' q je = stored s q je))"

lemma keeps_refl: "content_ok s \<Longrightarrow> keeps p s s"
  by (simp add: keeps_def)

lemma keeps_trans: "keeps p s s' \<Longrightarrow> keeps p s' s'' \<Longrightarrow> keeps p s s''"
  by (simp add: keeps_def)

lemma keeps_ok: "keeps p s s' \<Longrightarrow> content_ok s'"
  by (simp add: keeps_def)

lemma content_okD:
  assumes "content_ok s"
  shows "abs_clean (dir s)" "pool_ok (pool_of s)"
    "map_of (index s) p = Some ie \<Longrightarrow> relative_clean p"
    "map_of (index s) p = Some ie \<Longrightarrow> ie_PoolPage ie \<noteq> 0 \<Longrightarrow> locOf ie \<in> alloc_set (pool_of s)"
    "map_of (index s) p = Some ie \<Longrightarrow> map_of (index s) q = Some je \<Longrightarrow> p \<noteq> q \<Longrightarrow>
       ie_PoolPage ie \<noteq> 0 \<Longrightarrow> ie_PoolPage je \<noteq> 0 \<Longrightarrow> locOf ie \<noteq> locOf je"
  using assms by (auto simp: content_ok_def)

text \<open>The steps of which all operations consist. First, a pool that moved to a superset of what the
  index uses, and a file system that changed at most at one object's path.\<close>

lemma keeps_step:
  assumes ok: "content_ok s" and m: "moves (pool_of s) (pool_of s') A"
    and used: "\<And>q je. q \<noteq> p \<Longrightarrow> map_of (index s') q = Some je \<Longrightarrow>
      map_of (index s) q = Some je \<and> (ie_PoolPage je \<noteq> 0 \<longrightarrow> locOf je \<in> A)"
    and files: "\<And>q. q \<noteq> p \<Longrightarrow> map_of (index s') q \<noteq> None \<Longrightarrow>
      map_of (disk s') (objectPath (dir s) q) = map_of (disk s) (objectPath (dir s) q)"
    and d: "dir s' = dir s"
    and p: "\<And>ie. map_of (index s') p = Some ie \<Longrightarrow> relative_clean p \<and>
      (ie_PoolPage ie \<noteq> 0 \<longrightarrow> locOf ie \<in> A \<and>
        (\<forall>q je. q \<noteq> p \<longrightarrow> map_of (index s') q = Some je \<longrightarrow> ie_PoolPage je \<noteq> 0 \<longrightarrow> locOf ie \<noteq> locOf je))"
  shows "keeps p s s'"
  unfolding keeps_def
proof (intro conjI allI impI)
  have A: "alloc_set (pool_of s') = A" "pool_ok (pool_of s')"
    using m moves_alloc moves_ok by auto
  show "content_ok s'"
    unfolding content_ok_def
  proof (intro conjI allI impI)
    show "abs_clean (dir s')" using content_okD(1) [OF ok] d by simp
    show "pool_ok (pool_of s')" by (rule A(2))
  next
    fix q ie assume h: "map_of (index s') q = Some ie"
    show "relative_clean q" using p used content_okD(3) [OF ok] h by (cases "q = p") blast+
    show "locOf ie \<in> alloc_set (pool_of s')" if "ie_PoolPage ie \<noteq> 0"
      using p used h that A(1) by (cases "q = p") blast+
  next
    fix q r ie je
    assume h: "map_of (index s') q = Some ie" "map_of (index s') r = Some je" "q \<noteq> r"
      "ie_PoolPage ie \<noteq> 0" "ie_PoolPage je \<noteq> 0"
    consider "q = p" "r \<noteq> p" | "r = p" "q \<noteq> p" | "q \<noteq> p" "r \<noteq> p" using h(3) by blast
    then show "locOf ie \<noteq> locOf je"
    proof cases
      case 1
      then show ?thesis using p h by blast
    next
      case 2
      then show ?thesis using p [of je] h by metis
    next
      case 3
      then show ?thesis using used h content_okD(5) [OF ok] by blast
    qed
  qed
next
  show "dir s' = dir s" by (rule d)
next
  fix q je assume q: "q \<noteq> p" "map_of (index s') q = Some je"
  show "map_of (index s) q = Some je" using used q by blast
  show "stored s' q je = stored s q je"
  proof (cases "ie_PoolPage je = 0")
    case True
    then show ?thesis using files [OF q(1)] q(2) d by (simp add: stored_def)
  next
    case False
    have u: "map_of (index s) q = Some je" "locOf je \<in> A" using used q False by auto
    have a: "allocated (pool_of s) (entryStoredSize je) (entryLoc je)"
      using content_okD(4) [OF ok u(1) False] by (simp add: locOf_def)
    have "(entryStoredSize je, entryLoc je) \<in> A" using u(2) by (simp add: locOf_def)
    from moves_read(2) [OF content_okD(2) [OF ok] m a this] False show ?thesis
      by (simp add: stored_def)
  qed
qed

lemma keeps_same:
  assumes "content_ok s" "index s' = index s" "pool_of s' = pool_of s" "disk s' = disk s" "dir s' = dir s"
  shows "keeps p s s'"
proof (rule keeps_step [OF assms(1)])
  show "moves (pool_of s) (pool_of s') (alloc_set (pool_of s))"
    using content_okD(2) [OF assms(1)] assms(3) by (simp add: moves_refl)
qed (use assms content_okD [OF assms(1)] in \<open>auto simp: content_ok_def\<close>)

section \<open>Removing an entry\<close>

lemma pool_refl: "content_ok s \<Longrightarrow> moves (pool_of s) (pool_of s) (alloc_set (pool_of s))"
  by (rule moves_refl [OF content_okD(2)])

lemma dropEntry_keeps:
  assumes ok: "content_ok s" and q: "map_of (index s) q = Some ie"
  shows "keeps p s (dropEntry E s q ie)"
proof (cases "ie_PoolPage ie = 0")
  case True
  obtain r d where d: "removeIfExists E (disk s) (objectPath (dir s) q) = (r, d)" by fastforce
  have e: "pool_of (dropEntry E s q ie) = pool_of s" "disk (dropEntry E s q ie) = d"
    using True d by (simp_all add: dropEntry_def removeObjectLocked_def)
  show ?thesis
  proof (rule keeps_step [OF ok])
    show "moves (pool_of s) (pool_of (dropEntry E s q ie)) (alloc_set (pool_of s))"
      using pool_refl [OF ok] e by simp
  next
    fix q' je assume h: "q' \<noteq> p" "map_of (index (dropEntry E s q ie)) q' = Some je"
    then show "map_of (index s) q' = Some je \<and> (ie_PoolPage je \<noteq> 0 \<longrightarrow> locOf je \<in> alloc_set (pool_of s))"
      using content_okD(4) [OF ok] by (auto simp: dropEntry_frame split: if_splits)
  next
    fix q' assume h: "q' \<noteq> p" "map_of (index (dropEntry E s q ie)) q' \<noteq> None"
    then have "q' \<noteq> q" "map_of (index s) q' \<noteq> None" by (auto simp: dropEntry_frame split: if_splits)
    then have "objectPath (dir s) q' \<noteq> objectPath (dir s) q"
      using objectPath_inj [OF content_okD(1) [OF ok]] content_okD(3) [OF ok] q by blast
    then show "map_of (disk (dropEntry E s q ie)) (objectPath (dir s) q') =
        map_of (disk s) (objectPath (dir s) q')"
      using map_of_removeIfExists [OF d] e by simp
  next
    fix je assume "map_of (index (dropEntry E s q ie)) p = Some je"
    then show "relative_clean p \<and> (ie_PoolPage je \<noteq> 0 \<longrightarrow> locOf je \<in> alloc_set (pool_of s) \<and>
        (\<forall>q' ke. q' \<noteq> p \<longrightarrow> map_of (index (dropEntry E s q ie)) q' = Some ke \<longrightarrow>
           ie_PoolPage ke \<noteq> 0 \<longrightarrow> locOf je \<noteq> locOf ke))"
      using content_okD(3,4,5) [OF ok] by (auto simp: dropEntry_frame split: if_splits)
  qed (simp add: dropEntry_frame)
next
  case False
  have a: "allocated (pool_of s) (entryStoredSize ie) (entryLoc ie)"
    using content_okD(4) [OF ok q False] by (simp add: locOf_def)
  have e: "pool_of (dropEntry E s q ie) = poolFree (pool_of s) (entryStoredSize ie) (entryLoc ie)"
    "disk (dropEntry E s q ie) = disk s"
    using False by (simp_all add: dropEntry_def removeObjectLocked_def)
  have other: "map_of (index s) q' = Some je \<and>
      (ie_PoolPage je \<noteq> 0 \<longrightarrow> locOf je \<in> alloc_set (pool_of s) - {locOf ie})"
    if "map_of (index (dropEntry E s q ie)) q' = Some je" for q' je
    using that False content_okD(4) [OF ok, of q' je] content_okD(5) [OF ok _ q, of q' je]
    by (auto simp: dropEntry_frame split: if_splits)
  show ?thesis
  proof (rule keeps_step [OF ok])
    show "moves (pool_of s) (pool_of (dropEntry E s q ie)) (alloc_set (pool_of s) - {locOf ie})"
      using poolFree_moves [OF content_okD(2) [OF ok] a] e by (simp add: locOf_def)
  next
    fix je assume "map_of (index (dropEntry E s q ie)) p = Some je"
    then show "relative_clean p \<and> (ie_PoolPage je \<noteq> 0 \<longrightarrow> locOf je \<in> alloc_set (pool_of s) - {locOf ie} \<and>
        (\<forall>q' ke. q' \<noteq> p \<longrightarrow> map_of (index (dropEntry E s q ie)) q' = Some ke \<longrightarrow>
           ie_PoolPage ke \<noteq> 0 \<longrightarrow> locOf je \<noteq> locOf ke))"
      using other content_okD(3,5) [OF ok] by metis
  qed (use other e in \<open>simp_all add: dropEntry_frame\<close>)
qed

lemma evictOneLocked_keeps_content:
  "content_ok s \<Longrightarrow> keeps p s (snd (evictOneLocked E s))"
proof (induction "length (items (evictHeap s))" arbitrary: s rule: less_induct)
  case less
  show ?case
  proof (cases "heapPop (evictHeap s)")
    case (Inl e)
    then show ?thesis using less.prems by (subst evictOneLocked.simps) (simp add: keeps_refl)
  next
    case (Inr r)
    obtain x h where r: "r = (x, h)" by (cases r)
    let ?s1 = "s\<lparr>evictHeap := h\<rparr>"
    have k1: "keeps p s ?s1" by (rule keeps_same [OF less.prems]) simp_all
    show ?thesis
    proof (cases x)
      case None
      then show ?thesis using Inr r k1 by (subst evictOneLocked.simps) simp
    next
      case (Some e)
      have pop: "heapPop (evictHeap s) = Inr (Some e, h)" using Inr r Some by simp
      have again: "keeps p s (snd (evictOneLocked E ?s1))"
        using less.hyps [OF _ keeps_ok [OF k1]] heapPop_shrinks [OF pop] keeps_trans [OF k1] by simp
      have drop: "keeps p s (dropEntry E ?s1 q ie)" if "map_of (index s) q = Some ie" for q ie
        using dropEntry_keeps [OF keeps_ok [OF k1]] that keeps_trans [OF k1] by simp
      show ?thesis
        using pop again drop by (subst evictOneLocked.simps) (auto simp: Let_def split: option.splits)
    qed
  qed
qed

lemma evictTimes_keeps_content: "content_ok s \<Longrightarrow> keeps p s (snd (evictTimes E n s))"
proof (induction n arbitrary: s)
  case (Suc n)
  obtain r s' where e: "evictOneLocked E s = (r, s')" by fastforce
  then have k: "keeps p s s'" using evictOneLocked_keeps_content [OF Suc.prems, of p E] by simp
  show ?case using Suc.IH [OF keeps_ok [OF k]] keeps_trans [OF k] k e by (auto split: sum.splits)
qed (simp add: keeps_refl)

lemma handleWriteErr_keeps:
  assumes "handleWriteErr E s e = (e', s')" "content_ok s"
  shows "keeps p s s'"
proof -
  have "keeps p s (snd (evictOnDiskFullLocked E s))"
    using evictTimes_keeps_content [OF assms(2)] by (simp add: evictOnDiskFullLocked_def Let_def)
  then show ?thesis using assms keeps_refl
    by (auto simp: handleWriteErr_def split: if_splits prod.splits option.splits)
qed

section \<open>Storing a body\<close>

lemma disk_keeps:
  assumes ok: "content_ok s" and p: "relative_clean p"
    and d: "\<And>x. x \<noteq> objectPath (dir s) p \<Longrightarrow> map_of d x = map_of (disk s) x"
  shows "keeps p s (s\<lparr>disk := d\<rparr>)"
proof (rule keeps_step [OF ok])
  show "moves (pool_of s) (pool_of (s\<lparr>disk := d\<rparr>)) (alloc_set (pool_of s))"
    using pool_refl [OF ok] by simp
next
  fix q assume q: "q \<noteq> p" "map_of (index (s\<lparr>disk := d\<rparr>)) q \<noteq> None"
  then have "relative_clean q" using content_okD(3) [OF ok] by auto
  then have "objectPath (dir s) q \<noteq> objectPath (dir s) p"
    using objectPath_inj [OF content_okD(1) [OF ok]] p q(1) by blast
  then show "map_of (disk (s\<lparr>disk := d\<rparr>)) (objectPath (dir s) q) = map_of (disk s) (objectPath (dir s) q)"
    using d by simp
qed (use content_okD(3,4,5) [OF ok] p in auto)

lemma writeAtomic_other:
  "writeAtomic E d f rd mode = (r, d') \<Longrightarrow> x \<noteq> f \<Longrightarrow> map_of d' x = map_of d x"
  by (auto simp: writeAtomic_def writeRename_def split: option.splits prod.splits)

lemma storePlain_keeps:
  assumes e: "storePlain E s it n src c = (r, s')" and ok: "content_ok s"
    and p: "relative_clean (fi_Path it)"
  shows "keeps (fi_Path it) s s'"
proof -
  let ?f = "objectPath (dir s) (fi_Path it)"
  obtain w d where w: "writeAtomic E (disk s) ?f (Some src)
      (if fileMode it = 0 then 384 else fileMode it) = (w, d)" by fastforce
  have other: "x \<noteq> ?f \<Longrightarrow> map_of d x = map_of (disk s) x" for x
    using writeAtomic_other [OF w] .
  have kd: "keeps (fi_Path it) s (s\<lparr>disk := d\<rparr>)" by (rule disk_keeps [OF ok p other])
  have kr: "keeps (fi_Path it) s (s\<lparr>disk := snd (removeIfExists E d ?f)\<rparr>)"
    by (rule disk_keeps [OF ok p])
      (use other map_of_removeIfExists [OF surjective_pairing, of E d ?f] in auto)
  show ?thesis
    using e w kd kr keeps_trans [OF kd] handleWriteErr_keeps [OF _ keeps_ok [OF kd]]
    by (auto simp: storePlain_def Let_def split: option.splits if_splits prod.splits)
qed


lemma pool_keeps:
  assumes ok: "content_ok s" and m: "moves (pool_of s) q A" "alloc_set (pool_of s) \<subseteq> A"
  shows "keeps p s (s\<lparr>pool_of := q\<rparr>)"
proof (rule keeps_step [OF ok])
  show "moves (pool_of s) (pool_of (s\<lparr>pool_of := q\<rparr>)) A" using m(1) by simp
qed (use content_okD(3,4,5) [OF ok] m(2) in auto)

text \<open>A body that was stored: in a slot that was free and is not the zero location, or in the
  object's file.\<close>

definition body_stored :: "store \<Rightarrow> store \<Rightarrow> string \<Rightarrow> indexEntry \<Rightarrow> bytes \<Rightarrow> bool" where
  "body_stored s s' p ie b =
     (index s' = index s \<and> dir s' = dir s \<and> int (length b) = entryStoredSize ie \<and>
      (if ie_PoolPage ie \<noteq> 0 then
         disk s' = disk s \<and> moves (pool_of s) (pool_of s') (insert (locOf ie) (alloc_set (pool_of s))) \<and>
         locOf ie \<notin> alloc_set (pool_of s) \<and>
         poolRead (pool_of s') (entryStoredSize ie) (entryLoc ie) = Inr b
       else
         moves (pool_of s) (pool_of s') (alloc_set (pool_of s)) \<and>
         map_option content (map_of (disk s') (objectPath (dir s) p)) = Some b \<and>
         (\<forall>x. x \<noteq> objectPath (dir s) p \<longrightarrow> map_of (disk s') x = map_of (disk s) x)))"

lemma storePlain_stored:
  assumes e: "storePlain E s it n src c = (None, s')"
    and n: "c \<or> int (length (fst src)) = n"
  shows "snd src = None \<and> int (length (fst src)) = n \<and> index s' = index s \<and> dir s' = dir s \<and>
    pool_of s' = pool_of s \<and>
    map_option content (map_of (disk s') (objectPath (dir s) (fi_Path it))) = Some (fst src) \<and>
    (\<forall>x. x \<noteq> objectPath (dir s) (fi_Path it) \<longrightarrow> map_of (disk s') x = map_of (disk s) x)"
  using e n
  by (auto simp: storePlain_def Let_def writeAtomic_def writeRename_def
    split: option.splits if_splits prod.splits)

lemma storePutBody_stored:
  assumes ok: "content_ok s" and p0: "ie_PoolPage ie = 0"
    and e: "storePutBody E s it ie rd = (Inr ie2, s')"
  shows "\<exists>b. rd = (if rd = None then None else Some (b, None)) \<and> (rd = None \<longrightarrow> b = []) \<and>
    body_stored s s' (fi_Path it) ie2 b \<and> entryStoredSize ie2 = entryStoredSize ie \<and>
    ie_Compressed ie2 = ie_Compressed ie \<and> ie_Size ie2 = ie_Size ie \<and> ie_WireSize ie2 = ie_WireSize ie"
proof -
  let ?n = "entryStoredSize ie"
  have pok: "pool_ok (pool_of s)" using ok by (rule content_okD(2))
  show ?thesis
  proof (cases "0 < ?n \<and> ?n \<le> maxRecordBytes (pool_of s)")
    case False
    let ?src = "case rd of None \<Rightarrow> ([], None) | Some r \<Rightarrow> r"
    have "storePlain E s it ?n ?src True = (None, s')" and ie2: "ie2 = ie"
      using e False by (auto simp: storePutBody_def Let_def split: prod.splits option.splits)
    from storePlain_stored [OF this(1)] show ?thesis
      using p0 ie2 pool_refl [OF ok]
      by (intro exI [of _ "fst ?src"]) (auto simp: body_stored_def split: option.splits)
  next
    case True
    obtain body where rd: "rd = Some (body, None)" "int (length body) = ?n"
      using e True by (auto simp: storePutBody_def Let_def split: option.splits if_splits prod.splits)
    obtain r q where put: "poolPut (pool_of s) ?n body (poolCreate E) (poolWrite E) = (r, q)" by fastforce
    have post: "put_post (pool_of s) ?n body (r, q)" using poolPut_post [OF pok] put by metis
    show ?thesis
    proof (cases r)
      case (Inl err)
      then show ?thesis using e True rd put by (simp add: storePutBody_def Let_def split: prod.splits)
    next
      case (Inr ol)
      show ?thesis
      proof (cases ol)
        case None
        have m: "moves (pool_of s) q (alloc_set (pool_of s))"
          using post Inr None by (simp add: put_post_def)
        have "storePlain E (s\<lparr>pool_of := q\<rparr>) it ?n (body, None) False = (None, s')" and ie2: "ie2 = ie"
          using e True rd put Inr None
          by (auto simp: storePutBody_def Let_def split: prod.splits option.splits)
        from storePlain_stored [OF this(1)] show ?thesis
          using p0 ie2 rd m by (intro exI [of _ body]) (auto simp: body_stored_def)
      next
        case (Some l)
        have h: "moves (pool_of s) q (insert (?n, l) (alloc_set (pool_of s)))"
          "\<not> allocated (pool_of s) ?n l" "\<not> isZero l" "poolRead q ?n l = Inr body"
          using post Inr Some by (simp_all add: put_post_def)
        have ie2: "ie2 = ie\<lparr>ie_PoolPage := Page l, ie_PoolSlot := Slot l\<rparr>" "s' = s\<lparr>pool_of := q\<rparr>"
          using e True rd put Inr Some by (auto simp: storePutBody_def Let_def)
        have "entryLoc ie2 = l" "entryStoredSize ie2 = ?n" "ie_PoolPage ie2 \<noteq> 0"
          using h(3) by (simp_all add: ie2 entryLoc_def entryStoredSize_def isZero_def)
        then show ?thesis using h rd ie2
          by (intro exI [of _ body]) (simp add: body_stored_def locOf_def)
      qed
    qed
  qed
qed

lemma storePutBody_fail_keeps:
  assumes ok: "content_ok s" and p: "relative_clean (fi_Path it)"
    and e: "storePutBody E s it ie rd = (Inl err, s')"
  shows "keeps (fi_Path it) s s'"
proof -
  let ?n = "entryStoredSize ie"
  have pok: "pool_ok (pool_of s)" using ok by (rule content_okD(2))
  show ?thesis
  proof (cases "0 < ?n \<and> ?n \<le> maxRecordBytes (pool_of s)")
    case False
    then show ?thesis
      using e storePlain_keeps [OF _ ok p]
      by (auto simp: storePutBody_def Let_def split: prod.splits option.splits)
  next
    case True
    show ?thesis
    proof (cases "\<exists>body. rd = Some (body, None) \<and> int (length body) = ?n")
      case False
      then have "s' = s" using e True
        by (auto simp: storePutBody_def Let_def split: option.splits prod.splits if_splits)
      then show ?thesis using ok by (simp add: keeps_refl)
    next
      case sized: True
      then obtain body where rd: "rd = Some (body, None)" "int (length body) = ?n" by blast
      obtain r q where put: "poolPut (pool_of s) ?n body (poolCreate E) (poolWrite E) = (r, q)"
        by fastforce
      have post: "put_post (pool_of s) ?n body (r, q)" using poolPut_post [OF pok] put by metis
      have r: "\<And>l. r \<noteq> Inr (Some l)"
        using e True rd put by (auto simp: storePutBody_def Let_def)
      then have "moves (pool_of s) q (alloc_set (pool_of s))"
        using post by (auto simp: put_post_def split: sum.splits option.splits)
      then have k: "keeps (fi_Path it) s (s\<lparr>pool_of := q\<rparr>)" by (rule pool_keeps [OF ok]) simp
      show ?thesis
        using e True rd put r keeps_trans [OF k] handleWriteErr_keeps [OF _ keeps_ok [OF k]]
          storePlain_keeps [OF _ keeps_ok [OF k] p]
        by (auto simp: storePutBody_def Let_def split: sum.splits option.splits prod.splits)
    qed
  qed
qed


section \<open>Committing a save\<close>

lemma scheduleEviction_keeps: "content_ok s \<Longrightarrow> keeps p s (scheduleEvictionLocked s)"
  by (rule keeps_same) (simp_all add: scheduleEviction_frame)

text \<open>The pool and the files after the superseded entry was released.\<close>

lemma commit_pool_disk:
  assumes c: "putCommit E s2 it existing ie = (r, s')"
  shows "pool_of s' = (case existing of
      None \<Rightarrow> pool_of s2
    | Some x \<Rightarrow> (if ie_PoolPage x \<noteq> 0 then poolFree (pool_of s2) (entryStoredSize x) (entryLoc x)
                else pool_of s2))"
    and "disk s' = (case existing of
      None \<Rightarrow> disk s2
    | Some x \<Rightarrow> (if ie_PoolPage x = 0 \<and> ie_PoolPage ie \<noteq> 0
                then snd (removeIfExists E (disk s2) (objectPath (dir s2) (fi_Path it))) else disk s2))"
  using c by (auto simp: putCommit_def releaseSupersededLocked_def scheduleEviction_frame Let_def
    split: option.splits if_splits sum.splits)

lemma putCommit_keeps:
  assumes ok: "content_ok s" and p: "relative_clean (fi_Path it)"
    and st: "body_stored s s2 (fi_Path it) ie b"
    and ex: "existing = map_of (index s) (fi_Path it)"
    and c: "putCommit E s2 it existing ie = (r, s')"
  shows "keeps (fi_Path it) s s'" and "stored s' (fi_Path it) ie = Some b"
    and "map_of (index s') (fi_Path it) = Some ie"
proof -
  let ?p = "fi_Path it"
  let ?A2 = "alloc_set (pool_of s2)"
  define old where "old = (case existing of Some x \<Rightarrow> if ie_PoolPage x \<noteq> 0 then {locOf x} else {} | None \<Rightarrow> {})"
  have i2: "index s2 = index s" "dir s2 = dir s" using st by (simp_all add: body_stored_def)
  have idx: "index s' = AList.update ?p ie (index s)" and d': "dir s' = dir s"
    using putCommit_frame(1,6) [OF c] i2 by simp_all
  show look: "map_of (index s') ?p = Some ie" using idx by simp
  have m2: "moves (pool_of s) (pool_of s2) ?A2" "alloc_set (pool_of s) \<subseteq> ?A2"
    using st by (auto simp: body_stored_def moves_def split: if_splits)
  have old_in: "old \<subseteq> alloc_set (pool_of s)"
    using ex content_okD(4) [OF ok, of ?p] by (auto simp: old_def split: option.splits if_splits)
  have pool': "moves (pool_of s2) (pool_of s') (?A2 - old)"
  proof (cases "\<exists>x. existing = Some x \<and> ie_PoolPage x \<noteq> 0")
    case True
    then obtain x where x: "existing = Some x" "ie_PoolPage x \<noteq> 0" by blast
    have "locOf x \<in> old" using x by (simp add: old_def)
    then have "locOf x \<in> ?A2" using old_in m2(2) by blast
    then have "allocated (pool_of s2) (entryStoredSize x) (entryLoc x)" by (simp add: locOf_def)
    from poolFree_moves [OF moves_ok [OF m2(1)] this] show ?thesis
      using x commit_pool_disk(1) [OF c] by (simp add: old_def locOf_def)
  next
    case False
    then have "pool_of s' = pool_of s2" "old = {}"
      using commit_pool_disk(1) [OF c] by (auto simp: old_def split: option.splits)
    then show ?thesis using moves_refl [OF moves_ok [OF m2(1)]] by simp
  qed
  have m: "moves (pool_of s) (pool_of s') (?A2 - old)"
    using m2(1) pool' by (rule moves_trans) blast
  have new: "ie_PoolPage ie \<noteq> 0 \<Longrightarrow> locOf ie \<in> ?A2 - old \<and> locOf ie \<notin> alloc_set (pool_of s)"
    using st old_in moves_alloc by (auto simp: body_stored_def)
  have other: "map_of (index s) q = Some je \<and> (ie_PoolPage je \<noteq> 0 \<longrightarrow> locOf je \<in> ?A2 - old)"
    if "q \<noteq> ?p" "map_of (index s') q = Some je" for q je
  proof -
    have q: "map_of (index s) q = Some je" using that idx by auto
    have "locOf je \<notin> old" if "ie_PoolPage je \<noteq> 0"
      using content_okD(5) [OF ok q _ \<open>q \<noteq> ?p\<close> that] ex
      by (auto simp: old_def split: option.splits if_splits)
    then show ?thesis using q content_okD(4) [OF ok q] m2(2) by blast
  qed
  have files: "map_of (disk s') x = map_of (disk s) x" if "x \<noteq> objectPath (dir s) ?p" for x
    using st commit_pool_disk(2) [OF c] that i2(2)
      map_of_removeIfExists [OF surjective_pairing, of E "disk s2" "objectPath (dir s2) ?p" x]
    by (auto simp: body_stored_def split: option.splits if_splits)
  show "keeps ?p s s'"
  proof (rule keeps_step [OF ok m])
    fix q assume q: "q \<noteq> ?p" "map_of (index s') q \<noteq> None"
    then have "relative_clean q" using other content_okD(3) [OF ok] by blast
    then show "map_of (disk s') (objectPath (dir s) q) = map_of (disk s) (objectPath (dir s) q)"
      using objectPath_inj [OF content_okD(1) [OF ok]] p q(1) by (intro files) blast
  next
    fix je assume "map_of (index s') ?p = Some je"
    then have je: "je = ie" using look by simp
    show "relative_clean ?p \<and> (ie_PoolPage je \<noteq> 0 \<longrightarrow> locOf je \<in> ?A2 - old \<and>
        (\<forall>q ke. q \<noteq> ?p \<longrightarrow> map_of (index s') q = Some ke \<longrightarrow> ie_PoolPage ke \<noteq> 0 \<longrightarrow> locOf je \<noteq> locOf ke))"
      unfolding je using p new other content_okD(4) [OF ok] by metis
  qed (use other d' in blast)+
  show "stored s' ?p ie = Some b"
  proof (cases "ie_PoolPage ie = 0")
    case True
    then have "disk s' = disk s2" using commit_pool_disk(2) [OF c] by (auto split: option.splits)
    then show ?thesis using st True d' by (simp add: body_stored_def stored_def)
  next
    case False
    have a: "allocated (pool_of s2) (entryStoredSize ie) (entryLoc ie)"
      using new [OF False] by (simp add: locOf_def)
    have "(entryStoredSize ie, entryLoc ie) \<in> ?A2 - old" using new [OF False] by (simp add: locOf_def)
    from moves_read(2) [OF moves_ok [OF m2(1)] pool' a this] show ?thesis
      using st False by (simp add: body_stored_def stored_def)
  qed
qed

section \<open>The round trip\<close>

lemma bodyReader_spec:
  assumes e: "bodyReaderForPut E s it ie = (Inr rd, ie1)" and z: "zstd_ok E"
    and dl: "delivers (uncompressedBodyReader E (disk s) (pool_of s) it) b"
    and ie: "ie_Compressed ie = 0" "ie_WireSize ie = 0" "ie_Size ie = fi_Size it"
  shows "\<exists>w. delivers (Inr rd) w \<and> ie_Size ie1 = fi_Size it \<and> ie_PoolPage ie1 = ie_PoolPage ie \<and>
    (if ie_Compressed ie1 = 1 then rd = None \<and> ie_WireSize ie1 = 0 \<and> fi_Size it = 0 \<and> b = [] \<or>
       rd \<noteq> None \<and> zstream E w = (b, None) else w = b)"
proof (cases "fi_IsCompressed it")
  case True
  show ?thesis
  proof (cases "compress s")
    case c: True
    show ?thesis
    proof (cases "fi_Size it = 0 \<and> fi_WireSize it = 0")
      case True
      then show ?thesis
        using e dl ie c \<open>fi_IsCompressed it\<close>
        by (auto simp: bodyReaderForPut_def wireBodyReader_def uncompressedBodyReader_def delivers_def)
    next
      case False
      then obtain r where r: "openBody E (disk s) (pool_of s) it = Inr r" "zstdReader E r = (b, None)"
        using dl \<open>fi_IsCompressed it\<close>
        by (auto simp: uncompressedBodyReader_def delivers_def split: sum.splits)
      then have "snd r = None" "zstream E (fst r) = (b, None)"
        by (auto simp: zstdReader_def split: option.splits)
      then show ?thesis
        using e ie c False r \<open>fi_IsCompressed it\<close>
        by (intro exI [of _ "fst r"])
          (auto simp: bodyReaderForPut_def wireBodyReader_def delivers_def intro: prod_eqI)
    qed
  next
    case False
    then show ?thesis using e dl ie True by (intro exI [of _ b]) (auto simp: bodyReaderForPut_def)
  qed
next
  case False
  show ?thesis
  proof (cases "compress s \<and> MinCompressionSize \<le> fi_Size it")
    case True
    then have "fi_Size it \<noteq> 0" by (simp add: MinCompressionSize_def)
    then have "openBody E (disk s) (pool_of s) it = Inr (b, None)"
      using dl False by (auto simp: uncompressedBodyReader_def delivers_def split: sum.splits)
    then show ?thesis
      using e ie True False z \<open>fi_Size it \<noteq> 0\<close>
      by (intro exI [of _ "zenc E b"])
        (auto simp: bodyReaderForPut_def compressNowBodyReader_def compressedBodyReader_def
          delivers_def zstd_ok_def)
  next
    case False
    then show ?thesis using e dl ie \<open>\<not> fi_IsCompressed it\<close>
      by (intro exI [of _ b]) (auto simp: bodyReaderForPut_def)
  qed
qed


lemma putStore_split:
  assumes "putStore E s it ie = (q, s')"
  shows "(\<exists>e. q = Inl e \<and> s' = s\<lparr>errors := errors s + 1\<rparr>) \<or>
    (\<exists>rd ie1 s1. bodyReaderForPut E s it ie = (Inr rd, ie1) \<and>
       ((\<exists>e. storePutBody E s it ie1 rd = (Inl e, s1) \<and> q = Inl e \<and> s' = s1\<lparr>errors := errors s1 + 1\<rparr>) \<or>
        (\<exists>ie2. storePutBody E s it ie1 rd = (Inr ie2, s') \<and> q = Inr ie2)))"
  using assms by (auto simp: putStore_def split: prod.splits sum.splits)

lemma bodyReader_page: "bodyReaderForPut E s it ie = (rd, ie1) \<Longrightarrow> ie_PoolPage ie1 = ie_PoolPage ie"
  by (auto simp: bodyReaderForPut_def compressNowBodyReader_def
    split: if_splits sum.splits option.splits prod.splits)

lemma putStore_content:
  assumes q: "putStore E s it ie = (q, s')" and ok: "content_ok s"
    and p: "relative_clean (fi_Path it)" and ie: "ie_PoolPage ie = 0"
  shows "case q of Inl e \<Rightarrow> keeps (fi_Path it) s s'
    | Inr ie2 \<Rightarrow> (\<exists>b. body_stored s s' (fi_Path it) ie2 b)"
proof -
  have er: "keeps (fi_Path it) s1 (s1\<lparr>errors := n\<rparr>)" if "content_ok s1" for s1 n
    by (rule keeps_same [OF that]) simp_all
  from putStore_split [OF q] show ?thesis
  proof (elim disjE exE conjE)
    fix rd ie1 s1 e
    assume h: "bodyReaderForPut E s it ie = (Inr rd, ie1)" "storePutBody E s it ie1 rd = (Inl e, s1)"
      "q = Inl e" "s' = s1\<lparr>errors := errors s1 + 1\<rparr>"
    have k: "keeps (fi_Path it) s s1" using storePutBody_fail_keeps [OF ok p h(2)] .
    then show ?thesis using h(3,4) er [OF keeps_ok [OF k]] keeps_trans by auto
  next
    fix rd ie1 s1 ie2
    assume h: "bodyReaderForPut E s it ie = (Inr rd, ie1)" "storePutBody E s it ie1 rd = (Inr ie2, s')"
      "q = Inr ie2"
    then show ?thesis
      using storePutBody_stored [OF ok _ h(2)] bodyReader_page [OF h(1)] ie by auto
  qed (use er [OF ok] in simp)
qed

lemma putBegin_keeps:
  "putBegin E s it = (b, s1) \<Longrightarrow> content_ok s \<Longrightarrow> keeps p s s1 \<and> index s1 = index s \<and>
     pool_of s1 = pool_of s \<and> disk s1 = disk s \<and> compress s1 = compress s"
  by (auto simp: putBegin_def Let_def keeps_refl split: if_splits intro!: keeps_same)

lemma putOne_keeps:
  assumes r: "putOne E s it = (r, s')" and ok: "content_ok s" and p: "relative_clean (fi_Path it)"
  shows "keeps (fi_Path it) s s'"
proof -
  obtain b s1 where b: "putBegin E s it = (b, s1)" by fastforce
  have k1: "keeps (fi_Path it) s s1" "index s1 = index s" using putBegin_keeps [OF b ok] by auto
  note ok1 = keeps_ok [OF k1(1)]
  consider (stop) "s' = s1" | (go) existing ie where "b = Inr (Some (existing, ie))"
    using r b by (auto simp: putOne_def split: sum.splits option.splits)
  then show ?thesis
  proof cases
    case stop
    then show ?thesis using k1 by simp
  next
    case go
    note pb = putBegin_Some [OF b [unfolded go]]
    obtain q s2 where q: "putStore E s1 it ie = (q, s2)" by fastforce
    note st = putStore_content [OF q ok1 p pb(7)]
    show ?thesis
    proof (cases q)
      case (Inl e)
      then show ?thesis using st r b go q keeps_trans [OF k1(1)] by (simp add: putOne_def)
    next
      case (Inr ie2)
      then obtain w where w: "body_stored s1 s2 (fi_Path it) ie2 w" using st by auto
      have c: "putCommit E s2 it existing ie2 = (r, s')" using r b go q Inr by (simp add: putOne_def)
      have "existing = map_of (index s1) (fi_Path it)" using pb(1) k1(2) by simp
      from putCommit_keeps(1) [OF ok1 p w this c] show ?thesis by (rule keeps_trans [OF k1(1)])
    qed
  qed
qed

text \<open>Reading an entry back, in an environment that can read its file.\<close>

lemma read_entry:
  assumes st: "stored s p ie = Some w" and rd: "readErr E (objectPath (dir s) p) = None"
    and d: "objectPath (dir s) p \<noteq> []"
  shows "openBody E (disk s) (pool_of s) (responseItem s p ie) = Inr (w, None)"
  using assms
  by (auto simp: stored_def openBody_def responseItem_def readFile_def split: sum.splits option.splits
    if_splits)

lemma objectPath_nonempty: "abs_clean d \<Longrightarrow> relative_clean p \<Longrightarrow> objectPath d p \<noteq> []"
  by (metis abs_cleanE objectPath_elems relative_cleanE list.distinct(1))

lemma putOne_roundtrip:
  assumes r: "putOne E s it = (None, s')" and ok: "content_ok s" and p: "relative_clean (fi_Path it)"
    and small: "maxFileBytes s \<le> 0 \<or> fi_Size it \<le> maxFileBytes s" and z: "zstd_ok E"
    and dl: "delivers (uncompressedBodyReader E (disk s) (pool_of s) it) b"
    and size: "fi_Size it = int (length b)"
    and E': "readErr E' (objectPath (dir s) (fi_Path it)) = None" "zstream E' = zstream E"
  shows "\<exists>ie. map_of (index s') (fi_Path it) = Some ie \<and>
    delivers (uncompressedBodyReader E' (disk s') (pool_of s') (responseItem s' (fi_Path it) ie)) b"
proof -
  let ?p = "fi_Path it"
  obtain x s1 where b: "putBegin E s it = (x, s1)" by fastforce
  have k1: "keeps ?p s s1" "index s1 = index s" "pool_of s1 = pool_of s" "disk s1 = disk s"
    using putBegin_keeps [OF b ok] by auto
  note ok1 = keeps_ok [OF k1(1)]
  have "?p \<noteq> []" using p by (rule relative_clean_nonempty)
  then obtain existing ie where go: "x = Inr (Some (existing, ie))"
    using b small by (auto simp: putBegin_def Let_def split: if_splits)
  note pb = putBegin_Some [OF b [unfolded go]]
  obtain q s2 where q: "putStore E s1 it ie = (q, s2)" by fastforce
  obtain ie2 where ie2: "q = Inr ie2" "putCommit E s2 it existing ie2 = (None, s')"
    using r b go q by (auto simp: putOne_def split: sum.splits)
  obtain rd ie1 where br: "bodyReaderForPut E s1 it ie = (Inr rd, ie1)"
    "storePutBody E s1 it ie1 rd = (Inr ie2, s2)"
    using putStore_split [OF q] ie2(1) by auto
  have "delivers (uncompressedBodyReader E (disk s1) (pool_of s1) it) b" using dl k1 by simp
  from bodyReader_spec [OF br(1) z this pb(6,5,4)] obtain w where w: "delivers (Inr rd) w"
    "ie_Size ie1 = fi_Size it" "ie_PoolPage ie1 = 0"
    "if ie_Compressed ie1 = 1 then rd = None \<and> ie_WireSize ie1 = 0 \<and> fi_Size it = 0 \<and> b = [] \<or>
       rd \<noteq> None \<and> zstream E w = (b, None) else w = b"
    using pb(7) by auto
  obtain w' where st: "body_stored s1 s2 ?p ie2 w'"
    "rd = (if rd = None then None else Some (w', None))" "rd = None \<longrightarrow> w' = []"
    "ie_Compressed ie2 = ie_Compressed ie1" "ie_Size ie2 = ie_Size ie1" "ie_WireSize ie2 = ie_WireSize ie1"
    using storePutBody_stored [OF ok1 w(3) br(2)] by blast
  have w': "w' = w" using st(2,3) w(1) by (auto simp: delivers_def split: if_splits)
  have "existing = map_of (index s1) ?p" using pb(1) k1(2) by simp
  note cm = putCommit_keeps [OF ok1 p st(1) this ie2(2)]
  have d': "dir s' = dir s" using cm(1) k1(1) by (simp add: keeps_def)
  have ne: "objectPath (dir s') ?p \<noteq> []"
    using objectPath_nonempty [OF content_okD(1) [OF keeps_ok [OF cm(1)]] p] .
  have ob: "openBody E' (disk s') (pool_of s') (responseItem s' ?p ie2) = Inr (w, None)"
    using read_entry [OF cm(2) _ ne] E'(1) d' w' by simp
  have sz: "fi_Size (responseItem s' ?p ie2) = fi_Size it"
    "fi_IsCompressed (responseItem s' ?p ie2) \<longleftrightarrow> ie_Compressed ie1 = 1"
    "fi_WireSize (responseItem s' ?p ie2) =
       (if ie_WireSize ie1 = 0 then fi_Size it else ie_WireSize ie1)"
    using st w(2) by (simp_all add: responseItem_def)
  have "delivers (uncompressedBodyReader E' (disk s') (pool_of s') (responseItem s' ?p ie2)) b"
  proof (cases "fi_Size it = 0 \<and> fi_WireSize (responseItem s' ?p ie2) = 0")
    case True
    then show ?thesis using sz size by (simp add: uncompressedBodyReader_def delivers_def)
  next
    case False
    then have "ie_Compressed ie1 = 1 \<longrightarrow> zstream E w = (b, None)" using w(4) sz(3) by (auto split: if_splits)
    then show ?thesis
      using False ob sz w(4) E'(2) by (auto simp: uncompressedBodyReader_def delivers_def zstdReader_def)
  qed
  then show ?thesis using cm(3) by blast
qed


section \<open>Restoring\<close>

lemma evictOneLocked_content: "content_ok s \<Longrightarrow> content_ok (snd (evictOneLocked E s))"
  using evictOneLocked_keeps_content keeps_ok by blast

interpretation con: file_inv content_ok
proof
  fix s :: store and d
  assume "content_ok s"
  then show "content_ok (s\<lparr>disk := d\<rparr>)" by (simp add: content_ok_def)
qed (rule evictOneLocked_content)

lemma takeBudget_sum:
  "tot \<le> budget \<Longrightarrow> tot + sum_list (map (\<lambda>e. entryStoredSize (re_ie e)) (takeBudget budget tot es)) \<le> budget"
proof (induction es arbitrary: tot)
  case (Cons e es)
  show ?case
    using Cons.IH [of "tot + entryStoredSize (re_ie e)"] Cons.prems by (auto simp: Let_def)
qed simp

lemma takeBudget_prefix: "prefix (takeBudget budget tot es) es"
  by (induction es arbitrary: tot) (auto simp: Let_def)

lemma selectRestoreEntries_subset: "set (selectRestoreEntries s req es) \<subseteq> set es"
proof -
  let ?f = "filter (\<lambda>e. \<not> (0 < MaxFileBytes req \<and> MaxFileBytes req < ie_Size (re_ie e)) \<and>
      \<not> (0 < maxFileBytes s \<and> maxFileBytes s < ie_Size (re_ie e))) es"
  have "set (takeBudget b t (sort_key restoreKey ?f)) \<subseteq> set ?f" for b t
    using set_mono_prefix [OF takeBudget_prefix [of b t "sort_key restoreKey ?f"]] by simp
  then show ?thesis unfolding selectRestoreEntries_def Let_def by auto
qed

text \<open>An item whose body can be read completely: exactly the announced number of bytes.\<close>

definition whole_body :: "env \<Rightarrow> fs \<Rightarrow> pool \<Rightarrow> fileItem \<Rightarrow> bool" where
  "whole_body E d p it =
     (\<exists>b. delivers (wireBodyReader E d p it) b \<and> int (length b) = max 0 (fi_WireSize it))"

definition sizes_nonneg :: "store \<Rightarrow> bool" where
  "sizes_nonneg s = (\<forall>p ie. map_of (index s) p = Some ie \<longrightarrow> 0 \<le> ie_WireSize ie \<and> 0 \<le> ie_Size ie)"

lemma responseItem_wire:
  "0 \<le> ie_WireSize ie \<Longrightarrow> 0 \<le> ie_Size ie \<Longrightarrow> fi_WireSize (responseItem s p ie) = entryStoredSize ie"
  by (simp add: responseItem_def entryStoredSize_def)

lemma responseItem_dir: "dir s' = dir s \<Longrightarrow> responseItem s' p ie = responseItem s p ie"
  by (simp add: responseItem_def)

lemma whole_body_entry:
  assumes ok: "content_ok s" and ie: "map_of (index s) p = Some ie" and sz: "0 \<le> ie_WireSize ie" "0 \<le> ie_Size ie"
    and rd: "\<And>x. readErr E x = None"
    and nb: "ie_PoolPage ie = 0 \<Longrightarrow>
      \<exists>f. map_of (disk s) (objectPath (dir s) p) = Some f \<and> int (length (content f)) = entryStoredSize ie"
  shows "whole_body E (disk s) (pool_of s) (responseItem s p ie)"
proof -
  let ?it = "responseItem s p ie"
  have ne: "objectPath (dir s) p \<noteq> []"
    using objectPath_nonempty [OF content_okD(1) [OF ok] content_okD(3) [OF ok ie]] .
  obtain w where w: "stored s p ie = Some w" "int (length w) = entryStoredSize ie"
  proof (cases "ie_PoolPage ie = 0")
    case True
    then show thesis using nb that by (auto simp: stored_def)
  next
    case False
    have a: "allocated (pool_of s) (entryStoredSize ie) (entryLoc ie)"
      using content_okD(4) [OF ok ie False] by (simp add: locOf_def)
    have "0 < entryStoredSize ie" using allocatedE [OF content_okD(2) [OF ok] a] by blast
    with poolRead_allocated [OF content_okD(2) [OF ok] a] False show thesis
      using that by (simp add: stored_def)
  qed
  have "openBody E (disk s) (pool_of s) ?it = Inr (w, None)" using read_entry [OF w(1) rd ne] .
  moreover have "fi_WireSize ?it = entryStoredSize ie" using sz by (rule responseItem_wire)
  moreover have "fi_Size ?it = 0 \<and> fi_WireSize ?it = 0 \<Longrightarrow> w = []"
    using w(2) \<open>fi_WireSize ?it = entryStoredSize ie\<close> by simp
  ultimately show ?thesis using w(2)
    by (cases "fi_Size ?it = 0 \<and> fi_WireSize ?it = 0")
      (auto simp: whole_body_def wireBodyReader_def delivers_def intro!: exI [of _ w])
qed

text \<open>The serving loop: removing broken entries does not hurt an entry that is whole.\<close>

lemma removeBrokenEntry_eq:
  "map_of (index s) p = Some ie \<Longrightarrow> removeBrokenEntry E s p ie = dropEntry E s p ie"
  by (simp add: removeBrokenEntry_def dropEntry_def Let_def)

lemma removeBrokenEntry_gone:
  "ie_PoolPage ie = 0 \<Longrightarrow> map_of (index s) p = None \<Longrightarrow>
     removeBrokenEntry E s p ie =
       s\<lparr>disk := snd (removeIfExists E (disk s) (objectPath (dir s) p))\<rparr>"
  by (simp add: removeBrokenEntry_def removeObjectLocked_def Let_def split: prod.splits)

definition brokenEntry :: "env \<Rightarrow> store \<Rightarrow> restoreEntry \<Rightarrow> bool" where
  "brokenEntry E s e =
     (ie_PoolPage (re_ie e) = 0 \<and>
      (case statFile E (disk s) (objectPath (dir s) (re_path e)) of
         Inl _ \<Rightarrow> True | Inr f \<Rightarrow> int (length (content f)) \<noteq> entryStoredSize (re_ie e)))"

lemma serveEntries_Cons:
  "serveEntries E s (e # es) =
     (if brokenEntry E s e then serveEntries E (removeBrokenEntry E s (re_path e) (re_ie e)) es
      else (case serveEntries E (s\<lparr>hits := hits s + 1\<rparr>) es of
          (its, s') \<Rightarrow> (responseItem s (re_path e) (re_ie e) # its, s')))"
  by (simp add: brokenEntry_def Let_def)

lemma serveEntries_keeps:
  assumes "serveEntries E s es = (its, s')" "content_ok s" "distinct (map re_path es)"
    "\<And>e. e \<in> set es \<Longrightarrow> map_of (index s) (re_path e) = Some (re_ie e)"
  shows "content_ok s' \<and> dir s' = dir s \<and>
    (\<forall>q je. q \<notin> re_path ` set es \<longrightarrow> map_of (index s) q = Some je \<longrightarrow>
       map_of (index s') q = Some je \<and> stored s' q je = stored s q je)"
  using assms
proof (induction es arbitrary: s its)
  case (Cons e es)
  have ie: "map_of (index s) (re_path e) = Some (re_ie e)" using Cons.prems(4) by simp
  show ?case
  proof (cases "brokenEntry E s e")
    case True
    let ?s1 = "dropEntry E s (re_path e) (re_ie e)"
    have run: "serveEntries E ?s1 es = (its, s')"
      using Cons.prems(1) True removeBrokenEntry_eq [OF ie] by (simp add: serveEntries_Cons del: serveEntries.simps)
    have k: "keeps p s ?s1" for p using dropEntry_keeps [OF Cons.prems(2) ie] .
    have es: "map_of (index ?s1) (re_path e') = Some (re_ie e')" if "e' \<in> set es" for e'
      using Cons.prems(3,4) that by (auto simp: dropEntry_frame)
    note ih = Cons.IH [OF run keeps_ok [OF k] _ es]
    have stored1: "stored ?s1 q je = stored s q je"
      if "q \<noteq> re_path e" "map_of (index s) q = Some je" for q je
    proof -
      have "map_of (index ?s1) q = Some je" using that by (simp add: dropEntry_frame)
      then show ?thesis using k [of "re_path e"] that(1) unfolding keeps_def by blast
    qed
    show ?thesis
      using ih Cons.prems(3) stored1 by (auto simp: dropEntry_frame)
  next
    case False
    let ?s1 = "s\<lparr>hits := hits s + 1\<rparr>"
    obtain its' where run: "serveEntries E ?s1 es = (its', s')"
      using Cons.prems(1) False by (auto simp: serveEntries_Cons simp del: serveEntries.simps split: prod.splits)
    have k: "keeps p s ?s1" for p by (rule keeps_same [OF Cons.prems(2)]) simp_all
    have "map_of (index ?s1) (re_path e') = Some (re_ie e')" if "e' \<in> set es" for e'
      using Cons.prems(4) that by simp
    note ih = Cons.IH [OF run keeps_ok [OF k] _ this]
    then show ?thesis using Cons.prems(3) by (auto simp: stored_def)
  qed
qed simp


lemma serveEntries_whole:
  assumes "serveEntries E s es = (its, s')" "content_ok s" "distinct (map re_path es)"
    "\<And>e. e \<in> set es \<Longrightarrow> map_of (index s) (re_path e) = Some (re_ie e)"
    "sizes_nonneg s" "\<And>x. readErr E x = None"
  shows "\<forall>it \<in> set its. whole_body E (disk s') (pool_of s') it"
  using assms
proof (induction es arbitrary: s its)
  case (Cons e es)
  have ie: "map_of (index s) (re_path e) = Some (re_ie e)" using Cons.prems(4) by simp
  show ?case
  proof (cases "brokenEntry E s e")
    case True
    let ?s1 = "dropEntry E s (re_path e) (re_ie e)"
    have run: "serveEntries E ?s1 es = (its, s')"
      using Cons.prems(1) True removeBrokenEntry_eq [OF ie]
      by (simp add: serveEntries_Cons del: serveEntries.simps)
    have "sizes_nonneg ?s1" using Cons.prems(5) by (simp add: sizes_nonneg_def dropEntry_frame)
    moreover have "map_of (index ?s1) (re_path e') = Some (re_ie e')" if "e' \<in> set es" for e'
      using Cons.prems(3,4) that by (auto simp: dropEntry_frame)
    ultimately show ?thesis
      using Cons.IH [OF run keeps_ok [OF dropEntry_keeps [OF Cons.prems(2) ie]]] Cons.prems(3,6) by simp
  next
    case False
    let ?s1 = "s\<lparr>hits := hits s + 1\<rparr>"
    obtain its' where run: "serveEntries E ?s1 es = (its', s')"
      and its: "its = responseItem s (re_path e) (re_ie e) # its'"
      using Cons.prems(1) False
      by (auto simp: serveEntries_Cons simp del: serveEntries.simps split: prod.splits)
    have ok1: "content_ok ?s1" using keeps_ok [OF keeps_same [OF Cons.prems(2), of ?s1]] by simp
    have es: "map_of (index ?s1) (re_path e') = Some (re_ie e')" if "e' \<in> set es" for e'
      using Cons.prems(4) that by simp
    have rest: "\<forall>it \<in> set its'. whole_body E (disk s') (pool_of s') it"
      using Cons.IH [OF run ok1 _ es] Cons.prems(3,5,6) by (simp add: sizes_nonneg_def)
    have keep: "content_ok s'" "dir s' = dir s"
      "map_of (index s') (re_path e) = Some (re_ie e)"
      "stored s' (re_path e) (re_ie e) = stored s (re_path e) (re_ie e)"
      using serveEntries_keeps [OF run ok1 _ es] Cons.prems(3) ie by (auto simp: stored_def)
    have sz: "0 \<le> ie_WireSize (re_ie e)" "0 \<le> ie_Size (re_ie e)"
      using Cons.prems(5) ie by (auto simp: sizes_nonneg_def)
    have "\<exists>f. map_of (disk s') (objectPath (dir s') (re_path e)) = Some f \<and>
        int (length (content f)) = entryStoredSize (re_ie e)" if "ie_PoolPage (re_ie e) = 0"
      using False that keep(4)
      by (auto simp: brokenEntry_def statFile_def stored_def split: sum.splits option.splits)
    then have "whole_body E (disk s') (pool_of s') (responseItem s' (re_path e) (re_ie e))"
      using whole_body_entry [OF keep(1,3) sz Cons.prems(6)] by blast
    then show ?thesis using rest its responseItem_dir [OF keep(2)] by simp
  qed
qed simp

lemma addNew_distinct: "distinct res \<Longrightarrow> distinct (addNew res ps)"
  by (induction ps arbitrary: res) (auto simp: addNew_def)

lemma resolveSources_result:
  "resolveSources E s cs res srcs m = (Inr (res', srcs', m'), s') \<Longrightarrow>
     (distinct res \<longrightarrow> distinct res') \<and> (srcs' = [] \<longrightarrow> res' = res \<and> srcs = [])"
proof (induction cs arbitrary: s res srcs m)
  case (Cons c cs)
  obtain name p where c: "c = (name, p)" by (cases c)
  show ?case
  proof (cases p)
    case (Inl e)
    then have "resolveSources E s cs res srcs m = (Inr (res', srcs', m'), s')"
      using Cons.prems c by (simp split: if_splits)
    then show ?thesis by (rule Cons.IH)
  next
    case (Inr mp)
    obtain q s1 where q: "loadAndHeal E s mp = (q, s1)" by fastforce
    show ?thesis
    proof (cases q)
      case (Inl e)
      then have "resolveSources E s1 cs res srcs m = (Inr (res', srcs', m'), s')"
        using Cons.prems c Inr q by (simp split: if_splits)
      then show ?thesis by (rule Cons.IH)
    next
      case (Inr ps)
      then have "resolveSources E s1 cs (addNew res ps) (srcs @ [name]) (m @ [mp]) =
          (Inr (res', srcs', m'), s')"
        using Cons.prems c \<open>p = Inr mp\<close> q by simp
      from Cons.IH [OF this] show ?thesis using addNew_distinct by auto
    qed
  qed
qed simp

lemma addNew_eq_set: "set (addNew res ps) = set res \<union> set ps"
  by (induction ps arbitrary: res) (auto simp: addNew_def)

lemma restorePaths_distinct:
  assumes r: "restorePaths E s req = (Inr (paths, srcs), s')"
  shows "distinct paths"
proof (cases "trimSpace (Commit req) = [] \<and> trimSpace (ParentCommit req) = [] \<and>
    trimSpace (ChangesID req) = [] \<and> trimSpace (BaseCommit req) = []")
  case True
  then show ?thesis using r by (simp add: restorePaths_def)
next
  case False
  obtain q s1 where q: "resolveSources E s
      [(''commit'', resolveCommitManifestPath (dir s) (Commit req) (BuildType req)),
       (''parent'', resolveCommitManifestPath (dir s) (ParentCommit req) (BuildType req)),
       (''changes'', resolveChangesManifestPath (dir s) (ChangesID req) (BuildType req)),
       (''base'', resolveCommitManifestPath (dir s) (BaseCommit req) (BuildType req))] [] [] [] = (q, s1)"
    by fastforce
  show ?thesis
  proof (cases q)
    case (Inl e)
    then show ?thesis using r False q by (simp add: restorePaths_def)
  next
    case (Inr t)
    obtain res sr m where t: "t = (res, sr, m)" by (cases t)
    have d: "distinct res" "sr = [] \<longrightarrow> res = []"
      using resolveSources_result [OF q [unfolded Inr t]] by auto
    have run: "(if sr \<noteq> [] then supplementSmallResultWithDefault E s1 (BuildType req) res sr m
        else (case defaultFallbackPaths E s1 (BuildType req) of
            (Inl e, s2) \<Rightarrow> (Inl e, s2)
          | (Inr def, s2) \<Rightarrow> (if def = [] then (Inr (res, [''none'']), s2)
              else (Inr (res @ def, [''default'']), s2)))) = (Inr (paths, srcs), s')"
      using r False unfolding restorePaths_def q Inr t by simp
    show ?thesis
    proof (cases "sr = []")
      case False
      then show ?thesis
        using run d addNew_distinct [OF d(1)]
        by (auto simp: supplementSmallResultWithDefault_def Let_def split: prod.splits sum.splits if_splits)
    next
      case True
      have "defaultFallbackPaths E s1 bt = (Inr def, s2) \<Longrightarrow> distinct def" for bt def s2
        by (auto simp: defaultFallbackPaths_def intro: addNew_distinct split: prod.splits sum.splits if_splits)
      then show ?thesis
        using run d True by (auto split: prod.splits sum.splits if_splits)
    qed
  qed
qed


lemma takeBudget_distinct:
  "distinct (map re_path es) \<Longrightarrow> distinct (map re_path (takeBudget B n es))"
  using takeBudget_prefix [of B n es] by (metis distinct_append map_append prefixE)

lemma selectRestoreEntries_distinct:
  assumes "distinct (map re_path es)"
  shows "distinct (map re_path (selectRestoreEntries s req es))"
proof -
  have sort: "distinct (map re_path (sort_key k fs)) \<longleftrightarrow> distinct (map re_path fs)"
    for k :: "restoreEntry \<Rightarrow> 'k::linorder" and fs
    by (metis mset_eq_imp_distinct_iff mset_map mset_sort)
  have "distinct (map re_path (filter P es))" for P
    using assms by (simp add: distinct_map_filter)
  then show ?thesis
    unfolding selectRestoreEntries_def Let_def by (simp add: sort takeBudget_distinct)
qed

section \<open>Properties\<close>

lemma emptyStore_content: "abs_clean d \<Longrightarrow> content_ok (emptyStore d c m)"
  by (simp add: content_ok_def emptyStore_def newPool_ok)

lemma abs_clean_c: "abs_clean ''/c''"
  by code_simp

text \<open>
  Claim C5. What a client saves is what a later restore gives back: after a successful save of an
  item within the size limit, the index has the object, and reading the restored item, decompressed
  if it was stored compressed, yields the very bytes the client sent, also if the store compresses
  what arrived plain or decompresses what arrived compressed, and whether the object went to a file
  or to the record pool.\<close>

theorem save_restore_roundtrip:
  assumes "putOne E s it = (None, s')" "content_ok s" "relative_clean (fi_Path it)"
    and "maxFileBytes s \<le> 0 \<or> fi_Size it \<le> maxFileBytes s" "zstd_ok E"
    and "delivers (uncompressedBodyReader E (disk s) (pool_of s) it) b" "fi_Size it = int (length b)"
    and "readErr E' (objectPath (dir s) (fi_Path it)) = None" "zstream E' = zstream E"
  shows "\<exists>ie. map_of (index s') (fi_Path it) = Some ie \<and>
    delivers (uncompressedBodyReader E' (disk s') (pool_of s') (responseItem s' (fi_Path it) ie)) b"
  using putOne_roundtrip [OF assms] .

theorem save_restore_roundtrip_witness:
  "\<exists>ie. map_of (index (snd (putOne (calm 5) (emptyStore ''/c'' False 0) (rawItem ''a/b'' ''xyz'')))) ''a/b''
       = Some ie \<and>
     delivers (uncompressedBodyReader (calm 7)
       (disk (snd (putOne (calm 5) (emptyStore ''/c'' False 0) (rawItem ''a/b'' ''xyz''))))
       (pool_of (snd (putOne (calm 5) (emptyStore ''/c'' False 0) (rawItem ''a/b'' ''xyz''))))
       (responseItem (snd (putOne (calm 5) (emptyStore ''/c'' False 0) (rawItem ''a/b'' ''xyz''))) ''a/b'' ie))
       ''xyz''"
proof -
  let ?s = "emptyStore ''/c'' False 0"
  let ?it = "rawItem ''a/b'' ''xyz''"
  have ok: "fst (putOne (calm 5) ?s ?it) = None" "relative_clean (fi_Path ?it)" by code_simp+
  have put: "putOne (calm 5) ?s ?it = (None, snd (putOne (calm 5) ?s ?it))"
    using ok(1) by (metis prod.collapse)
  have d: "delivers (uncompressedBodyReader (calm 5) (disk ?s) (pool_of ?s) ?it) ''xyz''"
    by (simp add: delivers_def uncompressedBodyReader_def openBody_def rawItem_def)
  have "fi_Path ?it = ''a/b''" "fi_Size ?it = int (length ''xyz'')" by (simp_all add: rawItem_def)
  then show ?thesis
    using save_restore_roundtrip [OF put emptyStore_content [OF abs_clean_c] ok(2) _ zstd_ok_calm d, of "calm 7"]
    by (simp add: emptyStore_def calm_def)
qed



text \<open>
  Claim C30. The selection for a restore keeps its limits: no entry is larger than the request's or
  the store's file limit, nothing is invented, and if there is a total budget, the stored sizes of
  all selected entries add up to at most that budget.\<close>

theorem restore_selection_limits:
  "(\<forall>e \<in> set (selectRestoreEntries s req es). e \<in> set es \<and>
      \<not> (0 < MaxFileBytes req \<and> MaxFileBytes req < ie_Size (re_ie e)) \<and>
      \<not> (0 < maxFileBytes s \<and> maxFileBytes s < ie_Size (re_ie e))) \<and>
   (MaxPreloadTotalBytes req \<le> 0 \<or>
      sum_list (map (\<lambda>e. entryStoredSize (re_ie e)) (selectRestoreEntries s req es))
        \<le> MaxPreloadTotalBytes req)"
proof -
  let ?ok = "\<lambda>e. \<not> (0 < MaxFileBytes req \<and> MaxFileBytes req < ie_Size (re_ie e)) \<and>
      \<not> (0 < maxFileBytes s \<and> maxFileBytes s < ie_Size (re_ie e))"
  let ?f = "filter ?ok es"
  let ?B = "MaxPreloadTotalBytes req"
  have sub: "set (takeBudget ?B 0 (sort_key restoreKey ?f)) \<subseteq> set ?f"
    using set_mono_prefix [OF takeBudget_prefix [of ?B 0 "sort_key restoreKey ?f"]] by simp
  have part: "set (selectRestoreEntries s req es) \<subseteq> set ?f"
    using sub unfolding selectRestoreEntries_def Let_def by auto
  have "sum_list (map (\<lambda>e. entryStoredSize (re_ie e)) (selectRestoreEntries s req es)) \<le> ?B"
    if B: "0 < ?B"
  proof (cases "length ?f < 2")
    case False
    then show ?thesis
      using takeBudget_sum [of 0 ?B "sort_key restoreKey ?f"] B
      by (simp add: selectRestoreEntries_def Let_def)
  next
    case True
    then have "?f = [] \<or> (\<exists>e. ?f = [e])" by (cases ?f) (auto simp: length_Suc_conv less_Suc_eq numeral_2_eq_2)
    then show ?thesis
      using B unfolding selectRestoreEntries_def Let_def by (elim disjE exE) (simp_all only:, auto)
  qed
  then show ?thesis using part by force
qed

text \<open>
  Claim C29. A restore hands out only items that can be served in full: for each of them the body is
  there and has exactly the announced wire size, so the stream that carries it stays in step.
  Truncated or missing objects are skipped (and dropped from the store), and dropping one never
  damages an item that was already handed out.\<close>

theorem restore_serves_whole_items:
  assumes "Restore E s req = (Inr (srcs, its), s')" "content_ok s" "\<And>x. readErr E x = None"
    and "\<And>s1 r. restorePaths E s req = (r, s1) \<Longrightarrow> sizes_nonneg s1"
  shows "\<forall>it \<in> set its. whole_body E (disk s') (pool_of s') it"
proof -
  obtain paths s1 where rp: "restorePaths E s req = (Inr (paths, srcs), s1)"
    and run: "serveEntries E s1 (selectRestoreEntries s1 req (List.map_filter
        (\<lambda>p. map_option (\<lambda>ie. \<lparr>re_path = p, re_ie = ie\<rparr>) (map_of (index s1) p)) paths)) = (its, s')"
    using assms(1) by (auto simp: Restore_def Let_def split: prod.splits sum.splits)
  let ?es = "List.map_filter (\<lambda>p. map_option (\<lambda>ie. \<lparr>re_path = p, re_ie = ie\<rparr>) (map_of (index s1) p)) paths"
  have ok1: "content_ok s1" using rp assms(2) by (rule con.restorePaths_inv)
  have dp: "distinct paths" using rp by (rule restorePaths_distinct)
  have des: "distinct (map re_path ?es)"
    using dp by (induction paths) (auto simp: List.map_filter_def)
  have all: "map_of (index s1) (re_path e) = Some (re_ie e)" if "e \<in> set ?es" for e
    using that by (auto simp: List.map_filter_def)
  have dsel: "distinct (map re_path (selectRestoreEntries s1 req ?es))"
    using des by (rule selectRestoreEntries_distinct)
  show ?thesis
    using serveEntries_whole [OF run ok1 dsel all assms(4) [OF rp] assms(3)]
      selectRestoreEntries_subset by blast
qed


definition savedStore :: store where
  "savedStore = snd (MergeSavedPaths (calm 6)
     (snd (putOne (calm 5) (emptyStore ''/c'' False 0) (rawItem ''a/b'' ''xyz'')))
     \<lparr>Commit = ''abc'', ChangesID = [], BuildType = [], BaseCommit = [], ParentCommit = [],
      MaxFileBytes = 0, MaxPreloadTotalBytes = 0\<rparr> [''a/b''])"

definition restoreReq :: request where
  "restoreReq = \<lparr>Commit = ''abc'', ChangesID = [], BuildType = [], BaseCommit = [], ParentCommit = [],
     MaxFileBytes = 0, MaxPreloadTotalBytes = 0\<rparr>"

lemma savedStore_content: "content_ok savedStore"
proof -
  have "relative_clean (fi_Path (rawItem ''a/b'' ''xyz''))" by code_simp
  then have "content_ok (snd (putOne (calm 5) (emptyStore ''/c'' False 0) (rawItem ''a/b'' ''xyz'')))"
    using putOne_keeps [OF surjective_pairing emptyStore_content [OF abs_clean_c]] keeps_ok by blast
  then show ?thesis
    unfolding savedStore_def using con.MergeSavedPaths_inv [OF surjective_pairing] by blast
qed

theorem restore_serves_whole_items_witness:
  "\<exists>srcs it s'. Restore (calm 7) savedStore restoreReq = (Inr (srcs, [it]), s') \<and> fi_Path it = ''a/b'' \<and>
     whole_body (calm 7) (disk s') (pool_of s') it"
proof -
  let ?R = "Restore (calm 7) savedStore restoreReq"
  have "(case fst ?R of Inl _ \<Rightarrow> None | Inr (srcs, its) \<Rightarrow> Some (map fi_Path its)) = Some [''a/b'']"
    by code_simp
  then obtain srcs it where r: "fst ?R = Inr (srcs, [it])" "fi_Path it = ''a/b''"
    by (auto split: sum.splits prod.splits)
  then have run: "?R = (Inr (srcs, [it]), snd ?R)" by (metis prod.collapse)
  have "list_all (\<lambda>(p, ie). 0 \<le> ie_WireSize ie \<and> 0 \<le> ie_Size ie)
      (index (snd (restorePaths (calm 7) savedStore restoreReq)))"
    by code_simp
  then have "sizes_nonneg s1" if "restorePaths (calm 7) savedStore restoreReq = (r, s1)" for r s1
    using that by (auto simp: sizes_nonneg_def list_all_iff dest!: map_of_SomeD)
  moreover have "readErr (calm 7) x = None" for x by (simp add: calm_def)
  ultimately have "\<forall>it \<in> set [it]. whole_body (calm 7) (disk (snd ?R)) (pool_of (snd ?R)) it"
    using restore_serves_whole_items [OF run savedStore_content] by blast
  then show ?thesis using run r(2) by auto
qed


definition twoEntries :: "restoreEntry list" where
  "twoEntries = map (\<lambda>(p, n). \<lparr>re_path = p, re_ie = \<lparr>ie_Size = n, ie_Mode = 0, ie_WireSize = 0, ie_Compressed = 0,
     ie_ModTimeMicro = 1, ie_PoolPage = 0, ie_PoolSlot = 0\<rparr>\<rparr>) [(''a'', 4), (''b'', 3)]"

theorem restore_selection_limits_witness:
  "map re_path (selectRestoreEntries savedStore (restoreReq\<lparr>MaxPreloadTotalBytes := 5\<rparr>) twoEntries) = [''b''] \<and>
   sum_list (map (\<lambda>e. entryStoredSize (re_ie e))
     (selectRestoreEntries savedStore (restoreReq\<lparr>MaxPreloadTotalBytes := 5\<rparr>) twoEntries)) \<le> 5"
proof -
  have "map re_path (selectRestoreEntries savedStore (restoreReq\<lparr>MaxPreloadTotalBytes := 5\<rparr>) twoEntries) = [''b'']"
    by code_simp
  then show ?thesis
    using restore_selection_limits [of savedStore "restoreReq\<lparr>MaxPreloadTotalBytes := 5\<rparr>" twoEntries] by simp
qed

end
