(* ===== verification/Wire_Format.thy ===== *)
theory Wire_Format
  imports Gocache_Store
begin

text \<open>
  How items travel (\<open>internal/cache/store.go\<close> and \<open>internal/gocache/store.go\<close>): a response or batch is
  a big-endian \<open>int32\<close> length, that many bytes of JSON with the metadata of all items, and their
  bodies one after the other; a stream is a sequence of single items framed like that, closed by a
  zero length. Both packages have their own copy of the code; the definitions that are the same in
  both are shared here, with the functions of each package as instances. Go's \<open>encoding/json\<close> is a
  parameter: functions from items to bytes and back.
\<close>

section \<open>The length prefix\<close>

definition put_be32 :: "u32 \<Rightarrow> bytes" where
  "put_be32 w = map (\<lambda>k. char_of (uint w div 2 ^ k)) [24, 16, 8, 0]"

lemma length_put_be32 [simp]: "length (put_be32 w) = 4"
  by (simp add: put_be32_def)

definition get_be32 :: "bytes \<Rightarrow> u32" where
  "get_be32 b = word_of_int (foldl (\<lambda>a c. 256 * a + of_char c) 0 b)"

definition checkedJSONLength :: "bytes \<Rightarrow> u32 result" where
  "checkedJSONLength b =
     (if 2147483647 < int (length b) then Inl (ErrMsg ''response header too large'')
      else Inr (word_of_int (int (length b))))"

section \<open>Writing\<close>

fun writeItems ::
  "('i \<Rightarrow> writer \<Rightarrow> (int \<times> go_error option) \<times> writer) \<Rightarrow> 'i list \<Rightarrow> writer \<Rightarrow> int \<Rightarrow>
     (int \<times> go_error option) \<times> writer" where
  "writeItems wr [] w tot = ((tot, None), w)"
| "writeItems wr (it # its) w tot =
     (case wr it w of
        ((n, Some e), w') \<Rightarrow> ((tot + n, Some (ErrWrap ''write item'' e)), w')
      | ((n, None), w') \<Rightarrow> writeItems wr its w' (tot + n))"

text \<open>The JSON data behind its length: the common start of \<open>WriteTo\<close> and \<open>WriteItem\<close>.\<close>

definition writeHead :: "bytes \<Rightarrow> writer \<Rightarrow> (int \<times> go_error option) \<times> writer" where
  "writeHead json w =
     (case checkedJSONLength json of
        Inl e \<Rightarrow> ((0, Some e), w)
      | Inr len \<Rightarrow>
          (case wwrite w (put_be32 len) of
             ((_, Some e), w') \<Rightarrow> ((0, Some (ErrWrap ''write head'' e)), w')
           | ((_, None), w') \<Rightarrow>
               (case wwrite w' json of ((n, r), w'') \<Rightarrow> ((4 + int n, r), w''))))"

definition frameWriteTo ::
  "('i list \<Rightarrow> bytes result) \<Rightarrow> ('i \<Rightarrow> writer \<Rightarrow> (int \<times> go_error option) \<times> writer) \<Rightarrow>
     'i list \<Rightarrow> writer \<Rightarrow> (int \<times> go_error option) \<times> writer" where
  "frameWriteTo marshal wr its w =
     (case marshal its of
        Inl e \<Rightarrow> ((0, Some e), w)
      | Inr json \<Rightarrow>
          (case writeHead json w of
             ((n, Some e), w') \<Rightarrow> ((n, Some e), w')
           | ((n, None), w') \<Rightarrow> writeItems wr its w' n))"

definition frameContentLength ::
  "('i list \<Rightarrow> bytes result) \<Rightarrow> ('i \<Rightarrow> int) \<Rightarrow> 'i list \<Rightarrow> int result" where
  "frameContentLength marshal wire its =
     (case marshal its of Inl e \<Rightarrow> Inl e
      | Inr json \<Rightarrow> Inr (4 + int (length json) + sum_list (map wire its)))"

definition frameReaderNaive ::
  "('i list \<Rightarrow> bytes result) \<Rightarrow> ('i \<Rightarrow> writer \<Rightarrow> (int \<times> go_error option) \<times> writer) \<Rightarrow> ('i \<Rightarrow> int) \<Rightarrow>
     'i list \<Rightarrow> bytes result" where
  "frameReaderNaive marshal wr wire its =
     (case frameContentLength marshal wire its of
        Inl e \<Rightarrow> Inl (ErrWrap ''content length'' e)
      | Inr cl \<Rightarrow>
          (case frameWriteTo marshal wr its bytesBuffer of
             ((n, Some e), _) \<Rightarrow> Inl (ErrWrap ''write to buffer'' e)
           | ((n, None), w) \<Rightarrow>
               (if n \<noteq> cl then Inl (ErrMsg ''unexpected content length'') else Inr (written w))))"

section \<open>Reading\<close>

text \<open>
  A callback gets an item and, if it has a body, a reader limited to it. It returns how many bytes
  of the body it consumed, its error, and its new state.
\<close>

type_synonym ('i, 's) callback = "'i \<Rightarrow> reader option \<Rightarrow> 's \<Rightarrow> (nat \<times> go_error option) \<times> 's"

definition errShortRead :: go_error where "errShortRead = ErrMsg ''short read''"

text \<open>\<open>readItemBody\<close>: the limited view ends with EOF if the stream has enough bytes, else as the stream
  does. What the callback left is drained; a failed callback counts no bytes.\<close>

definition readItemBody ::
  "reader \<Rightarrow> int \<Rightarrow> (reader \<Rightarrow> 's \<Rightarrow> (nat \<times> go_error option) \<times> 's) \<Rightarrow> 's \<Rightarrow>
     (int \<times> go_error option) \<times> reader \<times> 's" where
  "readItemBody rd wireSize read s =
     (let n = nat wireSize; avail = take n (fst rd);
          lim = (avail, if n \<le> length (fst rd) then None else snd rd) in
      case read lim s of
        ((k, Some e), s') \<Rightarrow> ((0, Some e), (drop (min k (length avail)) (fst rd), snd rd), s')
      | ((k, None), s') \<Rightarrow>
          (let rd' = (drop n (fst rd), snd rd) in
           case snd lim of
             Some e \<Rightarrow> ((int (length avail), Some (ErrWrap ''drain remaining body'' e)), rd', s')
           | None \<Rightarrow>
               (if int (length avail) \<noteq> wireSize
                then ((int (length avail), Some (ErrWrap ''got fewer bytes'' errShortRead)), rd', s')
                else ((wireSize, None), rd', s'))))"

fun readItems ::
  "('i \<Rightarrow> int) \<Rightarrow> ('i, 's) callback \<Rightarrow> 'i list \<Rightarrow> reader \<Rightarrow> int \<Rightarrow> 's \<Rightarrow>
     (int \<times> go_error option) \<times> reader \<times> 's" where
  "readItems ws cb [] rd tot s = ((tot, None), rd, s)"
| "readItems ws cb (it # its) rd tot s =
     (if ws it = 0 then
        (case cb it None s of
           ((_, Some e), s') \<Rightarrow> ((tot, Some e), rd, s')
         | ((_, None), s') \<Rightarrow> readItems ws cb its rd tot s')
      else
        (case readItemBody rd (ws it) (\<lambda>lim. cb it (Some lim)) s of
           ((n, Some e), rd', s') \<Rightarrow> ((tot + n, Some (ErrWrap ''item'' e)), rd', s')
         | ((n, None), rd', s') \<Rightarrow> readItems ws cb its rd' (tot + n) s'))"

text \<open>\<open>ReaderFrom\<close> on a fresh response or batch. It does not check the length's sign before it makes a
  slice of that length.\<close>

definition frameReaderFrom ::
  "(bytes \<Rightarrow> 'i list result) \<Rightarrow> ('i \<Rightarrow> int) \<Rightarrow> ('i, 's) callback \<Rightarrow> reader \<Rightarrow> 's \<Rightarrow>
     (int \<times> go_error option) \<times> reader \<times> 's" where
  "frameReaderFrom unmarshal ws cb rd s =
     (case readFull 4 rd of
        Inl (_, e) \<Rightarrow> ((0, Some e), ([], snd rd), s)
      | Inr (hd4, rd1) \<Rightarrow>
          (let len = sint (get_be32 hd4) in
           if len < 0 then ((4, Some (ErrPanic ''makeslice: len out of range'')), rd1, s)
           else (case readFull (nat len) rd1 of
               Inl (n, e) \<Rightarrow> ((4 + int n, Some e), ([], snd rd), s)
             | Inr (json, rd2) \<Rightarrow>
                 (case unmarshal json of
                    Inl e \<Rightarrow> ((4 + len, Some e), rd2, s)
                  | Inr its \<Rightarrow> readItems ws cb its rd2 (4 + len) s))))"

section \<open>The response of the action cache\<close>

definition respWire :: "cacheItem \<Rightarrow> int" where
  "respWire it = (if ri_WireSize it \<noteq> 0 then ri_WireSize it else ri_Size it)"

definition Response_WriteTo ::
  "(cacheItem list \<Rightarrow> bytes result) \<Rightarrow> env \<Rightarrow> fs \<Rightarrow> pool \<Rightarrow> cacheItem list \<Rightarrow> writer \<Rightarrow>
     (int \<times> go_error option) \<times> writer" where
  "Response_WriteTo marshal E d p = frameWriteTo marshal (ri_WriteTo E d p)"

definition Response_ContentLength :: "(cacheItem list \<Rightarrow> bytes result) \<Rightarrow> cacheItem list \<Rightarrow> int result" where
  "Response_ContentLength marshal = frameContentLength marshal respWire"

definition Response_ReaderNaive ::
  "(cacheItem list \<Rightarrow> bytes result) \<Rightarrow> env \<Rightarrow> fs \<Rightarrow> pool \<Rightarrow> cacheItem list \<Rightarrow> bytes result" where
  "Response_ReaderNaive marshal E d p = frameReaderNaive marshal (ri_WriteTo E d p) respWire"

definition Response_ReaderFrom ::
  "(bytes \<Rightarrow> cacheItem list result) \<Rightarrow> (cacheItem, 's) callback \<Rightarrow> reader \<Rightarrow> 's \<Rightarrow>
     (int \<times> go_error option) \<times> reader \<times> 's" where
  "Response_ReaderFrom unmarshal = frameReaderFrom unmarshal ri_WireSize"

section \<open>Batches and streams of the object store\<close>

definition wireSizeOf :: "fileItem \<Rightarrow> int" where
  "wireSizeOf it = (if fi_WireSize it \<noteq> 0 then fi_WireSize it else fi_Size it)"

text \<open>\<open>FileItem.WriteTo\<close>: unlike \<open>ResponseItem.WriteTo\<close>, the size stands in for a missing wire size.\<close>

definition fi_WriteTo ::
  "env \<Rightarrow> fs \<Rightarrow> pool \<Rightarrow> fileItem \<Rightarrow> writer \<Rightarrow> (int \<times> go_error option) \<times> writer" where
  "fi_WriteTo E d p it w =
     (if fi_Size it = 0 \<and> fi_WireSize it = 0 then ((0, None), w)
      else (case wireBodyReader E d p it of
          Inl e \<Rightarrow> ((0, Some e), w)
        | Inr None \<Rightarrow> ((0, None), w)
        | Inr (Some rd) \<Rightarrow>
            (if wireSizeOf it < 0 then ((0, Some (ErrPanic ''makeslice: len out of range'')), w)
             else (case readFull (nat (wireSizeOf it)) rd of
                 Inl (n, e) \<Rightarrow> ((int n, Some (ErrWrap ''read item body'' e)), w)
               | Inr (buf, _) \<Rightarrow>
                   (case wwrite w buf of
                      ((n, Some e), w') \<Rightarrow> ((int n, Some (ErrWrap ''write item body'' e)), w')
                    | ((n, None), w') \<Rightarrow>
                        (if int n \<noteq> wireSizeOf it
                         then ((int n, Some (ErrMsg ''unexpected item write'')), w')
                         else ((int n, None), w')))))))"

definition Batch_WriteTo ::
  "(fileItem list \<Rightarrow> bytes result) \<Rightarrow> env \<Rightarrow> fs \<Rightarrow> pool \<Rightarrow> fileItem list \<Rightarrow> writer \<Rightarrow>
     (int \<times> go_error option) \<times> writer" where
  "Batch_WriteTo marshal E d p = frameWriteTo marshal (fi_WriteTo E d p)"

definition Batch_ContentLength :: "(fileItem list \<Rightarrow> bytes result) \<Rightarrow> fileItem list \<Rightarrow> int result" where
  "Batch_ContentLength marshal = frameContentLength marshal wireSizeOf"

definition Batch_ReaderNaive ::
  "(fileItem list \<Rightarrow> bytes result) \<Rightarrow> env \<Rightarrow> fs \<Rightarrow> pool \<Rightarrow> fileItem list \<Rightarrow> bytes result" where
  "Batch_ReaderNaive marshal E d p = frameReaderNaive marshal (fi_WriteTo E d p) wireSizeOf"

definition Batch_ReaderFrom ::
  "(bytes \<Rightarrow> fileItem list result) \<Rightarrow> (fileItem, 's) callback \<Rightarrow> reader \<Rightarrow> 's \<Rightarrow>
     (int \<times> go_error option) \<times> reader \<times> 's" where
  "Batch_ReaderFrom unmarshal = frameReaderFrom unmarshal fi_WireSize"

definition WriteItem ::
  "(fileItem \<Rightarrow> bytes result) \<Rightarrow> env \<Rightarrow> fs \<Rightarrow> pool \<Rightarrow> fileItem \<Rightarrow> writer \<Rightarrow> go_error option \<times> writer" where
  "WriteItem marshal E d p it w =
     (case marshal it of
        Inl e \<Rightarrow> (Some e, w)
      | Inr json \<Rightarrow>
          (case writeHead json w of
             ((_, Some e), w') \<Rightarrow> (Some (ErrWrap ''write item meta'' e), w')
           | ((_, None), w') \<Rightarrow> (case fi_WriteTo E d p it w' of ((_, r), w'') \<Rightarrow> (r, w''))))"

definition StreamClose :: "writer \<Rightarrow> go_error option \<times> writer" where
  "StreamClose w = (case wwrite w (put_be32 0) of ((_, r), w') \<Rightarrow> (r, w'))"

lemma readItemBody_shrinks:
  "readItemBody rd n f s = (r, rd', s') \<Longrightarrow> length (fst rd') \<le> length (fst rd)"
  by (auto simp: readItemBody_def Let_def split: prod.splits option.splits if_splits)

lemma readFull_shrinks: "readFull n rd = Inr (b, rd') \<Longrightarrow> length (fst rd') = length (fst rd) - n \<and> n \<le> length (fst rd)"
  by (auto simp: readFull_def split: if_splits)

text \<open>\<open>ReadStream\<close>. A stream that ends where an item would start is complete, with or without the zero
  length.\<close>

function ReadStream ::
  "(bytes \<Rightarrow> fileItem result) \<Rightarrow> (fileItem, 's) callback \<Rightarrow> reader \<Rightarrow> int \<Rightarrow> 's \<Rightarrow>
     (int \<times> go_error option) \<times> reader \<times> 's" where
  "ReadStream unmarshal cb rd tot s =
     (case readFull 4 rd of
        Inl (_, e) \<Rightarrow> ((tot, if errorsIs errEOF e then None else Some e), ([], snd rd), s)
      | Inr (hd4, rd1) \<Rightarrow>
          (let len = sint (get_be32 hd4) in
           if len = 0 then ((tot + 4, None), rd1, s)
           else if len < 0 then ((tot + 4, Some (ErrMsg ''negative item header length'')), rd1, s)
           else (case readFull (nat len) rd1 of
               Inl (n, e) \<Rightarrow> ((tot + 4 + int n, Some e), ([], snd rd), s)
             | Inr (json, rd2) \<Rightarrow>
                 (case unmarshal json of
                    Inl e \<Rightarrow> ((tot + 4 + len, Some e), rd2, s)
                  | Inr it \<Rightarrow>
                      (if 0 < wireSizeOf it then
                         (case readItemBody rd2 (wireSizeOf it) (\<lambda>lim. cb it (Some lim)) s of
                            ((n, Some e), rd3, s') \<Rightarrow>
                              ((tot + 4 + len + n, Some (ErrWrap ''item'' e)), rd3, s')
                          | ((n, None), rd3, s') \<Rightarrow>
                              ReadStream unmarshal cb rd3 (tot + 4 + len + n) s')
                       else
                         (case cb it None s of
                            ((_, Some e), s') \<Rightarrow> ((tot + 4 + len, Some e), rd2, s')
                          | ((_, None), s') \<Rightarrow> ReadStream unmarshal cb rd2 (tot + 4 + len) s'))))))"
  by pat_completeness auto
termination
  by (relation "measure (\<lambda>(u, cb, rd, t, s). length (fst rd))")
    (auto dest!: readFull_shrinks readItemBody_shrinks [OF sym])

declare ReadStream.simps [simp del]

end
