(* ===== verification/Wire_Pages.thy ===== *)
theory Wire_Pages
  imports Wire_Format
begin

text \<open>
  The lazy reader of a response or batch: \<open>Reader\<close> and \<open>pagesReader\<close> of \<open>internal/cache/store.go\<close> and
  \<open>internal/gocache/store.go\<close>, whose code is the same. It encodes the head into a \<open>bytes.Buffer\<close>, keeps
  the slice \<open>buf.Bytes()\<close> as the data to be read, and then reuses that buffer for the body of each item.
  Whether two slices share an array decides what is read, so the arrays are explicit: a slice is the
  number of an array and a length, and an array is as long as its capacity. All slices here start at
  offset 0. How much capacity the runtime adds when a slice has to grow is the parameter \<open>grow\<close>.
\<close>

type_synonym slice = "nat \<times> nat"

record 'i pages =
  arrays :: "bytes list"
  bufSlice :: "slice option" \<comment> \<open>the \<open>bytes.Buffer\<close>\<close>
  rbuf :: slice \<comment> \<open>\<open>pagesReader.buf\<close>\<close>
  pending :: "'i list" \<comment> \<open>\<open>items[idx:]\<close>\<close>
  atEnd :: bool \<comment> \<open>\<open>next\<close> is nil\<close>

definition sliceBytes :: "bytes list \<Rightarrow> slice \<Rightarrow> bytes" where
  "sliceBytes as sl = take (snd sl) (as ! fst sl)"

definition overwrite :: "bytes \<Rightarrow> nat \<Rightarrow> bytes \<Rightarrow> bytes" where
  "overwrite a off b = take off a @ b @ drop (off + length b) a"

definition newArray :: "nat \<Rightarrow> bytes \<Rightarrow> bytes" where
  "newArray cap b = b @ replicate (cap - length b) CHR 0x00"

text \<open>\<open>append(s, b...)\<close>: in place if the array has room, else into a new array.\<close>

definition appendSlice :: "(nat \<Rightarrow> nat) \<Rightarrow> bytes list \<Rightarrow> slice \<Rightarrow> bytes \<Rightarrow> bytes list \<times> slice" where
  "appendSlice grow as sl b =
     (let n = snd sl + length b in
      if n \<le> length (as ! fst sl)
      then (as[fst sl := overwrite (as ! fst sl) (snd sl) b], (fst sl, n))
      else (as @ [newArray (grow n) (sliceBytes as sl @ b)], (length as, n)))"

text \<open>\<open>bytes.Buffer.Write\<close>: the first small write allocates 64 bytes.\<close>

definition bufferWrite :: "(nat \<Rightarrow> nat) \<Rightarrow> bytes list \<Rightarrow> slice option \<Rightarrow> bytes \<Rightarrow> bytes list \<times> slice option" where
  "bufferWrite grow as sl b =
     (case sl of
        None \<Rightarrow> (as @ [newArray (if length b \<le> 64 then 64 else grow (length b)) b], Some (length as, length b))
      | Some s \<Rightarrow> (case appendSlice grow as s b of (as', s') \<Rightarrow> (as', Some s')))"

text \<open>The closure \<open>next\<close>: the bytes of the next item, written into the buffer that was reset.\<close>

definition pagesNext ::
  "('i \<Rightarrow> writer \<Rightarrow> (int \<times> go_error option) \<times> writer) \<Rightarrow> (nat \<Rightarrow> nat) \<Rightarrow> 'i pages \<Rightarrow>
     (bytes \<times> go_error option) \<times> 'i pages" where
  "pagesNext wr grow r =
     (case pending r of
        [] \<Rightarrow> (([], Some errEOF), r)
      | it # its \<Rightarrow>
          (let r1 = r\<lparr>pending := its, bufSlice := map_option (\<lambda>sl. (fst sl, 0)) (bufSlice r)\<rparr> in
           case wr it bytesBuffer of
             ((_, Some e), w) \<Rightarrow> (([], Some e), r1)
           | ((_, None), w) \<Rightarrow>
               (case bufferWrite grow (arrays r1) (bufSlice r1) (written w) of
                  (as, sl) \<Rightarrow>
                    ((case sl of None \<Rightarrow> [] | Some s \<Rightarrow> sliceBytes as s, None),
                     r1\<lparr>arrays := as, bufSlice := sl\<rparr>))))"

lemma pagesNext_pending:
  "pagesNext wr grow r = (q, r') \<Longrightarrow> snd q = None \<Longrightarrow> length (pending r') < length (pending r)"
  by (auto simp: pagesNext_def Let_def split: list.splits prod.splits option.splits)

text \<open>The loop that fills \<open>r.buf\<close> until it has \<open>p\<close> bytes; the result is an error other than EOF.\<close>

function pagesFill ::
  "('i \<Rightarrow> writer \<Rightarrow> (int \<times> go_error option) \<times> writer) \<Rightarrow> (nat \<Rightarrow> nat) \<Rightarrow> nat \<Rightarrow> 'i pages \<Rightarrow>
     go_error option \<times> 'i pages" where
  "pagesFill wr grow p r =
     (if snd (rbuf r) < p \<and> \<not> atEnd r then
        (case pagesNext wr grow r of
           ((page, err), r1) \<Rightarrow>
             (case appendSlice grow (arrays r1) (rbuf r1) page of
                (as, sl) \<Rightarrow>
                  (let r2 = r1\<lparr>arrays := as, rbuf := sl\<rparr> in
                   case err of
                     None \<Rightarrow> pagesFill wr grow p r2
                   | Some e \<Rightarrow> (if errorsIs errEOF e then (None, r2\<lparr>atEnd := True\<rparr>) else (Some e, r2)))))
      else (None, r))"
  by pat_completeness auto
termination
  by (relation "measure (\<lambda>(wr, grow, p, r). length (pending r))")
    (auto dest!: pagesNext_pending [OF sym])

declare pagesFill.simps [simp del]

definition pagesRead ::
  "('i \<Rightarrow> writer \<Rightarrow> (int \<times> go_error option) \<times> writer) \<Rightarrow> (nat \<Rightarrow> nat) \<Rightarrow> nat \<Rightarrow> 'i pages \<Rightarrow>
     (bytes \<times> go_error option) \<times> 'i pages" where
  "pagesRead wr grow p r =
     (case pagesFill wr grow p r of
        (Some e, r1) \<Rightarrow> ((sliceBytes (arrays r1) (rbuf r1), Some e), r1)
      | (None, r1) \<Rightarrow>
          (let cur = sliceBytes (arrays r1) (rbuf r1); n = min p (length cur); rest = drop n cur;
               a = fst (rbuf r1);
               r2 = r1\<lparr>arrays := (arrays r1)[a := overwrite (arrays r1 ! a) 0 rest],
                       rbuf := (a, length rest)\<rparr>
           in ((take n cur, if rest = [] \<and> atEnd r1 then Some errEOF else None), r2)))"

text \<open>\<open>Reader\<close> of \<open>Response\<close> and of \<open>Batch\<close>.\<close>

definition newPagesReader ::
  "('i list \<Rightarrow> bytes result) \<Rightarrow> (nat \<Rightarrow> nat) \<Rightarrow> 'i list \<Rightarrow> 'i pages result" where
  "newPagesReader marshal grow its =
     (case marshal its of
        Inl e \<Rightarrow> Inl e
      | Inr json \<Rightarrow>
          (case checkedJSONLength json of
             Inl e \<Rightarrow> Inl e
           | Inr len \<Rightarrow>
               (case bufferWrite grow [] None (put_be32 len) of
                  (as1, b1) \<Rightarrow>
                    (case bufferWrite grow as1 b1 json of
                       (as2, b2) \<Rightarrow>
                         Inr \<lparr>arrays = as2, bufSlice = b2, rbuf = (case b2 of None \<Rightarrow> (0, 0) | Some s \<Rightarrow> s),
                              pending = its, atEnd = False\<rparr>))))"

definition Response_Reader ::
  "(cacheItem list \<Rightarrow> bytes result) \<Rightarrow> (nat \<Rightarrow> nat) \<Rightarrow> cacheItem list \<Rightarrow> cacheItem pages result" where
  "Response_Reader = newPagesReader"

definition Batch_Reader ::
  "(fileItem list \<Rightarrow> bytes result) \<Rightarrow> (nat \<Rightarrow> nat) \<Rightarrow> fileItem list \<Rightarrow> fileItem pages result" where
  "Batch_Reader = newPagesReader"

section \<open>The head is overwritten\<close>

lemma length_overwrite: "off + length b \<le> length a \<Longrightarrow> length (overwrite a off b) = length a"
  by (simp add: overwrite_def)

lemma appendSlice_bytes:
  assumes "appendSlice grow as sl b = (as', sl')" "fst sl < length as" "snd sl \<le> length (as ! fst sl)"
  shows "sliceBytes as' sl' = sliceBytes as sl @ b" "snd sl' = snd sl + length b"
    "fst sl' < length as'" "snd sl' \<le> length (as' ! fst sl')"
  using assms
  by (auto simp: appendSlice_def sliceBytes_def overwrite_def newArray_def Let_def split: if_splits)

lemma take_4: "take (4 + n) (a # b # c # d # xs) = a # b # c # d # take n xs"
  by (simp add: eval_nat_numeral)

lemma newPagesReader_small:
  assumes "marshal its = Inr json" "length json \<le> 60"
  shows "\<exists>a. newPagesReader marshal grow its = Inr \<lparr>arrays = [a], bufSlice = Some (0, 4 + length json),
      rbuf = (0, 4 + length json), pending = its, atEnd = False\<rparr> \<and> length a = 64 \<and>
    take (4 + length json) a = put_be32 (word_of_nat (length json)) @ json"
  using assms
  by (auto simp: newPagesReader_def checkedJSONLength_def bufferWrite_def put_be32_def newArray_def
      appendSlice_def overwrite_def take_4)

text \<open>
  The lazy reader does not deliver what \<open>WriteTo\<close> writes: with a small head, the first item's
  body is written into the very array that holds the head still to be read. A read with a large
  enough buffer starts with the body in place of the length and the first bytes of the JSON.\<close>

theorem pages_reader_overwrites_head:
  assumes "marshal [it] = Inr json" "length json \<le> 60" "length b \<le> 4 + length json"
    and "wr it bytesBuffer = ((n, None), bytesBuffer\<lparr>written := b\<rparr>)"
    and "4 + length json + length b < p"
    and "newPagesReader marshal grow [it] = Inr r"
  shows "fst (pagesRead wr grow p r) =
    (b @ drop (length b) (put_be32 (word_of_nat (length json)) @ json) @ b, Some errEOF)"
proof -
  let ?h = "put_be32 (word_of_nat (length json)) @ json"
  obtain a where a: "r = \<lparr>arrays = [a], bufSlice = Some (0, 4 + length json),
      rbuf = (0, 4 + length json), pending = [it], atEnd = False\<rparr>" "length a = 64"
    "take (4 + length json) a = ?h"
    using newPagesReader_small [where marshal = marshal and its = "[it]" and grow = grow, OF assms(1,2)] assms(6)
    by auto
  let ?a = "overwrite a 0 b"
  have len: "length ?a = 64" using a(2) assms(2,3) by (simp add: overwrite_def)
  have h: "take (4 + length json) ?a = b @ drop (length b) ?h"
    unfolding a(3) [symmetric] using assms(3) by (simp add: overwrite_def take_drop)
  have nxt: "pagesNext wr grow r = ((b, None), r\<lparr>pending := [], arrays := [?a], bufSlice := Some (0, length b)\<rparr>)"
    using a(1,2) assms(2,3,4)
    by (simp add: pagesNext_def bufferWrite_def appendSlice_def sliceBytes_def overwrite_def bytesBuffer_def Let_def)
  let ?r1 = "r\<lparr>pending := [], arrays := [?a], bufSlice := Some (0, length b)\<rparr>"
  obtain as sl where app: "appendSlice grow (arrays ?r1) (rbuf ?r1) b = (as, sl)" by (rule prod.exhaust)
  have ok: "fst (rbuf ?r1) < length (arrays ?r1)" "snd (rbuf ?r1) \<le> length (arrays ?r1 ! fst (rbuf ?r1))"
    using a(1) len assms(2) by simp_all
  have cur: "sliceBytes (arrays ?r1) (rbuf ?r1) = b @ drop (length b) ?h"
    using h a(1) by (simp add: sliceBytes_def)
  note sl = appendSlice_bytes [OF app ok, unfolded cur]
  have sl2: "snd sl = 4 + length json + length b" using sl(2) a(1) by simp
  let ?r2 = "?r1\<lparr>arrays := as, rbuf := sl\<rparr>"
  obtain as' sl' where app': "appendSlice grow as sl [] = (as', sl')" by (rule prod.exhaust)
  have app0: "sliceBytes as' sl' = b @ drop (length b) ?h @ b"
    using appendSlice_bytes(1) [OF app' sl(3,4)] sl(1) by simp
  have "pagesFill wr grow p r = pagesFill wr grow p ?r2"
    using nxt app a(1) assms(5) by (subst pagesFill.simps) simp
  also have "\<dots> = (None, ?r2\<lparr>arrays := as', rbuf := sl', atEnd := True\<rparr>)"
    using app' a(1) assms(5) sl2 by (subst pagesFill.simps) (simp add: pagesNext_def errEOF_def)
  finally have fill: "pagesFill wr grow p r = (None, ?r2\<lparr>arrays := as', rbuf := sl', atEnd := True\<rparr>)" .
  have "length (b @ drop (length b) ?h @ b) \<le> p" using assms(3,5) by simp
  then show ?thesis using fill app0 by (simp add: pagesRead_def Let_def)
qed

definition shortItem :: fileItem where
  "shortItem = \<lparr>fi_Path = ''a'', fi_Size = 3, fi_ModTime = None, fi_Mode = 0, fi_IsCompressed = False,
     fi_WireSize = 3, fi_DiskPath = [], fi_body = BytesReader (Inr (''xyz'', None))\<rparr>"

theorem pages_reader_overwrites_head_witness:
  "\<exists>r. Batch_Reader (\<lambda>_. Inr ''{}'') (\<lambda>n. 2 * n) [shortItem] = Inr r \<and>
     fst (pagesRead (fi_WriteTo (calm 1) [] (newPool 4096 8388608 [])) (\<lambda>n. 2 * n) 512 r) =
       (''xyz'' @ [CHR 0x02] @ ''{}xyz'', Some errEOF) \<and>
     written (snd (Batch_WriteTo (\<lambda>_. Inr ''{}'') (calm 1) [] (newPool 4096 8388608 []) [shortItem] bytesBuffer)) =
       [CHR 0x00, CHR 0x00, CHR 0x00, CHR 0x02] @ ''{}xyz''"
proof -
  let ?wr = "fi_WriteTo (calm 1) [] (newPool 4096 8388608 [])"
  have wr: "?wr shortItem bytesBuffer = ((3, None), bytesBuffer\<lparr>written := ''xyz''\<rparr>)" by code_simp
  have w: "written (snd (Batch_WriteTo (\<lambda>_. Inr ''{}'') (calm 1) [] (newPool 4096 8388608 []) [shortItem] bytesBuffer)) =
      [CHR 0x00, CHR 0x00, CHR 0x00, CHR 0x02] @ ''{}xyz''"
    by code_simp
  have h: "put_be32 (word_of_nat (length ''{}'')) = [CHR 0x00, CHR 0x00, CHR 0x00, CHR 0x02]" by code_simp
  obtain r where r: "newPagesReader (\<lambda>_. Inr ''{}'') (\<lambda>n. 2 * n) [shortItem] = Inr r"
    using newPagesReader_small [of "\<lambda>_. Inr ''{}''" "[shortItem]" "''{}''"] by fastforce
  have "fst (pagesRead ?wr (\<lambda>n. 2 * n) 512 r) =
      (''xyz'' @ drop (length ''xyz'') (put_be32 (word_of_nat (length ''{}'')) @ ''{}'') @ ''xyz'', Some errEOF)"
    by (rule pages_reader_overwrites_head [where marshal = "\<lambda>_. Inr ''{}''" and wr = ?wr and json = "''{}''" and b = "''xyz''",
        OF _ _ _ wr _ r]) simp_all
  then show ?thesis using r w h by (auto simp: Batch_Reader_def)
qed

end
