(* ===== verification/Local_Store.thy ===== *)
theory Local_Store
  imports Cache_Item Manifest
begin

text \<open>
  The action cache store (\<open>internal/local/store.go\<close>): an index from action ids to entries, and one stored
  copy of each output, counted by reference. The state \<open>lstore\<close> has the fields of \<open>Store\<close> with the files
  below its directory; the record pool's directory is inside \<open>ls_pool\<close>, and \<open>index.json\<close> is held as the
  map it encodes. As for the object store, an operation takes the environment and returns its result
  and the new state, \<open>putOne\<close> is split where it releases the mutex, and ranging over a map follows the
  order of the association list. Names that the object store's package also uses end in \<open>L\<close>.
\<close>

section \<open>Data\<close>

record lentry =
  le_OutputID :: string
  le_Size :: int
  le_TimeMicro :: int
  le_AccessTimeMicro :: int
  le_Compressed :: int
  le_WireSize :: int
  le_PoolPage :: u32
  le_PoolSlot :: u32

record lstore =
  ls_dir :: path
  ls_compress :: bool
  ls_maxDiskBytes :: int
  ls_maxFileBytes :: int
  ls_manifestMaxAge :: int
  ls_index :: "(string \<times> lentry) list"
  outputRefs :: "(string \<times> int) list"
  outputSizes :: "(string \<times> int) list"
  ls_dirty :: bool
  ls_ready :: bool
  ls_currentDiskBytes :: int
  ls_evictionScheduled :: bool
  ls_pool :: pool
  outputLocs :: "(string \<times> loc) list"
  poolDisabled :: bool
  ls_disk :: fs
  ls_savedIndex :: "(string \<times> lentry) list option"
  ls_hits :: int
  ls_misses :: int
  ls_puts :: int
  ls_putsExist :: int
  ls_putsCompleted :: int
  ls_errors :: int

record integrityEntry =
  ire_ActionID :: string
  ire_OutputID :: string
  ire_Size :: int
  ire_WireSize :: int
  ire_Error :: go_error
  ire_Removed :: bool

record integrityReport =
  ir_Checked :: int
  ir_Broken :: "integrityEntry list"
  ir_DryRun :: bool

definition locL :: "lentry \<Rightarrow> loc" where
  "locL ie = \<lparr>Page = le_PoolPage ie, Slot = le_PoolSlot ie\<rparr>"

definition entryStoredSizeL :: "lentry \<Rightarrow> int" where
  "entryStoredSizeL ie = (if 0 < le_WireSize ie then le_WireSize ie else le_Size ie)"

definition lruTimeMicro :: "lentry \<Rightarrow> int" where
  "lruTimeMicro ie = (if le_AccessTimeMicro ie \<noteq> 0 then le_AccessTimeMicro ie else le_TimeMicro ie)"

section \<open>Paths of outputs\<close>

definition flatName :: "string \<Rightarrow> string" where
  "flatName outputID = map (\<lambda>c. if c = sep then CHR ''_'' else c) outputID"

definition OutputFilename :: "path \<Rightarrow> string \<Rightarrow> path" where
  "OutputFilename d outputID =
     (let name = flatName outputID; pre = (if 2 < length name then take 2 name else name) in
      joinPath [d, ''entries'', pre, name])"

definition legacyOutputFilename :: "path \<Rightarrow> string \<Rightarrow> path" where
  "legacyOutputFilename d outputID = joinPath [d, flatName outputID]"

definition outputPathForRead :: "env \<Rightarrow> lstore \<Rightarrow> string \<Rightarrow> path" where
  "outputPathForRead E s outputID =
     (let path = OutputFilename (ls_dir s) outputID;
          legacy = legacyOutputFilename (ls_dir s) outputID
      in case statFile E (ls_disk s) path of
           Inr _ \<Rightarrow> path
         | Inl _ \<Rightarrow> (case statFile E (ls_disk s) legacy of Inr _ \<Rightarrow> legacy | Inl _ \<Rightarrow> path))"

section \<open>References to outputs\<close>

definition addOutputRefLocked :: "lstore \<Rightarrow> string \<Rightarrow> int \<Rightarrow> loc \<Rightarrow> lstore" where
  "addOutputRefLocked s outputID sz l =
     (let n = mget0 0 (outputRefs s) outputID;
          s1 = (if n = 0 then
              s\<lparr>outputSizes := AList.update outputID sz (outputSizes s),
                ls_currentDiskBytes := ls_currentDiskBytes s + sz,
                outputLocs := (if isZero l then outputLocs s else AList.update outputID l (outputLocs s))\<rparr>
            else s)
      in s1\<lparr>outputRefs := AList.update outputID (n + 1) (outputRefs s1)\<rparr>)"

definition releaseOutputRefLocked :: "env \<Rightarrow> lstore \<Rightarrow> string \<Rightarrow> lstore" where
  "releaseOutputRefLocked E s outputID =
     (let refCount = mget0 0 (outputRefs s) outputID in
      if refCount \<le> 1 then
        (let sz = mget0 0 (outputSizes s) outputID;
             s1 = s\<lparr>outputRefs := AList.delete outputID (outputRefs s),
                    ls_currentDiskBytes := ls_currentDiskBytes s - sz,
                    outputSizes := AList.delete outputID (outputSizes s)\<rparr>
         in case map_of (outputLocs s1) outputID of
              Some l \<Rightarrow> s1\<lparr>ls_pool := poolFree (ls_pool s1) sz l,
                          outputLocs := AList.delete outputID (outputLocs s1)\<rparr>
            | None \<Rightarrow> s1\<lparr>ls_disk := snd (removeIfExists E (ls_disk s1) (outputPathForRead E s1 outputID))\<rparr>)
      else s\<lparr>outputRefs := AList.update outputID (refCount - 1) (outputRefs s)\<rparr>)"

definition replaceOutputRefLocked ::
  "env \<Rightarrow> lstore \<Rightarrow> lentry \<Rightarrow> lentry \<Rightarrow> int \<Rightarrow> loc \<Rightarrow> lstore" where
  "replaceOutputRefLocked E s oldEntry newEntry newStoredSize l =
     (if le_OutputID oldEntry = le_OutputID newEntry then
        (let oldSize = mget0 0 (outputSizes s) (le_OutputID oldEntry) in
         s\<lparr>outputSizes := AList.update (le_OutputID oldEntry) newStoredSize (outputSizes s),
           ls_currentDiskBytes := ls_currentDiskBytes s + (newStoredSize - oldSize)\<rparr>)
      else addOutputRefLocked (releaseOutputRefLocked E s (le_OutputID oldEntry))
             (le_OutputID newEntry) newStoredSize l)"

text \<open>Dropping an entry: the end of \<open>removeBrokenActionEntry\<close>, \<open>removeIfUnchanged\<close> and \<open>evictOneLocked\<close>.\<close>

definition dropAction :: "env \<Rightarrow> lstore \<Rightarrow> string \<Rightarrow> string \<Rightarrow> lstore" where
  "dropAction E s actionID outputID =
     (releaseOutputRefLocked E (s\<lparr>ls_index := AList.delete actionID (ls_index s)\<rparr>) outputID)
       \<lparr>ls_dirty := True\<rparr>"

section \<open>Eviction\<close>

text \<open>The scan for the first entry with the smallest time.\<close>

fun lruMin :: "(string \<times> lentry) option \<Rightarrow> (string \<times> lentry) list \<Rightarrow> (string \<times> lentry) option" where
  "lruMin best [] = best"
| "lruMin best ((a, ie) # kvs) =
     (case best of
        None \<Rightarrow> lruMin (Some (a, ie)) kvs
      | Some (b, je) \<Rightarrow>
          (if lruTimeMicro ie < lruTimeMicro je then lruMin (Some (a, ie)) kvs else lruMin best kvs))"

definition evictOneL :: "env \<Rightarrow> lstore \<Rightarrow> bool \<times> lstore" where
  "evictOneL E s =
     (case lruMin None (ls_index s) of
        None \<Rightarrow> (False, s)
      | Some (a, ie) \<Rightarrow> (True, dropAction E s a (le_OutputID ie)))"

definition evictionMarginFractionL :: int where "evictionMarginFractionL = 10"

lemma releaseOutputRef_index [simp]: "ls_index (releaseOutputRefLocked E s outputID) = ls_index s"
  by (simp add: releaseOutputRefLocked_def Let_def split: option.splits)

lemma dropAction_index [simp]: "ls_index (dropAction E s a outputID) = AList.delete a (ls_index s)"
  by (simp add: dropAction_def)

lemma lruMin_in: "lruMin best kvs = Some x \<Longrightarrow> best = Some x \<or> x \<in> set kvs"
  by (induction best kvs rule: lruMin.induct) (auto split: option.splits if_splits)

lemma evictOneL_shrinks:
  assumes "evictOneL E s = (True, s')"
  shows "length (ls_index s') < length (ls_index s)"
proof -
  obtain a ie where a: "lruMin None (ls_index s) = Some (a, ie)" "s' = dropAction E s a (le_OutputID ie)"
    using assms by (auto simp: evictOneL_def split: option.splits)
  have "(a, ie) \<in> set (ls_index s)" using lruMin_in [OF a(1)] by simp
  then obtain v where "map_of (ls_index s) a = Some v"
    by (metis (no_types, lifting) image_eqI map_of_eq_None_iff not_None_eq fst_conv)
  then show ?thesis using a(2) length_delete_less by simp
qed

function evictDownToL :: "env \<Rightarrow> int \<Rightarrow> lstore \<Rightarrow> lstore" where
  "evictDownToL E target s =
     (if target < ls_currentDiskBytes s then
        (case evictOneL E s of (b, s') \<Rightarrow> (if b then evictDownToL E target s' else s'))
      else s)"
  by pat_completeness auto
termination
  by (relation "measure (\<lambda>(E, t, s). length (ls_index s))") (auto dest: evictOneL_shrinks [OF sym])

declare evictDownToL.simps [simp del]

definition evictIfNeededL :: "env \<Rightarrow> lstore \<Rightarrow> lstore" where
  "evictIfNeededL E s =
     (if ls_maxDiskBytes s \<le> 0 \<or> ls_currentDiskBytes s \<le> ls_maxDiskBytes s then s
      else evictDownToL E (ls_maxDiskBytes s - ls_maxDiskBytes s sdiv evictionMarginFractionL) s)"

definition EvictNowL :: "env \<Rightarrow> lstore \<Rightarrow> lstore" where
  "EvictNowL E s = evictIfNeededL E s"

definition DiskBytesL :: "lstore \<Rightarrow> int" where
  "DiskBytesL s = ls_currentDiskBytes s"

definition EvictOneL :: "env \<Rightarrow> lstore \<Rightarrow> bool \<times> lstore" where
  "EvictOneL E s = evictOneL E s"

definition scheduleEvictionL :: "lstore \<Rightarrow> lstore" where
  "scheduleEvictionL s =
     (if ls_evictionScheduled s then s
      else if ls_manifestMaxAge s \<le> 0 \<and>
        (ls_maxDiskBytes s \<le> 0 \<or> ls_currentDiskBytes s \<le> ls_maxDiskBytes s) then s
      else s\<lparr>ls_evictionScheduled := True\<rparr>)"

section \<open>Looking up\<close>

text \<open>The body reader of a pooled entry reads the record when it is called.\<close>

definition responseItemL :: "env \<Rightarrow> lstore \<Rightarrow> string \<Rightarrow> lentry \<Rightarrow> cacheItem" where
  "responseItemL E s actionID ie =
     \<lparr>ri_ActionID = actionID, ri_Miss = False, ri_OutputID = le_OutputID ie, ri_Size = le_Size ie,
      ri_Time = Some (le_TimeMicro ie), ri_IsCompressed = (le_Compressed ie = 1),
      ri_WireSize = le_WireSize ie,
      ri_DiskPath = (if le_PoolPage ie \<noteq> 0 then [] else outputPathForRead E s (le_OutputID ie)),
      ri_body = (if le_PoolPage ie \<noteq> 0 then PoolReader (entryStoredSizeL ie) (locL ie) else NilReader)\<rparr>"

definition missItem :: "string \<Rightarrow> cacheItem" where
  "missItem actionID =
     \<lparr>ri_ActionID = actionID, ri_Miss = True, ri_OutputID = [], ri_Size = 0, ri_Time = None,
      ri_IsCompressed = False, ri_WireSize = 0, ri_DiskPath = [], ri_body = NilReader\<rparr>"

definition getOneL :: "env \<Rightarrow> lstore \<Rightarrow> string \<Rightarrow> cacheItem \<times> lstore" where
  "getOneL E s actionID =
     (case map_of (ls_index s) actionID of
        None \<Rightarrow> (missItem actionID, s\<lparr>ls_misses := ls_misses s + 1\<rparr>)
      | Some ie \<Rightarrow>
          (if 0 < ls_maxFileBytes s \<and> ls_maxFileBytes s < le_Size ie
           then (missItem actionID, s\<lparr>ls_misses := ls_misses s + 1\<rparr>)
           else
             (let ie' = ie\<lparr>le_AccessTimeMicro := now E\<rparr>;
                  s' = s\<lparr>ls_hits := ls_hits s + 1, ls_index := AList.update actionID ie' (ls_index s),
                         ls_dirty := True\<rparr>
              in (responseItemL E s' actionID ie', s'))))"

fun GetL :: "env \<Rightarrow> lstore \<Rightarrow> string list \<Rightarrow> cacheItem list \<times> lstore" where
  "GetL E s [] = ([], s)"
| "GetL E s (a # as) =
     (case getOneL E s a of (it, s1) \<Rightarrow> (case GetL E s1 as of (its, s2) \<Rightarrow> (it # its, s2)))"

section \<open>Storing\<close>

definition compressNowBodyReaderL ::
  "env \<Rightarrow> lstore \<Rightarrow> cacheItem \<Rightarrow> lentry \<Rightarrow> reader option result \<times> lentry" where
  "compressNowBodyReaderL E s it ie =
     (case fst (ri_compressedBodyReader E (ls_disk s) (ls_pool s) it) of
        Inl e \<Rightarrow> (Inl e, ie)
      | Inr None \<Rightarrow> (Inl (ErrPanic ''nil reader''), ie)
      | Inr (Some (b, Some e)) \<Rightarrow> (Inl e, ie)
      | Inr (Some (b, None)) \<Rightarrow>
          (Inr (Some (b, None)), ie\<lparr>le_Compressed := 1, le_WireSize := int (length b)\<rparr>))"

definition bodyReaderForPutL ::
  "env \<Rightarrow> lstore \<Rightarrow> cacheItem \<Rightarrow> lentry \<Rightarrow> reader option result \<times> lentry" where
  "bodyReaderForPutL E s it ie =
     (if ri_IsCompressed it then
        (if \<not> ls_compress s then (ri_uncompressedBodyReader E (ls_disk s) (ls_pool s) it, ie)
         else (ri_wireBodyReader E (ls_disk s) (ls_pool s) it,
               ie\<lparr>le_Compressed := 1, le_WireSize := ri_WireSize it\<rparr>))
      else if ls_compress s \<and> MinCompressionSize \<le> ri_Size it then compressNowBodyReaderL E s it ie
      else (ri_uncompressedBodyReader E (ls_disk s) (ls_pool s) it, ie))"

text \<open>\<open>writeAtomic\<close>; a failing reader leaves only the temporary file, which is removed.\<close>

definition writeAtomicL :: "env \<Rightarrow> fs \<Rightarrow> path \<Rightarrow> reader option \<Rightarrow> go_error option \<times> fs" where
  "writeAtomicL E d outputFile rd =
     (case writeErr E outputFile of
        Some e \<Rightarrow> (Some (ErrWrap ''write file'' e), d)
      | None \<Rightarrow> (case rd of
            None \<Rightarrow> writeRename E d outputFile [] 438
          | Some (b, Some e) \<Rightarrow> (Some (ErrWrap ''copy to file'' e), d)
          | Some (b, None) \<Rightarrow> writeRename E d outputFile b 438))"

definition storePoolEligibleBodyL ::
  "env \<Rightarrow> lstore \<Rightarrow> cacheItem \<Rightarrow> reader option \<Rightarrow> int \<Rightarrow> loc result \<times> lstore" where
  "storePoolEligibleBodyL E s it rd newStoredSize =
     (case rd of
        None \<Rightarrow> (Inl (ErrPanic ''nil reader''), s)
      | Some (body, Some e) \<Rightarrow> (Inl (ErrWrap ''read body for put'' e), s)
      | Some (body, None) \<Rightarrow>
          (if int (length body) \<noteq> newStoredSize then
             (Inl (ErrMsg ''put body length does not match expected''), s)
           else (case poolPut (ls_pool s) newStoredSize body (poolCreate E) (poolWrite E) of
               (Inl e, p) \<Rightarrow> (Inl (ErrWrap ''write pooled record'' e), s\<lparr>ls_pool := p\<rparr>)
             | (Inr (Some l), p) \<Rightarrow> (Inr l, s\<lparr>ls_pool := p\<rparr>)
             | (Inr None, p) \<Rightarrow>
                 (case writeAtomicL E (ls_disk s) (OutputFilename (ls_dir s) (ri_OutputID it)) (Some (body, None)) of
                    (Some e, d) \<Rightarrow> (Inl (ErrWrap ''atomic write'' e), s\<lparr>ls_pool := p, ls_disk := d\<rparr>)
                  | (None, d) \<Rightarrow> (Inr zeroLoc, s\<lparr>ls_pool := p, ls_disk := d\<rparr>)))))"

definition storePutBodyL ::
  "env \<Rightarrow> lstore \<Rightarrow> cacheItem \<Rightarrow> reader option \<Rightarrow> int \<Rightarrow> bool \<Rightarrow> loc \<Rightarrow> loc result \<times> lstore" where
  "storePutBodyL E s it rd newStoredSize outputRefExists existingOutputLoc =
     (if outputRefExists then
        (case rd of
           Some (b, Some e) \<Rightarrow> (Inl (ErrWrap ''drain body for already-stored output'' e), s)
         | _ \<Rightarrow> (Inr existingOutputLoc, s))
      else if \<not> poolDisabled s \<and> 0 < newStoredSize \<and> newStoredSize \<le> maxRecordBytes (ls_pool s) then
        storePoolEligibleBodyL E s it rd newStoredSize
      else
        (let outputFile = OutputFilename (ls_dir s) (ri_OutputID it);
             counted = (case rd of None \<Rightarrow> ([], None) | Some r \<Rightarrow> r)
         in case writeAtomicL E (ls_disk s) outputFile (Some counted) of
              (Some e, d) \<Rightarrow> (Inl (ErrWrap ''atomic write'' e), s\<lparr>ls_disk := d\<rparr>)
            | (None, d) \<Rightarrow>
                (if int (length (fst counted)) \<noteq> newStoredSize then
                   (Inl (ErrMsg ''put body length does not match expected''),
                    s\<lparr>ls_disk := snd (removeIfExists E d outputFile)\<rparr>)
                 else (Inr zeroLoc, s\<lparr>ls_disk := d\<rparr>))))"

text \<open>What \<open>putOne\<close> learns under the mutex before it writes the body.\<close>

record putContext =
  pc_existing :: "lentry option"
  pc_loc :: loc
  pc_refExists :: bool
  pc_entry :: lentry

definition putBeginL :: "env \<Rightarrow> lstore \<Rightarrow> cacheItem \<Rightarrow> putContext option result \<times> lstore" where
  "putBeginL E s it =
     (if 0 < ls_maxFileBytes s \<and> ls_maxFileBytes s < ri_Size it then (Inr None, s)
      else if ri_OutputID it = [] then
        (Inl (ErrMsg ''empty output id''), s\<lparr>ls_errors := ls_errors s + 1\<rparr>)
      else
        (let existing = map_of (ls_index s) (ri_ActionID it) in
         (Inr (Some
            \<lparr>pc_existing = existing,
             pc_loc = mget0 zeroLoc (outputLocs s) (ri_OutputID it),
             pc_refExists = (map_of (outputRefs s) (ri_OutputID it) \<noteq> None),
             pc_entry = \<lparr>le_OutputID = ri_OutputID it, le_Size = ri_Size it, le_TimeMicro = now E,
                le_AccessTimeMicro = now E, le_Compressed = 0, le_WireSize = 0, le_PoolPage = 0,
                le_PoolSlot = 0\<rparr>\<rparr>),
          s\<lparr>ls_putsExist := ls_putsExist s + (if existing = None then 0 else 1),
            ls_puts := ls_puts s + 1\<rparr>)))"

definition putStoreL :: "env \<Rightarrow> lstore \<Rightarrow> cacheItem \<Rightarrow> putContext \<Rightarrow> lentry result \<times> lstore" where
  "putStoreL E s it pc =
     (case bodyReaderForPutL E s it (pc_entry pc) of
        (Inl e, ie) \<Rightarrow> (Inl (ErrWrap ''get reader for put'' e), s\<lparr>ls_errors := ls_errors s + 1\<rparr>)
      | (Inr rd, ie) \<Rightarrow>
          (case storePutBodyL E s it rd (entryStoredSizeL ie) (pc_refExists pc) (pc_loc pc) of
             (Inl e, s') \<Rightarrow> (Inl e, s'\<lparr>ls_errors := ls_errors s' + 1\<rparr>)
           | (Inr l, s') \<Rightarrow> (Inr (ie\<lparr>le_PoolPage := Page l, le_PoolSlot := Slot l\<rparr>), s')))"

definition putCommitL :: "env \<Rightarrow> lstore \<Rightarrow> cacheItem \<Rightarrow> putContext \<Rightarrow> lentry \<Rightarrow> lstore" where
  "putCommitL E s it pc ie =
     (let s1 = (case pc_existing pc of
            Some old \<Rightarrow> replaceOutputRefLocked E s old ie (entryStoredSizeL ie) (locL ie)
          | None \<Rightarrow> addOutputRefLocked s (le_OutputID ie) (entryStoredSizeL ie) (locL ie));
          s2 = scheduleEvictionL (s1\<lparr>ls_index := AList.update (ri_ActionID it) ie (ls_index s1),
                                     ls_dirty := True\<rparr>)
      in s2\<lparr>ls_putsCompleted := ls_putsCompleted s2 + 1\<rparr>)"

definition putOneL :: "env \<Rightarrow> lstore \<Rightarrow> cacheItem \<Rightarrow> go_error option \<times> lstore" where
  "putOneL E s it =
     (case putBeginL E s it of
        (Inl e, s1) \<Rightarrow> (Some e, s1)
      | (Inr None, s1) \<Rightarrow> (None, s1)
      | (Inr (Some pc), s1) \<Rightarrow>
          (case putStoreL E s1 it pc of
             (Inl e, s2) \<Rightarrow> (Some e, s2)
           | (Inr ie, s2) \<Rightarrow> (None, putCommitL E s2 it pc ie)))"

fun PutL :: "env \<Rightarrow> lstore \<Rightarrow> cacheItem list \<Rightarrow> go_error option \<times> lstore" where
  "PutL E s [] = (None, s)"
| "PutL E s (it # its) =
     (case putOneL E s it of (Some e, s') \<Rightarrow> (Some e, s') | (None, s') \<Rightarrow> PutL E s' its)"

section \<open>Manifests\<close>

definition manifestScopeDirL :: "string \<Rightarrow> string result" where
  "manifestScopeDirL buildType0 =
     (let buildType = trimSpace buildType0 in
      if buildType = [] then Inr ''default''
      else if maxManifestKeyLen < length buildType then Inl (ErrMsg ''build-type too long'')
      else if \<not> validScopedKeyName buildType then Inl (ErrMsg ''invalid build-type'')
      else Inr (''buildtype-'' @ buildType))"

definition prefix2 :: "string \<Rightarrow> string" where
  "prefix2 s = (if 2 < length s then take 2 s else s)"

definition commitManifestPathL :: "path \<Rightarrow> string \<Rightarrow> string \<Rightarrow> path result" where
  "commitManifestPathL d commit0 buildType =
     (let commit = trimSpace commit0 in
      if maxManifestKeyLen < length commit then Inl (ErrMsg ''commit too long'')
      else if \<not> validScopedKeyName commit then Inl (ErrMsg ''invalid commit'')
      else (case manifestScopeDirL buildType of
          Inl e \<Rightarrow> Inl e
        | Inr scopeDir \<Rightarrow> Inr (joinPath [d, ''manifests'', scopeDir, prefix2 commit, commit])))"

definition changesManifestPathL :: "path \<Rightarrow> string \<Rightarrow> string \<Rightarrow> path result" where
  "changesManifestPathL d changesID0 buildType =
     (let changesID = trimSpace changesID0 in
      if changesID = [] then Inl (ErrMsg ''invalid changes-id'')
      else if maxManifestKeyLen < length changesID then Inl (ErrMsg ''changes-id too long'')
      else (case manifestScopeDirL buildType of
          Inl e \<Rightarrow> Inl e
        | Inr scopeDir \<Rightarrow>
            (let escaped = queryEscape changesID in
             Inr (joinPath [d, ''manifests'', scopeDir, ''changes'', prefix2 escaped, escaped]))))"

definition loadManifestL :: "env \<Rightarrow> lstore \<Rightarrow> path \<Rightarrow> string list result" where
  "loadManifestL E s manifestPath =
     (case readFile E (ls_disk s) manifestPath of
        Inl e \<Rightarrow> Inl e
      | Inr data \<Rightarrow>
          (case scan_lines scanLimit data of
             Inl e \<Rightarrow> Inl (ErrWrap ''scan manifest'' e)
           | Inr ls \<Rightarrow> Inr (filter (\<lambda>a. a \<noteq> []) (map trimSpace ls))))"

definition loadCommitManifest :: "env \<Rightarrow> lstore \<Rightarrow> string \<Rightarrow> string \<Rightarrow> string list result" where
  "loadCommitManifest E s commit buildType =
     (if trimSpace commit = [] then Inl ErrNotExist
      else (case commitManifestPathL (ls_dir s) commit buildType of
          Inl e \<Rightarrow> Inl e | Inr p \<Rightarrow> loadManifestL E s p))"

definition loadChangesManifest :: "env \<Rightarrow> lstore \<Rightarrow> string \<Rightarrow> string \<Rightarrow> string list result" where
  "loadChangesManifest E s changesID buildType =
     (if trimSpace changesID = [] then Inl ErrNotExist
      else (case changesManifestPathL (ls_dir s) changesID buildType of
          Inl e \<Rightarrow> Inl e | Inr p \<Rightarrow> loadManifestL E s p))"

text \<open>The zero \<open>time.Time\<close>, in microseconds.\<close>

definition zeroTime :: int where "zeroTime = -62135596800000000"

fun newestFile :: "env \<Rightarrow> fs \<Rightarrow> path \<Rightarrow> int \<Rightarrow> path list \<Rightarrow> path result" where
  "newestFile E d best t [] = Inr best"
| "newestFile E d best t (p # ps) =
     (if hasSuffix p ''.tmp'' then newestFile E d best t ps
      else (case statFile E d p of
          Inl e \<Rightarrow> Inl e
        | Inr f \<Rightarrow> (if t < mtime f then newestFile E d p (mtime f) ps else newestFile E d best t ps)))"

definition loadNewestManifest :: "env \<Rightarrow> lstore \<Rightarrow> string \<Rightarrow> string list result" where
  "loadNewestManifest E s buildType =
     (case manifestScopeDirL buildType of
        Inl e \<Rightarrow> Inl e
      | Inr scopeDir \<Rightarrow>
          (let scopeRoot = joinPath [ls_dir s, ''manifests'', scopeDir];
               newest = (case listErr E scopeRoot of
                   Some e \<Rightarrow> (if isNotExist e then Inr [] else Inl e)
                 | None \<Rightarrow> newestFile E (ls_disk s) [] zeroTime (walkFiles (ls_disk s) scopeRoot))
           in case newest of
                Inl e \<Rightarrow> Inl (ErrWrap ''scan manifest dir'' e)
              | Inr [] \<Rightarrow> Inr []
              | Inr p \<Rightarrow> loadManifestL E s p))"

text \<open>The loop over the candidate sources: the action ids and the names of the sources found.\<close>

fun filterSources ::
  "(string \<times> string list result) list \<Rightarrow> string list \<Rightarrow> string list \<Rightarrow> (string list \<times> string list) result" where
  "filterSources [] res srcs = Inr (res, srcs)"
| "filterSources ((name, r) # cands) res srcs =
     (case r of
        Inl e \<Rightarrow> (if isNotExist e then filterSources cands res srcs else Inl e)
      | Inr ids \<Rightarrow> filterSources cands (res @ ids) (srcs @ [name]))"

text \<open>The first component is nil for a request that names nothing; otherwise its elements are the keys of
  the map.\<close>

definition preloadFilterActionIDs ::
  "env \<Rightarrow> lstore \<Rightarrow> preloadRequest \<Rightarrow> (string list option \<times> string list) result" where
  "preloadFilterActionIDs E s req =
     (if pr_Commit req = [] \<and> pr_ParentCommit req = [] \<and> pr_ChangesID req = [] \<and> pr_BaseCommit req = []
      then Inr (None, [''all''])
      else
        (case filterSources
            [(''commit'', loadCommitManifest E s (pr_Commit req) (pr_BuildType req)),
             (''parent'', loadCommitManifest E s (pr_ParentCommit req) (pr_BuildType req)),
             (''changes'', loadChangesManifest E s (pr_ChangesID req) (pr_BuildType req)),
             (''base'', loadCommitManifest E s (pr_BaseCommit req) (pr_BuildType req))] [] [] of
           Inl e \<Rightarrow> Inl e
         | Inr (res, srcs) \<Rightarrow>
             (if srcs \<noteq> [] then Inr (Some res, srcs)
              else (case loadNewestManifest E s (pr_BuildType req) of
                  Inl e \<Rightarrow> Inl e
                | Inr ids \<Rightarrow>
                    (if ids \<noteq> [] then Inr (Some ids, [''newest'']) else Inr (Some [], [''none'']))))))"

definition PreloadSources :: "env \<Rightarrow> lstore \<Rightarrow> preloadRequest \<Rightarrow> string list result" where
  "PreloadSources E s req =
     (case preloadFilterActionIDs E s req of Inl e \<Rightarrow> Inl e | Inr (_, srcs) \<Rightarrow> Inr srcs)"

definition writeManifestL :: "env \<Rightarrow> lstore \<Rightarrow> path \<Rightarrow> bytes \<Rightarrow> go_error option \<times> lstore" where
  "writeManifestL E s manifestPath body =
     (case writeRename E (ls_disk s) manifestPath body 384 of
        (Some e, d) \<Rightarrow> (Some (ErrWrap ''write manifest'' e), s)
      | (None, d) \<Rightarrow> (None, s\<lparr>ls_disk := d\<rparr>))"

text \<open>The two loops of \<open>mergeManifest\<close> share one \<open>seen\<close> set: they are \<open>unionManifestPaths\<close> of both lists.\<close>

definition mergeManifestL :: "env \<Rightarrow> lstore \<Rightarrow> path \<Rightarrow> string list \<Rightarrow> go_error option \<times> lstore" where
  "mergeManifestL E s manifestPath actionIDs =
     (let merge = (\<lambda>existing. writeManifestL E s manifestPath
            (joinManifestBody (unionManifestPaths [existing, actionIDs])))
      in case loadManifestL E s manifestPath of
           Inl e \<Rightarrow> (if isNotExist e then merge [] else (Some e, s))
         | Inr existing \<Rightarrow> merge existing)"

definition PostCacheUsed ::
  "env \<Rightarrow> lstore \<Rightarrow> string \<Rightarrow> string \<Rightarrow> string \<Rightarrow> string list \<Rightarrow> bool \<Rightarrow> go_error option \<times> lstore" where
  "PostCacheUsed E s commit changesID buildType actionIDs replaceChanges =
     (let changes = (\<lambda>s. if changesID = [] then (None, s)
            else (case changesManifestPathL (ls_dir s) changesID buildType of
                Inl e \<Rightarrow> (Some e, s)
              | Inr p \<Rightarrow> (if replaceChanges then writeManifestL E s p (joinManifestBody actionIDs)
                          else mergeManifestL E s p actionIDs)))
      in if commit = [] then changes s
         else (case commitManifestPathL (ls_dir s) commit buildType of
             Inl e \<Rightarrow> (Some e, s)
           | Inr p \<Rightarrow> (case mergeManifestL E s p actionIDs of
                 (Some e, s') \<Rightarrow> (Some e, s') | (None, s') \<Rightarrow> changes s')))"

section \<open>Preloading\<close>

definition removeBrokenActionEntry :: "env \<Rightarrow> lstore \<Rightarrow> string \<Rightarrow> lentry \<Rightarrow> lstore" where
  "removeBrokenActionEntry E s actionID ie =
     (if map_of (ls_index s) actionID = None then s else dropAction E s actionID (le_OutputID ie))"

definition brokenOutput :: "env \<Rightarrow> lstore \<Rightarrow> lentry \<Rightarrow> bool" where
  "brokenOutput E s ie =
     (le_PoolPage ie = 0 \<and>
      (case statFile E (ls_disk s) (OutputFilename (ls_dir s) (le_OutputID ie)) of
         Inl _ \<Rightarrow> True
       | Inr f \<Rightarrow> int (length (content f)) \<noteq> entryStoredSizeL ie))"

fun preloadEntries ::
  "env \<Rightarrow> lstore \<Rightarrow> int \<Rightarrow> string list option \<Rightarrow> (string \<times> lentry) list \<Rightarrow> cacheItem list \<times> lstore" where
  "preloadEntries E s maxSize flt [] = ([], s)"
| "preloadEntries E s maxSize flt ((k, v) # kvs) =
     (if (case flt of None \<Rightarrow> False | Some ids \<Rightarrow> k \<notin> set ids) then preloadEntries E s maxSize flt kvs
      else if maxSize < (if le_WireSize v = 0 then le_Size v else le_WireSize v) then
        preloadEntries E s maxSize flt kvs
      else if brokenOutput E s v then
        preloadEntries E (removeBrokenActionEntry E s k v) maxSize flt kvs
      else (case preloadEntries E s maxSize flt kvs of
          (its, s') \<Rightarrow> (responseItemL E s k v # its, s')))"

definition defaultPreloadSize :: int where "defaultPreloadSize = 600000"

definition Preload :: "env \<Rightarrow> lstore \<Rightarrow> preloadRequest \<Rightarrow> cacheItem list result \<times> lstore" where
  "Preload E s req =
     (let maxSize = (if pr_MaxSize req = 0 then defaultPreloadSize else pr_MaxSize req);
          filtered = pr_Commit req \<noteq> [] \<or> pr_ParentCommit req \<noteq> [] \<or> pr_ChangesID req \<noteq> [] \<or>
            pr_BaseCommit req \<noteq> []
      in case (if filtered then preloadFilterActionIDs E s req else Inr (None, [])) of
           Inl e \<Rightarrow> (Inl e, s)
         | Inr (flt, _) \<Rightarrow>
             (case preloadEntries E s maxSize flt (ls_index s) of (its, s') \<Rightarrow> (Inr its, s')))"

section \<open>Integrity check\<close>

definition verifyOutput :: "env \<Rightarrow> lstore \<Rightarrow> lentry \<Rightarrow> go_error option" where
  "verifyOutput E s ie =
     (let item = \<lparr>ri_ActionID = [], ri_Miss = False, ri_OutputID = le_OutputID ie, ri_Size = le_Size ie,
            ri_Time = None, ri_IsCompressed = (le_Compressed ie = 1), ri_WireSize = le_WireSize ie,
            ri_DiskPath = (if le_PoolPage ie \<noteq> 0 then [] else outputPathForRead E s (le_OutputID ie)),
            ri_body = (if le_PoolPage ie \<noteq> 0 then PoolReader (entryStoredSizeL ie) (locL ie)
              else NilReader)\<rparr>
      in case ri_uncompressedBodyReader E (ls_disk s) (ls_pool s) item of
           Inl e \<Rightarrow> Some (ErrWrap ''open'' e)
         | Inr None \<Rightarrow>
             (if le_Size ie \<noteq> 0 then Some (ErrMsg ''missing body for non-empty entry'') else None)
         | Inr (Some (b, Some e)) \<Rightarrow> Some (ErrWrap ''read/decompress'' e)
         | Inr (Some (b, None)) \<Rightarrow>
             (if int (length b) \<noteq> le_Size ie then Some (ErrMsg ''size mismatch'') else None))"

definition removeIfUnchanged :: "env \<Rightarrow> lstore \<Rightarrow> string \<Rightarrow> lentry \<Rightarrow> bool \<times> lstore" where
  "removeIfUnchanged E s actionID expected =
     (if map_of (ls_index s) actionID \<noteq> Some expected then (False, s)
      else (True, dropAction E s actionID (le_OutputID expected)))"

text \<open>The loop over the snapshot; \<open>verified\<close> remembers the outcome per output.\<close>

fun checkEntries ::
  "env \<Rightarrow> bool \<Rightarrow> (string \<times> go_error option) list \<Rightarrow> lstore \<Rightarrow> (string \<times> lentry) list \<Rightarrow>
     integrityReport \<Rightarrow> integrityReport \<times> lstore" where
  "checkEntries E dryRun verified s [] rep = (rep, s)"
| "checkEntries E dryRun verified s ((a, ie) # kvs) rep =
     (let rep1 = rep\<lparr>ir_Checked := ir_Checked rep + 1\<rparr>;
          r = (case map_of verified (le_OutputID ie) of
              Some r \<Rightarrow> r | None \<Rightarrow> verifyOutput E s ie);
          verified' = AList.update (le_OutputID ie) r verified
      in case r of
           None \<Rightarrow> checkEntries E dryRun verified' s kvs rep1
         | Some e \<Rightarrow>
             (case (if dryRun then (False, s) else removeIfUnchanged E s a ie) of
                (removed, s') \<Rightarrow>
                  checkEntries E dryRun verified' s' kvs
                    (rep1\<lparr>ir_Broken := ir_Broken rep1 @
                       [\<lparr>ire_ActionID = a, ire_OutputID = le_OutputID ie, ire_Size = le_Size ie,
                         ire_WireSize = le_WireSize ie, ire_Error = e, ire_Removed = removed\<rparr>]\<rparr>)))"

definition IntegrityCheck :: "env \<Rightarrow> lstore \<Rightarrow> bool \<Rightarrow> integrityReport \<times> lstore" where
  "IntegrityCheck E s dryRun =
     checkEntries E dryRun [] s (ls_index s) \<lparr>ir_Checked = 0, ir_Broken = [], ir_DryRun = dryRun\<rparr>"

definition HasEntries :: "lstore \<Rightarrow> bool" where
  "HasEntries s = (ls_index s \<noteq> [])"

section \<open>Opening, closing and housekeeping\<close>

definition outputFileSize :: "env \<Rightarrow> lstore \<Rightarrow> lentry \<Rightarrow> int result" where
  "outputFileSize E s ie =
     (case statFile E (ls_disk s) (outputPathForRead E s (le_OutputID ie)) of
        Inr f \<Rightarrow> Inr (int (length (content f)))
      | Inl e \<Rightarrow> (if isNotExist e then Inr (entryStoredSizeL ie) else Inl (ErrWrap ''stat output'' e)))"

text \<open>The pass over the index. The outputs seen are those with a reference.\<close>

fun rebuildEntries :: "env \<Rightarrow> lstore \<Rightarrow> (string \<times> lentry) list \<Rightarrow> lstore result" where
  "rebuildEntries E s [] = Inr s"
| "rebuildEntries E s ((a, ie) # kvs) =
     (let sz = entryStoredSizeL ie; l = locL ie; o' = le_OutputID ie in
      if \<not> valid (ls_pool s) sz l then
        rebuildEntries E (s\<lparr>ls_index := AList.delete a (ls_index s), ls_dirty := True\<rparr>) kvs
      else
        (let seen = map_of (outputRefs s) o' \<noteq> None;
             s1 = s\<lparr>outputRefs := AList.update o' (mget0 0 (outputRefs s) o' + 1) (outputRefs s)\<rparr>
         in if seen then rebuildEntries E s1 kvs
            else if isZero l then
              (let s2 = s1\<lparr>ls_pool := noteUnpromoted (ls_pool s1) sz\<rparr> in
               case outputFileSize E s2 ie of
                 Inl e \<Rightarrow> Inl e
               | Inr fileSize \<Rightarrow>
                   rebuildEntries E (s2\<lparr>outputSizes := AList.update o' fileSize (outputSizes s2),
                     ls_currentDiskBytes := ls_currentDiskBytes s2 + fileSize\<rparr>) kvs)
            else
              rebuildEntries E (s1\<lparr>ls_pool := noteOccupied (ls_pool s1) sz l,
                outputLocs := AList.update o' l (outputLocs s1),
                outputSizes := AList.update o' sz (outputSizes s1),
                ls_currentDiskBytes := ls_currentDiskBytes s1 + sz\<rparr>) kvs))"

definition rebuildStorageState :: "env \<Rightarrow> lstore \<Rightarrow> lstore result" where
  "rebuildStorageState E s =
     (case discoverPages (ls_pool s) (listErr E (joinPath [ls_dir s, ''records'']))
         (\<lambda>name. readErr E (joinPath [ls_dir s, ''records'', name])) of
        (Inl e, p) \<Rightarrow> Inl e
      | (Inr _, p) \<Rightarrow>
          (case rebuildEntries E (s\<lparr>ls_pool := p\<rparr>) (ls_index s) of
             Inl e \<Rightarrow> Inl e
           | Inr s1 \<Rightarrow> Inr (s1\<lparr>ls_pool := finishReconcile (ls_pool s1)\<rparr>)))"

text \<open>\<open>NewStore\<close>: \<open>s0\<close> has the options, the files and no entries, \<open>saved\<close> is what reading and decoding
  \<open>index.json\<close> gave.\<close>

definition NewStoreL :: "env \<Rightarrow> lstore \<Rightarrow> (string \<times> lentry) list result \<Rightarrow> lstore result" where
  "NewStoreL E s0 saved =
     (case saved of
        Inl e \<Rightarrow> Inl (ErrWrap ''read index'' e)
      | Inr idx \<Rightarrow>
          (let keep = (\<lambda>kv. \<not> (0 < ls_maxFileBytes s0 \<and> ls_maxFileBytes s0 < le_Size (snd kv)));
               s1 = s0\<lparr>ls_index := filter keep idx, ls_dirty := ls_dirty s0 \<or> (\<exists>kv \<in> set idx. \<not> keep kv)\<rparr>
           in case rebuildStorageState E s1 of
                Inl e \<Rightarrow> Inl e
              | Inr s2 \<Rightarrow> Inr (s2\<lparr>ls_ready := True\<rparr>)))"

definition CloseL :: "env \<Rightarrow> lstore \<Rightarrow> go_error option \<times> lstore" where
  "CloseL E s =
     (if \<not> ls_ready s \<or> \<not> ls_dirty s then (None, s)
      else (case writeErr E (joinPath [ls_dir s, ''index.json'']) of
          Some e \<Rightarrow> (Some e, s)
        | None \<Rightarrow> (None, s\<lparr>ls_savedIndex := Some (ls_index s), ls_dirty := False\<rparr>)))"

definition listManifestFilesL :: "env \<Rightarrow> fs \<Rightarrow> path \<Rightarrow> path list result" where
  "listManifestFilesL E d root =
     (case listErr E root of
        Some e \<Rightarrow> (if isNotExist e then Inr [] else Inl e)
      | None \<Rightarrow> Inr (filter (\<lambda>p. \<not> hasSuffix p ''.tmp'') (walkFiles d root)))"

fun collectStaleL :: "env \<Rightarrow> int \<Rightarrow> fs \<Rightarrow> path list \<Rightarrow> fs" where
  "collectStaleL E cutoff d [] = d"
| "collectStaleL E cutoff d (p # ps) =
     (case statFile E d p of
        Inl _ \<Rightarrow> collectStaleL E cutoff d ps
      | Inr f \<Rightarrow> (if cutoff < mtime f then collectStaleL E cutoff d ps
                 else collectStaleL E cutoff (snd (removeIfExists E d p)) ps))"

definition collectStaleManifestsL :: "env \<Rightarrow> lstore \<Rightarrow> lstore" where
  "collectStaleManifestsL E s =
     (if ls_manifestMaxAge s \<le> 0 then s
      else (case listManifestFilesL E (ls_disk s) (joinPath [ls_dir s, ''manifests'']) of
          Inl _ \<Rightarrow> s
        | Inr fls \<Rightarrow> s\<lparr>ls_disk := collectStaleL E (now E - ls_manifestMaxAge s) (ls_disk s) fls\<rparr>))"

text \<open>The goroutine that \<open>scheduleEvictionLocked\<close> starts, after its delay.\<close>

definition scheduledEvictionL :: "env \<Rightarrow> lstore \<Rightarrow> lstore" where
  "scheduledEvictionL E s =
     collectStaleManifestsL E (evictIfNeededL E (s\<lparr>ls_evictionScheduled := False\<rparr>))"

definition formatInt :: "int \<Rightarrow> string" where
  "formatInt n = (if n < 0 then ''-'' @ dec (nat (- n)) else dec (nat n))"

definition StatsL :: "lstore \<Rightarrow> (string \<times> string) list" where
  "StatsL s =
     [(''hits'', formatInt (ls_hits s)), (''misses'', formatInt (ls_misses s)),
      (''puts'', formatInt (ls_puts s)), (''putsExist'', formatInt (ls_putsExist s)),
      (''putsCompleted'', formatInt (ls_putsCompleted s)),
      (''index'', formatInt (int (length (ls_index s)))), (''diskBytes'', formatInt (ls_currentDiskBytes s)),
      (''maxDiskBytes'', formatInt (ls_maxDiskBytes s)),
      (''uniqueOutputFiles'', formatInt (int (length (outputRefs s)))),
      (''evictionScheduled'', if ls_evictionScheduled s then ''true'' else ''false''),
      (''errors'', formatInt (ls_errors s))]"

end
