(* ===== verification/Http_Server.thy ===== *)
theory Http_Server
  imports Local_Store Gocache_Store Wire_Format
begin

text \<open>
  The state of the HTTP server (\<open>internal/http/handler.go\<close>, \<open>settings.go\<close>, \<open>sessions_jsonl.go\<close>,
  \<open>index.go\<close>, \<open>status.go\<close>) and what it does besides serving the stores: authorization, client
  sessions, settings, the combined disk budget, the trimming of preloads, recovered panics.

  \<open>encoding/json\<close> is a record of functions, one per type the server reads or writes. The server's own
  two files are in \<open>h_files\<close>. Times are microseconds. Log lines leave no trace, and a duration the
  handler measures is part of the request.
\<close>

section \<open>Requests and replies\<close>

text \<open>Headers and query parameters are total: a missing one is the empty string.\<close>

record httpRequest =
  rq_method :: string
  rq_path :: string
  rq_header :: "string \<Rightarrow> string"
  rq_query :: "string \<Rightarrow> string"
  rq_basicAuth :: "string option"
  rq_body :: reader
  rq_elapsed :: int

text \<open>A value inside a line of \<open>sessions.jsonl\<close>; \<open>JMillis\<close> is a number of seconds with three decimals.\<close>

datatype jval = JStr string | JInt int | JMillis int | JOther string

text \<open>Rows of the status page.\<close>

record clientSessionView =
  vw_Status :: string
  vw_Version :: string
  vw_Ref :: string
  vw_JobURL :: string
  vw_BuildType :: string
  vw_StartedAt :: int
  vw_PreloadBytes :: int
  vw_PreloadTime :: int
  vw_PreloadSource :: string
  vw_FinalizeBytes :: int
  vw_FinalizeTime :: int
  vw_SessionTime :: int
  vw_lastSeen :: int

record overrideRow =
  ov_BuildType :: string
  ov_MaxPreloadTotalBytes :: string
  ov_MaxFileBytes :: string

text \<open>The data the template of the page gets; times and durations are not formatted.\<close>

record statusPage =
  sp_Sections :: "(string \<times> (string \<times> string) list) list"
  sp_CombinedBudget :: string
  sp_Overrides :: "overrideRow list"
  sp_Sessions :: "clientSessionView list"
  sp_PanicCount :: int
  sp_PanicMessage :: "go_error option"
  sp_PanicAt :: int
  sp_SessionsJSONL :: bool

text \<open>A body is the bytes, or the value that is encoded as JSON.\<close>

datatype reply_body =
    NoBody
  | ErrorBody go_error
  | Octets bytes
  | ItemsJson "cacheItem list"
  | PathsJson "string list"
  | ClearJson clearStats
  | InspectJson inspectStats
  | KeysJson "keyInspection list"
  | IntegrityJson integrityReport
  | SettingsJson "(string \<times> int) list"
  | StatusJson "(string \<times> (string \<times> string) list) list"
  | StatusPage statusPage

record reply =
  rp_status :: int
  rp_header :: "(string \<times> string) list"
  rp_body :: reply_body
  rp_panic :: "go_error option" \<comment> \<open>the panic that ended the handler\<close>

fun isPanic :: "go_error \<Rightarrow> bool" where
  "isPanic (ErrPanic _) = True"
| "isPanic (ErrWrap _ e) = isPanic e"
| "isPanic _ = False"

definition httpError :: "int \<Rightarrow> go_error \<Rightarrow> reply" where
  "httpError code e = \<lparr>rp_status = code, rp_header = [], rp_body = ErrorBody e,
     rp_panic = (if isPanic e then Some e else None)\<rparr>"

definition noContent :: reply where
  "noContent = \<lparr>rp_status = 204, rp_header = [], rp_body = NoBody, rp_panic = None\<rparr>"

definition jsonReply :: "reply_body \<Rightarrow> reply" where
  "jsonReply b = \<lparr>rp_status = 200, rp_header = [(''Content-Type'', ''application/json'')], rp_body = b,
     rp_panic = None\<rparr>"

section \<open>The state\<close>

record clientSession =
  cs_Version :: string
  cs_ChangesID :: string
  cs_Commit :: string
  cs_BuildType :: string
  cs_JobURL :: string
  cs_PreloadBytes :: int
  cs_PreloadTime :: int
  cs_PreloadSource :: string
  cs_FinalizeBytes :: int
  cs_FinalizeTime :: int
  cs_Done :: bool
  cs_FirstSeen :: int
  cs_LastSeen :: int
  cs_DoneAt :: int
  cs_Extra :: "(string \<times> jval) list"

record serverSettings =
  MaxPreloadTotalBytesByBuildType :: "(string \<times> int) list"
  MaxFileBytesByBuildType :: "(string \<times> int) list"

text \<open>
  A save session: the state of the goroutine that reads the pipe, and the counters. \<open>Feeding\<close> holds the
  bytes of the pipe that do not yet make a whole item and the paths saved so far; \<open>Ended\<close> is the
  result that waits in the channel \<open>done\<close>.\<close>

datatype saver = Feeding bytes "string list" | Ended "go_error option"

record saveCacheSession =
  sv_request :: request
  sv_state :: saver
  sv_startedAt :: int
  sv_chunks :: int
  sv_bytes :: int

record handler =
  h_store :: lstore
  gocacheStore :: "store option"
  authToken :: string
  fallbackAuthToken :: string
  preloadLimit :: int
  saveSessions :: "(string \<times> saveCacheSession) list"
  preloadInFlight :: int
  preloadStarted :: int
  preloadCompleted :: int
  clientSessions :: "(string \<times> clientSession) list"
  combinedMaxDiskBytes :: int
  panicCount :: int
  lastPanicMessage :: "go_error option"
  lastPanicAt :: int
  sessionsJSONLPath :: path
  settingsPath :: path
  settings :: serverSettings
  h_files :: fs

record codec =
  dec_actionIDs :: "bytes \<Rightarrow> string list result"
  dec_preload :: "bytes \<Rightarrow> preloadRequest result"
  dec_paths :: "bytes \<Rightarrow> string list result"
  dec_extra :: "bytes \<Rightarrow> (string \<times> jval) list result"
  enc_items :: "cacheItem list \<Rightarrow> bytes result"
  dec_items :: "bytes \<Rightarrow> cacheItem list result"
  enc_file :: "fileItem \<Rightarrow> bytes result"
  dec_file :: "bytes \<Rightarrow> fileItem result"
  enc_line :: "(string \<times> jval) list \<Rightarrow> bytes result"
  dec_line :: "bytes \<Rightarrow> (string \<times> jval) list result"
  enc_settings :: "serverSettings \<Rightarrow> bytes result"
  dec_settings :: "bytes \<Rightarrow> serverSettings result"
  moduleVersion :: bytes \<comment> \<open>\<open>version.Module\<close> of the package \<open>bool64/dev\<close>\<close>

section \<open>Authorization\<close>

definition bearer :: string where "bearer = ''Bearer ''"

definition authorized :: "handler \<Rightarrow> httpRequest \<Rightarrow> bool" where
  "authorized h r =
     (if authToken h = [] then True
      else (let auth = rq_header r ''Authorization'' in
        if \<not> prefix bearer auth then False
        else (let token = trimSpace (drop (length bearer) auth) in
          token = authToken h \<or> fallbackAuthToken h \<noteq> [] \<and> token = fallbackAuthToken h)))"

definition basicAuthorized :: "handler \<Rightarrow> httpRequest \<Rightarrow> bool" where
  "basicAuthorized h r =
     (if authToken h = [] then True
      else (case rq_basicAuth r of
          None \<Rightarrow> False
        | Some pass \<Rightarrow> pass = authToken h \<or> fallbackAuthToken h \<noteq> [] \<and> pass = fallbackAuthToken h))"

section \<open>Numbers in requests\<close>

definition intDigits :: "string \<Rightarrow> int result" where
  "intDigits s =
     (if s \<noteq> [] \<and> list_all is_digit s then Inr (int (undec s)) else Inl (ErrMsg ''invalid syntax''))"

definition int64Range :: "int \<Rightarrow> int result" where
  "int64Range n =
     (if - (2 ^ 63) \<le> n \<and> n < 2 ^ 63 then Inr n else Inl (ErrMsg ''value out of range''))"

text \<open>\<open>strconv.ParseInt(s, 10, 64)\<close>.\<close>

definition parseInt64 :: "string \<Rightarrow> int result" where
  "parseInt64 s =
     (case s of
        CHR ''-'' # ds \<Rightarrow> (case intDigits ds of Inl e \<Rightarrow> Inl e | Inr n \<Rightarrow> int64Range (- n))
      | CHR ''+'' # ds \<Rightarrow> (case intDigits ds of Inl e \<Rightarrow> Inl e | Inr n \<Rightarrow> int64Range n)
      | _ \<Rightarrow> (case intDigits s of Inl e \<Rightarrow> Inl e | Inr n \<Rightarrow> int64Range n))"

definition queryInt :: "httpRequest \<Rightarrow> string \<Rightarrow> int" where
  "queryInt r k =
     (let raw = trimSpace (rq_query r k) in
      if raw = [] then 0 else (case parseInt64 raw of Inl _ \<Rightarrow> 0 | Inr n \<Rightarrow> n))"

definition parseGOCACHERequest :: "httpRequest \<Rightarrow> request" where
  "parseGOCACHERequest r =
     \<lparr>Commit = trimSpace (rq_query r ''commit''), ChangesID = trimSpace (rq_query r ''changes-id''),
      BuildType = trimSpace (rq_query r ''build-type''),
      BaseCommit = trimSpace (rq_query r ''base-commit''),
      ParentCommit = trimSpace (rq_query r ''parent-commit''),
      MaxFileBytes = queryInt r ''max-file-bytes'',
      MaxPreloadTotalBytes = queryInt r ''max-preload-total-bytes''\<rparr>"


section \<open>Client sessions\<close>

definition sessionIdleTimeout :: int where "sessionIdleTimeout = 600000000"

definition doneSessionRetention :: int where "doneSessionRetention = 86400000000"

definition sessionRetention :: int where "sessionRetention = sessionIdleTimeout + doneSessionRetention"

definition sessionExpired :: "clientSession \<Rightarrow> int \<Rightarrow> bool" where
  "sessionExpired cs t =
     (if cs_Done cs then doneSessionRetention < t - cs_DoneAt cs
      else sessionRetention < t - cs_LastSeen cs)"

definition pruneSessions :: "int \<Rightarrow> (string \<times> clientSession) list \<Rightarrow> (string \<times> clientSession) list" where
  "pruneSessions t m = filter (\<lambda>(_, cs). \<not> sessionExpired cs t) m"

definition newSession :: "int \<Rightarrow> clientSession" where
  "newSession t =
     \<lparr>cs_Version = [], cs_ChangesID = [], cs_Commit = [], cs_BuildType = [], cs_JobURL = [],
      cs_PreloadBytes = 0, cs_PreloadTime = 0, cs_PreloadSource = [], cs_FinalizeBytes = 0,
      cs_FinalizeTime = 0, cs_Done = False, cs_FirstSeen = t, cs_LastSeen = 0, cs_DoneAt = 0,
      cs_Extra = []\<rparr>"

definition sessionRef :: "clientSession \<Rightarrow> string" where
  "sessionRef cs = (if cs_ChangesID cs \<noteq> [] then cs_ChangesID cs else cs_Commit cs)"

text \<open>Seconds rounded to milliseconds, half away from zero.\<close>

definition roundSeconds :: "int \<Rightarrow> int" where
  "roundSeconds d = (if d < 0 then - ((500 - d) div 1000) else (d + 500) div 1000)"

definition secondsToDuration :: "int \<Rightarrow> int" where "secondsToDuration ms = ms * 1000"

definition unixSeconds :: "int \<Rightarrow> int" where "unixSeconds t = t div 1000000"

definition omitEmpty :: "string \<Rightarrow> string \<Rightarrow> (string \<times> jval) list" where
  "omitEmpty k v = (if v = [] then [] else [(k, JStr v)])"

text \<open>The JSON object of a \<open>sessionsJSONLRecord\<close>; fields marked \<open>omitempty\<close> are left out when empty.\<close>

definition sessionsJSONLRecord :: "string \<Rightarrow> string \<Rightarrow> int \<Rightarrow> clientSession \<Rightarrow> (string \<times> jval) list" where
  "sessionsJSONLRecord event sid t cs =
     [(''event'', JStr event), (''timestamp'', JInt (unixSeconds t)), (''session_id'', JStr sid),
      (''started_at'', JInt (unixSeconds (cs_FirstSeen cs))),
      (''status'', JStr (if cs_Done cs then ''done'' else ''in progress''))] @
     omitEmpty ''version'' (cs_Version cs) @ omitEmpty ''ref'' (sessionRef cs) @
     omitEmpty ''build_type'' (cs_BuildType cs) @ omitEmpty ''job_url'' (cs_JobURL cs) @
     [(''preload_bytes'', JInt (cs_PreloadBytes cs)),
      (''preload_time_s'', JMillis (roundSeconds (cs_PreloadTime cs)))] @
     omitEmpty ''preload_source'' (cs_PreloadSource cs) @
     [(''finalize_bytes'', JInt (cs_FinalizeBytes cs)),
      (''finalize_time_s'', JMillis (roundSeconds (cs_FinalizeTime cs))),
      (''session_time_s'',
       JMillis (roundSeconds (if cs_Done cs then cs_DoneAt cs - cs_FirstSeen cs else 0)))]"

text \<open>\<open>appendJSONLLine\<close> adds the extra keys the record does not have, and opens the file for one write.\<close>

definition mergeExtra :: "(string \<times> jval) list \<Rightarrow> (string \<times> jval) list \<Rightarrow> (string \<times> jval) list" where
  "mergeExtra rec extra = rec @ filter (\<lambda>(k, _). map_of rec k = None) extra"

definition appendFile :: "env \<Rightarrow> fs \<Rightarrow> path \<Rightarrow> bytes \<Rightarrow> go_error option \<times> fs" where
  "appendFile E fs p data =
     (case writeErr E p of
        Some e \<Rightarrow> (Some e, fs)
      | None \<Rightarrow>
          (None, (case map_of fs p of
             None \<Rightarrow> AList.update p \<lparr>content = data, mtime = now E, fmode = 384\<rparr> fs
           | Some f \<Rightarrow> AList.update p (f\<lparr>content := content f @ data, mtime := now E\<rparr>) fs)))"

definition appendJSONLLine ::
  "codec \<Rightarrow> env \<Rightarrow> fs \<Rightarrow> path \<Rightarrow> (string \<times> jval) list \<Rightarrow> (string \<times> jval) list \<Rightarrow> go_error option \<times> fs" where
  "appendJSONLLine J E fs p rec extra =
     (case enc_line J (mergeExtra rec extra) of
        Inl e \<Rightarrow> (Some e, fs)
      | Inr data \<Rightarrow> appendFile E fs p (data @ [nl]))"

definition appendSessionsJSONL :: "codec \<Rightarrow> env \<Rightarrow> handler \<Rightarrow> string \<Rightarrow> string \<Rightarrow> clientSession \<Rightarrow> handler" where
  "appendSessionsJSONL J E h event sid cs =
     (if sessionsJSONLPath h = [] then h
      else h\<lparr>h_files := snd (appendJSONLLine J E (h_files h) (sessionsJSONLPath h)
                                 (sessionsJSONLRecord event sid (now E) cs) (cs_Extra cs))\<rparr>)"

definition headerOr :: "httpRequest \<Rightarrow> string \<Rightarrow> string \<Rightarrow> string" where
  "headerOr r k old = (if rq_header r k \<noteq> [] then rq_header r k else old)"

definition sessionID :: "httpRequest \<Rightarrow> string" where
  "sessionID r = rq_header r ''X-Gocacheprog-Session-Id''"

definition touchSession :: "codec \<Rightarrow> env \<Rightarrow> handler \<Rightarrow> httpRequest \<Rightarrow> handler" where
  "touchSession J E h r =
     (let sid = sessionID r in
      if sid = [] then h
      else (let live = pruneSessions (now E) (clientSessions h);
                isNew = (map_of live sid = None);
                cs = (case map_of live sid of None \<Rightarrow> newSession (now E) | Some c \<Rightarrow> c);
                cs' = cs\<lparr>cs_LastSeen := now E,
                         cs_Version := headerOr r ''X-Gocacheprog-Client-Version'' (cs_Version cs),
                         cs_Commit := headerOr r ''X-Gocacheprog-Commit'' (cs_Commit cs),
                         cs_ChangesID := headerOr r ''X-Gocacheprog-Changes'' (cs_ChangesID cs),
                         cs_BuildType := headerOr r ''X-Gocacheprog-Build-Type'' (cs_BuildType cs),
                         cs_JobURL := headerOr r ''X-Gocacheprog-Job-Url'' (cs_JobURL cs)\<rparr>;
                h' = h\<lparr>clientSessions := AList.update sid cs' live\<rparr>
            in if isNew then appendSessionsJSONL J E h' ''started'' sid cs' else h'))"

definition updateSession :: "handler \<Rightarrow> httpRequest \<Rightarrow> (clientSession \<Rightarrow> clientSession) \<Rightarrow> handler" where
  "updateSession h r f =
     (case map_of (clientSessions h) (sessionID r) of
        None \<Rightarrow> h
      | Some cs \<Rightarrow> (if sessionID r = [] then h
          else h\<lparr>clientSessions := AList.update (sessionID r) (f cs) (clientSessions h)\<rparr>))"

definition recordSessionPreload :: "handler \<Rightarrow> httpRequest \<Rightarrow> int \<Rightarrow> int \<Rightarrow> string \<Rightarrow> handler" where
  "recordSessionPreload h r wireBytes dur sources =
     updateSession h r (\<lambda>cs. cs\<lparr>cs_PreloadBytes := cs_PreloadBytes cs + wireBytes,
       cs_PreloadTime := cs_PreloadTime cs + dur,
       cs_PreloadSource := (if sources \<noteq> [] then sources else cs_PreloadSource cs)\<rparr>)"

definition recordSessionFinalize :: "handler \<Rightarrow> httpRequest \<Rightarrow> int \<Rightarrow> int \<Rightarrow> handler" where
  "recordSessionFinalize h r wireBytes dur =
     updateSession h r (\<lambda>cs. cs\<lparr>cs_FinalizeBytes := cs_FinalizeBytes cs + wireBytes,
       cs_FinalizeTime := cs_FinalizeTime cs + dur\<rparr>)"

definition markSessionDone :: "codec \<Rightarrow> env \<Rightarrow> handler \<Rightarrow> httpRequest \<Rightarrow> (string \<times> jval) list \<Rightarrow> handler" where
  "markSessionDone J E h r extra =
     (let sid = sessionID r in
      if sid = [] then h
      else (case map_of (clientSessions h) sid of
          None \<Rightarrow> h
        | Some cs \<Rightarrow>
            (let cs' = cs\<lparr>cs_Done := True, cs_DoneAt := now E, cs_Extra := extra\<rparr> in
             appendSessionsJSONL J E (h\<lparr>clientSessions := AList.update sid cs' (clientSessions h)\<rparr>)
               ''done'' sid cs')))"


text \<open>The rows of the status page, most recently active first, and the pruned map.\<close>

definition sessionView :: "int \<Rightarrow> clientSession \<Rightarrow> clientSessionView" where
  "sessionView t cs =
     \<lparr>vw_Status = (if cs_Done cs then ''done''
        else if t - cs_LastSeen cs \<le> sessionIdleTimeout then ''in progress'' else ''idle''),
      vw_Version = cs_Version cs, vw_Ref = sessionRef cs, vw_JobURL = cs_JobURL cs,
      vw_BuildType = cs_BuildType cs, vw_StartedAt = cs_FirstSeen cs,
      vw_PreloadBytes = cs_PreloadBytes cs, vw_PreloadTime = cs_PreloadTime cs,
      vw_PreloadSource = cs_PreloadSource cs, vw_FinalizeBytes = cs_FinalizeBytes cs,
      vw_FinalizeTime = cs_FinalizeTime cs,
      vw_SessionTime = (if cs_Done cs then cs_DoneAt cs else t) - cs_FirstSeen cs,
      vw_lastSeen = cs_LastSeen cs\<rparr>"

definition clientSessionsSnapshot :: "env \<Rightarrow> handler \<Rightarrow> clientSessionView list \<times> handler" where
  "clientSessionsSnapshot E h =
     (let live = pruneSessions (now E) (clientSessions h) in
      (sort_key (\<lambda>v. - vw_lastSeen v) (map (\<lambda>(_, cs). sessionView (now E) cs) live),
       h\<lparr>clientSessions := live\<rparr>))"

text \<open>
  Reloading the sessions at startup from the last part of \<open>sessions.jsonl\<close>. Scanning stops for good at
  a line of a megabyte. A line that is no record is skipped.\<close>

fun jstr :: "(string \<times> jval) list \<Rightarrow> string \<Rightarrow> string" where
  "jstr m k = (case map_of m k of Some (JStr s) \<Rightarrow> s | _ \<Rightarrow> [])"

fun jint :: "(string \<times> jval) list \<Rightarrow> string \<Rightarrow> int" where
  "jint m k = (case map_of m k of Some (JInt n) \<Rightarrow> n | _ \<Rightarrow> 0)"

fun jmillis :: "(string \<times> jval) list \<Rightarrow> string \<Rightarrow> int" where
  "jmillis m k = (case map_of m k of Some (JMillis n) \<Rightarrow> n | Some (JInt n) \<Rightarrow> n * 1000 | _ \<Rightarrow> 0)"

definition sessionOfRecord :: "(string \<times> jval) list \<Rightarrow> clientSession" where
  "sessionOfRecord rec =
     (let t = jint rec ''timestamp'' * 1000000; isDone = (jstr rec ''status'' = ''done'') in
     \<lparr>cs_Version = jstr rec ''version'', cs_ChangesID = jstr rec ''ref'', cs_Commit = [],
      cs_BuildType = jstr rec ''build_type'', cs_JobURL = jstr rec ''job_url'',
      cs_PreloadBytes = jint rec ''preload_bytes'',
      cs_PreloadTime = secondsToDuration (jmillis rec ''preload_time_s''),
      cs_PreloadSource = jstr rec ''preload_source'',
      cs_FinalizeBytes = jint rec ''finalize_bytes'',
      cs_FinalizeTime = secondsToDuration (jmillis rec ''finalize_time_s''),
      cs_Done = isDone, cs_FirstSeen = jint rec ''started_at'' * 1000000, cs_LastSeen = t,
      cs_DoneAt = (if isDone then t else 0), cs_Extra = []\<rparr>)"

fun readSessions :: "codec \<Rightarrow> string list \<Rightarrow> (string \<times> clientSession) list \<Rightarrow> (string \<times> clientSession) list" where
  "readSessions J [] m = m"
| "readSessions J (l # ls) m =
     (case dec_line J l of
        Inl _ \<Rightarrow> readSessions J ls m
      | Inr rec \<Rightarrow>
          (if jstr rec ''session_id'' = [] then readSessions J ls m
           else readSessions J ls (AList.update (jstr rec ''session_id'') (sessionOfRecord rec) m)))"

definition sessionsJSONLTailBytes :: int where "sessionsJSONLTailBytes = 500000"

definition tailLines :: "bytes \<Rightarrow> string list" where
  "tailLines data =
     (let n = int (length data);
          off = (if sessionsJSONLTailBytes < n then n - sessionsJSONLTailBytes else 0);
          ls = map drop_cr (takeWhile (\<lambda>l. int (length l) < 1048576) (raw_lines (drop (nat off) data)))
      in if 0 < off then tl ls else ls)"

definition loadRecentSessions :: "codec \<Rightarrow> env \<Rightarrow> handler \<Rightarrow> handler" where
  "loadRecentSessions J E h =
     (if sessionsJSONLPath h = [] then h
      else (case readFile E (h_files h) (sessionsJSONLPath h) of
          Inl _ \<Rightarrow> h
        | Inr data \<Rightarrow>
            h\<lparr>clientSessions := foldl (\<lambda>m (sid, cs). AList.update sid cs m) (clientSessions h)
                 (pruneSessions (now E) (readSessions J (tailLines data) []))\<rparr>))"

section \<open>Settings\<close>

definition loadSettings :: "codec \<Rightarrow> env \<Rightarrow> handler \<Rightarrow> handler" where
  "loadSettings J E h =
     (if settingsPath h = [] then h
      else (case readFile E (h_files h) (settingsPath h) of
          Inl _ \<Rightarrow> h
        | Inr data \<Rightarrow>
            (case dec_settings J data of Inl _ \<Rightarrow> h | Inr s \<Rightarrow> h\<lparr>settings := s\<rparr>)))"

definition maxPreloadTotalBytesFor :: "handler \<Rightarrow> string \<Rightarrow> int" where
  "maxPreloadTotalBytesFor h bt = mget0 0 (MaxPreloadTotalBytesByBuildType (settings h)) bt"

definition maxFileBytesFor :: "handler \<Rightarrow> string \<Rightarrow> int" where
  "maxFileBytesFor h bt = mget0 0 (MaxFileBytesByBuildType (settings h)) bt"

definition setOverride :: "(string \<times> int) list \<Rightarrow> string \<Rightarrow> int \<Rightarrow> (string \<times> int) list" where
  "setOverride m bt n = (if n \<le> 0 then AList.delete bt m else AList.update bt n m)"

definition writeFileAtomic :: "env \<Rightarrow> fs \<Rightarrow> path \<Rightarrow> bytes \<Rightarrow> nat \<Rightarrow> go_error option \<times> fs" where
  "writeFileAtomic E fs p data mode =
     (case writeRename E fs p data mode of
        (Some e, fs') \<Rightarrow> (Some (ErrWrap ''write temp settings file'' e), fs')
      | (None, fs') \<Rightarrow> (None, fs'))"

text \<open>The end of \<open>setBuildTypeInt64\<close>: the settings are in effect even when they cannot be written.\<close>

definition saveSettings :: "codec \<Rightarrow> env \<Rightarrow> handler \<Rightarrow> go_error option \<times> handler" where
  "saveSettings J E h =
     (if settingsPath h = [] then (None, h)
      else (case enc_settings J (settings h) of
          Inl e \<Rightarrow> (Some (ErrWrap ''marshal settings'' e), h)
        | Inr data \<Rightarrow>
            (case writeFileAtomic E (h_files h) (settingsPath h) data 384 of
               (r, fs) \<Rightarrow> (r, h\<lparr>h_files := fs\<rparr>))))"

definition setMaxPreloadTotalBytes :: "codec \<Rightarrow> env \<Rightarrow> handler \<Rightarrow> string \<Rightarrow> int \<Rightarrow> go_error option \<times> handler" where
  "setMaxPreloadTotalBytes J E h bt n =
     saveSettings J E (h\<lparr>settings := (settings h)\<lparr>MaxPreloadTotalBytesByBuildType :=
       setOverride (MaxPreloadTotalBytesByBuildType (settings h)) bt n\<rparr>\<rparr>)"

definition setMaxFileBytes :: "codec \<Rightarrow> env \<Rightarrow> handler \<Rightarrow> string \<Rightarrow> int \<Rightarrow> go_error option \<times> handler" where
  "setMaxFileBytes J E h bt n =
     saveSettings J E (h\<lparr>settings := (settings h)\<lparr>MaxFileBytesByBuildType :=
       setOverride (MaxFileBytesByBuildType (settings h)) bt n\<rparr>\<rparr>)"

text \<open>The shared handler of the settings endpoints, and the same parsing behind the status page's form.\<close>

definition buildTypeInt64Settings ::
  "httpRequest \<Rightarrow> handler \<Rightarrow> (string \<times> int) list \<Rightarrow> (string \<Rightarrow> int \<Rightarrow> go_error option \<times> handler) \<Rightarrow>
     reply \<times> handler" where
  "buildTypeInt64Settings r h snapshot setter =
     (if rq_method r = ''GET'' then (jsonReply (SettingsJson snapshot), h)
      else if rq_method r = ''POST'' then
        (let bt = trimSpace (rq_query r ''build-type''); raw = trimSpace (rq_query r ''bytes'') in
         if bt = [] then (httpError 400 (ErrMsg ''build-type is required''), h)
         else (case (if raw = [] then Inr 0 else parseInt64 raw) of
             Inl e \<Rightarrow> (httpError 400 (ErrWrap ''invalid bytes'' e), h)
           | Inr n \<Rightarrow>
               (case setter bt n of
                  (Some e, h') \<Rightarrow> (httpError 500 e, h')
                | (None, h') \<Rightarrow> (noContent, h'))))
      else (httpError 405 (ErrMsg ''method not allowed''), h))"

definition MaxPreloadTotalBytesSettings :: "codec \<Rightarrow> env \<Rightarrow> handler \<Rightarrow> httpRequest \<Rightarrow> reply \<times> handler" where
  "MaxPreloadTotalBytesSettings J E h r =
     buildTypeInt64Settings r h (MaxPreloadTotalBytesByBuildType (settings h)) (setMaxPreloadTotalBytes J E h)"

definition MaxFileBytesSettings :: "codec \<Rightarrow> env \<Rightarrow> handler \<Rightarrow> httpRequest \<Rightarrow> reply \<times> handler" where
  "MaxFileBytesSettings J E h r =
     buildTypeInt64Settings r h (MaxFileBytesByBuildType (settings h)) (setMaxFileBytes J E h)"


section \<open>Trimming a preload\<close>

definition sizeOfItem :: "cacheItem \<Rightarrow> int" where
  "sizeOfItem it = (if 0 < ri_WireSize it then ri_WireSize it else ri_Size it)"

definition preloadTrimBucketMicro :: int where "preloadTrimBucketMicro = 3600000000"

definition bucketOfItem :: "cacheItem \<Rightarrow> int" where
  "bucketOfItem it = (case ri_Time it of None \<Rightarrow> 0 | Some t \<Rightarrow> t sdiv preloadTrimBucketMicro)"

text \<open>The ranking: positions sorted by bucket, then by descending size. Go's sort is not stable, but
  positions of equal rank have equal buckets and sizes.\<close>

definition trimOrder :: "cacheItem list \<Rightarrow> nat list" where
  "trimOrder its = sort_key (\<lambda>i. (bucketOfItem (its ! i), - sizeOfItem (its ! i))) [0..<length its]"

fun dropUntilFits :: "cacheItem list \<Rightarrow> int \<Rightarrow> int \<Rightarrow> nat list \<Rightarrow> nat list" where
  "dropUntilFits its limit tot [] = []"
| "dropUntilFits its limit tot (i # is) =
     (if tot \<le> limit then [] else i # dropUntilFits its limit (tot - sizeOfItem (its ! i)) is)"

definition trimToPreloadBudget :: "cacheItem list \<Rightarrow> int \<Rightarrow> cacheItem list" where
  "trimToPreloadBudget its limit =
     (let tot = sum_list (map sizeOfItem its) in
      if limit \<le> 0 \<or> its = [] \<or> tot \<le> limit then its
      else (let dropped = dropUntilFits its limit tot (trimOrder its) in
        map (\<lambda>i. its ! i) (filter (\<lambda>i. i \<notin> set dropped) [0..<length its])))"

section \<open>The combined disk budget\<close>

text \<open>The interface \<open>diskBudgetStore\<close>: the handler's stores by name, each with its \<open>DiskBytes\<close> and
  \<open>EvictOne\<close>. The slice of stores stays in the order the last sort left it in.\<close>

datatype budget_store = CacheStore | NativeStore

definition diskBudgetStores :: "handler \<Rightarrow> budget_store list" where
  "diskBudgetStores h = CacheStore # (case gocacheStore h of None \<Rightarrow> [] | Some _ \<Rightarrow> [NativeStore])"

fun storeBytes :: "handler \<Rightarrow> budget_store \<Rightarrow> int" where
  "storeBytes h CacheStore = DiskBytesL (h_store h)"
| "storeBytes h NativeStore = (case gocacheStore h of None \<Rightarrow> 0 | Some s \<Rightarrow> DiskBytes s)"

fun storeEvictOne :: "env \<Rightarrow> handler \<Rightarrow> budget_store \<Rightarrow> bool result \<times> handler" where
  "storeEvictOne E h CacheStore = (case EvictOneL E (h_store h) of (b, s) \<Rightarrow> (Inr b, h\<lparr>h_store := s\<rparr>))"
| "storeEvictOne E h NativeStore =
     (case gocacheStore h of None \<Rightarrow> (Inr False, h)
      | Some s \<Rightarrow> (case EvictOne E s of (b, s') \<Rightarrow> (b, h\<lparr>gocacheStore := Some s'\<rparr>)))"

text \<open>\<open>sort.Slice\<close> on at most twelve elements is an insertion sort; there are at most two stores.\<close>

definition byBytes :: "handler \<Rightarrow> budget_store list \<Rightarrow> budget_store list" where
  "byBytes h = sort_key (\<lambda>i. - storeBytes h i)"

fun evictFirst :: "env \<Rightarrow> handler \<Rightarrow> budget_store list \<Rightarrow> bool result \<times> handler" where
  "evictFirst E h [] = (Inr False, h)"
| "evictFirst E h (i # is) =
     (case storeEvictOne E h i of
        (Inl e, h') \<Rightarrow> (Inl e, h')
      | (Inr True, h') \<Rightarrow> (Inr True, h')
      | (Inr False, h') \<Rightarrow> evictFirst E h' is)"

definition combinedBytes :: "handler \<Rightarrow> budget_store list \<Rightarrow> int" where
  "combinedBytes h is = sum_list (map (storeBytes h) is)"


text \<open>What the loop needs of a store: evicting makes it smaller in some measure.\<close>

locale disk_budget_store =
  fixes evict :: "env \<Rightarrow> 's \<Rightarrow> bool result \<times> 's" and weight :: "'s \<Rightarrow> nat"
  assumes evict_less: "evict E s = (Inr True, s') \<Longrightarrow> weight s' < weight s"
    and evict_le: "evict E s = (Inr False, s') \<Longrightarrow> weight s' \<le> weight s"
begin

lemma evict_weight: "evict E s = (Inr b, s') \<Longrightarrow> weight s' + (if b then 1 else 0) \<le> weight s"
  using evict_less [of E s s'] evict_le [of E s s'] by (cases b) auto

end

lemma evictOneLocked_stuck:
  "evictOneLocked E s = (Inr False, s') \<Longrightarrow> length (items (evictHeap s')) \<le> length (items (evictHeap s))"
proof (induction "length (items (evictHeap s))" arbitrary: s rule: less_induct)
  case less
  note e = less.prems [unfolded evictOneLocked.simps [of E s]]
  show ?case
  proof (cases "\<exists>x h. heapPop (evictHeap s) = Inr (Some x, h)")
    case True
    then obtain x h where pop: "heapPop (evictHeap s) = Inr (Some x, h)" by blast
    have len: "length (items h) < length (items (evictHeap s))" using heapPop_shrinks [OF pop] by simp
    then have "evictOneLocked E (s\<lparr>evictHeap := h\<rparr>) = (Inr False, s') \<Longrightarrow> ?thesis"
      using less.hyps [of "s\<lparr>evictHeap := h\<rparr>"] by fastforce
    then show ?thesis using e pop by (auto simp: Let_def split: option.splits if_splits)
  next
    case False
    then show ?thesis
      using e by (auto simp: heapPop_def Let_def split: sum.splits prod.splits option.splits if_splits)
  qed
qed

lemma evictOneL_stuck: "evictOneL E s = (False, s') \<Longrightarrow> s' = s"
  by (auto simp: evictOneL_def split: option.splits)

interpretation local_budget: disk_budget_store
    "\<lambda>E s. case EvictOneL E s of (b, s') \<Rightarrow> (Inr b, s')" "\<lambda>s. length (ls_index s)"
  by unfold_locales
    (auto simp: EvictOneL_def split: prod.splits dest: evictOneL_shrinks evictOneL_stuck)

interpretation native_budget: disk_budget_store EvictOne "\<lambda>s. length (items (evictHeap s))"
  by unfold_locales (auto simp: EvictOne_def dest: evictOneLocked_shrinks evictOneLocked_stuck)

definition evictWeight :: "handler \<Rightarrow> nat" where
  "evictWeight h = length (ls_index (h_store h)) +
     (case gocacheStore h of None \<Rightarrow> 0 | Some s \<Rightarrow> length (items (evictHeap s)))"

lemma storeEvictOne_weight:
  "storeEvictOne E h i = (Inr b, h') \<Longrightarrow> evictWeight h' + (if b then 1 else 0) \<le> evictWeight h"
  using local_budget.evict_weight [of E "h_store h" b] native_budget.evict_weight [of E _ b]
  by (cases i) (fastforce simp: evictWeight_def split: prod.splits option.splits)+

lemma evictFirst_weight:
  "evictFirst E h is = (Inr b, h') \<Longrightarrow> evictWeight h' + (if b then 1 else 0) \<le> evictWeight h"
proof (induction "is" arbitrary: h)
  case (Cons i "is")
  then obtain c h1 where c: "storeEvictOne E h i = (Inr c, h1)" by (auto split: prod.splits sum.splits)
  then show ?case
    using Cons storeEvictOne_weight [OF c] by (cases c) fastforce+
qed simp

function budgetLoop :: "env \<Rightarrow> int \<Rightarrow> budget_store list \<Rightarrow> handler \<Rightarrow> go_error option \<times> handler" where
  "budgetLoop E target is h =
     (if target < combinedBytes h is then
        (let is' = byBytes h is in
         case evictFirst E h is' of
           (Inl e, h') \<Rightarrow> (Some e, h')
         | (Inr b, h') \<Rightarrow> (if b then budgetLoop E target is' h' else (None, h')))
      else (None, h))"
  by pat_completeness auto
termination
  by (relation "measure (\<lambda>(E, t, is, h). evictWeight h)") (auto dest!: evictFirst_weight [OF sym])

declare budgetLoop.simps [simp del]

text \<open>The result is a panic of an eviction, if any.\<close>

definition enforceCombinedBudget :: "env \<Rightarrow> handler \<Rightarrow> go_error option \<times> handler" where
  "enforceCombinedBudget E h =
     (let limit = combinedMaxDiskBytes h; is = diskBudgetStores h in
      if limit \<le> 0 \<or> combinedBytes h is \<le> limit then (None, h)
      else budgetLoop E (limit - limit sdiv evictionMarginFraction) is h)"

section \<open>Panics\<close>

definition recordPanic :: "env \<Rightarrow> handler \<Rightarrow> go_error \<Rightarrow> handler" where
  "recordPanic E h e =
     h\<lparr>panicCount := panicCount h + 1, lastPanicMessage := Some e, lastPanicAt := now E\<rparr>"

section \<open>Status\<close>

text \<open>
  \<open>byteSize\<close> divides a \<open>float64\<close> by a power of two, which is exact, and prints one decimal, rounding to
  even. Only the conversion to \<open>float64\<close> rounds, from \<open>2 ^ 53\<close> on.\<close>

definition halfEven :: "int \<Rightarrow> int \<Rightarrow> int" where
  "halfEven a b =
     (let q = a div b; r = a mod b in if 2 * r < b \<or> 2 * r = b \<and> even q then q else q + 1)"

definition float64OfInt :: "int \<Rightarrow> int" where
  "float64OfInt n =
     (case find (\<lambda>k. n < 2 ^ (53 + k)) [0..<11] of
        None \<Rightarrow> n | Some k \<Rightarrow> halfEven n (2 ^ k) * 2 ^ k)"

definition byteUnits :: "(int \<times> string) list" where
  "byteUnits = [(2 ^ 60, ''EB''), (2 ^ 50, ''PB''), (2 ^ 40, ''TB''), (2 ^ 30, ''GB''), (2 ^ 20, ''MB''),
     (2 ^ 10, ''KB'')]"

definition byteSize :: "int \<Rightarrow> string" where
  "byteSize n =
     (case find (\<lambda>(u, _). u \<le> n) byteUnits of
        None \<Rightarrow> formatInt n @ ''B''
      | Some (u, name) \<Rightarrow>
          (let t = halfEven (10 * float64OfInt n) u in
           formatInt (t div 10) @ (if t mod 10 = 0 then [] else CHR ''.'' # formatInt (t mod 10)) @ name))"

definition augmentStatusStats :: "(string \<times> string) list \<Rightarrow> (string \<times> string) list" where
  "augmentStatusStats st =
     (let st1 = (case map_of st ''diskBytes'' of
           None \<Rightarrow> st
         | Some v \<Rightarrow> AList.delete ''diskBytes''
             (case parseInt64 v of Inl _ \<Rightarrow> st | Inr n \<Rightarrow> AList.update ''storage'' (byteSize n) st))
      in AList.delete ''maxDiskBytes'' st1)"

definition uint64ToInt64 :: "64 word \<Rightarrow> int" where
  "uint64ToInt64 v = (if 2 ^ 63 - 1 < uint v then 2 ^ 63 - 1 else uint v)"

definition handlerStats :: "handler \<Rightarrow> (string \<times> string) list" where
  "handlerStats h =
     [(''preloadInFlight'', formatInt (preloadInFlight h)),
      (''preloadStarted'', formatInt (preloadStarted h)),
      (''preloadCompleted'', formatInt (preloadCompleted h)),
      (''preloadLimit'', formatInt (preloadLimit h)), (''panics'', formatInt (panicCount h))]"

definition buildOverrideRows :: "(string \<times> int) list \<Rightarrow> (string \<times> int) list \<Rightarrow> overrideRow list" where
  "buildOverrideRows preload maxFile =
     map (\<lambda>bt. \<lparr>ov_BuildType = bt,
          ov_MaxPreloadTotalBytes = (case map_of preload bt of None \<Rightarrow> ''-'' | Some v \<Rightarrow> byteSize v),
          ov_MaxFileBytes = (case map_of maxFile bt of None \<Rightarrow> ''-'' | Some v \<Rightarrow> byteSize v)\<rparr>)
       (sort (remdups (mkeys preload @ mkeys maxFile)))"

definition prNumberFromRef :: "string \<Rightarrow> string" where
  "prNumberFromRef ref =
     (case split_on CHR ''#'' ref of
        repo # rest1 # rest \<Rightarrow>
          (let num = drop (length repo + 1) ref in
           if sep \<notin> set repo \<or> num = [] then []
           else (case parseInt64 num of Inl _ \<Rightarrow> [] | Inr _ \<Rightarrow> num))
      | _ \<Rightarrow> [])"

definition jobURLWithPR :: "string \<Rightarrow> string \<Rightarrow> string" where
  "jobURLWithPR jobURL ref =
     (if jobURL = [] then []
      else (let num = prNumberFromRef ref in
        if num = [] then jobURL
        else jobURL @ (if CHR ''?'' \<in> set jobURL then ''&'' else ''?'') @ ''pr='' @ num))"


definition Stats :: "store \<Rightarrow> (string \<times> string) list" where
  "Stats s =
     [(''hits'', formatInt (hits s)), (''puts'', formatInt (puts s)),
      (''putsExist'', formatInt (putsExist s)), (''index'', formatInt (int (length (index s)))),
      (''diskBytes'', formatInt (currentDiskBytes s)), (''maxDiskBytes'', formatInt (maxDiskBytes s)),
      (''evictionScheduled'', if evictionScheduled s then ''true'' else ''false''),
      (''errors'', formatInt (errors s))]"

text \<open>\<open>NewHandlerWithPreloadLimit\<close> with its options.\<close>

definition NewHandlerWithPreloadLimit ::
  "codec \<Rightarrow> env \<Rightarrow> lstore \<Rightarrow> store option \<Rightarrow> string \<Rightarrow> string \<Rightarrow> int \<Rightarrow> int \<Rightarrow> path \<Rightarrow> path \<Rightarrow> fs \<Rightarrow> handler" where
  "NewHandlerWithPreloadLimit J E st gst auth fallback limit maxBytes sessionsPath setPath fs =
     loadRecentSessions J E (loadSettings J E
       \<lparr>h_store = st, gocacheStore = gst, authToken = auth, fallbackAuthToken = fallback,
        preloadLimit = (if limit < 1 then 1 else limit), saveSessions = [], preloadInFlight = 0,
        preloadStarted = 0, preloadCompleted = 0, clientSessions = [], combinedMaxDiskBytes = maxBytes,
        panicCount = 0, lastPanicMessage = None, lastPanicAt = 0, sessionsJSONLPath = sessionsPath,
        settingsPath = setPath,
        settings = \<lparr>MaxPreloadTotalBytesByBuildType = [], MaxFileBytesByBuildType = []\<rparr>, h_files = fs\<rparr>)"

definition toSection :: "string \<Rightarrow> (string \<times> string) list \<Rightarrow> string \<times> (string \<times> string) list" where
  "toSection title st = (title, sort_key fst (augmentStatusStats st))"

definition combinedBudgetText :: "handler \<Rightarrow> string" where
  "combinedBudgetText h =
     (if 0 < combinedMaxDiskBytes h
      then byteSize (combinedBytes h (diskBudgetStores h)) @ '' / '' @ byteSize (combinedMaxDiskBytes h)
      else [])"

end
