(* ===== verification/Http_Handlers.thy ===== *)
theory Http_Handlers
  imports Http_Server
begin

text \<open>
  The handlers of the HTTP server and \<open>ServeHTTP\<close> (\<open>internal/http/handler.go\<close>, \<open>get.go\<close>, \<open>put.go\<close>,
  \<open>head.go\<close>, \<open>preload.go\<close>, \<open>cache_used.go\<close>, \<open>restore_cache.go\<close>, \<open>save_cache.go\<close>, \<open>clear.go\<close>, ...). A handler
  takes the request and the server's state and returns the reply and the new state. A handler that
  blocks returns no reply. The response writer takes every byte; closing a request body succeeds.
\<close>

section \<open>The action cache\<close>

definition readBody :: "httpRequest \<Rightarrow> bytes result" where
  "readBody r = (case snd (rq_body r) of Some e \<Rightarrow> Inl e | None \<Rightarrow> Inr (fst (rq_body r)))"

text \<open>\<open>json.NewDecoder(r.Body).Decode\<close>.\<close>

definition decodeBody :: "(bytes \<Rightarrow> 'a result) \<Rightarrow> httpRequest \<Rightarrow> 'a result" where
  "decodeBody f r =
     (case f (fst (rq_body r)) of
        Inr v \<Rightarrow> Inr v
      | Inl e \<Rightarrow> Inl (case snd (rq_body r) of Some e' \<Rightarrow> e' | None \<Rightarrow> e))"

definition withWireSize :: "cacheItem \<Rightarrow> cacheItem" where
  "withWireSize it = (if ri_WireSize it = 0 then it\<lparr>ri_WireSize := ri_Size it\<rparr> else it)"

text \<open>What the callbacks of \<open>Get\<close> and \<open>Preload\<close> make of an item: its file is opened when it is written.\<close>

definition servedItem :: "env \<Rightarrow> fs \<Rightarrow> cacheItem \<Rightarrow> cacheItem" where
  "servedItem E d it0 =
     (let it = withWireSize it0 in
      if ri_DiskPath it = [] then it
      else it\<lparr>ri_DiskPath := [],
              ri_body := BytesReader (case readFile E d (ri_DiskPath it) of
                  Inl e \<Rightarrow> Inl e | Inr b \<Rightarrow> Inr (b, None))\<rparr>)"

definition octetReply :: "(string \<times> string) list \<Rightarrow> int \<Rightarrow> bytes \<Rightarrow> go_error option \<Rightarrow> reply" where
  "octetReply hdr cl b e =
     \<lparr>rp_status = 200,
      rp_header = (''Content-Type'', ''application/octet-stream'') # (''Content-Length'', formatInt cl) # hdr,
      rp_body = Octets b,
      rp_panic = (case e of Some e' \<Rightarrow> if isPanic e' then e else None | None \<Rightarrow> None)\<rparr>"

text \<open>The common end of \<open>Get\<close> and \<open>Preload\<close>: the length of the response, then its bytes.\<close>

definition writeResponse :: "codec \<Rightarrow> env \<Rightarrow> lstore \<Rightarrow> cacheItem list \<Rightarrow> bytes \<times> go_error option" where
  "writeResponse J E s its =
     (case Response_WriteTo (enc_items J) E (ls_disk s) (ls_pool s) its bytesBuffer of
        ((_, e), w) \<Rightarrow> (written w, e))"

definition GetH :: "codec \<Rightarrow> env \<Rightarrow> handler \<Rightarrow> httpRequest \<Rightarrow> reply \<times> handler" where
  "GetH J E h r =
     (case readBody r of
        Inl e \<Rightarrow> (httpError 400 e, h)
      | Inr bb \<Rightarrow>
          (case dec_actionIDs J bb of
             Inl e \<Rightarrow> (httpError 400 e, h)
           | Inr ids \<Rightarrow>
               (case GetL E (h_store h) ids of (its0, s) \<Rightarrow>
                 (let h' = h\<lparr>h_store := s\<rparr>; its = map (servedItem E (ls_disk s)) its0 in
                  case Response_ContentLength (enc_items J) its of
                    Inl e \<Rightarrow> (httpError 500 e, h')
                  | Inr cl \<Rightarrow>
                      (case writeResponse J E s its of (b, e) \<Rightarrow> (octetReply [] cl b e, h'))))))"

definition HeadH :: "codec \<Rightarrow> env \<Rightarrow> handler \<Rightarrow> httpRequest \<Rightarrow> reply \<times> handler" where
  "HeadH J E h r =
     (case readBody r of
        Inl e \<Rightarrow> (httpError 400 e, h)
      | Inr bb \<Rightarrow>
          (case dec_actionIDs J bb of
             Inl e \<Rightarrow> (httpError 400 e, h)
           | Inr ids \<Rightarrow>
               (case GetL E (h_store h) ids of (its0, s) \<Rightarrow>
                 (let its = map (\<lambda>it. (withWireSize it)\<lparr>ri_DiskPath := []\<rparr>) its0 in
                  case enc_items J its of
                    Inl e \<Rightarrow> (httpError 500 e, h\<lparr>h_store := s\<rparr>)
                  | Inr _ \<Rightarrow> (jsonReply (ItemsJson its), h\<lparr>h_store := s\<rparr>)))))"

text \<open>The callback of \<open>Put\<close>. Only items with a size get the request's bytes as their body.\<close>

definition putItem :: "env \<Rightarrow> (cacheItem, lstore) callback" where
  "putItem E it body s =
     (if ri_Size it \<noteq> 0 then
        (case body of
           None \<Rightarrow> ((0, Some (ErrMsg ''empty body'')), s)
         | Some rd \<Rightarrow>
             (case PutL E s [it\<lparr>ri_DiskPath := [], ri_body := BytesReader (Inr rd)\<rparr>] of
                (e, s') \<Rightarrow> ((length (fst rd), e), s')))
      else (case PutL E s [it] of (e, s') \<Rightarrow> ((0, e), s')))"

definition PutH :: "codec \<Rightarrow> env \<Rightarrow> handler \<Rightarrow> httpRequest \<Rightarrow> reply \<times> handler" where
  "PutH J E h r =
     (case Response_ReaderFrom (dec_items J) (putItem E) (rq_body r) (h_store h) of
        ((_, Some e), _, s) \<Rightarrow> (httpError 500 e, h\<lparr>h_store := s\<rparr>)
      | ((_, None), _, s) \<Rightarrow> (noContent, h\<lparr>h_store := s\<rparr>))"

text \<open>The messages of the model leave out the values they print.\<close>

fun isManifestValidationError :: "go_error \<Rightarrow> bool" where
  "isManifestValidationError (ErrMsg m) =
     (m \<in> {''invalid commit'', ''commit too long'', ''invalid changes-id'', ''changes-id too long'',
           ''invalid build-type'', ''build-type too long''})"
| "isManifestValidationError (ErrWrap _ e) = isManifestValidationError e"
| "isManifestValidationError _ = False"

definition manifestStatus :: "go_error \<Rightarrow> int" where
  "manifestStatus e = (if isManifestValidationError e then 400 else 500)"

text \<open>\<open>Preload\<close> after the semaphore was taken; the counters are put back whatever happens.\<close>

definition preloadBody :: "codec \<Rightarrow> env \<Rightarrow> handler \<Rightarrow> httpRequest \<Rightarrow> reply \<times> handler" where
  "preloadBody J E h r =
     (case readBody r of
        Inl e \<Rightarrow> (httpError 400 e, h)
      | Inr bb \<Rightarrow>
          (case dec_preload J bb of
             Inl e \<Rightarrow> (httpError 400 e, h)
           | Inr req \<Rightarrow>
               (case PreloadSources E (h_store h) req of
                  Inl e \<Rightarrow> (httpError (manifestStatus e) e, h)
                | Inr srcs \<Rightarrow>
                    (let sources = join_with CHR '','' srcs;
                         hdr = (if srcs = [] then [] else [(''X-Gocacheprog-Preload-Sources'', sources)])
                     in case Preload E (h_store h) req of
                          (Inl e, s) \<Rightarrow> (httpError (manifestStatus e) e, h\<lparr>h_store := s\<rparr>)
                        | (Inr its0, s) \<Rightarrow>
                            (let h' = h\<lparr>h_store := s\<rparr>;
                                 its = trimToPreloadBudget (map (servedItem E (ls_disk s)) its0)
                                         (maxPreloadTotalBytesFor h (pr_BuildType req))
                             in case Response_ContentLength (enc_items J) its of
                                  Inl e \<Rightarrow> (httpError 500 e, h')
                                | Inr cl \<Rightarrow>
                                    (case writeResponse J E s its of (b, e) \<Rightarrow>
                                      (octetReply hdr cl b e,
                                       recordSessionPreload h' r cl (rq_elapsed r) sources)))))))"

definition PreloadH :: "codec \<Rightarrow> env \<Rightarrow> handler \<Rightarrow> httpRequest \<Rightarrow> reply \<times> handler" where
  "PreloadH J E h r =
     (case preloadBody J E (h\<lparr>preloadStarted := preloadStarted h + 1,
                              preloadInFlight := preloadInFlight h + 1\<rparr>) r of
        (rep, h') \<Rightarrow>
          (rep, h'\<lparr>preloadInFlight := preloadInFlight h' - 1, preloadCompleted := preloadCompleted h' + 1\<rparr>))"

fun dedupIDs :: "string list \<Rightarrow> string list \<Rightarrow> string list" where
  "dedupIDs seen [] = rev seen"
| "dedupIDs seen (l # ls) =
     (let a = trimSpace l in
      if a = [] \<or> a \<in> set seen then dedupIDs seen ls else dedupIDs (a # seen) ls)"

definition readActionIDs :: "reader \<Rightarrow> string list result" where
  "readActionIDs rd =
     (case scan_lines 10485760 (fst rd) of
        Inl e \<Rightarrow> Inl e
      | Inr ls \<Rightarrow> (case snd rd of Some e \<Rightarrow> Inl e | None \<Rightarrow> Inr (dedupIDs [] ls)))"

definition CacheUsedH :: "env \<Rightarrow> handler \<Rightarrow> httpRequest \<Rightarrow> reply \<times> handler" where
  "CacheUsedH E h r =
     (let commit = trimSpace (rq_query r ''commit''); changes = trimSpace (rq_query r ''changes-id'') in
      if commit = [] \<and> changes = [] then (httpError 400 (ErrMsg ''missing commit or changes-id''), h)
      else (case readActionIDs (rq_body r) of
          Inl e \<Rightarrow> (httpError 400 e, h)
        | Inr ids \<Rightarrow>
            (case PostCacheUsed E (h_store h) commit changes (trimSpace (rq_query r ''build-type'')) ids
                    (rq_query r ''replace-changes'' = ''1'') of
               (Some e, s) \<Rightarrow> (httpError (manifestStatus e) e, h\<lparr>h_store := s\<rparr>)
             | (None, s) \<Rightarrow> (noContent, h\<lparr>h_store := s\<rparr>))))"

definition IntegrityCheckH :: "env \<Rightarrow> handler \<Rightarrow> httpRequest \<Rightarrow> reply \<times> handler" where
  "IntegrityCheckH E h r =
     (case IntegrityCheck E (h_store h) (rq_query r ''dry_run'' = ''1'') of
        (rep, s) \<Rightarrow> (jsonReply (IntegrityJson rep), h\<lparr>h_store := s\<rparr>))"


section \<open>The object store: restoring and administration\<close>

definition notSupported :: reply where
  "notSupported = httpError 501 (ErrMsg ''not supported'')"

text \<open>The callback of \<open>Restore\<close>: after an item that could not be written no further item is tried.\<close>

fun writeRestored ::
  "codec \<Rightarrow> env \<Rightarrow> fs \<Rightarrow> pool \<Rightarrow> fileItem list \<Rightarrow> writer \<Rightarrow> go_error option \<times> writer" where
  "writeRestored J E d p [] w = (None, w)"
| "writeRestored J E d p (it # its) w =
     (case WriteItem (enc_file J) E d p it w of
        (Some e, w') \<Rightarrow> (Some e, w') | (None, w') \<Rightarrow> writeRestored J E d p its w')"

definition streamReply :: "(string \<times> string) list \<Rightarrow> bytes \<Rightarrow> go_error option \<Rightarrow> reply" where
  "streamReply hdr b e =
     \<lparr>rp_status = 200, rp_header = (''Content-Type'', ''application/octet-stream'') # hdr,
      rp_body = Octets b,
      rp_panic = (case e of Some e' \<Rightarrow> if isPanic e' then e else None | None \<Rightarrow> None)\<rparr>"

definition restoreRequest :: "handler \<Rightarrow> httpRequest \<Rightarrow> request" where
  "restoreRequest h r =
     (let req = parseGOCACHERequest r;
          req1 = (if MaxPreloadTotalBytes req \<le> 0
            then req\<lparr>MaxPreloadTotalBytes := maxPreloadTotalBytesFor h (BuildType req)\<rparr> else req)
      in if MaxFileBytes req1 \<le> 0 then req1\<lparr>MaxFileBytes := maxFileBytesFor h (BuildType req1)\<rparr> else req1)"

definition RestoreCacheH :: "codec \<Rightarrow> env \<Rightarrow> handler \<Rightarrow> httpRequest \<Rightarrow> reply \<times> handler" where
  "RestoreCacheH J E h r =
     (case gocacheStore h of
        None \<Rightarrow> (notSupported, h)
      | Some s \<Rightarrow>
          (let req = restoreRequest h r in
           case RestoreSources E s req of
             (Inl e, s1) \<Rightarrow> (httpError 500 e, h\<lparr>gocacheStore := Some s1\<rparr>)
           | (Inr srcs, s1) \<Rightarrow>
               (let sources = join_with CHR '','' srcs; hdr = [(''X-Gocacheprog-Restore-Sources'', sources)] in
                if srcs = [] then
                  (streamReply ((''Content-Length'', ''4'') # hdr) (put_be32 0) None, h\<lparr>gocacheStore := Some s1\<rparr>)
                else (case Restore E s1 req of
                    (Inl e, s2) \<Rightarrow> (streamReply hdr [] None, h\<lparr>gocacheStore := Some s2\<rparr>)
                  | (Inr (_, its), s2) \<Rightarrow>
                      (case writeRestored J E (disk s2) (pool_of s2) its bytesBuffer of
                         (e, w) \<Rightarrow>
                           (if (case e of Some e' \<Rightarrow> isPanic e' | None \<Rightarrow> False)
                            then (streamReply hdr (written w) e, h\<lparr>gocacheStore := Some s2\<rparr>)
                            else (let b = written (snd (StreamClose w)) in
                              (streamReply hdr b None,
                               recordSessionPreload (h\<lparr>gocacheStore := Some s2\<rparr>) r (int (length b))
                                 (rq_elapsed r) sources))))))))"

definition adminRequest :: "httpRequest \<Rightarrow> request" where
  "adminRequest r =
     (parseGOCACHERequest r)\<lparr>ParentCommit := [], MaxFileBytes := 0, MaxPreloadTotalBytes := 0\<rparr>"

definition ClearCacheH :: "env \<Rightarrow> handler \<Rightarrow> httpRequest \<Rightarrow> reply \<times> handler" where
  "ClearCacheH E h r =
     (case gocacheStore h of
        None \<Rightarrow> (notSupported, h)
      | Some s \<Rightarrow>
          (case Clear E s (adminRequest r) of
             ((Some e, _), s') \<Rightarrow> (httpError 400 e, h\<lparr>gocacheStore := Some s'\<rparr>)
           | ((None, st), s') \<Rightarrow> (jsonReply (ClearJson st), h\<lparr>gocacheStore := Some s'\<rparr>)))"

definition InspectCacheH :: "env \<Rightarrow> handler \<Rightarrow> httpRequest \<Rightarrow> reply \<times> handler" where
  "InspectCacheH E h r =
     (case gocacheStore h of
        None \<Rightarrow> (notSupported, h)
      | Some s \<Rightarrow>
          (case Inspect E s (adminRequest r) of
             Inl e \<Rightarrow> (httpError 400 e, h) | Inr st \<Rightarrow> (jsonReply (InspectJson st), h)))"

definition InspectKeysH :: "codec \<Rightarrow> env \<Rightarrow> handler \<Rightarrow> httpRequest \<Rightarrow> reply \<times> handler" where
  "InspectKeysH J E h r =
     (case gocacheStore h of
        None \<Rightarrow> (notSupported, h)
      | Some s \<Rightarrow>
          (case decodeBody (dec_paths J) r of
             Inl e \<Rightarrow> (httpError 400 e, h)
           | Inr ks \<Rightarrow>
               (case InspectKeys E s (parseGOCACHERequest r) ks of
                  Inl e \<Rightarrow> (httpError 400 e, h) | Inr res \<Rightarrow> (jsonReply (KeysJson res), h))))"

section \<open>The object store: saving\<close>

text \<open>A path that cannot be merged into the manifests is only logged.\<close>

definition SaveCacheHasH :: "codec \<Rightarrow> env \<Rightarrow> handler \<Rightarrow> httpRequest \<Rightarrow> reply \<times> handler" where
  "SaveCacheHasH J E h r =
     (case gocacheStore h of
        None \<Rightarrow> (notSupported, h)
      | Some s \<Rightarrow>
          (case decodeBody (dec_paths J) r of
             Inl e \<Rightarrow> (httpError 400 e, h)
           | Inr ps \<Rightarrow>
               (let existing = ExistingPaths E s ps;
                    s' = snd (MergeSavedPaths E s (parseGOCACHERequest r) existing)
                in (jsonReply (PathsJson existing), h\<lparr>gocacheStore := Some s'\<rparr>))))"

text \<open>
  The callback of \<open>processSaveCacheStream\<close>; its state is the store and the paths saved so far. An item
  without a path is refused before its body is read; any other save is taken to have read the whole
  body, also when it fails.\<close>

definition saveStreamItem :: "env \<Rightarrow> (fileItem, store \<times> string list) callback" where
  "saveStreamItem E it body sp =
     (let s = fst sp; ps = snd sp in
      if fi_Size it \<noteq> 0 \<and> body = None then ((0, Some (ErrMsg ''empty body'')), sp)
      else if 0 < maxFileBytes s \<and> maxFileBytes s < fi_Size it then ((0, None), sp)
      else (let it' = (case body of None \<Rightarrow> it | Some rd \<Rightarrow> it\<lparr>fi_body := BytesReader (Inr rd)\<rparr>);
                k = (case body of None \<Rightarrow> 0 | Some rd \<Rightarrow> if fi_Path it = [] then 0 else length (fst rd))
            in case SaveItem E s it' of
                 (Some e, s') \<Rightarrow> ((k, Some (ErrWrap ''save item'' e)), (s', ps))
               | (None, s') \<Rightarrow> ((k, None), (s', ps @ [fi_Path it]))))"

text \<open>What follows \<open>ReadStream\<close>.\<close>

definition saveResult :: "env \<Rightarrow> request \<Rightarrow> go_error option \<Rightarrow> store \<times> string list \<Rightarrow> go_error option \<times> store" where
  "saveResult E req r sp =
     (case r of
        Some e \<Rightarrow> (Some (ErrWrap ''read save-cache stream'' e), fst sp)
      | None \<Rightarrow>
          (case MergeSavedPaths E (fst sp) req (snd sp) of
             (Some e, s) \<Rightarrow> (Some (ErrWrap ''merge save-cache manifests'' e), s)
           | (None, s) \<Rightarrow> (None, s)))"

definition readSaveStream ::
  "codec \<Rightarrow> env \<Rightarrow> request \<Rightarrow> reader \<Rightarrow> store \<times> string list \<Rightarrow> go_error option \<times> store" where
  "readSaveStream J E req rd sp =
     (case ReadStream (dec_file J) (saveStreamItem E) rd 0 sp of
        ((_, r), _, sp') \<Rightarrow> saveResult E req r sp')"

definition processSaveCacheStream ::
  "codec \<Rightarrow> env \<Rightarrow> store \<Rightarrow> request \<Rightarrow> reader \<Rightarrow> go_error option \<times> store" where
  "processSaveCacheStream J E s req rd = readSaveStream J E req rd (s, [])"

definition SaveCacheH :: "codec \<Rightarrow> env \<Rightarrow> handler \<Rightarrow> httpRequest \<Rightarrow> reply \<times> handler" where
  "SaveCacheH J E h r =
     (case gocacheStore h of
        None \<Rightarrow> (notSupported, h)
      | Some s \<Rightarrow>
          (case processSaveCacheStream J E s (parseGOCACHERequest r) (rq_body r) of
             (Some e, s') \<Rightarrow> (httpError 500 e, h\<lparr>gocacheStore := Some s'\<rparr>)
           | (None, s') \<Rightarrow> (noContent, h\<lparr>gocacheStore := Some s'\<rparr>)))"


section \<open>Save sessions\<close>

text \<open>
  The goroutine at the end of the pipe runs \<open>ReadStream\<close> on what the chunks bring. Between two chunks it
  waits inside an item; \<open>feedItems\<close> handles the items that are complete, at the time their last byte
  arrives, and keeps the bytes of the one that is not. \<open>Stop\<close> is the end of \<open>ReadStream\<close>, with the
  bytes it has not read.\<close>

datatype fed = More bytes | Stop "go_error option" bytes

function feedItems :: "codec \<Rightarrow> env \<Rightarrow> bytes \<Rightarrow> store \<times> string list \<Rightarrow> fed \<times> (store \<times> string list)" where
  "feedItems J E buf sp =
     (if length buf < 4 then (More buf, sp)
      else (let len = sint (get_be32 (take 4 buf)); n4 = 4 + nat len; rest = drop n4 buf in
        if len = 0 then (Stop None (drop 4 buf), sp)
        else if len < 0 then (Stop (Some (ErrMsg ''negative item header length'')) (drop 4 buf), sp)
        else if length buf < n4 then (More buf, sp)
        else (case dec_file J (take (nat len) (drop 4 buf)) of
            Inl e \<Rightarrow> (Stop (Some e) rest, sp)
          | Inr it \<Rightarrow>
              (if 0 < wireSizeOf it then
                 (let n = nat (wireSizeOf it) in
                  if length rest < n then (More buf, sp)
                  else (case saveStreamItem E it (Some (take n rest, None)) sp of
                      ((k, Some e), sp') \<Rightarrow> (Stop (Some (ErrWrap ''item'' e)) (drop (min k n) rest), sp')
                    | ((_, None), sp') \<Rightarrow> feedItems J E (drop n rest) sp'))
               else (case saveStreamItem E it None sp of
                   ((_, Some e), sp') \<Rightarrow> (Stop (Some e) rest, sp')
                 | ((_, None), sp') \<Rightarrow> feedItems J E rest sp')))))"
  by pat_completeness auto
termination
  by (relation "measure (\<lambda>(J, E, buf, sp). length buf)") auto

declare feedItems.simps [simp del]

definition saveUploadID :: "httpRequest \<Rightarrow> string result" where
  "saveUploadID r =
     (if rq_query r ''upload-id'' = [] then Inl (ErrMsg ''missing upload-id'') else Inr (rq_query r ''upload-id''))"

definition lookupSaveSession :: "handler \<Rightarrow> httpRequest \<Rightarrow> (saveCacheSession \<times> string) result" where
  "lookupSaveSession h r =
     (case saveUploadID r of
        Inl e \<Rightarrow> Inl e
      | Inr u \<Rightarrow> (case map_of (saveSessions h) u of
            None \<Rightarrow> Inl (ErrMsg ''unknown upload-id'') | Some sv \<Rightarrow> Inr (sv, u)))"

definition deleteSaveSession :: "handler \<Rightarrow> string \<Rightarrow> handler" where
  "deleteSaveSession h u = h\<lparr>saveSessions := AList.delete u (saveSessions h)\<rparr>"

definition StartSaveCacheH :: "env \<Rightarrow> handler \<Rightarrow> httpRequest \<Rightarrow> reply \<times> handler" where
  "StartSaveCacheH E h r =
     (case gocacheStore h of
        None \<Rightarrow> (notSupported, h)
      | Some s \<Rightarrow>
          (case saveUploadID r of
             Inl e \<Rightarrow> (httpError 400 e, h)
           | Inr u \<Rightarrow>
               (if map_of (saveSessions h) u \<noteq> None
                then (httpError 409 (ErrMsg ''upload session already exists''), h)
                else (noContent\<lparr>rp_header := (if 0 < maxFileBytes s
                          then [(''X-Gocacheprog-Save-Max-File-Bytes'', formatInt (maxFileBytes s))] else [])\<rparr>,
                      h\<lparr>saveSessions := AList.update u
                          \<lparr>sv_request = parseGOCACHERequest r, sv_state = Feeding [] [],
                           sv_startedAt = now E, sv_chunks = 0, sv_bytes = 0\<rparr> (saveSessions h)\<rparr>))))"

text \<open>Writing bytes to the pipe. The flag tells whether the write waits for a reader that has gone.\<close>

definition feedPipe :: "codec \<Rightarrow> env \<Rightarrow> request \<Rightarrow> saver \<Rightarrow> bytes \<Rightarrow> store \<Rightarrow> (saver \<times> bool) \<times> store" where
  "feedPipe J E req sv b s =
     (case sv of
        Ended res \<Rightarrow> ((Ended res, b \<noteq> []), s)
      | Feeding buf ps \<Rightarrow>
          (case feedItems J E (buf @ b) (s, ps) of
             (More buf', (s', ps')) \<Rightarrow> ((Feeding buf' ps', False), s')
           | (Stop e left, sp') \<Rightarrow>
               (case saveResult E req e sp' of (res, s') \<Rightarrow> ((Ended res, left \<noteq> []), s'))))"

text \<open>Closing the pipe, with an error or as the end of the stream: what the channel \<open>done\<close> delivers.\<close>

definition closePipe :: "codec \<Rightarrow> env \<Rightarrow> request \<Rightarrow> saver \<Rightarrow> go_error option \<Rightarrow> store \<Rightarrow> go_error option \<times> store" where
  "closePipe J E req sv e s =
     (case sv of
        Ended res \<Rightarrow> (res, s)
      | Feeding buf ps \<Rightarrow> readSaveStream J E req (buf, e) (s, ps))"

definition SaveCacheChunkH :: "codec \<Rightarrow> env \<Rightarrow> handler \<Rightarrow> httpRequest \<Rightarrow> reply option \<times> handler" where
  "SaveCacheChunkH J E h r =
     (case gocacheStore h of
        None \<Rightarrow> (Some notSupported, h)
      | Some s \<Rightarrow>
          (case lookupSaveSession h r of
             Inl e \<Rightarrow> (Some (httpError 400 e), h)
           | Inr (sv, u) \<Rightarrow>
               (case feedPipe J E (sv_request sv) (sv_state sv) (fst (rq_body r)) s of
                  ((st, blocked), s1) \<Rightarrow>
                    (let sv1 = sv\<lparr>sv_state := st\<rparr>;
                         sv2 = sv1\<lparr>sv_chunks := sv_chunks sv + 1,
                                  sv_bytes := sv_bytes sv + int (length (fst (rq_body r)))\<rparr>;
                         put = (\<lambda>sv' s'. h\<lparr>gocacheStore := Some s',
                                          saveSessions := AList.update u sv' (saveSessions h)\<rparr>)
                     in if blocked then (None, put sv1 s1)
                        else (case snd (rq_body r) of
                            None \<Rightarrow> (Some noContent, put sv2 s1)
                          | Some e \<Rightarrow>
                              (case closePipe J E (sv_request sv) st (Some (ErrWrap ''chunk upload failed'' e)) s1 of
                                 (_, s2) \<Rightarrow>
                                   (Some (httpError 500 (ErrWrap ''save-cache upload chunk failed'' e)),
                                    deleteSaveSession (put sv2 s2) u)))))))"

definition FinalizeSaveCacheH :: "codec \<Rightarrow> env \<Rightarrow> handler \<Rightarrow> httpRequest \<Rightarrow> reply \<times> handler" where
  "FinalizeSaveCacheH J E h r =
     (case gocacheStore h of
        None \<Rightarrow> (notSupported, h)
      | Some s \<Rightarrow>
          (case lookupSaveSession h r of
             Inl e \<Rightarrow> (httpError 400 e, h)
           | Inr (sv, u) \<Rightarrow>
               (case closePipe J E (sv_request sv) (sv_state sv) None s of
                  (res, s') \<Rightarrow>
                    (let h' = deleteSaveSession (h\<lparr>gocacheStore := Some s'\<rparr>) u in
                     case res of
                       Some e \<Rightarrow> (httpError 500 (ErrWrap ''save-cache upload finalize failed'' e), h')
                     | None \<Rightarrow>
                         (noContent, recordSessionFinalize h' r (sv_bytes sv) (now E - sv_startedAt sv))))))"

definition AbortSaveCacheH :: "codec \<Rightarrow> env \<Rightarrow> handler \<Rightarrow> httpRequest \<Rightarrow> reply \<times> handler" where
  "AbortSaveCacheH J E h r =
     (case gocacheStore h of
        None \<Rightarrow> (notSupported, h)
      | Some s \<Rightarrow>
          (case lookupSaveSession h r of
             Inl e \<Rightarrow> (httpError 400 e, h)
           | Inr (sv, u) \<Rightarrow>
               (case closePipe J E (sv_request sv) (sv_state sv)
                       (Some (ErrMsg ''save-cache upload aborted'')) s of
                  (_, s') \<Rightarrow> (noContent, deleteSaveSession (h\<lparr>gocacheStore := Some s'\<rparr>) u))))"


section \<open>Status and administration\<close>

definition StatusH :: "handler \<Rightarrow> reply" where
  "StatusH h =
     jsonReply (StatusJson ((''store'', augmentStatusStats (StatsL (h_store h))) #
       (case gocacheStore h of None \<Rightarrow> [] | Some s \<Rightarrow> [(''gocache'', augmentStatusStats (Stats s))]) @
       [(''http'', handlerStats h)]))"

text \<open>The form of the status page; its fields are the request's parameters.\<close>

definition applyOverrideForm ::
  "httpRequest \<Rightarrow> handler \<Rightarrow> (string \<Rightarrow> int \<Rightarrow> go_error option \<times> handler) \<Rightarrow> reply option \<times> handler" where
  "applyOverrideForm r h setter =
     (let bt = trimSpace (rq_query r ''build-type''); raw = trimSpace (rq_query r ''bytes'') in
      if bt = [] then (Some (httpError 400 (ErrMsg ''build type is required'')), h)
      else (case (if raw = [] then Inr 0 else parseInt64 raw) of
          Inl e \<Rightarrow> (Some (httpError 400 (ErrWrap ''invalid bytes'' e)), h)
        | Inr n \<Rightarrow>
            (case setter bt n of
               (Some e, h') \<Rightarrow> (Some (httpError 500 e), h')
             | (None, h') \<Rightarrow> (None, h'))))"

definition unauthorizedReply :: "string \<Rightarrow> reply" where
  "unauthorizedReply scheme =
     (httpError 401 (ErrMsg ''unauthorized''))\<lparr>rp_header := [(''WWW-Authenticate'', scheme)]\<rparr>"

text \<open>Cleaning up from the status page: both stores to their own limits, then the combined budget.\<close>

definition evictAll :: "env \<Rightarrow> handler \<Rightarrow> go_error option \<times> handler" where
  "evictAll E h =
     (let h1 = h\<lparr>h_store := EvictNowL E (h_store h)\<rparr> in
      case gocacheStore h1 of
        None \<Rightarrow> enforceCombinedBudget E h1
      | Some s \<Rightarrow>
          (case EvictNow E s of
             (Some e, s') \<Rightarrow> (Some e, h1\<lparr>gocacheStore := Some s'\<rparr>)
           | (None, s') \<Rightarrow> enforceCombinedBudget E (h1\<lparr>gocacheStore := Some s'\<rparr>)))"

definition seeOther :: reply where
  "seeOther = \<lparr>rp_status = 303, rp_header = [(''Location'', ''/'')], rp_body = NoBody, rp_panic = None\<rparr>"

text \<open>A store without entries has no section.\<close>

fun filter_sections ::
  "(string \<times> (string \<times> string) list option) list \<Rightarrow> (string \<times> (string \<times> string) list) list" where
  "filter_sections [] = []"
| "filter_sections ((title, None) # xs) = filter_sections xs"
| "filter_sections ((title, Some st) # xs) =
     (if map_of st ''index'' = Some ''0'' then filter_sections xs else toSection title st # filter_sections xs)"

definition statusPageOf :: "handler \<Rightarrow> clientSessionView list \<Rightarrow> statusPage" where
  "statusPageOf h vs =
     \<lparr>sp_Sections = filter_sections [(''Objects store'', Some (StatsL (h_store h))),
        (''Native GOCACHE store'', map_option Stats (gocacheStore h))],
      sp_CombinedBudget = combinedBudgetText h,
      sp_Overrides = buildOverrideRows (MaxPreloadTotalBytesByBuildType (settings h))
        (MaxFileBytesByBuildType (settings h)),
      sp_Sessions = map (\<lambda>v. v\<lparr>vw_JobURL := jobURLWithPR (vw_JobURL v) (vw_Ref v)\<rparr>) vs,
      sp_PanicCount = panicCount h, sp_PanicMessage = lastPanicMessage h, sp_PanicAt = lastPanicAt h,
      sp_SessionsJSONL = (sessionsJSONLPath h \<noteq> [])\<rparr>"

definition IndexH :: "codec \<Rightarrow> env \<Rightarrow> handler \<Rightarrow> httpRequest \<Rightarrow> reply \<times> handler" where
  "IndexH J E h r =
     (if \<not> basicAuthorized h r then (unauthorizedReply ''Basic realm=gocacheprogd'', h)
      else if rq_method r = ''POST'' then
        (let action = rq_query r ''action'';
             done_or = (\<lambda>(rep, h'). (case rep of None \<Rightarrow> seeOther | Some e \<Rightarrow> e, h'))
         in if action = ''set-max-preload-total-bytes''
            then done_or (applyOverrideForm r h (setMaxPreloadTotalBytes J E h))
            else if action = ''set-max-file-bytes''
            then done_or (applyOverrideForm r h (setMaxFileBytes J E h))
            else (case evictAll E h of
                (Some e, h') \<Rightarrow> (httpError 500 e, h') | (None, h') \<Rightarrow> (seeOther, h')))
      else (case clientSessionsSnapshot E h of
          (vs, h') \<Rightarrow>
            (\<lparr>rp_status = 200, rp_header = [(''Content-Type'', ''text/html; charset=utf-8'')],
              rp_body = StatusPage (statusPageOf h vs), rp_panic = None\<rparr>, h')))"

definition SessionsJSONLH :: "env \<Rightarrow> handler \<Rightarrow> httpRequest \<Rightarrow> reply" where
  "SessionsJSONLH E h r =
     (if \<not> basicAuthorized h r then unauthorizedReply ''Basic realm=gocacheprogd''
      else if sessionsJSONLPath h = [] then httpError 404 (ErrMsg ''sessions.jsonl is not enabled'')
      else (case readFile E (h_files h) (sessionsJSONLPath h) of
          Inl e \<Rightarrow> httpError 404 e
        | Inr b \<Rightarrow> \<lparr>rp_status = 200, rp_header = [(''Content-Type'', ''application/x-ndjson'')],
                    rp_body = Octets b, rp_panic = None\<rparr>))"

text \<open>An empty body is no error; its \<open>ContentLength\<close> is 0.\<close>

definition serveSessionDone :: "codec \<Rightarrow> env \<Rightarrow> handler \<Rightarrow> httpRequest \<Rightarrow> reply \<times> handler" where
  "serveSessionDone J E h r =
     (case (if rq_body r = ([], None) then Inr [] else decodeBody (dec_extra J) r) of
        Inl e \<Rightarrow> (httpError 400 e, h)
      | Inr extra \<Rightarrow> (noContent, markSessionDone J E h r extra))"

definition serveVersion :: "bytes \<Rightarrow> reply" where
  "serveVersion v = \<lparr>rp_status = 200, rp_header = [], rp_body = Octets (''gocacheprog '' @ v), rp_panic = None\<rparr>"

section \<open>Dispatch\<close>

definition always :: "reply \<times> handler \<Rightarrow> reply option \<times> handler" where
  "always x = (Some (fst x), snd x)"

definition routes ::
  "codec \<Rightarrow> env \<Rightarrow> handler \<Rightarrow> httpRequest \<Rightarrow> (string \<times> (reply option \<times> handler)) list" where
  "routes J E h r =
     [(''/version'', always (serveVersion (moduleVersion J), h)),
      (''/status'', always (StatusH h, h)),
      (''/session-done'', always (serveSessionDone J E h r)),
      (''/preload'', always (PreloadH J E h r)),
      (''/cache-used'', always (CacheUsedH E h r)),
      (''/restore-cache'', always (RestoreCacheH J E h r)),
      (''/clear'', always (ClearCacheH E h r)),
      (''/inspect'', always (InspectCacheH E h r)),
      (''/inspect-keys'', always (InspectKeysH J E h r)),
      (''/integrity-check'', always (IntegrityCheckH E h r)),
      (''/save-cache-has'', always (SaveCacheHasH J E h r)),
      (''/save-cache'', always (SaveCacheH J E h r)),
      (''/save-cache-chunk'', SaveCacheChunkH J E h r),
      (''/save-cache-start'', always (StartSaveCacheH E h r)),
      (''/save-cache-finalize'', always (FinalizeSaveCacheH J E h r)),
      (''/save-cache-abort'', always (AbortSaveCacheH J E h r)),
      (''/put'', always (PutH J E h r)),
      (''/get'', always (GetH J E h r)),
      (''/head'', always (HeadH J E h r)),
      (''/settings/max-preload-total-bytes'', always (MaxPreloadTotalBytesSettings J E h r)),
      (''/settings/max-file-bytes'', always (MaxFileBytesSettings J E h r))]"

text \<open>The deferred \<open>recover\<close>. A reply whose header is out stays as it is, cut short.\<close>

definition internalError :: reply where
  "internalError = httpError 500 (ErrMsg ''internal server error'')"

definition recovered :: "env \<Rightarrow> reply \<Rightarrow> handler \<Rightarrow> reply \<times> handler" where
  "recovered E rep h =
     (case rp_panic rep of
        None \<Rightarrow> (rep, h)
      | Some e \<Rightarrow>
          ((case rp_body rep of ErrorBody _ \<Rightarrow> internalError | _ \<Rightarrow> rep\<lparr>rp_panic := None\<rparr>), recordPanic E h e))"

text \<open>A handler that blocks keeps the deferred calls from running. A panic in the deferred eviction
  comes after the handler has replied.\<close>

definition ServeHTTP :: "codec \<Rightarrow> env \<Rightarrow> handler \<Rightarrow> httpRequest \<Rightarrow> reply option \<times> handler" where
  "ServeHTTP J E h r =
     (if rq_path r = ''/'' then always (case IndexH J E h r of (rep, h') \<Rightarrow> recovered E rep h')
      else if rq_path r = ''/sessions.jsonl'' then (Some (SessionsJSONLH E h r), h)
      else if \<not> authorized h r then (Some (unauthorizedReply ''Bearer realm=gocacheprogd''), h)
      else (let h1 = touchSession J E h r in
        case (case map_of (routes J E h1 r) (rq_path r) of
                None \<Rightarrow> (Some (httpError 404 (ErrMsg ''404 page not found'')), h1) | Some res \<Rightarrow> res) of
          (None, h2) \<Rightarrow> (None, h2)
        | (Some rep, h2) \<Rightarrow>
            (case enforceCombinedBudget E h2 of
               (None, h3) \<Rightarrow> always (recovered E rep h3)
             | (Some e, h3) \<Rightarrow> always (recovered E (rep\<lparr>rp_panic := Some e\<rparr>) h3))))"

end
