(* ===== verification/Local_Account.thy ===== *)
theory Local_Account
  imports Local_Store
begin

text \<open>
  Reference counts and disk usage of the action cache store. \<open>references s c\<close> says that the three maps
  over outputs and the usage total belong to the counts \<open>c\<close>; \<open>refs_ok\<close> that these counts are the numbers
  of index entries per output. What only drops entries is treated once, in the locale \<open>drop_inv\<close>.
\<close>

section \<open>Counting references\<close>

definition refCount :: "(string \<times> lentry) list \<Rightarrow> string \<Rightarrow> int" where
  "refCount idx o' = msum (\<lambda>ie. if le_OutputID ie = o' then 1 else 0) idx"

definition references :: "lstore \<Rightarrow> (string \<Rightarrow> int) \<Rightarrow> bool" where
  "references s c =
     (wf_map (outputRefs s) \<and> wf_map (outputSizes s) \<and> wf_map (outputLocs s) \<and>
      (\<forall>o'. 0 \<le> c o' \<and> map_of (outputRefs s) o' = (if c o' = 0 then None else Some (c o')) \<and>
        (map_of (outputSizes s) o' = None \<longleftrightarrow> c o' = 0) \<and>
        (c o' = 0 \<longrightarrow> map_of (outputLocs s) o' = None)) \<and>
      ls_currentDiskBytes s = msum (\<lambda>n. n) (outputSizes s))"

definition refs_ok :: "lstore \<Rightarrow> bool" where
  "refs_ok s = (wf_map (ls_index s) \<and> references s (refCount (ls_index s)))"

lemma refCount_nonneg: "0 \<le> refCount idx o'"
  by (auto simp: refCount_def intro: msum_nonneg)

lemma refCount_update:
  "wf_map idx \<Longrightarrow> refCount (AList.update a ie idx) o' =
     refCount idx o' + (if le_OutputID ie = o' then 1 else 0) -
     (case map_of idx a of None \<Rightarrow> 0 | Some je \<Rightarrow> if le_OutputID je = o' then 1 else 0)"
  by (auto simp: refCount_def msum_update split: option.splits)

lemma refCount_delete:
  "wf_map idx \<Longrightarrow> refCount (AList.delete a idx) o' =
     refCount idx o' - (case map_of idx a of None \<Rightarrow> 0 | Some je \<Rightarrow> if le_OutputID je = o' then 1 else 0)"
  by (auto simp: refCount_def msum_delete split: option.splits)

lemma refCount_pos:
  assumes "wf_map idx" "map_of idx a = Some ie"
  shows "0 < refCount idx (le_OutputID ie)"
  using refCount_delete [OF assms(1), of a "le_OutputID ie"] refCount_nonneg [of "AList.delete a idx" "le_OutputID ie"]
    assms(2) by simp

lemma mget0_refs: "references s c \<Longrightarrow> mget0 0 (outputRefs s) o' = c o'"
  by (simp add: references_def mget0_def split: if_splits)

lemma references_same:
  "references s c \<Longrightarrow> outputRefs s' = outputRefs s \<Longrightarrow> outputSizes s' = outputSizes s \<Longrightarrow>
     outputLocs s' = outputLocs s \<Longrightarrow> ls_currentDiskBytes s' = ls_currentDiskBytes s \<Longrightarrow> references s' c"
  by (simp add: references_def)

lemma references_cong: "references s c \<Longrightarrow> (\<And>o'. c' o' = c o') \<Longrightarrow> references s c'"
  by (metis ext)

lemma addOutputRef_references:
  assumes "references s c"
  shows "references (addOutputRefLocked s o' sz l) (c(o' := c o' + 1))"
  using assms by (auto simp: addOutputRefLocked_def Let_def mget0_refs [OF assms] references_def msum_update add_nonneg_eq_0_iff)

lemma releaseOutputRef_references:
  assumes "references s c" "0 < c o'"
  shows "references (releaseOutputRefLocked E s o') (c(o' := c o' - 1))"
proof (cases "c o' = 1")
  case True
  obtain n where n: "map_of (outputSizes s) o' = Some n"
    using assms by (fastforce simp: references_def)
  show ?thesis
    using assms True n
    by (cases "map_of (outputLocs s) o'")
      (auto simp: releaseOutputRefLocked_def Let_def mget0_refs [OF assms(1)] references_def msum_delete mget0_def)
next
  case False
  then have "1 < c o'" using assms(2) by simp
  then show ?thesis
    using assms by (auto simp: releaseOutputRefLocked_def Let_def mget0_refs [OF assms(1)] references_def)
qed

lemma replaceOutputRef_references:
  assumes "references s c" "0 < c (le_OutputID old)"
  shows "references (replaceOutputRefLocked E s old new n l)
    (c(le_OutputID old := c (le_OutputID old) - 1, le_OutputID new :=
       (if le_OutputID new = le_OutputID old then c (le_OutputID old) else c (le_OutputID new) + 1)))"
proof (cases "le_OutputID old = le_OutputID new")
  case True
  obtain sz where sz: "map_of (outputSizes s) (le_OutputID new) = Some sz"
    using assms True by (fastforce simp: references_def)
  show ?thesis
    using assms True sz
    by (auto simp: replaceOutputRefLocked_def Let_def references_def msum_update mget0_def)
next
  case False
  then show ?thesis
    using addOutputRef_references [OF releaseOutputRef_references [OF assms, of E], of "le_OutputID new" n l]
    by (simp add: replaceOutputRefLocked_def)
qed

lemma dropAction_refs:
  assumes "refs_ok s" "map_of (ls_index s) a = Some ie"
  shows "refs_ok (dropAction E s a (le_OutputID ie))"
proof -
  let ?s = "s\<lparr>ls_index := AList.delete a (ls_index s)\<rparr>"
  let ?c = "refCount (ls_index s)"
  have wf: "wf_map (ls_index s)" and r: "references ?s ?c"
    using assms(1) by (auto simp: refs_ok_def intro: references_same)
  have "references (releaseOutputRefLocked E ?s (le_OutputID ie)) (?c(le_OutputID ie := ?c (le_OutputID ie) - 1))"
    by (rule releaseOutputRef_references [OF r refCount_pos [OF wf assms(2)]])
  then have "references (dropAction E s a (le_OutputID ie)) (?c(le_OutputID ie := ?c (le_OutputID ie) - 1))"
    unfolding dropAction_def by (rule references_same) simp_all
  then have "references (dropAction E s a (le_OutputID ie)) (refCount (AList.delete a (ls_index s)))"
    by (rule references_cong) (simp add: refCount_delete [OF wf] assms(2))
  then show ?thesis using wf by (simp add: refs_ok_def wf_delete)
qed

lemma refs_ok_same:
  "refs_ok s \<Longrightarrow> ls_index s' = ls_index s \<Longrightarrow> outputRefs s' = outputRefs s \<Longrightarrow> outputSizes s' = outputSizes s \<Longrightarrow>
     outputLocs s' = outputLocs s \<Longrightarrow> ls_currentDiskBytes s' = ls_currentDiskBytes s \<Longrightarrow> refs_ok s'"
  by (auto simp: refs_ok_def elim!: references_same)

section \<open>Whatever only drops entries\<close>

locale drop_inv =
  fixes P :: "lstore \<Rightarrow> bool"
  assumes drop: "P s \<Longrightarrow> map_of (ls_index s) a = Some ie \<Longrightarrow> P (dropAction E s a (le_OutputID ie))"
    and uniq: "P s \<Longrightarrow> wf_map (ls_index s)"
begin

lemma indexed: "P s \<Longrightarrow> (a, ie) \<in> set (ls_index s) \<Longrightarrow> map_of (ls_index s) a = Some ie"
  using map_of_Some_set [OF uniq] by blast

lemma evictOne: "P s \<Longrightarrow> P (snd (evictOneL E s))"
  using indexed lruMin_in [of None "ls_index s"]
  by (auto simp: evictOneL_def split: option.splits intro: drop)

lemma evictDownTo: "P s \<Longrightarrow> P (evictDownToL E t s)"
proof (induction "length (ls_index s)" arbitrary: s rule: less_induct)
  case less
  obtain b s' where e: "evictOneL E s = (b, s')" by fastforce
  then have "P s'" using evictOne [OF less.prems, of E] by simp
  then show ?case
    using less e evictOneL_shrinks [of E s s'] by (subst evictDownToL.simps) auto
qed

lemma evictIfNeeded: "P s \<Longrightarrow> P (evictIfNeededL E s)"
  by (auto simp: evictIfNeededL_def intro: evictDownTo)

lemma removeBroken: "P s \<Longrightarrow> map_of (ls_index s) a = Some ie \<Longrightarrow> P (removeBrokenActionEntry E s a ie)"
  by (simp add: removeBrokenActionEntry_def drop)

text \<open>A loop over a snapshot: the entries still to come are as they were.\<close>

lemma preloadEntries:
  assumes "P s" "wf_map kvs" "\<forall>(k, v) \<in> set kvs. map_of (ls_index s) k = Some v"
  shows "P (snd (preloadEntries E s m flt kvs))"
  using assms
proof (induction kvs arbitrary: s)
  case (Cons kv kvs)
  obtain k v where kv: "kv = (k, v)" by (cases kv)
  have k: "map_of (ls_index s) k = Some v" using Cons.prems kv by auto
  have rest: "\<forall>(k', v') \<in> set kvs. map_of (ls_index s) k' = Some v'" "wf_map kvs" "k \<notin> fst ` set kvs"
    using Cons.prems kv by auto
  then have "\<forall>(k', v') \<in> set kvs. map_of (ls_index (removeBrokenActionEntry E s k v)) k' = Some v'"
    using k by (force simp: removeBrokenActionEntry_def)
  then show ?case
    using Cons.IH [OF Cons.prems(1) rest(2,1)] Cons.IH [OF removeBroken [OF Cons.prems(1) k] rest(2)] kv
    by (auto split: prod.splits)
qed simp

lemma checkEntries:
  assumes "P s"
  shows "P (snd (checkEntries E dry ver s kvs rep))"
  using assms
proof (induction kvs arbitrary: s ver rep)
  case (Cons kv kvs)
  obtain a ie where kv: "kv = (a, ie)" by (cases kv)
  have "P (snd (removeIfUnchanged E s a ie))"
    using Cons.prems drop by (auto simp: removeIfUnchanged_def)
  then show ?case
    using Cons kv by (auto simp: Let_def split: option.splits prod.splits)
qed simp

end

interpretation refs: drop_inv refs_ok
  by unfold_locales (rule dropAction_refs, assumption+, simp add: refs_ok_def)

section \<open>Storing\<close>

lemma scheduleEvictionL_frame:
  "ls_index (scheduleEvictionL s) = ls_index s" "outputRefs (scheduleEvictionL s) = outputRefs s"
  "outputSizes (scheduleEvictionL s) = outputSizes s" "outputLocs (scheduleEvictionL s) = outputLocs s"
  "ls_currentDiskBytes (scheduleEvictionL s) = ls_currentDiskBytes s" "ls_disk (scheduleEvictionL s) = ls_disk s"
  "ls_pool (scheduleEvictionL s) = ls_pool s" "ls_dir (scheduleEvictionL s) = ls_dir s"
  by (simp_all add: scheduleEvictionL_def)

lemma storePutBodyL_frame:
  assumes "storePutBodyL E s it rd n ex l = (r, s')"
  shows "ls_index s' = ls_index s" "outputRefs s' = outputRefs s" "outputSizes s' = outputSizes s"
    "outputLocs s' = outputLocs s" "ls_currentDiskBytes s' = ls_currentDiskBytes s" "ls_dir s' = ls_dir s"
  using assms
  by (auto simp: storePutBodyL_def storePoolEligibleBodyL_def Let_def
      split: if_splits option.splits sum.splits prod.splits)

lemma putStoreL_frame:
  assumes "putStoreL E s it pc = (r, s')"
  shows "ls_index s' = ls_index s" "outputRefs s' = outputRefs s" "outputSizes s' = outputSizes s"
    "outputLocs s' = outputLocs s" "ls_currentDiskBytes s' = ls_currentDiskBytes s" "ls_dir s' = ls_dir s"
  using assms by (auto simp: putStoreL_def storePutBodyL_frame split: prod.splits sum.splits)

lemma bodyReaderForPutL_id: "bodyReaderForPutL E s it ie = (r, ie') \<Longrightarrow>
    le_OutputID ie' = le_OutputID ie \<and> le_Size ie' = le_Size ie \<and> le_TimeMicro ie' = le_TimeMicro ie \<and>
    le_AccessTimeMicro ie' = le_AccessTimeMicro ie \<and> le_PoolPage ie' = le_PoolPage ie \<and> le_PoolSlot ie' = le_PoolSlot ie"
  by (auto simp: bodyReaderForPutL_def compressNowBodyReaderL_def split: if_splits sum.splits option.splits prod.splits)

lemma putStoreL_id: "putStoreL E s it pc = (Inr ie, s') \<Longrightarrow>
    le_OutputID ie = le_OutputID (pc_entry pc) \<and> le_Size ie = le_Size (pc_entry pc) \<and>
    le_TimeMicro ie = le_TimeMicro (pc_entry pc) \<and> le_AccessTimeMicro ie = le_AccessTimeMicro (pc_entry pc)"
  by (auto simp: putStoreL_def dest!: bodyReaderForPutL_id split: prod.splits sum.splits)

lemma putBeginL_Some:
  assumes "putBeginL E s it = (Inr (Some pc), s')"
  shows "pc_existing pc = map_of (ls_index s) (ri_ActionID it)" "ls_index s' = ls_index s"
    "outputRefs s' = outputRefs s" "outputSizes s' = outputSizes s" "outputLocs s' = outputLocs s"
    "ls_currentDiskBytes s' = ls_currentDiskBytes s" "ls_disk s' = ls_disk s" "ls_pool s' = ls_pool s"
    "ls_dir s' = ls_dir s" "le_OutputID (pc_entry pc) = ri_OutputID it" "le_Size (pc_entry pc) = ri_Size it"
    "pc_loc pc = mget0 zeroLoc (outputLocs s) (ri_OutputID it)"
    "pc_refExists pc = (map_of (outputRefs s) (ri_OutputID it) \<noteq> None)"
    "ls_compress s' = ls_compress s" "poolDisabled s' = poolDisabled s"
    "le_AccessTimeMicro (pc_entry pc) = now E" "le_Compressed (pc_entry pc) = 0"
    "le_WireSize (pc_entry pc) = 0" "ri_OutputID it \<noteq> []"
    "\<not> (0 < ls_maxFileBytes s \<and> ls_maxFileBytes s < ri_Size it)"
  using assms by (auto simp: putBeginL_def Let_def split: if_splits)

lemma putBeginL_refs: "putBeginL E s it = (r, s') \<Longrightarrow> refs_ok s \<Longrightarrow> refs_ok s'"
  by (erule refs_ok_same) (auto simp: putBeginL_def Let_def split: if_splits)

lemma putCommitL_refs:
  assumes "refs_ok s" "pc_existing pc = map_of (ls_index s) (ri_ActionID it)"
  shows "refs_ok (putCommitL E s it pc ie)"
proof -
  let ?c = "refCount (ls_index s)" and ?a = "ri_ActionID it"
  have wf: "wf_map (ls_index s)" and r: "references s ?c" using assms(1) by (auto simp: refs_ok_def)
  obtain s1 where s1: "s1 = (case pc_existing pc of
        Some old \<Rightarrow> replaceOutputRefLocked E s old ie (entryStoredSizeL ie) (locL ie)
      | None \<Rightarrow> addOutputRefLocked s (le_OutputID ie) (entryStoredSizeL ie) (locL ie))" by blast
  have idx: "ls_index s1 = ls_index s"
    by (auto simp: s1 replaceOutputRefLocked_def addOutputRefLocked_def Let_def split: option.splits)
  have "references s1 (refCount (AList.update ?a ie (ls_index s)))"
  proof (cases "map_of (ls_index s) ?a")
    case None
    then show ?thesis
      using addOutputRef_references [OF r, of "le_OutputID ie" "entryStoredSizeL ie" "locL ie"] assms(2)
      by (auto simp: s1 refCount_update [OF wf] elim!: references_cong)
  next
    case (Some old)
    then show ?thesis
      using replaceOutputRef_references [OF r refCount_pos [OF wf Some], of E ie "entryStoredSizeL ie" "locL ie"] assms(2)
      by (auto simp: s1 refCount_update [OF wf] elim!: references_cong)
  qed
  then show ?thesis
    using wf idx by (auto simp: refs_ok_def putCommitL_def Let_def s1 [symmetric] scheduleEvictionL_frame
        intro: wf_update elim!: references_same)
qed

lemma putOneL_refs: "putOneL E s it = (r, s') \<Longrightarrow> refs_ok s \<Longrightarrow> refs_ok s'"
proof -
  assume put: "putOneL E s it = (r, s')" and ok: "refs_ok s"
  obtain b s1 where b: "putBeginL E s it = (b, s1)" by fastforce
  have ok1: "refs_ok s1" using b ok by (rule putBeginL_refs)
  show "refs_ok s'"
  proof (cases "\<exists>pc. b = Inr (Some pc)")
    case False
    then show ?thesis using put b ok1 by (auto simp: putOneL_def split: sum.splits option.splits)
  next
    case True
    then obtain pc where pc: "b = Inr (Some pc)" by blast
    obtain q s2 where q: "putStoreL E s1 it pc = (q, s2)" by fastforce
    note fr = putStoreL_frame [OF q]
    have ok2: "refs_ok s2" using ok1 by (rule refs_ok_same) (simp_all add: fr)
    have "pc_existing pc = map_of (ls_index s2) (ri_ActionID it)"
      using putBeginL_Some [OF b [unfolded pc]] fr by simp
    then show ?thesis
      using put b pc q ok2 putCommitL_refs by (auto simp: putOneL_def split: sum.splits)
  qed
qed

end
