(* ===== verification/Local_Cache.thy ===== *)
theory Local_Cache
  imports Local_Account
begin

text \<open>
  Properties of the action cache store: its accounting over any sequence of operations, eviction, the
  map it implements, what a lookup returns after a put, and the cases in which it goes wrong.
\<close>

section \<open>Operations\<close>

datatype lop =
    OpPutL env cacheItem
  | OpGetL env "string list"
  | OpPreload env preloadRequest
  | OpIntegrity env bool
  | OpUsed env string string string "string list" bool
  | OpEvictOneL env
  | OpEvictNowL env
  | OpScheduledL env
  | OpCloseL env

fun lapplyOp :: "lstore \<Rightarrow> lop \<Rightarrow> lstore" where
  "lapplyOp s (OpPutL E it) = snd (putOneL E s it)"
| "lapplyOp s (OpGetL E as) = snd (GetL E s as)"
| "lapplyOp s (OpPreload E req) = snd (Preload E s req)"
| "lapplyOp s (OpIntegrity E dry) = snd (IntegrityCheck E s dry)"
| "lapplyOp s (OpUsed E c ch bt ids rep) = snd (PostCacheUsed E s c ch bt ids rep)"
| "lapplyOp s (OpEvictOneL E) = snd (EvictOneL E s)"
| "lapplyOp s (OpEvictNowL E) = EvictNowL E s"
| "lapplyOp s (OpScheduledL E) = scheduledEvictionL E s"
| "lapplyOp s (OpCloseL E) = snd (CloseL E s)"

lemma refCount_touch:
  assumes "wf_map idx" "map_of idx a = Some ie" "le_OutputID ie' = le_OutputID ie"
  shows "refCount (AList.update a ie' idx) = refCount idx"
  using assms by (auto simp: refCount_update)

lemma getOneL_refs: "refs_ok s \<Longrightarrow> refs_ok (snd (getOneL E s a))"
  by (auto simp: getOneL_def refs_ok_def Let_def refCount_touch references_def split: option.splits)

lemma GetL_refs: "refs_ok s \<Longrightarrow> refs_ok (snd (GetL E s as))"
proof (induction as arbitrary: s)
  case (Cons a as)
  then show ?case using getOneL_refs [of s E a] by (auto split: prod.splits) (metis snd_conv)
qed simp

lemma writeManifestL_frame:
  assumes "writeManifestL E s p b = (r, s')"
  shows "ls_index s' = ls_index s" "refs_ok s \<Longrightarrow> refs_ok s'"
  using assms by (auto simp: writeManifestL_def elim!: refs_ok_same split: prod.splits option.splits)

lemma mergeManifestL_frame:
  assumes "mergeManifestL E s p ids = (r, s')"
  shows "ls_index s' = ls_index s" "refs_ok s \<Longrightarrow> refs_ok s'"
  using assms writeManifestL_frame by (auto simp: mergeManifestL_def Let_def split: sum.splits if_splits)

lemma PostCacheUsed_frame:
  assumes "PostCacheUsed E s c ch bt ids rep = (r, s')"
  shows "ls_index s' = ls_index s" "refs_ok s \<Longrightarrow> refs_ok s'"
  using assms writeManifestL_frame mergeManifestL_frame
  by (auto simp: PostCacheUsed_def Let_def split: sum.splits if_splits prod.splits option.splits)

lemma Preload_state:
  "snd (Preload E s req) = s \<or> (\<exists>m flt. snd (Preload E s req) = snd (preloadEntries E s m flt (ls_index s)))"
  unfolding Preload_def Let_def by (auto split: sum.splits prod.splits) (metis snd_conv)+

lemma Preload_refs: "refs_ok s \<Longrightarrow> refs_ok (snd (Preload E s req))"
  using refs.preloadEntries [of s "ls_index s"] refs.uniq Preload_state [of E s req]
  by (auto simp: wf_map_all)

lemma collectStaleL_refs: "refs_ok s \<Longrightarrow> refs_ok (collectStaleManifestsL E s)"
  by (auto simp: collectStaleManifestsL_def elim!: refs_ok_same split: sum.splits)

lemma lapplyOp_refs: "refs_ok s \<Longrightarrow> refs_ok (lapplyOp s op)"
proof (induction op)
  case (OpScheduledL E)
  have "refs_ok (s\<lparr>ls_evictionScheduled := False\<rparr>)" using OpScheduledL by (rule refs_ok_same) simp_all
  then show ?case
    using refs.evictIfNeeded [of _ E] collectStaleL_refs by (simp add: scheduledEvictionL_def)
next
  case (OpCloseL E)
  then show ?case by (auto simp: CloseL_def elim!: refs_ok_same split: option.splits)
next
  case (OpPutL E it)
  then show ?case using putOneL_refs [OF surjective_pairing] by simp
next
  case (OpUsed E c ch bt ids rep)
  then show ?case using PostCacheUsed_frame(2) [OF surjective_pairing] by simp
qed (simp_all add: GetL_refs Preload_refs IntegrityCheck_def refs.checkEntries EvictOneL_def refs.evictOne
    EvictNowL_def refs.evictIfNeeded)

lemma lapplyOps_refs: "refs_ok s \<Longrightarrow> refs_ok (foldl lapplyOp s ops)"
  by (induction ops arbitrary: s) (simp_all add: lapplyOp_refs)

section \<open>Eviction\<close>

lemma lruMin_least:
  "lruMin best kvs = Some (a, ie) \<Longrightarrow>
     (\<forall>kv \<in> set kvs. lruTimeMicro ie \<le> lruTimeMicro (snd kv)) \<and>
     (\<forall>x. best = Some x \<longrightarrow> lruTimeMicro ie \<le> lruTimeMicro (snd x))"
  by (induction best kvs rule: lruMin.induct) (force split: option.splits if_splits)+

lemma lruMin_None: "lruMin best kvs = None \<longleftrightarrow> best = None \<and> kvs = []"
  by (induction best kvs rule: lruMin.induct) (auto split: option.splits)

lemma empty_index_no_bytes:
  assumes "refs_ok s" "ls_index s = []"
  shows "ls_currentDiskBytes s = 0"
proof -
  have "map_of (outputSizes s) k = None" for k
    using assms by (auto simp: refs_ok_def references_def refCount_def)
  then have "msum (\<lambda>n. n) (outputSizes s) = 0" by (rule msum_empty_map)
  then show ?thesis using assms by (simp add: refs_ok_def references_def)
qed

lemma evictDownToL_fits:
  "refs_ok s \<Longrightarrow> 0 \<le> t \<Longrightarrow> ls_currentDiskBytes (evictDownToL E t s) \<le> t"
proof (induction "length (ls_index s)" arbitrary: s rule: less_induct)
  case less
  show ?case
  proof (cases "t < ls_currentDiskBytes s")
    case False
    then show ?thesis by (subst evictDownToL.simps) simp
  next
    case True
    then have "ls_index s \<noteq> []" using empty_index_no_bytes [OF less.prems(1)] less.prems(2) by auto
    then obtain s' where e: "evictOneL E s = (True, s')"
      using lruMin_None [of None "ls_index s"] by (auto simp: evictOneL_def split: option.splits)
    have "refs_ok s'" using refs.evictOne [OF less.prems(1), of E] e by simp
    then have "ls_currentDiskBytes (evictDownToL E t s') \<le> t"
      using less.hyps evictOneL_shrinks [OF e] less.prems(2) by blast
    then show ?thesis using True e by (subst evictDownToL.simps) simp
  qed
qed

lemma sdiv10_bounds: "0 \<le> m \<Longrightarrow> 0 \<le> (m :: int) - m sdiv 10 \<and> 0 \<le> m sdiv 10"
  by (cases "m = 0") (auto simp: signed_divide_int_def sgn_if)

lemma refCount_zero: "wf_map idx \<Longrightarrow> refCount idx o' = 0 \<longleftrightarrow> (\<forall>a ie. map_of idx a = Some ie \<longrightarrow> le_OutputID ie \<noteq> o')"
proof (induction idx)
  case (Cons kv idx)
  obtain a ie where kv: "kv = (a, ie)" by (cases kv)
  have "map_of idx a = None" using Cons.prems kv by (simp add: map_of_eq_None_iff)
  moreover have "refCount (kv # idx) o' = (if le_OutputID ie = o' then 1 else 0) + refCount idx o'"
    by (simp add: refCount_def kv)
  ultimately show ?case
    using Cons refCount_nonneg [of idx o'] kv by (auto split: if_splits) (metis option.distinct(1))+
qed (simp add: refCount_def)

definition emptyLocal :: "bool \<Rightarrow> int \<Rightarrow> lstore" where
  "emptyLocal cz maxBytes =
     \<lparr>ls_dir = ''/c'', ls_compress = cz, ls_maxDiskBytes = maxBytes, ls_maxFileBytes = 0,
      ls_manifestMaxAge = 0, ls_index = [], outputRefs = [], outputSizes = [], ls_dirty = False,
      ls_ready = True, ls_currentDiskBytes = 0, ls_evictionScheduled = False,
      ls_pool = newPool 4096 8388608 [], outputLocs = [], poolDisabled = False, ls_disk = [],
      ls_savedIndex = None, ls_hits = 0, ls_misses = 0, ls_puts = 0, ls_putsExist = 0,
      ls_putsCompleted = 0, ls_errors = 0\<rparr>"

lemma emptyLocal_refs: "refs_ok (emptyLocal cz m)"
  by (simp add: emptyLocal_def refs_ok_def references_def refCount_def)

definition plainItem :: "string \<Rightarrow> string \<Rightarrow> bytes \<Rightarrow> cacheItem" where
  "plainItem a o' b =
     \<lparr>ri_ActionID = a, ri_Miss = False, ri_OutputID = o', ri_Size = int (length b), ri_Time = None,
      ri_IsCompressed = False, ri_WireSize = int (length b), ri_DiskPath = [],
      ri_body = BytesReader (Inr (b, None))\<rparr>"

section \<open>Properties\<close>



text \<open>
  An eviction pass ends and leaves the store within its budget; if it was over, a tenth of
  the budget is left free. It never stops early: entries are dropped until the bytes are gone.\<close>

theorem local_evictNow_fits:
  assumes "refs_ok s" "0 < ls_maxDiskBytes s"
  shows "DiskBytesL (EvictNowL E s) \<le> ls_maxDiskBytes s \<and>
    (ls_maxDiskBytes s < DiskBytesL s \<longrightarrow>
       DiskBytesL (EvictNowL E s) \<le> ls_maxDiskBytes s - ls_maxDiskBytes s sdiv 10)"
  using sdiv10_bounds [of "ls_maxDiskBytes s"] assms(2)
    evictDownToL_fits [OF assms(1), of "ls_maxDiskBytes s - ls_maxDiskBytes s sdiv 10" E]
  by (auto simp: EvictNowL_def evictIfNeededL_def DiskBytesL_def evictionMarginFractionL_def)

theorem local_evictNow_fits_witness:
  "DiskBytesL (EvictNowL (calm 9) (foldl lapplyOp (emptyLocal False 4)
     [OpPutL (calm 5) (plainItem ''a'' ''o'' ''xyz''), OpPutL (calm 7) (plainItem ''c'' ''p'' ''uv'')])) \<le> 4"
proof -
  let ?s = "foldl lapplyOp (emptyLocal False 4)
     [OpPutL (calm 5) (plainItem ''a'' ''o'' ''xyz''), OpPutL (calm 7) (plainItem ''c'' ''p'' ''uv'')]"
  have "ls_maxDiskBytes ?s = 4" by code_simp
  then show ?thesis using local_evictNow_fits [OF lapplyOps_refs [OF emptyLocal_refs], of False 4
     "[OpPutL (calm 5) (plainItem ''a'' ''o'' ''xyz''), OpPutL (calm 7) (plainItem ''c'' ''p'' ''uv'')]" "calm 9"]
    by simp
qed

text \<open>
  One eviction drops exactly one entry, and no entry was used longer ago. The bytes of its
  output are given back exactly if no other entry names that output.\<close>

theorem local_evictOne_lru:
  assumes "refs_ok s" "ls_index s \<noteq> []"
  shows "\<exists>a ie s'. EvictOneL E s = (True, s') \<and> map_of (ls_index s) a = Some ie \<and>
    ls_index s' = AList.delete a (ls_index s) \<and>
    (\<forall>b je. map_of (ls_index s) b = Some je \<longrightarrow> lruTimeMicro ie \<le> lruTimeMicro je) \<and>
    DiskBytesL s' = DiskBytesL s -
      (if \<exists>b je. b \<noteq> a \<and> map_of (ls_index s) b = Some je \<and> le_OutputID je = le_OutputID ie then 0
       else mget0 0 (outputSizes s) (le_OutputID ie))"
proof -
  obtain a ie where m: "lruMin None (ls_index s) = Some (a, ie)"
    using assms(2) lruMin_None [of None "ls_index s"] by fastforce
  let ?o = "le_OutputID ie" and ?s' = "dropAction E s a (le_OutputID ie)"
  have wf: "wf_map (ls_index s)" and r: "references s (refCount (ls_index s))"
    using assms(1) by (simp_all add: refs_ok_def)
  have a: "map_of (ls_index s) a = Some ie"
    using lruMin_in [OF m] by (simp add: map_of_Some_set [OF wf])
  have least: "lruTimeMicro ie \<le> lruTimeMicro je" if "map_of (ls_index s) b = Some je" for b je
    using lruMin_least [OF m] map_of_SomeD [OF that] by auto
  have "refCount (AList.delete a (ls_index s)) ?o = refCount (ls_index s) ?o - 1"
    by (simp add: refCount_delete [OF wf] a)
  moreover have "refCount (AList.delete a (ls_index s)) ?o = 0 \<longleftrightarrow>
      \<not> (\<exists>b je. b \<noteq> a \<and> map_of (ls_index s) b = Some je \<and> le_OutputID je = ?o)"
    by (auto simp: refCount_zero [OF wf_delete [OF wf]])
  ultimately have only: "refCount (ls_index s) ?o = 1 \<longleftrightarrow>
      \<not> (\<exists>b je. b \<noteq> a \<and> map_of (ls_index s) b = Some je \<and> le_OutputID je = ?o)" by simp
  have "0 < refCount (ls_index s) ?o" using refCount_pos [OF wf a] .
  then have "DiskBytesL ?s' = DiskBytesL s - (if refCount (ls_index s) ?o = 1 then mget0 0 (outputSizes s) ?o else 0)"
    using mget0_refs [OF r, of ?o]
    by (auto simp: DiskBytesL_def dropAction_def releaseOutputRefLocked_def Let_def mget0_def split: option.splits)
  then show ?thesis
    using m a least only by (intro exI [of _ a] exI [of _ ie] exI [of _ ?s']) (auto simp: EvictOneL_def evictOneL_def)
qed

theorem local_evictOne_lru_witness:
  "\<exists>s'. EvictOneL (calm 9) (foldl lapplyOp (emptyLocal False 4)
     [OpPutL (calm 5) (plainItem ''a'' ''o'' ''xyz''), OpPutL (calm 6) (plainItem ''c'' ''p'' ''uv''),
      OpGetL (calm 7) [''a'']]) = (True, s') \<and> map fst (ls_index s') = [''a''] \<and>
     DiskBytesL s' = 3"
proof -
  let ?s = "foldl lapplyOp (emptyLocal False 4)
     [OpPutL (calm 5) (plainItem ''a'' ''o'' ''xyz''), OpPutL (calm 6) (plainItem ''c'' ''p'' ''uv''),
      OpGetL (calm 7) [''a'']]"
  have ev: "ls_index ?s \<noteq> []" "map fst (ls_index (snd (EvictOneL (calm 9) ?s))) = [''a'']"
    "DiskBytesL (snd (EvictOneL (calm 9) ?s)) = 3"
    by code_simp+
  then show ?thesis
    using local_evictOne_lru [OF lapplyOps_refs [OF emptyLocal_refs] ev(1), of "calm 9"] by (metis snd_conv)
qed

section \<open>The map the store implements\<close>

text \<open>The abstract store: a map from action ids to the output and its size.\<close>

type_synonym actionMap = "string \<rightharpoonup> string \<times> int"

definition actions :: "lstore \<Rightarrow> actionMap" where
  "actions s = (\<lambda>a. map_option (\<lambda>ie. (le_OutputID ie, le_Size ie)) (map_of (ls_index s) a))"

lemma actions_same: "ls_index s' = ls_index s \<Longrightarrow> actions s' = actions s"
  by (simp add: actions_def)

lemma collectStaleL_index: "ls_index (collectStaleManifestsL E s) = ls_index s"
  by (simp add: collectStaleManifestsL_def split: sum.splits)

text \<open>Items above the limit are skipped by a put and missed by a lookup.\<close>

definition tooLarge :: "lstore \<Rightarrow> int \<Rightarrow> bool" where
  "tooLarge s n = (0 < ls_maxFileBytes s \<and> ls_maxFileBytes s < n)"

lemma putCommitL_index: "ls_index (putCommitL E s it pc ie) = AList.update (ri_ActionID it) ie (ls_index s)"
  by (auto simp: putCommitL_def Let_def scheduleEvictionL_frame replaceOutputRefLocked_def
      addOutputRefLocked_def split: option.splits)

lemma putOneL_actions:
  assumes put: "putOneL E s it = (r, s')"
  shows "actions s' = (if r = None \<and> \<not> tooLarge s (ri_Size it)
      then (actions s)(ri_ActionID it \<mapsto> (ri_OutputID it, ri_Size it)) else actions s)"
proof -
  obtain b s1 where b: "putBeginL E s it = (b, s1)" by fastforce
  have idx: "ls_index s1 = ls_index s" using b by (auto simp: putBeginL_def Let_def split: if_splits)
  show ?thesis
  proof (cases "\<exists>pc. b = Inr (Some pc)")
    case False
    then have "s' = s1 \<and> (r = None \<longrightarrow> tooLarge s (ri_Size it))"
      using put b by (auto simp: putOneL_def putBeginL_def tooLarge_def Let_def split: if_splits sum.splits option.splits)
    then show ?thesis using idx by (auto simp: actions_def)
  next
    case True
    then obtain pc where pc: "b = Inr (Some pc)" by blast
    note pb = putBeginL_Some [OF b [unfolded pc]]
    obtain q s2 where q: "putStoreL E s1 it pc = (q, s2)" by fastforce
    show ?thesis
    proof (cases q)
      case (Inl e)
      then show ?thesis using put b pc q idx putStoreL_frame(1) [OF q] by (auto simp: putOneL_def actions_def)
    next
      case (Inr ie)
      then have "r = None" "s' = putCommitL E s2 it pc ie" using put b pc q by (simp_all add: putOneL_def)
      moreover have "le_OutputID ie = ri_OutputID it" "le_Size ie = ri_Size it"
        using putStoreL_id [OF q [unfolded Inr]] pb(10,11) by simp_all
      ultimately show ?thesis
        using idx putStoreL_frame(1) [OF q] pb(20)
        by (auto simp: actions_def putCommitL_index tooLarge_def fun_eq_iff)
    qed
  qed
qed

lemma getOneL_actions: "actions (snd (getOneL E s a)) = actions s"
  by (auto simp: getOneL_def actions_def Let_def fun_eq_iff split: option.splits)

lemma GetL_actions: "actions (snd (GetL E s as)) = actions s"
proof (induction as arbitrary: s)
  case (Cons a as)
  then show ?case using getOneL_actions [of E s a] by (auto split: prod.splits) (metis snd_conv)
qed simp

interpretation sub: drop_inv "\<lambda>s. refs_ok s \<and> actions s \<subseteq>\<^sub>m m" for m
  by unfold_locales
    (auto simp: actions_def map_le_def dom_def refs.uniq split: if_splits intro: dropAction_refs)

lemma lapplyOp_forgets:
  assumes "refs_ok s" and np: "\<nexists>E it. op = OpPutL E it"
  shows "actions (lapplyOp s op) \<subseteq>\<^sub>m actions s"
proof -
  have base: "refs_ok s \<and> actions s \<subseteq>\<^sub>m actions s" using assms(1) by simp
  show ?thesis
  proof (cases op)
    case (OpGetL E as)
    then show ?thesis by (simp add: GetL_actions)
  next
    case (OpPreload E req)
    have "\<forall>(k, v) \<in> set (ls_index s). map_of (ls_index s) k = Some v"
      using refs.uniq [OF assms(1)] by (auto simp: wf_map_all)
    from sub.preloadEntries [OF base refs.uniq [OF assms(1)] this]
    show ?thesis using Preload_state [of E s req] by (elim disjE exE) (simp_all add: OpPreload)
  next
    case (OpScheduledL E)
    have "refs_ok (s\<lparr>ls_evictionScheduled := False\<rparr>)" using assms(1) by (rule refs_ok_same) simp_all
    then have "refs_ok (s\<lparr>ls_evictionScheduled := False\<rparr>) \<and>
        actions (s\<lparr>ls_evictionScheduled := False\<rparr>) \<subseteq>\<^sub>m actions s" by (simp add: actions_def)
    from sub.evictIfNeeded [OF this, of E] show ?thesis
      by (simp add: OpScheduledL scheduledEvictionL_def actions_same [OF collectStaleL_index])
  next
    case (OpUsed E c ch bt ids rep)
    then show ?thesis using actions_same [OF PostCacheUsed_frame(1) [OF surjective_pairing]] by simp
  next
    case (OpCloseL E)
    then show ?thesis by (auto simp: CloseL_def actions_def split: option.splits)
  next
    case (OpIntegrity E dry)
    then show ?thesis using sub.checkEntries [OF base] by (simp add: IntegrityCheck_def)
  next
    case (OpEvictOneL E)
    then show ?thesis using sub.evictOne [OF base, of E] by (simp add: EvictOneL_def)
  next
    case (OpEvictNowL E)
    then show ?thesis using sub.evictIfNeeded [OF base, of E] by (simp add: EvictNowL_def)
  qed (use np in auto)
qed

lemma getOneL_answer:
  "let it = fst (getOneL E s a) in
   case actions s a of
     None \<Rightarrow> ri_Miss it
   | Some (out, n) \<Rightarrow> (if tooLarge s n then ri_Miss it
       else \<not> ri_Miss it \<and> ri_ActionID it = a \<and> ri_OutputID it = out \<and> ri_Size it = n)"
  by (auto simp: getOneL_def actions_def tooLarge_def missItem_def responseItemL_def Let_def split: option.splits)

text \<open>
  Claim C1. The store implements a map from action ids to outputs: a put that reports success has
  bound its action to the given output and size and nothing else (unless the item is above the size
  limit, when nothing changes), a failed put changes nothing, a lookup returns what the map holds (a
  miss if the entry is above the limit) and leaves the map as it is, and every other operation can
  only forget bindings, never make or change one.\<close>

theorem local_store_refines_map:
  assumes "refs_ok s"
  shows "(\<forall>E it. actions (snd (putOneL E s it)) =
      (if fst (putOneL E s it) = None \<and> \<not> tooLarge s (ri_Size it)
       then (actions s)(ri_ActionID it \<mapsto> (ri_OutputID it, ri_Size it)) else actions s)) \<and>
    (\<forall>E a. actions (snd (getOneL E s a)) = actions s \<and>
      (let it = fst (getOneL E s a) in
       case actions s a of
         None \<Rightarrow> ri_Miss it
       | Some (out, n) \<Rightarrow> (if tooLarge s n then ri_Miss it
           else \<not> ri_Miss it \<and> ri_ActionID it = a \<and> ri_OutputID it = out \<and> ri_Size it = n))) \<and>
    (\<forall>op. (\<nexists>E it. op = OpPutL E it) \<longrightarrow> actions (lapplyOp s op) \<subseteq>\<^sub>m actions s)"
  using putOneL_actions [OF surjective_pairing] getOneL_actions getOneL_answer lapplyOp_forgets [OF assms]
  by (intro conjI allI impI) blast+

theorem local_store_refines_map_witness:
  "actions (snd (putOneL (calm 5) (emptyLocal False 0) (plainItem ''a'' ''o'' ''xyz''))) = [''a'' \<mapsto> (''o'', 3)]"
proof -
  have "fst (putOneL (calm 5) (emptyLocal False 0) (plainItem ''a'' ''o'' ''xyz'')) = None"
    "\<not> tooLarge (emptyLocal False 0) (ri_Size (plainItem ''a'' ''o'' ''xyz''))"
    by code_simp+
  moreover have "actions (emptyLocal False 0) = Map.empty" by (simp add: actions_def emptyLocal_def)
  ultimately show ?thesis
    using conjunct1 [OF local_store_refines_map [OF emptyLocal_refs, of False 0], rule_format,
        of "calm 5" "plainItem ''a'' ''o'' ''xyz''"]
    by (simp add: plainItem_def)
qed

end
