(* ===== verification/Http_Budget.thy ===== *)
theory Http_Budget
  imports Http_Handlers Local_Cache Gocache_Account
begin

text \<open>
  The combined disk budget of the server, the trimming of preloads, and the accounts of both stores
  under any sequence of requests.
\<close>

section \<open>The combined budget\<close>

text \<open>A store whose eviction never panics, and that holds no bytes when it has nothing to evict.\<close>

locale evictable_store = disk_budget_store +
  fixes stored :: "'a \<Rightarrow> int" and ok :: "'a \<Rightarrow> bool"
  assumes evict_ok: "ok s \<Longrightarrow> \<exists>b s'. evict E s = (Inr b, s') \<and> ok s'"
    and evict_stuck: "ok s \<Longrightarrow> evict E s = (Inr False, s') \<Longrightarrow> stored s = 0 \<and> stored s' = 0"

lemma evict_inv_stuck:
  assumes "evict_inv s" "EvictOne E s = (Inr False, s')"
  shows "DiskBytes s = 0 \<and> DiskBytes s' = 0"
  using assms evictOneLocked_spec [of s E]
  by (auto simp: evict_inv_def EvictOne_def DiskBytes_def acct_def)

interpretation local_ev: evictable_store
    "\<lambda>E s. case EvictOneL E s of (b, s') \<Rightarrow> (Inr b, s')" "\<lambda>s. length (ls_index s)" DiskBytesL refs_ok
proof unfold_locales
  fix E s
  assume "refs_ok s"
  then show "\<exists>b s'. (case EvictOneL E s of (b, s') \<Rightarrow> (Inr b, s')) = (Inr b, s') \<and> refs_ok s'"
    using refs.evictOne [of s E] by (auto simp: EvictOneL_def split: prod.splits)
next
  fix E s s'
  assume ok: "refs_ok s" and "(case EvictOneL E s of (b, s') \<Rightarrow> (Inr b, s')) = (Inr False, s')"
  then have "ls_index s = []" "s' = s"
    by (auto simp: EvictOneL_def evictOneL_def lruMin_None split: prod.splits option.splits)
  then show "DiskBytesL s = 0 \<and> DiskBytesL s' = 0"
    using empty_index_no_bytes [OF ok] by (simp add: DiskBytesL_def)
qed

interpretation native_ev: evictable_store EvictOne "\<lambda>s. length (items (evictHeap s))" DiskBytes evict_inv
proof unfold_locales
  fix E s
  assume "evict_inv s"
  then show "\<exists>b s'. EvictOne E s = (Inr b, s') \<and> evict_inv s'"
    using evictOneLocked_spec [of s E] by (auto simp: evict_inv_def EvictOne_def)
qed (rule evict_inv_stuck)

definition budget_ok :: "handler \<Rightarrow> bool" where
  "budget_ok h = (refs_ok (h_store h) \<and> (\<forall>s. gocacheStore h = Some s \<longrightarrow> evict_inv s))"

lemma storeEvictOne_ok:
  assumes "budget_ok h"
  shows "\<exists>b h'. storeEvictOne E h i = (Inr b, h') \<and> budget_ok h' \<and>
    diskBudgetStores h' = diskBudgetStores h \<and> combinedMaxDiskBytes h' = combinedMaxDiskBytes h \<and>
    (\<not> b \<longrightarrow> storeBytes h i = 0 \<and> storeBytes h' i = 0 \<and> (\<forall>j. j \<noteq> i \<longrightarrow> storeBytes h' j = storeBytes h j))"
proof (cases i)
  case CacheStore
  obtain b s' where e: "EvictOneL E (h_store h) = (b, s')" by fastforce
  have "refs_ok s'" using assms refs.evictOne [of "h_store h" E] e by (simp add: budget_ok_def EvictOneL_def)
  moreover have "\<not> b \<Longrightarrow> DiskBytesL (h_store h) = 0 \<and> DiskBytesL s' = 0"
    using local_ev.evict_stuck [of "h_store h" E s'] assms e by (simp add: budget_ok_def)
  moreover have "storeBytes (h\<lparr>h_store := s'\<rparr>) j = storeBytes h j" if "j \<noteq> CacheStore" for j
    using that by (cases j) simp_all
  ultimately show ?thesis
    using CacheStore e assms
    by (intro exI [of _ b] exI [of _ "h\<lparr>h_store := s'\<rparr>"]) (simp add: budget_ok_def diskBudgetStores_def)
next
  case NativeStore
  show ?thesis
  proof (cases "gocacheStore h")
    case None
    then show ?thesis using NativeStore assms by (intro exI [of _ False] exI [of _ h]) simp
  next
    case (Some s)
    obtain b s' where e: "EvictOne E s = (Inr b, s')" "evict_inv s'"
      using native_ev.evict_ok [of s E] assms Some by (auto simp: budget_ok_def)
    have "\<not> b \<Longrightarrow> DiskBytes s = 0 \<and> DiskBytes s' = 0"
      using native_ev.evict_stuck [of s E s'] assms Some e by (simp add: budget_ok_def)
    moreover have "storeBytes (h\<lparr>gocacheStore := Some s'\<rparr>) j = storeBytes h j" if "j \<noteq> NativeStore" for j
      using that by (cases j) simp_all
    ultimately show ?thesis
      using NativeStore Some e assms
      by (intro exI [of _ b] exI [of _ "h\<lparr>gocacheStore := Some s'\<rparr>"])
        (simp add: budget_ok_def diskBudgetStores_def)
  qed
qed

lemma evictFirst_ok:
  assumes "budget_ok h"
  shows "\<exists>b h'. evictFirst E h is = (Inr b, h') \<and> budget_ok h' \<and>
    diskBudgetStores h' = diskBudgetStores h \<and> combinedMaxDiskBytes h' = combinedMaxDiskBytes h \<and>
    (\<not> b \<longrightarrow> (\<forall>j \<in> set is. storeBytes h j = 0))"
  using assms
proof (induction "is" arbitrary: h)
  case (Cons i "is")
  obtain b h1 where e: "storeEvictOne E h i = (Inr b, h1)" "budget_ok h1"
      "diskBudgetStores h1 = diskBudgetStores h" "combinedMaxDiskBytes h1 = combinedMaxDiskBytes h"
      "\<not> b \<longrightarrow> storeBytes h i = 0 \<and> storeBytes h1 i = 0 \<and> (\<forall>j. j \<noteq> i \<longrightarrow> storeBytes h1 j = storeBytes h j)"
    using storeEvictOne_ok [OF Cons.prems] by blast
  obtain c h2 where c: "evictFirst E h1 is = (Inr c, h2)" "budget_ok h2"
      "diskBudgetStores h2 = diskBudgetStores h1" "combinedMaxDiskBytes h2 = combinedMaxDiskBytes h1"
      "\<not> c \<longrightarrow> (\<forall>j \<in> set is. storeBytes h1 j = 0)"
    using Cons.IH [OF e(2)] by blast
  show ?case
  proof (cases b)
    case True
    then show ?thesis using e by (intro exI [of _ True] exI [of _ h1]) simp
  next
    case False
    then have "\<not> c \<Longrightarrow> \<forall>j \<in> set (i # is). storeBytes h j = 0" using e(5) c(5) by (metis set_ConsD)
    then show ?thesis using False e c by simp
  qed
qed (simp, blast)

lemma combinedBytes_perm: "mset is = mset js \<Longrightarrow> combinedBytes h is = combinedBytes h js"
  by (simp add: combinedBytes_def mset_map flip: sum_mset_sum_list)

lemma mset_byBytes: "mset (byBytes h is) = mset is"
  by (simp add: byBytes_def)

lemma budgetLoop_fits:
  assumes "budget_ok h" "0 \<le> target"
  shows "\<exists>h'. budgetLoop E target is h = (None, h') \<and> combinedBytes h' is \<le> target \<and> budget_ok h' \<and>
    diskBudgetStores h' = diskBudgetStores h \<and> combinedMaxDiskBytes h' = combinedMaxDiskBytes h"
  using assms
proof (induction "evictWeight h" arbitrary: h "is" rule: less_induct)
  case less
  show ?case
  proof (cases "target < combinedBytes h is")
    case False
    then show ?thesis using less.prems by (subst budgetLoop.simps) simp
  next
    case True
    let ?is = "byBytes h is"
    obtain b h1 where e: "evictFirst E h ?is = (Inr b, h1)" "budget_ok h1"
        "diskBudgetStores h1 = diskBudgetStores h" "combinedMaxDiskBytes h1 = combinedMaxDiskBytes h"
        "\<not> b \<longrightarrow> (\<forall>j \<in> set ?is. storeBytes h j = 0)"
      using evictFirst_ok [OF less.prems(1)] by blast
    have b
    proof (rule ccontr)
      assume "\<not> b"
      then have "map (storeBytes h) ?is = map (\<lambda>_. 0) ?is" using e(5) by simp
      then have "combinedBytes h ?is = 0" by (simp only: combinedBytes_def sum_list_0)
      then show False
        using True less.prems(2) combinedBytes_perm [OF mset_byBytes [of h "is"], of h] by simp
    qed
    then have "evictWeight h1 < evictWeight h" using evictFirst_weight [OF e(1)] by simp
    from less.hyps [OF this e(2) less.prems(2), of ?is] show ?thesis
      using True e \<open>b\<close> combinedBytes_perm [OF mset_byBytes [of h "is"]]
      by (subst budgetLoop.simps) (auto simp: Let_def)
  qed
qed


definition plainServer :: "lstore \<Rightarrow> store option \<Rightarrow> int \<Rightarrow> handler" where
  "plainServer st gst maxBytes =
     \<lparr>h_store = st, gocacheStore = gst, authToken = ''t'', fallbackAuthToken = [], preloadLimit = 2,
      saveSessions = [], preloadInFlight = 0, preloadStarted = 0, preloadCompleted = 0,
      clientSessions = [], combinedMaxDiskBytes = maxBytes, panicCount = 0, lastPanicMessage = None,
      lastPanicAt = 0, sessionsJSONLPath = [], settingsPath = [],
      settings = \<lparr>MaxPreloadTotalBytesByBuildType = [], MaxFileBytesByBuildType = []\<rparr>, h_files = []\<rparr>"



section \<open>Trimming a preload\<close>

definition kept :: "cacheItem list \<Rightarrow> nat list \<Rightarrow> nat list" where
  "kept its dropped = filter (\<lambda>i. i \<notin> set dropped) [0..<length its]"

lemma trimOrder_perm: "mset (trimOrder its) = mset [0..<length its]"
  by (simp add: trimOrder_def)

lemma dropUntilFits_take: "\<exists>k \<le> length is. dropUntilFits its limit tot is = take k is \<and>
    tot - sum_list (map (\<lambda>i. sizeOfItem (its ! i)) (take k is)) \<le> (if k < length is then limit else
      tot - sum_list (map (\<lambda>i. sizeOfItem (its ! i)) is)) \<and>
    (\<forall>m < k. limit < tot - sum_list (map (\<lambda>i. sizeOfItem (its ! i)) (take m is)))"
proof (induction "is" arbitrary: tot)
  case (Cons i "is")
  show ?case
  proof (cases "tot \<le> limit")
    case True
    then show ?thesis by (intro exI [of _ 0]) simp
  next
    case False
    obtain k where k: "k \<le> length is" "dropUntilFits its limit (tot - sizeOfItem (its ! i)) is = take k is"
        "tot - sizeOfItem (its ! i) - sum_list (map (\<lambda>i. sizeOfItem (its ! i)) (take k is)) \<le>
          (if k < length is then limit else
            tot - sizeOfItem (its ! i) - sum_list (map (\<lambda>i. sizeOfItem (its ! i)) is))"
        "\<forall>m < k. limit < tot - sizeOfItem (its ! i) - sum_list (map (\<lambda>i. sizeOfItem (its ! i)) (take m is))"
      using Cons.IH [of "tot - sizeOfItem (its ! i)"] by blast
    have "\<forall>m < Suc k. limit < tot - sum_list (map (\<lambda>i. sizeOfItem (its ! i)) (take m (i # is)))"
      using k(4) False by (auto simp: less_Suc_eq_0_disj algebra_simps)
    then show ?thesis
      using k(1-3) False by (intro exI [of _ "Suc k"]) (auto simp: algebra_simps split: if_splits)
  qed
qed simp


lemma mset_kept:
  assumes "mset order = mset [0..<length its]"
  shows "mset (kept its (take k order)) = mset (drop k order)"
proof -
  have d: "distinct order" using assms by (metis distinct_upt mset_eq_imp_distinct_iff)
  have "mset (kept its (take k order)) = filter_mset (\<lambda>i. i \<notin> set (take k order)) (mset order)"
    by (simp add: kept_def assms)
  also have "\<dots> = mset (filter (\<lambda>i. i \<notin> set (take k order)) (take k order @ drop k order))" by simp
  also have "filter (\<lambda>i. i \<notin> set (take k order)) (take k order @ drop k order) = drop k order"
  proof -
    have "\<forall>i \<in> set (drop k order). i \<notin> set (take k order)"
      using set_take_disj_set_drop_if_distinct [OF d, of k k] by blast
    then show ?thesis unfolding filter_append by (simp add: filter_empty_conv)
  qed
  finally show ?thesis .
qed

lemma sum_sizes_kept:
  assumes "mset order = mset [0..<length its]"
  shows "sum_list (map (\<lambda>i. sizeOfItem (its ! i)) (kept its (take k order))) =
    sum_list (map sizeOfItem its) - sum_list (map (\<lambda>i. sizeOfItem (its ! i)) (take k order))"
proof -
  let ?f = "\<lambda>i. sizeOfItem (its ! i)"
  have perm: "sum_list (map ?f xs) = sum_list (map ?f ys)" if "mset xs = mset ys" for xs ys
    using that by (metis mset_map sum_mset_sum_list)
  have "map ?f [0..<length its] = map sizeOfItem its" by (rule nth_equalityI) simp_all
  then have "sum_list (map sizeOfItem its) = sum_list (map ?f order)" using perm [OF assms] by simp
  also have "\<dots> = sum_list (map ?f (take k order)) + sum_list (map ?f (drop k order))"
    by (metis append_take_drop_id map_append sum_list_append)
  finally show ?thesis using perm [OF mset_kept [OF assms, of k]] by simp
qed

definition trimRank :: "cacheItem \<Rightarrow> int \<times> int" where
  "trimRank it = (bucketOfItem it, - sizeOfItem it)"

lemma trimOrder_ranks:
  assumes "i \<in> set (take k (trimOrder its))" "j \<in> set (drop k (trimOrder its))"
  shows "trimRank (its ! i) \<le> trimRank (its ! j)"
proof -
  have "sorted (map (\<lambda>i. trimRank (its ! i)) (take k (trimOrder its) @ drop k (trimOrder its)))"
    unfolding append_take_drop_id unfolding trimOrder_def trimRank_def by (rule sorted_sort_key)
  then show ?thesis using assms by (auto simp only: map_append sorted_append set_map)
qed

lemma set_drop_order: "j < length its \<Longrightarrow> j \<notin> set (take k (trimOrder its)) \<Longrightarrow> j \<in> set (drop k (trimOrder its))"
proof -
  assume "j < length its" "j \<notin> set (take k (trimOrder its))"
  moreover have "set (trimOrder its) = {0..<length its}" by (simp add: trimOrder_def)
  ultimately show ?thesis by (metis Un_iff append_take_drop_id atLeastLessThan_iff set_append zero_le)
qed

text \<open>
  Claim C19. Trimming keeps the items in their order, drops a set of them that is ranked before all
  that stay (older hour first, larger first within an hour), and leaves at most the budget; it stops as
  soon as it can: with the last dropped item back, the rest would exceed the budget.\<close>

theorem trim_fits_budget:
  "\<exists>dropped. trimToPreloadBudget its limit = map (\<lambda>i. its ! i) (kept its dropped) \<and>
    set dropped \<subseteq> {0..<length its} \<and> distinct dropped \<and>
    (limit \<le> 0 \<longrightarrow> dropped = []) \<and>
    (0 < limit \<longrightarrow> sum_list (map sizeOfItem (trimToPreloadBudget its limit)) \<le> limit) \<and>
    (\<forall>i \<in> set dropped. \<forall>j \<in> set (kept its dropped). trimRank (its ! i) \<le> trimRank (its ! j)) \<and>
    (dropped \<noteq> [] \<longrightarrow> limit < sum_list (map sizeOfItem (trimToPreloadBudget its limit)) +
       sizeOfItem (its ! last dropped))"
proof (cases "limit \<le> 0 \<or> its = [] \<or> sum_list (map sizeOfItem its) \<le> limit")
  case True
  have "map (\<lambda>i. its ! i) (kept its []) = its" by (simp add: kept_def map_nth)
  then show ?thesis using True by (intro exI [of _ "[]"]) (auto simp: trimToPreloadBudget_def)
next
  case False
  let ?f = "\<lambda>i. sizeOfItem (its ! i)" and ?o = "trimOrder its" and ?t = "sum_list (map sizeOfItem its)"
  obtain k where k: "k \<le> length ?o" "dropUntilFits its limit ?t ?o = take k ?o"
      "?t - sum_list (map ?f (take k ?o)) \<le> (if k < length ?o then limit else ?t - sum_list (map ?f ?o))"
      "\<forall>m < k. limit < ?t - sum_list (map ?f (take m ?o))"
    using dropUntilFits_take by blast
  have res: "trimToPreloadBudget its limit = map (\<lambda>i. its ! i) (kept its (take k ?o))"
    using False k(2) by (simp add: trimToPreloadBudget_def kept_def)
  have sizes: "sum_list (map sizeOfItem (trimToPreloadBudget its limit)) = ?t - sum_list (map ?f (take k ?o))"
    using sum_sizes_kept [OF trimOrder_perm, of its k] by (simp add: res o_def)
  have "?t - sum_list (map ?f ?o) = 0" using sum_sizes_kept [OF trimOrder_perm, of its "length ?o"]
      mset_kept [OF trimOrder_perm, of its "length ?o"] by simp
  then have fits: "sum_list (map sizeOfItem (trimToPreloadBudget its limit)) \<le> limit"
    using k(3) False sizes by (auto split: if_splits)
  have more: "limit < sum_list (map sizeOfItem (trimToPreloadBudget its limit)) + ?f (last (take k ?o))" if "take k ?o \<noteq> []"
  proof -
    have "0 < k" using that by (cases k) simp_all
    then obtain m where m: "k = Suc m" "m < length ?o" using k(1) by (cases k) auto
    then have "take k ?o = take m ?o @ [?o ! m]" by (simp add: take_Suc_conv_app_nth)
    then show ?thesis using k(4) m sizes by simp
  qed
  have rank: "trimRank (its ! i) \<le> trimRank (its ! j)"
    if "i \<in> set (take k ?o)" "j \<in> set (kept its (take k ?o))" for i j
    using trimOrder_ranks [OF that(1) set_drop_order] that(2) by (auto simp: kept_def)
  have "distinct ?o" "set ?o = {0..<length its}" by (simp_all add: trimOrder_def)
  then show ?thesis
    using res fits more rank False set_take_subset [of k ?o]
    by (intro exI [of _ "take k ?o"]) (auto simp: distinct_take)
qed

theorem trim_fits_budget_witness:
  "sum_list (map sizeOfItem (trimToPreloadBudget
     [plainItem ''a'' ''o'' ''xyz'', plainItem ''b'' ''p'' ''uv'', plainItem ''c'' ''q'' ''w''] 4)) \<le> 4"
  using trim_fits_budget [of "[plainItem ''a'' ''o'' ''xyz'', plainItem ''b'' ''p'' ''uv'', plainItem ''c'' ''q'' ''w'']" 4]
  by auto

end
