(* ===== verification/Wire_Roundtrip.thy ===== *)
theory Wire_Roundtrip
  imports Wire_Format
begin

text \<open>
  That what is written is what is read. A locale states what a kind of item must promise for its
  framing to work: a body that is sent is sent in full and has the size the reader will ask for. It
  is interpreted for the items of a response, of a batch and of a stream, whose three functions
  for that size differ. The specification of reading is \<open>deliver\<close>: the callback on each item with
  its body, in order, until it fails.
\<close>

section \<open>The length prefix\<close>

lemma put_be32_nonempty [simp]: "put_be32 w \<noteq> []"
  by (simp add: put_be32_def)

lemma get_put_be32 [simp]: "get_be32 (put_be32 w) = w"
proof -
  let ?n = "uint w"
  have n: "?n < 2 ^ 32" "0 \<le> ?n" using uint_lt2p [of w] by simp_all
  have c: "of_char (char_of x) = x mod 256" for x :: int by (simp add: of_char_of)
  have a: "?n div 16777216 mod 256 = ?n div 16777216" using n by (intro mod_pos_pos_trivial) (auto simp: pos_imp_zdiv_nonneg_iff)
  have d: "x = x div 256 * 256 + x mod 256" for x :: int by simp
  have e: "?n div 65536 div 256 = ?n div 16777216" "?n div 256 div 256 = ?n div 65536"
    by (simp_all add: zdiv_zmult2_eq [symmetric])
  have "16777216 * (?n div 16777216) + 65536 * (?n div 65536 mod 256) +
      256 * (?n div 256 mod 256) + ?n mod 256 = ?n"
    using d [of ?n] d [of "?n div 256"] d [of "?n div 65536"] unfolding e by linarith
  then have "foldl (\<lambda>a c. 256 * a + of_char c) 0 (put_be32 w) = ?n"
    by (simp add: put_be32_def c a)
  then show ?thesis by (simp add: get_be32_def)
qed

lemma checkedJSONLength_ok:
  assumes "checkedJSONLength json = Inr w"
  shows "sint w = int (length json)" "length json \<le> 2147483647"
proof -
  have l: "length json \<le> 2147483647" and w: "w = word_of_nat (length json)"
    using assms by (auto simp: checkedJSONLength_def split: if_splits)
  then show "length json \<le> 2147483647" by simp
  show "sint w = int (length json)"
    using l unfolding w by (simp add: signed_of_nat signed_take_bit_int_eq_self)
qed

lemma sint_zero_len: "sint (get_be32 (put_be32 0)) = 0"
  by simp

lemma readFull_append: "length a = n \<Longrightarrow> readFull n (a @ b, e) = Inr (a, (b, e))"
  by (simp add: readFull_def)

section \<open>The specification of reading\<close>

definition bodyView :: "bytes \<Rightarrow> reader option" where
  "bodyView b = (if b = [] then None else Some (b, None))"

fun deliver :: "('i, 's) callback \<Rightarrow> ('i \<times> bytes) list \<Rightarrow> 's \<Rightarrow> go_error option \<times> 's" where
  "deliver cb [] s = (None, s)"
| "deliver cb ((it, b) # xs) s =
     (case cb it (bodyView b) s of
        ((_, Some e), s') \<Rightarrow> (Some e, s')
      | ((_, None), s') \<Rightarrow> deliver cb xs s')"

lemma readItemBody_exact:
  assumes "int (length b) = n" "f (b, None) s = ((k, r), s')"
  shows "readItemBody (b @ rest, e) n f s =
    (case r of None \<Rightarrow> ((n, None), (rest, e), s')
     | Some x \<Rightarrow> ((0, Some x), (drop (min k (length b)) (b @ rest), e), s'))"
  using assms by (auto simp: readItemBody_def Let_def split: option.splits)

text \<open>A body that is too short ends in an error, whatever the callback does.\<close>

lemma readItemBody_short:
  assumes "int (length b) < n" "readItemBody (b, e) n f s = ((m, r), rd', s')"
  shows "r \<noteq> None"
  using assms by (auto simp: readItemBody_def Let_def split: option.splits prod.splits if_splits)

section \<open>Frames\<close>

locale wire_items =
  fixes wr :: "'i \<Rightarrow> writer \<Rightarrow> (int \<times> go_error option) \<times> writer"
    and ws :: "'i \<Rightarrow> int"
    and sent :: "'i \<Rightarrow> bytes option"
    and wire :: "'i \<Rightarrow> 'i"
  assumes wr_sent: "sent it = Some b \<Longrightarrow> room w = None \<Longrightarrow>
      wr it w = ((int (length b), None), w\<lparr>written := written w @ b\<rparr>)"
    and sent_size: "sent it = Some b \<Longrightarrow> int (length b) = ws it"
    and ws_wire: "ws (wire it) = ws it"
begin

definition sends :: "'i list \<Rightarrow> bytes list \<Rightarrow> bool" where
  "sends its bs = (map sent its = map Some bs)"

lemma sends_Nil [simp]: "sends [] bs = (bs = [])"
  by (auto simp: sends_def)

lemma sends_Cons: "sends (it # its) bs = (\<exists>b bs'. bs = b # bs' \<and> sent it = Some b \<and> sends its bs')"
  by (cases bs) (auto simp: sends_def)

lemma sends_sum: "sends its bs \<Longrightarrow> sum_list (map ws its) = int (length (concat bs))"
  by (induction its arbitrary: bs) (auto simp: sends_Cons dest: sent_size)

lemma writeItems_sends:
  "sends its bs \<Longrightarrow> room w = None \<Longrightarrow>
     writeItems wr its w t = ((t + int (length (concat bs)), None), w\<lparr>written := written w @ concat bs\<rparr>)"
proof (induction its arbitrary: bs w t)
  case (Cons it its)
  then obtain b bs' where b: "bs = b # bs'" "sent it = Some b" "sends its bs'" by (auto simp: sends_Cons)
  then show ?case
    using Cons.IH [OF b(3), of "w\<lparr>written := written w @ b\<rparr>"] Cons.prems(2) by (simp add: wr_sent)
qed simp

lemma readItems_sends:
  assumes "sends its bs" "readItems ws cb (map wire its) (concat bs @ rest, e) t s = ((t', r), rd', s')"
    "deliver cb (zip (map wire its) bs) s = (dr, ds)"
  shows "s' = ds \<and> (dr = None \<longrightarrow> r = None \<and> t' = t + int (length (concat bs)) \<and> rd' = (rest, e)) \<and>
    (r = None \<longrightarrow> dr = None)"
  using assms
proof (induction its arbitrary: bs t s)
  case (Cons it its)
  obtain b bs' where b: "bs = b # bs'" "sent it = Some b" "sends its bs'"
    using Cons.prems(1) by (auto simp: sends_Cons)
  have sz: "int (length b) = ws it" using sent_size [OF b(2)] .
  show ?case
  proof (cases "b = []")
    case True
    then have "ws (wire it) = 0" using sz by (simp add: ws_wire)
    then show ?thesis
      using Cons.prems Cons.IH [OF b(3)] b True
      by (auto simp: bodyView_def split: prod.splits option.splits)
  next
    case False
    obtain k cr s1 where c: "cb (wire it) (Some (b, None)) s = ((k, cr), s1)"
      by (metis prod.collapse)
    have nz: "ws (wire it) \<noteq> 0" using sz False by (auto simp: ws_wire)
    note body = readItemBody_exact [of b "ws (wire it)" "\<lambda>lim. cb (wire it) (Some lim)" s k cr s1
        "concat bs' @ rest" e, OF sz [folded ws_wire [of it]] c]
    show ?thesis
    proof (cases cr)
      case None
      then have "readItems ws cb (map wire its) (concat bs' @ rest, e) (t + ws it) s1 = ((t', r), rd', s')"
        "deliver cb (zip (map wire its) bs') s1 = (dr, ds)"
        using Cons.prems(2,3) b(1) False nz body c by (simp_all add: bodyView_def ws_wire)
      from Cons.IH [OF b(3) this] show ?thesis using b(1) sz by auto
    next
      case (Some x)
      then show ?thesis
        using Cons.prems(2,3) b(1) False nz body c by (auto simp: bodyView_def)
    qed
  qed
qed simp

lemma writeHead_ok:
  "length json \<le> 2147483647 \<Longrightarrow> room w = None \<Longrightarrow>
     writeHead json w = ((4 + int (length json), None),
       w\<lparr>written := written w @ put_be32 (word_of_nat (length json)) @ json\<rparr>)"
  by (simp add: writeHead_def checkedJSONLength_def wwrite_def)

lemma frameWriteTo_sends:
  assumes "marshal its = Inr json" "length json \<le> 2147483647" "sends its bs" "room w = None"
  shows "frameWriteTo marshal wr its w =
    ((4 + int (length json) + int (length (concat bs)), None),
     w\<lparr>written := written w @ put_be32 (word_of_nat (length json)) @ json @ concat bs\<rparr>)"
  using assms by (simp add: frameWriteTo_def writeHead_ok writeItems_sends)

lemma frame_roundtrip:
  assumes m: "marshal its = Inr json" "length json \<le> 2147483647" and b: "sends its bs"
    and u: "unmarshal json = Inr (map wire its)"
    and r: "frameReaderFrom unmarshal ws cb
      (put_be32 (word_of_nat (length json)) @ json @ concat bs @ rest, e) s = ((t', r), rd', s')"
    and d: "deliver cb (zip (map wire its) bs) s = (dr, ds)"
  shows "s' = ds \<and> (dr = None \<longrightarrow> r = None \<and> rd' = (rest, e) \<and>
      t' = 4 + int (length json) + int (length (concat bs))) \<and> (r = None \<longrightarrow> dr = None)"
proof -
  have chk: "checkedJSONLength json = Inr (word_of_nat (length json))"
    using m(2) by (simp add: checkedJSONLength_def)
  have len: "sint (word_of_nat (length json) :: u32) = int (length json)"
    using checkedJSONLength_ok(1) [OF chk] .
  have "readItems ws cb (map wire its) (concat bs @ rest, e) (4 + int (length json)) s = ((t', r), rd', s')"
    using r by (simp add: frameReaderFrom_def readFull_append len u)
  from readItems_sends [OF b this d] show ?thesis by simp
qed

end

text \<open>Where only what is sent can be written, a write that succeeds has sent every body.\<close>

locale wire_items_total = wire_items +
  assumes wr_ok: "wr it w = ((n, None), w') \<Longrightarrow> room w = None \<Longrightarrow> \<exists>b. sent it = Some b"
begin

lemma writeItems_ok:
  "writeItems wr its w t = ((n, None), w') \<Longrightarrow> room w = None \<Longrightarrow> \<exists>bs. sends its bs"
proof (induction its arbitrary: w t)
  case (Cons it its)
  obtain m w1 where w1: "wr it w = ((m, None), w1)" "writeItems wr its w1 (t + m) = ((n, None), w')"
    using Cons.prems(1) by (auto split: prod.splits option.splits)
  obtain b where b: "sent it = Some b" using wr_ok [OF w1(1) Cons.prems(2)] by blast
  then have "room w1 = None" using w1(1) wr_sent [OF b Cons.prems(2)] Cons.prems(2) by auto
  then show ?case using Cons.IH [OF w1(2)] b by (auto simp: sends_Cons)
qed (auto intro: exI [of _ "[]"])

lemma frameWriteTo_ok:
  assumes "frameWriteTo marshal wr its w = ((n, None), w')" "room w = None"
  shows "\<exists>json bs. marshal its = Inr json \<and> length json \<le> 2147483647 \<and> sends its bs \<and>
    n = 4 + int (length json) + int (length (concat bs)) \<and>
    w' = w\<lparr>written := written w @ put_be32 (word_of_nat (length json)) @ json @ concat bs\<rparr>"
proof -
  obtain json where j: "marshal its = Inr json" "length json \<le> 2147483647"
    using assms(1)
    by (auto simp: frameWriteTo_def writeHead_def checkedJSONLength_def split: sum.splits if_splits)
  then have "\<exists>bs. sends its bs"
    using assms writeHead_ok [OF j(2) assms(2)] by (auto simp: frameWriteTo_def intro: writeItems_ok)
  then show ?thesis using j assms(1) frameWriteTo_sends [where marshal = marshal, OF j _ assms(2)] by fastforce
qed

end

section \<open>The items of the two packages\<close>

definition ri_wire :: "cacheItem \<Rightarrow> cacheItem" where
  "ri_wire it = it\<lparr>ri_body := NilReader\<rparr>"

definition fi_wire :: "fileItem \<Rightarrow> fileItem" where
  "fi_wire it = it\<lparr>fi_body := NilReader\<rparr>"

text \<open>The bytes of the body that go out: as many as the wire size says, if there are that many.\<close>

definition cutBody :: "int \<Rightarrow> int \<Rightarrow> reader result \<Rightarrow> bytes option" where
  "cutBody sz n r =
     (if sz = 0 \<and> n = 0 then Some []
      else (case r of Inl e \<Rightarrow> None
         | Inr rd \<Rightarrow> (if 0 \<le> n \<and> nat n \<le> length (fst rd) then Some (take (nat n) (fst rd)) else None)))"

definition ri_sent :: "env \<Rightarrow> fs \<Rightarrow> pool \<Rightarrow> cacheItem \<Rightarrow> bytes option" where
  "ri_sent E d p it = cutBody (ri_Size it) (ri_WireSize it) (ri_openBody E d p it)"

definition fi_sent :: "env \<Rightarrow> fs \<Rightarrow> pool \<Rightarrow> fileItem \<Rightarrow> bytes option" where
  "fi_sent E d p it = cutBody (fi_Size it) (wireSizeOf it) (openBody E d p it)"

definition batch_sent :: "env \<Rightarrow> fs \<Rightarrow> pool \<Rightarrow> fileItem \<Rightarrow> bytes option" where
  "batch_sent E d p it = (if fi_WireSize it = wireSizeOf it then fi_sent E d p it else None)"

lemma cutBody_length: "cutBody sz n r = Some b \<Longrightarrow> int (length b) = n"
  by (auto simp: cutBody_def split: if_splits sum.splits)

lemma ri_WriteTo_sent:
  assumes "room w = None"
  shows "ri_sent E d p it = Some b \<Longrightarrow>
    ri_WriteTo E d p it w = ((int (length b), None), w\<lparr>written := written w @ b\<rparr>)"
  and "ri_WriteTo E d p it w = ((n, None), w') \<Longrightarrow> \<exists>b. ri_sent E d p it = Some b"
  using assms by (auto simp: ri_sent_def cutBody_def ri_WriteTo_def ri_wireBodyReader_def readFull_def wwrite_def
      split: if_splits sum.splits prod.splits)

lemma fi_WriteTo_sent:
  assumes "room w = None"
  shows "fi_sent E d p it = Some b \<Longrightarrow>
    fi_WriteTo E d p it w = ((int (length b), None), w\<lparr>written := written w @ b\<rparr>)"
  and "fi_WriteTo E d p it w = ((n, None), w') \<Longrightarrow> \<exists>b. fi_sent E d p it = Some b"
  using assms by (auto simp: fi_sent_def cutBody_def fi_WriteTo_def wireBodyReader_def readFull_def wwrite_def
      wireSizeOf_def split: if_splits sum.splits prod.splits)

lemma fi_wire_simps [simp]: "wireSizeOf (fi_wire it) = wireSizeOf it" "fi_WireSize (fi_wire it) = fi_WireSize it"
  by (simp_all add: fi_wire_def wireSizeOf_def)

interpretation resp: wire_items_total "ri_WriteTo E d p" ri_WireSize "ri_sent E d p" ri_wire for E d p
  by unfold_locales
    (auto simp: ri_WriteTo_sent(1) ri_wire_def dest: ri_WriteTo_sent(2) cutBody_length [OF ri_sent_def [symmetric, THEN trans]])

interpretation bat: wire_items "fi_WriteTo E d p" fi_WireSize "batch_sent E d p" fi_wire for E d p
  by unfold_locales
    (auto simp: fi_WriteTo_sent(1) batch_sent_def dest: cutBody_length [OF fi_sent_def [symmetric, THEN trans]]
      split: if_splits)

interpretation str: wire_items_total "fi_WriteTo E d p" wireSizeOf "fi_sent E d p" fi_wire for E d p
  by unfold_locales
    (auto simp: fi_WriteTo_sent(1) dest: fi_WriteTo_sent(2) cutBody_length [OF fi_sent_def [symmetric, THEN trans]])

section \<open>Streams\<close>

text \<open>All items and the closing length, as \<open>saveCacheOnce\<close> and the restore handler write them.\<close>

fun writeStream ::
  "(fileItem \<Rightarrow> bytes result) \<Rightarrow> env \<Rightarrow> fs \<Rightarrow> pool \<Rightarrow> fileItem list \<Rightarrow> writer \<Rightarrow> go_error option \<times> writer" where
  "writeStream marshal E d p [] w = StreamClose w"
| "writeStream marshal E d p (it # its) w =
     (case WriteItem marshal E d p it w of
        (Some e, w') \<Rightarrow> (Some e, w')
      | (None, w') \<Rightarrow> writeStream marshal E d p its w')"

text \<open>What the code relies on of \<open>encoding/json\<close>: it decodes what it encoded, but for the unexported
  body reader. (It does so unless a string of the item is not valid UTF-8.)\<close>

definition json_ok :: "(fileItem \<Rightarrow> bytes result) \<Rightarrow> (bytes \<Rightarrow> fileItem result) \<Rightarrow> fileItem \<Rightarrow> bool" where
  "json_ok marshal unmarshal it =
     (\<exists>json. marshal it = Inr json \<and> json \<noteq> [] \<and> unmarshal json = Inr (fi_wire it))"

definition itemFrame :: "bytes \<Rightarrow> bytes \<Rightarrow> bytes" where
  "itemFrame json b = put_be32 (word_of_nat (length json)) @ json @ b"

definition frame_ok :: "(bytes \<Rightarrow> fileItem result) \<Rightarrow> bytes \<times> fileItem \<times> bytes \<Rightarrow> bool" where
  "frame_ok unmarshal =
     (\<lambda>(json, it, b). unmarshal json = Inr it \<and> json \<noteq> [] \<and> length json \<le> 2147483647 \<and>
        int (length b) = wireSizeOf it)"

definition streamOf :: "(bytes \<times> fileItem \<times> bytes) list \<Rightarrow> bytes" where
  "streamOf fs = concat (map (\<lambda>(json, it, b). itemFrame json b) fs) @ put_be32 0"

lemma streamOf_simps:
  "streamOf [] = put_be32 0" "streamOf ((json, it, b) # fs) = itemFrame json b @ streamOf fs"
  by (simp_all add: streamOf_def)

lemma WriteItem_frame:
  assumes "WriteItem marshal E d p it w = (None, w')" "room w = None" "json_ok marshal unmarshal it"
  shows "\<exists>json b. fi_sent E d p it = Some b \<and> frame_ok unmarshal (json, fi_wire it, b) \<and>
    w' = w\<lparr>written := written w @ itemFrame json b\<rparr>"
proof -
  obtain json where j: "marshal it = Inr json" "json \<noteq> []" "unmarshal json = Inr (fi_wire it)"
    using assms(3) by (auto simp: json_ok_def)
  have len: "length json \<le> 2147483647"
    using assms(1) j by (auto simp: WriteItem_def writeHead_def checkedJSONLength_def split: if_splits)
  let ?w = "w\<lparr>written := written w @ put_be32 (word_of_nat (length json)) @ json\<rparr>"
  have head: "writeHead json w = ((4 + int (length json), None), ?w)"
    using len assms(2) by (rule resp.writeHead_ok)
  obtain n where wt: "fi_WriteTo E d p it ?w = ((n, None), w')"
    using assms(1) j(1) head by (auto simp: WriteItem_def split: prod.splits)
  have r: "room ?w = None" using assms(2) by simp
  obtain b where b: "fi_sent E d p it = Some b" using fi_WriteTo_sent(2) [OF r wt] by blast
  then show ?thesis
    using wt fi_WriteTo_sent(1) [OF r b] j len cutBody_length [OF b [unfolded fi_sent_def]]
    by (auto simp: frame_ok_def itemFrame_def)
qed

lemma writeStream_frames:
  assumes "writeStream marshal E d p its w = (None, w')" "room w = None"
    "\<forall>it \<in> set its. json_ok marshal unmarshal it"
  shows "\<exists>fs. map (\<lambda>(json, it, b). it) fs = map fi_wire its \<and>
    map (\<lambda>(json, it, b). Some b) fs = map (fi_sent E d p) its \<and> list_all (frame_ok unmarshal) fs \<and>
    written w' = written w @ streamOf fs"
  using assms
proof (induction its arbitrary: w)
  case Nil
  then show ?case
    by (intro exI [of _ "[]"]) (auto simp: StreamClose_def wwrite_def streamOf_simps)
next
  case (Cons it its)
  obtain w1 where w1: "WriteItem marshal E d p it w = (None, w1)" "writeStream marshal E d p its w1 = (None, w')"
    using Cons.prems(1) by (auto split: prod.splits option.splits)
  obtain json b where f: "fi_sent E d p it = Some b" "frame_ok unmarshal (json, fi_wire it, b)"
    "w1 = w\<lparr>written := written w @ itemFrame json b\<rparr>"
    using WriteItem_frame [OF w1(1) Cons.prems(2)] Cons.prems(3) by (metis list.set_intros(1))
  obtain fs where fs: "map (\<lambda>(json, it, b). it) fs = map fi_wire its"
    "map (\<lambda>(json, it, b). Some b) fs = map (fi_sent E d p) its" "list_all (frame_ok unmarshal) fs"
    "written w' = written w1 @ streamOf fs"
    using Cons.IH [OF w1(2)] Cons.prems(2,3) f(3) by auto
  then show ?case
    using f by (intro exI [of _ "(json, fi_wire it, b) # fs"]) (simp add: streamOf_simps)
qed

lemma ReadStream_end: "ReadStream unm cb (put_be32 0 @ rest, e) t s = ((t + 4, None), (rest, e), s)"
  by (simp add: ReadStream.simps [of unm cb "(put_be32 0 @ rest, e)"] readFull_append)

lemma ReadStream_step:
  assumes "frame_ok unm (json, it, b)" "cb it (bodyView b) s = ((k, r), s')"
  shows "ReadStream unm cb (itemFrame json b @ rest, e) t s =
    (case r of
       None \<Rightarrow> ReadStream unm cb (rest, e) (t + int (length (itemFrame json b))) s'
     | Some x \<Rightarrow> ((t + 4 + int (length json), Some (if b = [] then x else ErrWrap ''item'' x)),
         (drop (min k (length b)) (b @ rest), e), s'))"
proof -
  have f: "unm json = Inr it" "json \<noteq> []" "length json \<le> 2147483647" "int (length b) = wireSizeOf it"
    using assms(1) by (auto simp: frame_ok_def)
  have chk: "checkedJSONLength json = Inr (word_of_nat (length json))"
    using f(3) by (simp add: checkedJSONLength_def)
  have len: "sint (word_of_nat (length json) :: u32) = int (length json)"
    using checkedJSONLength_ok(1) [OF chk] .
  note unf = ReadStream.simps [of unm cb "(itemFrame json b @ rest, e)"]
  show ?thesis
  proof (cases "b = []")
    case True
    then show ?thesis
      using f assms(2) by (subst unf) (auto simp: itemFrame_def readFull_append len bodyView_def add.assoc split: option.splits)
  next
    case False
    then have p: "0 < wireSizeOf it" using f(4) by (metis length_greater_0_conv of_nat_0_less_iff)
    have c: "cb it (Some (b, None)) s = ((k, r), s')" using assms(2) False by (simp add: bodyView_def)
    note body = readItemBody_exact [of b _ "\<lambda>lim. cb it (Some lim)" s k r s' rest e, OF f(4) c]
    show ?thesis
      using f p False by (subst unf) (auto simp: itemFrame_def readFull_append len body add.assoc split: option.splits)
  qed
qed

lemma ReadStream_deliver:
  assumes "list_all (frame_ok unm) fs" "ReadStream unm cb (streamOf fs @ rest, e) t s = ((t', r), rd', s')"
    "deliver cb (map snd fs) s = (dr, ds)"
  shows "s' = ds \<and> (dr = None \<longrightarrow> r = None \<and> t' = t + int (length (streamOf fs)) \<and> rd' = (rest, e)) \<and>
    (r = None \<longrightarrow> dr = None)"
  using assms
proof (induction fs arbitrary: t s)
  case Nil
  then show ?case by (auto simp: streamOf_simps ReadStream_end)
next
  case (Cons f fs)
  obtain json it b where f: "f = (json, it, b)" by (cases f)
  obtain k cr s1 where c: "cb it (bodyView b) s = ((k, cr), s1)" by (metis prod.collapse)
  have ok: "frame_ok unm (json, it, b)" using Cons.prems(1) f by simp
  note step = ReadStream_step [where cb = cb, OF ok c, of "streamOf fs @ rest" e t]
  show ?case
  proof (cases cr)
    case None
    then have "ReadStream unm cb (streamOf fs @ rest, e) (t + int (length (itemFrame json b))) s1 = ((t', r), rd', s')"
      "deliver cb (map snd fs) s1 = (dr, ds)"
      using Cons.prems(2,3) f c step by (auto simp: streamOf_simps)
    from Cons.IH [OF _ this] show ?thesis using Cons.prems(1) f by (simp add: streamOf_simps add.assoc)
  next
    case (Some x)
    then show ?thesis using Cons.prems(2,3) f c step by (auto simp: streamOf_simps)
  qed
qed

lemma ReadStream_cut:
  assumes "frame_ok unm (json, it, b)" "n < length (itemFrame json b)"
    "ReadStream unm cb (take n (itemFrame json b), None) t s = ((t', r), rd', s')" "r = None"
  shows "n = 0 \<and> s' = s"
proof -
  have f: "unm json = Inr it" "json \<noteq> []" "length json \<le> 2147483647" "int (length b) = wireSizeOf it"
    using assms(1) by (auto simp: frame_ok_def)
  have chk: "checkedJSONLength json = Inr (word_of_nat (length json))"
    using f(3) by (simp add: checkedJSONLength_def)
  have len: "sint (word_of_nat (length json) :: u32) = int (length json)"
    using checkedJSONLength_ok(1) [OF chk] .
  note unf = ReadStream.simps [of unm cb "(take n (itemFrame json b), None)"]
  consider "n < 4" | "4 \<le> n" "n < 4 + length json" | "4 + length json \<le> n" by linarith
  then show ?thesis
  proof cases
    case 1
    then show ?thesis
      using assms(3,4) [unfolded unf]
      by (auto simp: readFull_def itemFrame_def errEOF_def errUnexpectedEOF_def split: if_splits)
  next
    case 2
    then have "take n (itemFrame json b) = put_be32 (word_of_nat (length json)) @ take (n - 4) json"
      by (simp add: itemFrame_def)
    then show ?thesis
      using assms(3,4) [unfolded unf] f 2 by (auto simp: readFull_append len readFull_def split: if_splits)
  next
    case 3
    define m where "m = n - 4 - length json"
    have m: "m < length b" using assms(2) 3 by (simp add: m_def itemFrame_def)
    have tk: "take n (itemFrame json b) = put_be32 (word_of_nat (length json)) @ json @ take m b"
      using 3 by (simp add: itemFrame_def m_def)
    have p: "0 < wireSizeOf it" using f(4) m by linarith
    obtain q where q: "readItemBody (take m b, None) (wireSizeOf it) (\<lambda>lim. cb it (Some lim)) s = q" by blast
    have "int (length (take m b)) < wireSizeOf it" using m f(4) by simp
    then have "snd (fst q) \<noteq> None"
      using readItemBody_short [of "take m b" _ None "\<lambda>lim. cb it (Some lim)" s] q by (metis prod.collapse)
    then show ?thesis
      using assms(3,4) [unfolded unf] f p q tk by (cases q) (auto simp: readFull_append len)
  qed
qed

lemma ReadStream_truncated:
  assumes "list_all (frame_ok unm) fs" "n < length (streamOf fs)"
    "ReadStream unm cb (take n (streamOf fs), None) t s = ((t', None), rd', s')"
  shows "\<exists>k \<le> length fs. deliver cb (take k (map snd fs)) s = (None, s')"
  using assms
proof (induction fs arbitrary: n t s)
  case Nil
  then show ?case
    by (auto simp: streamOf_simps ReadStream.simps [of unm cb "(take n (put_be32 0), None)"] readFull_def
      errEOF_def errUnexpectedEOF_def split: if_splits)
next
  case (Cons f fs)
  obtain json it b where f: "f = (json, it, b)" by (cases f)
  have ok: "frame_ok unm (json, it, b)" using Cons.prems(1) f by simp
  let ?F = "itemFrame json b"
  show ?case
  proof (cases "n < length ?F")
    case True
    then have "s' = s" using ReadStream_cut [where cb = cb and r = None, OF ok True _ refl] Cons.prems(3) f True
      by (simp add: streamOf_simps)
    then show ?thesis by (intro exI [of _ 0]) simp
  next
    case False
    then have tk: "take n (streamOf (f # fs)) = ?F @ take (n - length ?F) (streamOf fs)"
      using f by (simp add: streamOf_simps)
    obtain k cr s1 where c: "cb it (bodyView b) s = ((k, cr), s1)" by (metis prod.collapse)
    have cr: "cr = None"
      and run: "ReadStream unm cb (take (n - length ?F) (streamOf fs), None) (t + int (length ?F)) s1 =
        ((t', None), rd', s')"
      using Cons.prems(3) [unfolded tk ReadStream_step [where cb = cb, OF ok c]] by (auto split: option.splits)
    have "n - length ?F < length (streamOf fs)" using Cons.prems(2) False f by (simp add: streamOf_simps)
    from Cons.IH [OF _ this run] Cons.prems(1) obtain j where
      "j \<le> length fs" "deliver cb (take j (map snd fs)) s1 = (None, s')" by auto
    then show ?thesis using f c cr by (intro exI [of _ "Suc j"]) simp
  qed
qed

section \<open>Properties\<close>

lemma zip_snd: "map fst ys = as \<Longrightarrow> map snd ys = bs \<Longrightarrow> zip as bs = ys"
  by (auto simp: zip_map_fst_snd)

text \<open>
  Claim C22. What a stream writer writes, a stream reader reads: after the items were written and the
  stream closed without an error, reading the bytes calls back with the same metadata and with
  exactly the body bytes that were sent, item by item, until the callback fails. If it does not fail,
  everything up to the closing length is consumed and nothing behind it. How much of a body the
  callback reads makes no difference.\<close>

theorem stream_roundtrip:
  assumes "writeStream marshal E d p its bytesBuffer = (None, w)"
    and "\<forall>it \<in> set its. json_ok marshal unmarshal it"
    and "ReadStream unmarshal cb (written w @ rest, e) 0 s = ((n, r), rd', s')"
  shows "\<exists>bs dr. map (fi_sent E d p) its = map Some bs \<and>
    deliver cb (zip (map fi_wire its) bs) s = (dr, s') \<and> (r = None \<longleftrightarrow> dr = None) \<and>
    (r = None \<longrightarrow> n = int (length (written w)) \<and> rd' = (rest, e))"
proof -
  have "room bytesBuffer = None" "written bytesBuffer = []" by (simp_all add: bytesBuffer_def)
  then obtain fs where fs: "map (\<lambda>(json, it, b). it) fs = map fi_wire its"
    "map (\<lambda>(json, it, b). Some b) fs = map (fi_sent E d p) its" "list_all (frame_ok unmarshal) fs"
    "written w = streamOf fs"
    using writeStream_frames [OF assms(1) _ assms(2)] by auto
  define bs where "bs = map (\<lambda>(json, it, b). b) fs"
  have bs: "map (fi_sent E d p) its = map Some bs"
    unfolding fs(2) [symmetric] bs_def by (simp add: case_prod_unfold)
  have "zip (map fi_wire its) bs = map snd fs"
    by (rule zip_snd) (simp_all add: fs(1) [symmetric] bs_def case_prod_unfold comp_def)
  then show ?thesis
    using ReadStream_deliver [OF fs(3), of cb rest e 0 s n r rd' s'] assms(3) bs fs(4)
    by (cases "deliver cb (map snd fs) s") fastforce
qed

text \<open>
  Claim C10. A stream that was cut off is never taken for a complete item: if reading a proper prefix
  of a stream (whose reader then reports a plain end of file) succeeds, the callback was given a
  prefix of the items, each with all of its body. A cut inside an item is always an error.\<close>

theorem stream_truncation_detected:
  assumes "writeStream marshal E d p its bytesBuffer = (None, w)"
    and "\<forall>it \<in> set its. json_ok marshal unmarshal it"
    and "n < length (written w)"
    and "ReadStream unmarshal cb (take n (written w), None) 0 s = ((t, None), rd', s')"
  shows "\<exists>bs k. map (fi_sent E d p) its = map Some bs \<and> k \<le> length its \<and>
    deliver cb (take k (zip (map fi_wire its) bs)) s = (None, s')"
proof -
  have "room bytesBuffer = None" "written bytesBuffer = []" by (simp_all add: bytesBuffer_def)
  then obtain fs where fs: "map (\<lambda>(json, it, b). it) fs = map fi_wire its"
    "map (\<lambda>(json, it, b). Some b) fs = map (fi_sent E d p) its" "list_all (frame_ok unmarshal) fs"
    "written w = streamOf fs"
    using writeStream_frames [OF assms(1) _ assms(2)] by auto
  define bs where "bs = map (\<lambda>(json, it, b). b) fs"
  have bs: "map (fi_sent E d p) its = map Some bs"
    unfolding fs(2) [symmetric] bs_def by (simp add: case_prod_unfold)
  have z: "zip (map fi_wire its) bs = map snd fs"
    by (rule zip_snd) (simp_all add: fs(1) [symmetric] bs_def case_prod_unfold comp_def)
  have len: "length fs = length its" using fs(1) by (metis length_map)
  obtain k where "k \<le> length fs" "deliver cb (take k (map snd fs)) s = (None, s')"
    using ReadStream_truncated [OF fs(3)] assms(3,4) fs(4) by metis
  then show ?thesis using bs z len by auto
qed

text \<open>
  Claim C31. A response written by the server is what the client reads: if writing succeeds, reading
  the bytes calls back with each item's metadata and exactly the body bytes sent, the number of bytes
  read is the number written, and if every non-empty item has a wire size, that number is the content
  length announced before.\<close>

theorem response_roundtrip:
  assumes "Response_WriteTo marshal E d p its bytesBuffer = ((n, None), w)"
    and "\<And>json. marshal its = Inr json \<Longrightarrow> unmarshal json = Inr (map ri_wire its)"
    and "Response_ReaderFrom unmarshal cb (written w @ rest, e) s = ((m, r), rd', s')"
    and "\<forall>it \<in> set its. ri_WireSize it = 0 \<longrightarrow> ri_Size it = 0"
  shows "Response_ContentLength marshal its = Inr n \<and> n = int (length (written w)) \<and>
    (\<exists>bs dr. map (ri_sent E d p) its = map Some bs \<and>
       deliver cb (zip (map ri_wire its) bs) s = (dr, s') \<and> (r = None \<longleftrightarrow> dr = None) \<and>
       (r = None \<longrightarrow> m = n \<and> rd' = (rest, e)))"
proof -
  have b: "room bytesBuffer = None" "written bytesBuffer = []" by (simp_all add: bytesBuffer_def)
  obtain json bs where j: "marshal its = Inr json" "length json \<le> 2147483647" "resp.sends E d p its bs"
    "n = 4 + int (length json) + int (length (concat bs))"
    "written w = put_be32 (word_of_nat (length json)) @ json @ concat bs"
    using resp.frameWriteTo_ok [OF assms(1) [unfolded Response_WriteTo_def] b(1)] b(2) by auto
  obtain dr ds where d: "deliver cb (zip (map ri_wire its) bs) s = (dr, ds)" by fastforce
  have rd: "frameReaderFrom unmarshal ri_WireSize cb
      (put_be32 (word_of_nat (length json)) @ json @ concat bs @ rest, e) s = ((m, r), rd', s')"
    using assms(3) j(5) by (simp add: Response_ReaderFrom_def)
  note res = resp.frame_roundtrip [where marshal = marshal and unmarshal = unmarshal and cb = cb,
      OF j(1-3) assms(2) [OF j(1)] rd d]
  have eq: "map respWire its = map ri_WireSize its" using assms(4) by (auto simp: respWire_def)
  have "sum_list (map respWire its) = int (length (concat bs))"
    unfolding eq by (rule resp.sends_sum [OF j(3)])
  then have "Response_ContentLength marshal its = Inr n"
    using j(1,4) by (simp add: Response_ContentLength_def frameContentLength_def)
  then show ?thesis using res d j(3,4,5) by (auto simp: resp.sends_def)
qed

text \<open>
  A response whose length field is negative crashes the reader: \<open>ReaderFrom\<close> makes a slice of
  that length, which panics, before it has looked at anything else. \<open>ReadStream\<close> checks the sign and
  returns an error.\<close>

theorem negative_length_panics:
  assumes "length h = 4" "sint (get_be32 h) < 0"
  shows "Response_ReaderFrom unmarshal cb (h @ rest, e) s =
      ((4, Some (ErrPanic ''makeslice: len out of range'')), (rest, e), s) \<and>
    ReadStream unm cb' (h @ rest, e) 0 s' =
      ((4, Some (ErrMsg ''negative item header length'')), (rest, e), s')"
  using assms
  by (simp_all add: Response_ReaderFrom_def frameReaderFrom_def readFull_append
    ReadStream.simps [of unm cb' "(h @ rest, e)"])

section \<open>Witnesses\<close>

text \<open>A small codec for items that are given by their path and size.\<close>

definition toyItem :: "string \<Rightarrow> bytes \<Rightarrow> fileItem" where
  "toyItem p b =
     \<lparr>fi_Path = p, fi_Size = int (length b), fi_ModTime = None, fi_Mode = 0, fi_IsCompressed = False,
      fi_WireSize = 0, fi_DiskPath = [], fi_body = BytesReader (Inr (b, None))\<rparr>"

definition toyMarshal :: "fileItem \<Rightarrow> bytes result" where
  "toyMarshal it = Inr (dec (nat (fi_Size it)) @ '' '' @ fi_Path it)"

definition toyUnmarshal :: "bytes \<Rightarrow> fileItem result" where
  "toyUnmarshal b =
     (case split_on CHR '' '' b of
        [n, p] \<Rightarrow> Inr ((toyItem p [])\<lparr>fi_Size := int (undec n), fi_body := NilReader\<rparr>)
      | _ \<Rightarrow> Inl (ErrMsg ''json''))"

definition collect :: "(fileItem, (string \<times> reader option) list) callback" where
  "collect it r s = ((1, None), s @ [(fi_Path it, r)])"

definition toyStream :: "go_error option \<times> writer" where
  "toyStream = writeStream toyMarshal (calm 1) [] (newPool 4096 8388608 [])
     [toyItem ''a'' ''xyz'', toyItem ''b'' [], toyItem ''c'' ''uv''] bytesBuffer"

lemma toyStream_ok:
  "writeStream toyMarshal (calm 1) [] (newPool 4096 8388608 [])
     [toyItem ''a'' ''xyz'', toyItem ''b'' [], toyItem ''c'' ''uv''] bytesBuffer = (None, snd toyStream)"
  "\<forall>it \<in> set [toyItem ''a'' ''xyz'', toyItem ''b'' [], toyItem ''c'' ''uv'']. json_ok toyMarshal toyUnmarshal it"
proof -
  have "fst toyStream = None" by code_simp
  then show "writeStream toyMarshal (calm 1) [] (newPool 4096 8388608 [])
     [toyItem ''a'' ''xyz'', toyItem ''b'' [], toyItem ''c'' ''uv''] bytesBuffer = (None, snd toyStream)"
    unfolding toyStream_def [symmetric] by (metis prod.collapse)
  have "\<forall>it \<in> set [toyItem ''a'' ''xyz'', toyItem ''b'' [], toyItem ''c'' ''uv''].
      (case toyMarshal it of Inl _ \<Rightarrow> False
        | Inr json \<Rightarrow> json \<noteq> [] \<and> toyUnmarshal json = Inr (fi_wire it))"
    by code_simp
  then show "\<forall>it \<in> set [toyItem ''a'' ''xyz'', toyItem ''b'' [], toyItem ''c'' ''uv''].
      json_ok toyMarshal toyUnmarshal it"
    by (auto simp: json_ok_def split: sum.splits)
qed

theorem stream_roundtrip_witness:
  "\<exists>n rd'. ReadStream toyUnmarshal collect (written (snd toyStream) @ ''rest'', None) 0 [] =
     ((n, None), rd', [(''a'', Some (''xyz'', None)), (''b'', None), (''c'', Some (''uv'', None))]) \<and>
     n = int (length (written (snd toyStream))) \<and> rd' = (''rest'', None)"
proof -
  let ?R = "ReadStream toyUnmarshal collect (written (snd toyStream) @ ''rest'', None) 0 []"
  obtain n r rd' s' where R: "?R = ((n, r), rd', s')" by (metis prod.collapse)
  have "snd (fst ?R) = None"
    "snd (snd ?R) = [(''a'', Some (''xyz'', None)), (''b'', None), (''c'', Some (''uv'', None))]"
    by code_simp+
  then show ?thesis using stream_roundtrip [OF toyStream_ok R] R by auto
qed

theorem stream_truncation_detected_witness:
  "\<exists>k t rd'. ReadStream toyUnmarshal collect (take 10 (written (snd toyStream)), None) 0 [] =
     ((t, None), rd', [(''a'', Some (''xyz'', None))]) \<and> k \<le> 3 \<and>
     snd (deliver collect (take k [(fi_wire (toyItem ''a'' ''xyz''), ''xyz''), (fi_wire (toyItem ''b'' []), []),
       (fi_wire (toyItem ''c'' ''uv''), ''uv'')]) []) = [(''a'', Some (''xyz'', None))]"
proof -
  let ?R = "ReadStream toyUnmarshal collect (take 10 (written (snd toyStream)), None) 0 []"
  obtain n r rd' s' where R: "?R = ((n, r), rd', s')" by (metis prod.collapse)
  have ev: "snd (fst ?R) = None" "snd (snd ?R) = [(''a'', Some (''xyz'', None))]"
    "10 < length (written (snd toyStream))"
    "map (fi_sent (calm 1) [] (newPool 4096 8388608 []))
       [toyItem ''a'' ''xyz'', toyItem ''b'' [], toyItem ''c'' ''uv''] = map Some [''xyz'', [], ''uv'']"
    by code_simp+
  have "?R = ((n, None), rd', s')" using R ev(1) by simp
  from stream_truncation_detected [OF toyStream_ok ev(3) this] obtain bs k where
    k: "map (fi_sent (calm 1) [] (newPool 4096 8388608 []))
        [toyItem ''a'' ''xyz'', toyItem ''b'' [], toyItem ''c'' ''uv''] = map Some bs"
      "k \<le> length [toyItem ''a'' ''xyz'', toyItem ''b'' [], toyItem ''c'' ''uv'']"
      "deliver collect (take k (zip (map fi_wire [toyItem ''a'' ''xyz'', toyItem ''b'' [], toyItem ''c'' ''uv'']) bs)) [] =
        (None, s')"
    by blast
  then have "map Some bs = map Some [''xyz'', [], ''uv'']" using ev(4) by simp
  then have "bs = [''xyz'', [], ''uv'']" by (auto simp: map_eq_Cons_conv)
  then show ?thesis using k R ev(1,2) by (intro exI [of _ k]) auto
qed

definition toyCacheItem :: "string \<Rightarrow> bytes \<Rightarrow> cacheItem" where
  "toyCacheItem a b =
     \<lparr>ri_ActionID = a, ri_Miss = False, ri_OutputID = a, ri_Size = int (length b), ri_Time = None,
      ri_IsCompressed = False, ri_WireSize = int (length b), ri_DiskPath = [],
      ri_body = BytesReader (Inr (b, None))\<rparr>"

definition toyResponse :: "cacheItem list \<Rightarrow> bytes result" where
  "toyResponse its = Inr (join_with CHR '','' (map (\<lambda>it. ri_ActionID it @ '' '' @ dec (nat (ri_Size it))) its))"

definition toyParse :: "bytes \<Rightarrow> cacheItem list result" where
  "toyParse b = Inr (map (\<lambda>l. case split_on CHR '' '' l of
       [a, n] \<Rightarrow> (toyCacheItem a [])\<lparr>ri_Size := int (undec n), ri_WireSize := int (undec n), ri_body := NilReader\<rparr>
     | _ \<Rightarrow> toyCacheItem [] []) (split_on CHR '','' b))"

definition collectIDs :: "(cacheItem, (string \<times> reader option) list) callback" where
  "collectIDs it r s = ((0, None), s @ [(ri_OutputID it, r)])"

theorem response_roundtrip_witness:
  "\<exists>n w. Response_WriteTo toyResponse (calm 1) [] (newPool 4096 8388608 [])
       [toyCacheItem ''a'' ''xyz'', toyCacheItem ''b'' []] bytesBuffer = ((n, None), w) \<and>
     Response_ContentLength toyResponse [toyCacheItem ''a'' ''xyz'', toyCacheItem ''b'' []] = Inr n \<and>
     snd (snd (Response_ReaderFrom toyParse collectIDs (written w, None) [])) =
       [(''a'', Some (''xyz'', None)), (''b'', None)]"
proof -
  let ?its = "[toyCacheItem ''a'' ''xyz'', toyCacheItem ''b'' []]"
  let ?W = "Response_WriteTo toyResponse (calm 1) [] (newPool 4096 8388608 []) ?its bytesBuffer"
  let ?R = "Response_ReaderFrom toyParse collectIDs (written (snd ?W) @ [], None) []"
  have ev: "snd (fst ?W) = None" "snd (snd ?R) = [(''a'', Some (''xyz'', None)), (''b'', None)]"
    "(case toyResponse ?its of Inl _ \<Rightarrow> False | Inr json \<Rightarrow> toyParse json = Inr (map ri_wire ?its))"
    "\<forall>it \<in> set ?its. ri_WireSize it = 0 \<longrightarrow> ri_Size it = 0"
    by code_simp+
  obtain n w where W: "?W = ((n, None), w)" using ev(1) by (metis prod.collapse)
  obtain m r rd' s' where R: "Response_ReaderFrom toyParse collectIDs (written w @ [], None) [] = ((m, r), rd', s')"
    by (metis prod.collapse)
  have u: "toyParse json = Inr (map ri_wire ?its)" if "toyResponse ?its = Inr json" for json
    using ev(3) that by simp
  from response_roundtrip [OF W u R ev(4)] show ?thesis using W R ev(2) by auto
qed

theorem negative_length_panics_witness:
  "snd (fst (Response_ReaderFrom toyParse collectIDs (replicate 4 (char_of (255 :: nat)) @ ''{}'', None) [])) =
     Some (ErrPanic ''makeslice: len out of range'')"
proof -
  have "length (replicate 4 (char_of (255 :: nat))) = 4" "sint (get_be32 (replicate 4 (char_of (255 :: nat)))) < 0"
    by code_simp+
  from negative_length_panics [where unmarshal = toyParse and cb = collectIDs and rest = "''{}''" and e = None
      and s = "[]", OF this]
  show ?thesis by (metis fst_conv snd_conv)
qed

end
