(* ===== verification/Http_Account.thy ===== *)
theory Http_Account
  imports Http_Budget Wire_Roundtrip
begin

text \<open>
  What holds of the two stores under every request. The locale \<open>request_inv\<close> carries any invariant of
  the two stores' own operations through \<open>ServeHTTP\<close>; it is interpreted with the accounts of both.
\<close>

section \<open>Reading items keeps what the callback keeps\<close>

lemma readItemBody_state:
  "snd (snd (readItemBody rd n f s)) =
     snd (f (take (nat n) (fst rd), if nat n \<le> length (fst rd) then None else snd rd) s)"
  unfolding readItemBody_def Let_def
  by (cases "f (take (nat n) (fst rd), if nat n \<le> length (fst rd) then None else snd rd) s")
    (simp split: prod.splits option.splits)

lemma readItemBody_inv:
  assumes "\<And>lim s. P s \<Longrightarrow> P (snd (f lim s))" "P s"
  shows "P (snd (snd (readItemBody rd n f s)))"
  unfolding readItemBody_state using assms by blast

lemma readItems_inv:
  assumes "\<And>it b s. P s \<Longrightarrow> P (snd (cb it b s))" "P s"
  shows "P (snd (snd (readItems ws cb its rd tot s)))"
  using assms(2)
proof (induction its arbitrary: rd tot s)
  case (Cons it its)
  obtain q s1 where q: "cb it None s = (q, s1)" by fastforce
  obtain q2 rd2 s2 where q2: "readItemBody rd (ws it) (\<lambda>lim. cb it (Some lim)) s = (q2, rd2, s2)"
    by (metis prod.collapse)
  have "P s1" using assms(1) [OF Cons.prems, of it None] q by simp
  moreover have "P s2"
    using readItemBody_inv [of P "\<lambda>lim. cb it (Some lim)" s rd "ws it"] assms(1) Cons.prems q2 by simp
  ultimately show ?case using Cons.IH q q2 by (auto split: prod.splits option.splits)
qed simp

lemma frameReaderFrom_inv:
  assumes "\<And>it b s. P s \<Longrightarrow> P (snd (cb it b s))" "P s"
  shows "P (snd (snd (frameReaderFrom u ws cb rd s)))"
  using readItems_inv [of P, OF assms] assms(2)
  by (auto simp: frameReaderFrom_def Let_def split: sum.splits prod.splits)

lemma ReadStream_inv:
  assumes "\<And>it b s. P s \<Longrightarrow> P (snd (cb it b s))" "P s"
  shows "P (snd (snd (ReadStream u cb rd tot s)))"
  using assms(2)
proof (induction "length (fst rd)" arbitrary: rd tot s rule: less_induct)
  case less
  show ?case
  proof (cases "\<exists>hd4 rd1 json rd2 it. readFull 4 rd = Inr (hd4, rd1) \<and> 0 < sint (get_be32 hd4) \<and>
      readFull (nat (sint (get_be32 hd4))) rd1 = Inr (json, rd2) \<and> u json = Inr it")
    case False
    then show ?thesis
      using less.prems by (subst ReadStream.simps) (force simp: Let_def split: sum.splits prod.splits)
  next
    case True
    then obtain hd4 rd1 json rd2 it where r: "readFull 4 rd = Inr (hd4, rd1)" "0 < sint (get_be32 hd4)"
        "readFull (nat (sint (get_be32 hd4))) rd1 = Inr (json, rd2)" "u json = Inr it"
      by blast
    obtain q s1 where q: "cb it None s = (q, s1)" by fastforce
    obtain q2 rd3 s2 where q2: "readItemBody rd2 (wireSizeOf it) (\<lambda>lim. cb it (Some lim)) s = (q2, rd3, s2)"
      by (metis prod.collapse)
    have P: "P s1" "P s2"
      using assms(1) [OF less.prems, of it None] q
        readItemBody_inv [of P "\<lambda>lim. cb it (Some lim)" s rd2 "wireSizeOf it"] assms(1) less.prems q2 by simp_all
    have "length (fst rd2) < length (fst rd)" "length (fst rd3) < length (fst rd)"
      using readFull_shrinks [OF r(1)] readFull_shrinks [OF r(3)] readItemBody_shrinks [OF q2] by linarith+
    from less.hyps [OF this(1) P(1)] less.hyps [OF this(2) P(2)] show ?thesis
      using r q q2 P by (subst ReadStream.simps) (auto simp: Let_def split: prod.splits option.splits)
  qed
qed


lemma feedItems_inv:
  assumes "\<And>it b sp. P sp \<Longrightarrow> P (snd (saveStreamItem E it b sp))" "P sp"
  shows "P (snd (feedItems J E buf sp))"
  using assms(2)
proof (induction "length buf" arbitrary: buf sp rule: less_induct)
  case less
  define n4 where "n4 = 4 + nat (sint (get_be32 (take 4 buf)))"
  show ?case
  proof (cases "4 \<le> length buf \<and> (\<exists>it. dec_file J (take (nat (sint (get_be32 (take 4 buf)))) (drop 4 buf)) = Inr it)")
    case False
    then show ?thesis
      using less.prems by (subst feedItems.simps) (force simp: Let_def split: sum.splits)
  next
    case True
    then obtain it where it: "dec_file J (take (nat (sint (get_be32 (take 4 buf)))) (drop 4 buf)) = Inr it"
      by blast
    let ?n = "nat (wireSizeOf it)"
    have "length (drop n4 buf) < length buf" "length (drop ?n (drop n4 buf)) < length buf"
      using True by (auto simp: n4_def)
    note IH = less.hyps [OF this(1)] less.hyps [OF this(2)]
    obtain q1 s1 where q1: "saveStreamItem E it None sp = (q1, s1)" by (metis prod.collapse)
    obtain q2 s2 where q2: "saveStreamItem E it (Some (take ?n (drop n4 buf), None)) sp = (q2, s2)"
      by (metis prod.collapse)
    have "P s1" "P s2"
      using assms(1) [OF less.prems, of it None] q1
        assms(1) [OF less.prems, of it "Some (take ?n (drop n4 buf), None)"] q2 by simp_all
    then show ?thesis
      using True it IH q1 q2 less.prems
      by (subst feedItems.simps) (auto simp: Let_def n4_def [symmetric] split: prod.splits option.splits)
  qed
qed

section \<open>Every request keeps what the stores' operations keep\<close>

definition holds :: "(lstore \<Rightarrow> bool) \<Rightarrow> (store \<Rightarrow> bool) \<Rightarrow> handler \<Rightarrow> bool" where
  "holds P Q h = (P (h_store h) \<and> (\<forall>q. gocacheStore h = Some q \<longrightarrow> Q q))"

locale request_inv =
  fixes P :: "lstore \<Rightarrow> bool" and Q :: "store \<Rightarrow> bool"
  assumes P_op: "P s \<Longrightarrow> P (lapplyOp s op)"
    and Q_op: "Q q \<Longrightarrow> Q (applyOp q sop)"
    and Q_sources: "Q q \<Longrightarrow> Q (snd (RestoreSources E q req))"
    and Q_merge: "Q q \<Longrightarrow> Q (snd (MergeSavedPaths E q req ps))"
begin

lemma holds_same:
  "h_store h' = h_store h \<Longrightarrow> gocacheStore h' = gocacheStore h \<Longrightarrow> holds P Q h \<Longrightarrow> holds P Q h'"
  by (simp add: holds_def)

lemma holds_local: "holds P Q h \<Longrightarrow> P s \<Longrightarrow> holds P Q (h\<lparr>h_store := s\<rparr>)"
  by (simp add: holds_def)

lemma holds_native: "holds P Q h \<Longrightarrow> Q q \<Longrightarrow> holds P Q (h\<lparr>gocacheStore := Some q\<rparr>)"
  by (simp add: holds_def)

lemma P_ops:
  "P s \<Longrightarrow> P (snd (GetL E s ids))" "P s \<Longrightarrow> P (snd (putOneL E s it))"
  "P s \<Longrightarrow> P (snd (Preload E s req))" "P s \<Longrightarrow> P (snd (IntegrityCheck E s dry))"
  "P s \<Longrightarrow> P (snd (PostCacheUsed E s c ch bt ids' rep))" "P s \<Longrightarrow> P (snd (EvictOneL E s))"
  "P s \<Longrightarrow> P (EvictNowL E s)"
  using P_op [of s "OpGetL E ids"] P_op [of s "OpPutL E it"] P_op [of s "OpPreload E req"]
    P_op [of s "OpIntegrity E dry"] P_op [of s "OpUsed E c ch bt ids' rep"] P_op [of s "OpEvictOneL E"]
    P_op [of s "OpEvictNowL E"] by simp_all

lemma Q_ops:
  "Q q \<Longrightarrow> Q (snd (SaveItem E q it))" "Q q \<Longrightarrow> Q (snd (Restore E q req))"
  "Q q \<Longrightarrow> Q (snd (Clear E q req))" "Q q \<Longrightarrow> Q (snd (EvictNow E q))" "Q q \<Longrightarrow> Q (snd (EvictOne E q))"
  using Q_op [of q "OpSaveItem E it"] Q_op [of q "OpRestore E req"] Q_op [of q "OpClear E req"]
    Q_op [of q "OpEvictNow E"] Q_op [of q "OpEvictOne E"] by simp_all

lemma PutL_P: "P s \<Longrightarrow> P (snd (PutL E s its))"
proof (induction its arbitrary: s)
  case (Cons it its)
  obtain r s1 where p: "putOneL E s it = (r, s1)" by fastforce
  have "P s1" using P_ops(2) [OF Cons.prems, of E it] p by simp
  then show ?case using Cons.IH p by (simp split: option.splits)
qed simp

lemma putItem_P: "P s \<Longrightarrow> P (snd (putItem E it b s))"
  using PutL_P [of s E] by (auto simp: putItem_def simp del: PutL.simps split: option.splits prod.splits)
    (metis snd_conv)+

lemma saveStreamItem_Q: "Q (fst sp) \<Longrightarrow> Q (fst (snd (saveStreamItem E it b sp)))"
  using Q_ops(1) [of "fst sp" E]
  by (auto simp: saveStreamItem_def Let_def split: option.splits prod.splits) (metis snd_conv)+

lemma saveResult_Q: "Q (fst sp) \<Longrightarrow> Q (snd (saveResult E req r sp))"
  using Q_merge [of "fst sp" E req "snd sp"]
  by (auto simp: saveResult_def split: option.splits prod.splits)

lemma readSaveStream_Q: "Q (fst sp) \<Longrightarrow> Q (snd (readSaveStream J E req rd sp))"
proof -
  assume q: "Q (fst sp)"
  obtain n r rd' sp' where s: "ReadStream (dec_file J) (saveStreamItem E) rd 0 sp = ((n, r), rd', sp')"
    by (metis prod.collapse)
  have "Q (fst sp')"
    using ReadStream_inv [of "\<lambda>sp. Q (fst sp)" "saveStreamItem E" sp "dec_file J" rd 0] saveStreamItem_Q q s
    by simp
  then show ?thesis using s saveResult_Q by (simp add: readSaveStream_def)
qed

lemma feedPipe_Q: "Q q \<Longrightarrow> Q (snd (feedPipe J E req sv b q))"
proof (cases sv)
  case (Feeding buf ps)
  assume q: "Q q"
  obtain f sp' where f: "feedItems J E (buf @ b) (q, ps) = (f, sp')" by (metis prod.collapse)
  have "Q (fst sp')"
    using feedItems_inv [of "\<lambda>sp. Q (fst sp)" E "(q, ps)" J "buf @ b"] saveStreamItem_Q q f by simp
  then show ?thesis
    using Feeding f saveResult_Q [of sp' E req]
    by (cases f) (auto simp: feedPipe_def split: prod.splits, metis snd_conv)
qed (simp add: feedPipe_def)

lemma closePipe_Q: "Q q \<Longrightarrow> Q (snd (closePipe J E req sv e q))"
  using readSaveStream_Q by (cases sv) (simp_all add: closePipe_def)


lemma session_frame:
  "h_store (touchSession J E h r) = h_store h" "gocacheStore (touchSession J E h r) = gocacheStore h"
  "h_store (updateSession h r f) = h_store h" "gocacheStore (updateSession h r f) = gocacheStore h"
  "h_store (recordSessionPreload h r n d src) = h_store h"
  "gocacheStore (recordSessionPreload h r n d src) = gocacheStore h"
  "h_store (recordSessionFinalize h r n d) = h_store h"
  "gocacheStore (recordSessionFinalize h r n d) = gocacheStore h"
  "h_store (markSessionDone J E h r x) = h_store h" "gocacheStore (markSessionDone J E h r x) = gocacheStore h"
  "h_store (deleteSaveSession h u) = h_store h" "gocacheStore (deleteSaveSession h u) = gocacheStore h"
  by (simp_all add: touchSession_def updateSession_def recordSessionPreload_def recordSessionFinalize_def
    markSessionDone_def appendSessionsJSONL_def deleteSaveSession_def Let_def split: option.splits)

lemma settings_frame:
  "saveSettings J E h = (x, h') \<Longrightarrow> h_store h' = h_store h \<and> gocacheStore h' = gocacheStore h"
  "setMaxPreloadTotalBytes J E h bt n = (x, h') \<Longrightarrow> h_store h' = h_store h \<and> gocacheStore h' = gocacheStore h"
  "setMaxFileBytes J E h bt n = (x, h') \<Longrightarrow> h_store h' = h_store h \<and> gocacheStore h' = gocacheStore h"
  by (auto simp: saveSettings_def setMaxPreloadTotalBytes_def setMaxFileBytes_def
    split: if_splits sum.splits prod.splits)

lemma local_handlers:
  assumes h: "holds P Q h"
  shows "holds P Q (snd (GetH J E h r))" "holds P Q (snd (HeadH J E h r))" "holds P Q (snd (PutH J E h r))"
    "holds P Q (snd (PreloadH J E h r))" "holds P Q (snd (CacheUsedH E h r))"
    "holds P Q (snd (IntegrityCheckH E h r))"
proof -
  have p: "P (h_store h)" using h by (simp add: holds_def)
  note upd = holds_local [OF h]
  show "holds P Q (snd (GetH J E h r))" "holds P Q (snd (HeadH J E h r))"
    using P_ops(1) [OF p, of E] h
    by (auto simp: GetH_def HeadH_def Let_def split: sum.splits prod.splits intro!: upd) (metis snd_conv)+
  obtain q rd s where f: "Response_ReaderFrom (dec_items J) (putItem E) (rq_body r) (h_store h) = (q, rd, s)"
    by (metis prod.collapse)
  have "P s" using frameReaderFrom_inv [of P "putItem E", OF putItem_P p] f
    by (metis Response_ReaderFrom_def snd_conv)
  then show "holds P Q (snd (PutH J E h r))"
    using f by (auto simp: PutH_def split: prod.splits option.splits intro!: upd)
  have pre: "holds P Q (snd (preloadBody J E h' r))" if "holds P Q h'" for h'
  proof -
    have "P (snd (Preload E (h_store h') req))" for req using P_ops(3) that by (simp add: holds_def)
    then show ?thesis
      using that holds_local [OF that]
      by (auto simp: preloadBody_def Let_def split: sum.splits prod.splits
        intro!: holds_same [OF session_frame(5,6)]) (metis snd_conv)+
  qed
  show "holds P Q (snd (PreloadH J E h r))"
    using pre [OF holds_same [OF _ _ h], of "h\<lparr>preloadStarted := preloadStarted h + 1,
        preloadInFlight := preloadInFlight h + 1\<rparr>"]
    by (auto simp: PreloadH_def split: prod.splits intro: holds_same [rotated 2])
  show "holds P Q (snd (CacheUsedH E h r))"
    using P_ops(5) [OF p] h
    by (auto simp: CacheUsedH_def Let_def split: sum.splits prod.splits option.splits intro!: upd) (metis snd_conv)+
  show "holds P Q (snd (IntegrityCheckH E h r))"
    using P_ops(4) [OF p] by (auto simp: IntegrityCheckH_def split: prod.splits intro!: upd) (metis snd_conv)
qed

lemma native_handlers:
  assumes h: "holds P Q h"
  shows "holds P Q (snd (RestoreCacheH J E h r))" "holds P Q (snd (ClearCacheH E h r))"
    "holds P Q (snd (InspectCacheH E h r))" "holds P Q (snd (InspectKeysH J E h r))"
    "holds P Q (snd (SaveCacheHasH J E h r))" "holds P Q (snd (SaveCacheH J E h r))"
proof -
  have q: "Q g" if "gocacheStore h = Some g" for g using h that by (simp add: holds_def)
  note upd = holds_native [OF h]
  show "holds P Q (snd (RestoreCacheH J E h r))"
  proof (cases "gocacheStore h")
    case (Some g)
    obtain x s1 where x: "RestoreSources E g (restoreRequest h r) = (x, s1)" by fastforce
    then have s1: "Q s1" using Q_sources [OF q [OF Some]] by (metis snd_conv)
    obtain y s2 where y: "Restore E s1 (restoreRequest h r) = (y, s2)" by fastforce
    then have s2: "Q s2" using Q_ops(2) [OF s1] by (metis snd_conv)
    show ?thesis
      using Some x y upd [OF s1] upd [OF s2] h
      by (auto simp: RestoreCacheH_def Let_def split: sum.splits prod.splits
        intro: holds_same [OF session_frame(5,6)])
  qed (simp add: RestoreCacheH_def h)
  show "holds P Q (snd (ClearCacheH E h r))"
    using Q_ops(3) [OF q] h
    by (auto simp: ClearCacheH_def split: option.splits prod.splits intro!: upd) (metis snd_conv)+
  show "holds P Q (snd (InspectCacheH E h r))" "holds P Q (snd (InspectKeysH J E h r))"
    using h by (simp_all add: InspectCacheH_def InspectKeysH_def split: option.splits sum.splits)
  show "holds P Q (snd (SaveCacheHasH J E h r))"
    using h Q_merge [OF q]
    by (auto simp: SaveCacheHasH_def Let_def split: option.splits sum.splits intro!: upd)
  have "Q s" if "gocacheStore h = Some g"
      "readSaveStream J E (parseGOCACHERequest r) (rq_body r) (g, []) = (x, s)" for g x s
    using readSaveStream_Q [of "(g, [])" J E "parseGOCACHERequest r" "rq_body r"] q [OF that(1)] that(2) by simp
  then show "holds P Q (snd (SaveCacheH J E h r))"
    using h
    by (auto simp: SaveCacheH_def processSaveCacheStream_def split: option.splits prod.splits intro!: upd)
qed

lemma holds_put_session:
  "holds P Q h \<Longrightarrow> Q g \<Longrightarrow> holds P Q (h\<lparr>gocacheStore := Some g, saveSessions := m\<rparr>)"
  by (simp add: holds_def)

lemma session_handlers:
  assumes h: "holds P Q h"
  shows "holds P Q (snd (StartSaveCacheH E h r))" "holds P Q (snd (SaveCacheChunkH J E h r))"
    "holds P Q (snd (FinalizeSaveCacheH J E h r))" "holds P Q (snd (AbortSaveCacheH J E h r))"
proof -
  have q: "Q g" if "gocacheStore h = Some g" for g using h that by (simp add: holds_def)
  show "holds P Q (snd (StartSaveCacheH E h r))"
    using h by (auto simp: StartSaveCacheH_def split: option.splits sum.splits intro: holds_same [rotated 2])
  show "holds P Q (snd (SaveCacheChunkH J E h r))"
  proof (cases "gocacheStore h")
    case (Some g)
    show ?thesis
    proof (cases "lookupSaveSession h r")
      case (Inr su)
      obtain sv u where su: "su = (sv, u)" by (cases su)
      obtain st bl s1 where f: "feedPipe J E (sv_request sv) (sv_state sv) (fst (rq_body r)) g = ((st, bl), s1)"
        by (metis prod.collapse)
      have s1: "Q s1" using feedPipe_Q [OF q [OF Some]] f by (metis snd_conv)
      have "Q (snd (closePipe J E (sv_request sv) st e s1))" for e using closePipe_Q [OF s1] .
      then show ?thesis
        using Some Inr su f s1
        by (auto simp: SaveCacheChunkH_def Let_def split: option.splits prod.splits
          intro!: holds_put_session [OF h] holds_same [OF session_frame(11,12)]) (metis snd_conv)
    qed (simp add: SaveCacheChunkH_def h Some)
  qed (simp add: SaveCacheChunkH_def h)
  have close: "Q (snd (closePipe J E req sv e g))" if "gocacheStore h = Some g" for req sv e g
    using closePipe_Q [OF q [OF that]] .
  show "holds P Q (snd (FinalizeSaveCacheH J E h r))" "holds P Q (snd (AbortSaveCacheH J E h r))"
    using h close
    by (auto simp: FinalizeSaveCacheH_def AbortSaveCacheH_def Let_def split: option.splits prod.splits sum.splits
      intro!: holds_native [OF h] holds_same [OF session_frame(11,12)] holds_same [OF session_frame(7,8)])
      (metis snd_conv)+
qed

lemma storeEvictOne_holds: "holds P Q h \<Longrightarrow> holds P Q (snd (storeEvictOne E h i))"
  using P_ops(6) [of "h_store h" E] Q_ops(5) [of _ E]
  by (cases i) (auto simp: holds_def split: prod.splits option.splits, (metis snd_conv)+)

lemma evictFirst_holds: "holds P Q h \<Longrightarrow> holds P Q (snd (evictFirst E h is))"
proof (induction "is" arbitrary: h)
  case (Cons i "is")
  obtain b h1 where b: "storeEvictOne E h i = (b, h1)" by fastforce
  have "holds P Q h1" using storeEvictOne_holds [OF Cons.prems, of E i] b by simp
  then show ?case using b Cons.IH by (auto split: sum.splits bool.splits)
qed simp

lemma budgetLoop_holds: "holds P Q h \<Longrightarrow> holds P Q (snd (budgetLoop E t is h))"
proof (induction E t "is" h rule: budgetLoop.induct)
  case (1 E t "is" h)
  obtain b h1 where b: "evictFirst E h (byBytes h is) = (b, h1)" by fastforce
  have "holds P Q h1" using evictFirst_holds [OF 1(2), of E "byBytes h is"] b by simp
  then show ?case
    using 1 b by (subst budgetLoop.simps) (auto simp: Let_def split: sum.splits)
qed

lemma enforce_holds: "holds P Q h \<Longrightarrow> holds P Q (snd (enforceCombinedBudget E h))"
  by (simp add: enforceCombinedBudget_def Let_def budgetLoop_holds)

lemma evictAll_holds: "holds P Q h \<Longrightarrow> holds P Q (snd (evictAll E h))"
proof -
  assume h: "holds P Q h"
  have h1: "holds P Q (h\<lparr>h_store := EvictNowL E (h_store h)\<rparr>)"
    using h P_ops(7) [of "h_store h" E] by (simp add: holds_def)
  show ?thesis
  proof (cases "gocacheStore h")
    case (Some g)
    obtain x g' where g: "EvictNow E g = (x, g')" by fastforce
    then have "Q g'" using h Some Q_ops(4) [of g E] by (simp add: holds_def)
    from holds_native [OF h1 this] show ?thesis
      using Some g by (auto simp: evictAll_def Let_def enforce_holds split: option.splits)
  qed (simp add: evictAll_def enforce_holds [OF h1])
qed

lemma applyOverrideForm_holds:
  assumes "holds P Q h" "\<And>bt n x h'. setter bt n = (x, h') \<Longrightarrow> h_store h' = h_store h \<and> gocacheStore h' = gocacheStore h"
  shows "holds P Q (snd (applyOverrideForm r h setter))"
  using assms
  by (auto simp: applyOverrideForm_def Let_def split: sum.splits prod.splits option.splits if_splits
    dest!: assms(2) intro: holds_same)

lemma settings_holds:
  assumes "holds P Q h" "\<And>bt n x h'. setter bt n = (x, h') \<Longrightarrow> h_store h' = h_store h \<and> gocacheStore h' = gocacheStore h"
  shows "holds P Q (snd (buildTypeInt64Settings r h snap setter))"
  using assms
  by (auto simp: buildTypeInt64Settings_def Let_def split: sum.splits prod.splits option.splits if_splits
    dest!: assms(2) intro: holds_same)

lemma IndexH_holds:
  assumes h: "holds P Q h"
  shows "holds P Q (snd (IndexH J E h r))"
proof -
  have forms: "holds P Q (snd (applyOverrideForm r h (setMaxPreloadTotalBytes J E h)))"
      "holds P Q (snd (applyOverrideForm r h (setMaxFileBytes J E h)))"
    by (rule applyOverrideForm_holds [OF h], erule settings_frame)+
  have "holds P Q h'" if "evictAll E h = (x, h')" for x h' using evictAll_holds [OF h, of E] that by simp
  then show ?thesis
    using h forms
    by (auto simp: IndexH_def Let_def clientSessionsSnapshot_def split: prod.splits option.splits
      intro: holds_same [rotated 2])
qed

lemma routes_holds:
  assumes h: "holds P Q h" and p: "map_of (routes J E h r) path = Some res"
  shows "holds P Q (snd res)"
proof -
  have "holds P Q (snd (serveSessionDone J E h r))"
    using h by (auto simp: serveSessionDone_def split: sum.splits intro: holds_same [OF session_frame(9,10)])
  moreover have "holds P Q (snd (MaxPreloadTotalBytesSettings J E h r))" "holds P Q (snd (MaxFileBytesSettings J E h r))"
    unfolding MaxPreloadTotalBytesSettings_def MaxFileBytesSettings_def
    by (rule settings_holds [OF h], erule settings_frame)+
  ultimately have "\<forall>x \<in> set (routes J E h r). holds P Q (snd (snd x))"
    using h
    by (simp add: routes_def always_def local_handlers [OF h] native_handlers [OF h] session_handlers [OF h])
  then show ?thesis using map_of_SomeD [OF p] by fastforce
qed

lemma recovered_holds: "holds P Q h \<Longrightarrow> holds P Q (snd (recovered E rep h))"
  by (auto simp: recovered_def recordPanic_def split: option.splits intro: holds_same [rotated 2])

lemma ServeHTTP_holds:
  assumes h: "holds P Q h"
  shows "holds P Q (snd (ServeHTTP J E h r))"
proof -
  define h1 where "h1 = touchSession J E h r"
  have h1: "holds P Q h1" unfolding h1_def by (rule holds_same [OF session_frame(1,2) h])
  obtain rep h2 where res: "(case map_of (routes J E h1 r) (rq_path r) of
      None \<Rightarrow> (Some (httpError 404 (ErrMsg ''404 page not found'')), h1) | Some res \<Rightarrow> res) = (rep, h2)"
    by (metis prod.collapse)
  then have h2: "holds P Q h2"
    using routes_holds [OF h1, of J E r "rq_path r"] h1 by (auto split: option.splits)
  obtain e h3 where e: "enforceCombinedBudget E h2 = (e, h3)" by fastforce
  then have h3: "holds P Q h3" using enforce_holds [OF h2, of E] by simp
  obtain rep' h' where ix: "IndexH J E h r = (rep', h')" by fastforce
  then have "holds P Q h'" using IndexH_holds [OF h, of J E r] by simp
  then show ?thesis
    unfolding ServeHTTP_def Let_def h1_def [symmetric] res ix
    using h h2 e recovered_holds [OF h3] recovered_holds
    by (auto simp: always_def split: option.splits)
qed

lemma requests_hold: "holds P Q h \<Longrightarrow> holds P Q (foldl (\<lambda>h (E, r). snd (ServeHTTP J E h r)) h rs)"
  by (induction rs arbitrary: h) (auto simp: ServeHTTP_holds)

end

lemma RestoreSources_acct: "acct q \<Longrightarrow> acct (snd (RestoreSources E q req))"
  using acc.restorePaths_inv by (auto simp: RestoreSources_def split: prod.splits sum.splits)

interpretation accounts: request_inv refs_ok acct
  by unfold_locales
    (auto intro: lapplyOp_refs applyOp_acct RestoreSources_acct acc.MergeSavedPaths_inv [OF surjective_pairing])

definition serveAll :: "codec \<Rightarrow> handler \<Rightarrow> (env \<times> httpRequest) list \<Rightarrow> handler" where
  "serveAll J = foldl (\<lambda>h (E, r). snd (ServeHTTP J E h r))"



text \<open>JSON as the examples need it: one list of action ids, one line per cached item.\<close>

definition toyCodec :: codec where
  "toyCodec =
     \<lparr>dec_actionIDs = (\<lambda>b. Inr (split_on CHR '','' b)), dec_preload = (\<lambda>_. Inl (ErrMsg ''json'')),
      dec_paths = (\<lambda>b. Inr (split_on CHR '','' b)), dec_extra = (\<lambda>_. Inl (ErrMsg ''json'')),
      enc_items = toyResponse, dec_items = toyParse, enc_file = toyMarshal, dec_file = toyUnmarshal,
      enc_line = (\<lambda>_. Inr []), dec_line = (\<lambda>_. Inl (ErrMsg ''json'')),
      enc_settings = (\<lambda>_. Inr []), dec_settings = (\<lambda>_. Inl (ErrMsg ''json'')), moduleVersion = []\<rparr>"

definition toyRequest :: "string \<Rightarrow> string \<Rightarrow> bytes \<Rightarrow> httpRequest" where
  "toyRequest path uploadID b =
     \<lparr>rq_method = ''POST'', rq_path = path,
      rq_header = (\<lambda>k. if k = ''Authorization'' then ''Bearer t'' else []),
      rq_query = (\<lambda>k. if k = ''upload-id'' then uploadID else []),
      rq_basicAuth = None, rq_body = (b, None), rq_elapsed = 1\<rparr>"

definition toyPut :: httpRequest where
  "toyPut = toyRequest ''/put'' [] (put_be32 3 @ ''a 3'' @ ''xyz'')"


end
