(* ===== verification/Http_Save.thy ===== *)
theory Http_Save
  imports Http_Account
begin

text \<open>
  Uploads in chunks. What the goroutine behind a save session does with the chunks is what one read of
  all their bytes does, however the bytes are cut; and a chunk that comes too late is never answered.
\<close>

section \<open>Feeding a stream piece by piece\<close>

definition outcome :: "(int \<times> go_error option) \<times> reader \<times> 's \<Rightarrow> go_error option \<times> 's" where
  "outcome x = (snd (fst x), snd (snd x))"

lemma outcome_simp [simp]: "outcome ((n, r), rd, s) = (r, s)"
  by (simp add: outcome_def)

text \<open>The count of bytes is carried along only.\<close>

lemma ReadStream_count:
  "\<exists>n r rd' s'. ReadStream u cb rd t s = ((t + n, r), rd', s') \<and> (\<forall>t'. ReadStream u cb rd t' s = ((t' + n, r), rd', s'))"
proof (induction "length (fst rd)" arbitrary: rd t s rule: less_induct)
  case less
  show ?case
  proof (cases "\<exists>hd4 rd1 json rd2 it. readFull 4 rd = Inr (hd4, rd1) \<and> 0 < sint (get_be32 hd4) \<and>
      readFull (nat (sint (get_be32 hd4))) rd1 = Inr (json, rd2) \<and> u json = Inr it")
    case False
    then show ?thesis
      unfolding ReadStream.simps [of u cb rd]
      by (cases "readFull 4 rd") (force simp: Let_def split: sum.splits prod.splits)+
  next
    case True
    then obtain hd4 rd1 json rd2 it where r: "readFull 4 rd = Inr (hd4, rd1)" "0 < sint (get_be32 hd4)"
        "readFull (nat (sint (get_be32 hd4))) rd1 = Inr (json, rd2)" "u json = Inr it"
      by blast
    let ?l = "sint (get_be32 hd4)"
    obtain k1 q s1 where q: "cb it None s = ((k1, q), s1)" by (metis prod.collapse)
    obtain k2 q2 rd3 s2 where q2: "readItemBody rd2 (wireSizeOf it) (\<lambda>lim. cb it (Some lim)) s = ((k2, q2), rd3, s2)"
      by (metis prod.collapse)
    have len: "length (fst rd2) < length (fst rd)" "length (fst rd3) < length (fst rd)"
      using readFull_shrinks [OF r(1)] readFull_shrinks [OF r(3)] readItemBody_shrinks [OF q2] by linarith+
    obtain n1 r1 d1 e1 where IH1: "\<forall>t'. ReadStream u cb rd2 t' s1 = ((t' + n1, r1), d1, e1)"
      using less.hyps [OF len(1)] by blast
    obtain n2 r2 d2 e2 where IH2: "\<forall>t'. ReadStream u cb rd3 t' s2 = ((t' + n2, r2), d2, e2)"
      using less.hyps [OF len(2)] by blast
    have step: "ReadStream u cb rd t s =
      (if 0 < wireSizeOf it then (case q2 of Some e \<Rightarrow> ((t + 4 + ?l + k2, Some (ErrWrap ''item'' e)), rd3, s2)
           | None \<Rightarrow> ((t + 4 + ?l + k2 + n2, r2), d2, e2))
       else (case q of Some e \<Rightarrow> ((t + 4 + ?l, Some e), rd2, s1) | None \<Rightarrow> ((t + 4 + ?l + n1, r1), d1, e1)))" for t
      using r q q2 IH1 IH2 by (subst ReadStream.simps) (auto simp: Let_def split: option.splits)
    show ?thesis
      unfolding step by (cases "0 < wireSizeOf it"; cases q; cases q2) (auto simp: add.assoc)
  qed
qed

lemma outcome_count: "outcome (ReadStream u cb rd t s) = outcome (ReadStream u cb rd 0 s)"
  using ReadStream_count [of u cb rd 0 s] by (metis outcome_simp)

text \<open>What was fed need not be read again; what stopped the feeding stops the reading.\<close>

lemma feedItems_ReadStream:
  "outcome (ReadStream (dec_file J) (saveStreamItem E) (buf @ aft, e) t sp) =
     (case feedItems J E buf sp of
        (More buf', sp') \<Rightarrow> outcome (ReadStream (dec_file J) (saveStreamItem E) (buf' @ aft, e) 0 sp')
      | (Stop r left, sp') \<Rightarrow> (r, sp'))"
proof (induction "length buf" arbitrary: buf sp t rule: less_induct)
  case less
  let ?cb = "saveStreamItem E" and ?u = "dec_file J"
  define len where "len = sint (get_be32 (take 4 buf))"
  show ?case
  proof (cases "length buf < 4")
    case True
    then show ?thesis using outcome_count [of ?u ?cb] by (subst feedItems.simps) simp
  next
    case b4: False
    have hd4: "readFull 4 (buf @ aft, e) = Inr (take 4 buf, (drop 4 buf @ aft, e))"
      using b4 by (simp add: readFull_def)
    show ?thesis
    proof (cases "0 < len \<and> 4 + nat len \<le> length buf")
      case False
      then show ?thesis
        using b4 hd4 outcome_count [of ?u ?cb "(buf @ aft, e)" t sp]
        by (subst feedItems.simps)
          (auto simp: len_def [symmetric] Let_def ReadStream.simps [of ?u ?cb "(buf @ aft, e)"])
    next
      case True
      let ?json = "take (nat len) (drop 4 buf)" and ?rest = "drop (4 + nat len) buf"
      have js: "readFull (nat len) (drop 4 buf @ aft, e) = Inr (?json, (?rest @ aft, e))"
      proof -
        have "nat len \<le> length (drop 4 buf)" using True by simp linarith
        then show ?thesis by (simp add: readFull_def add.commute)
      qed
      show ?thesis
      proof (cases "?u ?json")
        case (Inl x)
        then show ?thesis
          using b4 hd4 js True
          by (subst feedItems.simps, subst ReadStream.simps) (simp add: len_def [symmetric] Let_def)
      next
        case (Inr it)
        have sign: "len \<noteq> 0" "\<not> len < 0" using True by linarith+
        note unf = sign len_def [symmetric] Let_def hd4 js Inr True b4
        show ?thesis
        proof (cases "0 < wireSizeOf it")
          case False
          obtain k q sp1 where q: "?cb it None sp = ((k, q), sp1)" by (metis prod.collapse)
          have "length ?rest < length buf" using b4 by simp
          note IH = less.hyps [OF this, of "t + 4 + len" sp1]
          have "feedItems J E buf sp = (case q of Some x \<Rightarrow> (Stop (Some x) ?rest, sp1) | None \<Rightarrow> feedItems J E ?rest sp1)"
            using True b4 Inr False q by (subst feedItems.simps) (simp add: len_def [symmetric] Let_def split: option.splits)
          moreover have "outcome (ReadStream ?u ?cb (buf @ aft, e) t sp) =
              (case q of Some x \<Rightarrow> (Some x, sp1) | None \<Rightarrow> outcome (ReadStream ?u ?cb (?rest @ aft, e) (t + 4 + len) sp1))"
            using True False q by (subst ReadStream.simps) (simp add: unf split: option.splits)
          ultimately show ?thesis using IH by (simp split: option.splits)
        next
          case pos: True
          let ?n = "nat (wireSizeOf it)"
          show ?thesis
          proof (cases "length ?rest < ?n")
            case aft: True
            then have "feedItems J E buf sp = (More buf, sp)"
              using True b4 Inr pos by (subst feedItems.simps) (simp add: len_def [symmetric] Let_def)
            then show ?thesis using outcome_count [of ?u ?cb] by simp
          next
            case enough: False
            obtain k q sp1 where q: "?cb it (Some (take ?n ?rest, None)) sp = ((k, q), sp1)" by (metis prod.collapse)
            have "length (drop ?n ?rest) < length buf" using b4 by simp
            note IH = less.hyps [OF this, of "t + 4 + len + wireSizeOf it" sp1]
            have rib: "readItemBody (?rest @ aft, e) (wireSizeOf it) (\<lambda>lim. ?cb it (Some lim)) sp =
                (case q of Some x \<Rightarrow> ((0, Some x), (drop (min k ?n) (?rest @ aft), e), sp1)
                 | None \<Rightarrow> ((wireSizeOf it, None), (drop ?n ?rest @ aft, e), sp1))"
            proof -
              have "nat (wireSizeOf it) - length ?rest = 0" "?n \<le> length (?rest @ aft)" using enough by simp_all
              then show ?thesis
                using enough pos q unfolding readItemBody_def Let_def
                by (simp del: length_append length_drop drop_drop split: option.splits)
            qed
            have "feedItems J E buf sp = (case q of Some x \<Rightarrow> (Stop (Some (ErrWrap ''item'' x)) (drop (min k ?n) ?rest), sp1)
                | None \<Rightarrow> feedItems J E (drop ?n ?rest) sp1)"
              using True b4 Inr pos enough q
              by (subst feedItems.simps) (simp add: len_def [symmetric] Let_def split: option.splits)
            moreover have "outcome (ReadStream ?u ?cb (buf @ aft, e) t sp) =
                (case q of Some x \<Rightarrow> (Some (ErrWrap ''item'' x), sp1)
                 | None \<Rightarrow> outcome (ReadStream ?u ?cb (drop ?n ?rest @ aft, e) (t + 4 + len + wireSizeOf it) sp1))"
              using True pos by (subst ReadStream.simps) (simp add: unf rib split: option.splits)
            ultimately show ?thesis using IH by (simp split: option.splits)
          qed
        qed
      qed
    qed
  qed
qed


lemma readSaveStream_outcome:
  "readSaveStream J E req rd sp =
     (case outcome (ReadStream (dec_file J) (saveStreamItem E) rd 0 sp) of (r, sp') \<Rightarrow> saveResult E req r sp')"
  by (simp add: readSaveStream_def outcome_def split: prod.splits)

section \<open>Save sessions\<close>

text \<open>The goroutine has caught up with the bytes \<open>bs\<close>: reading them and whatever follows in one go from
  the store \<open>s0\<close> comes to what reading on from its state comes to.\<close>

definition caughtUp :: "codec \<Rightarrow> env \<Rightarrow> request \<Rightarrow> store \<Rightarrow> bytes \<Rightarrow> saver \<Rightarrow> store \<Rightarrow> bool" where
  "caughtUp J E req s0 bs sv s =
     (\<forall>aft e. readSaveStream J E req (bs @ aft, e) (s0, []) =
        (case sv of Ended res \<Rightarrow> (res, s)
         | Feeding buf ps \<Rightarrow> readSaveStream J E req (buf @ aft, e) (s, ps)))"

lemma caughtUp_start: "caughtUp J E req s [] (Feeding [] []) s"
  by (simp add: caughtUp_def)

lemma caughtUp_feed:
  assumes c: "caughtUp J E req s0 bs sv s" and f: "feedPipe J E req sv b s = ((sv', bl), s')"
  shows "caughtUp J E req s0 (bs @ b) sv' s'"
proof (cases sv)
  case (Ended res)
  then show ?thesis using c f by (auto simp: caughtUp_def feedPipe_def)
next
  case (Feeding buf ps)
  obtain fd sp1 where fd: "feedItems J E (buf @ b) (s, ps) = (fd, sp1)" by (metis prod.collapse)
  have step: "readSaveStream J E req ((bs @ b) @ aft, e) (s0, []) =
      (case (fd, sp1) of
         (More buf', sp') \<Rightarrow> readSaveStream J E req (buf' @ aft, e) sp' | (Stop r left, sp') \<Rightarrow> saveResult E req r sp')"
    for aft e
  proof -
    have "readSaveStream J E req ((bs @ b) @ aft, e) (s0, []) = readSaveStream J E req ((buf @ b) @ aft, e) (s, ps)"
      using c Feeding by (simp add: caughtUp_def)
    also have "\<dots> = (case (fd, sp1) of
         (More buf', sp') \<Rightarrow> readSaveStream J E req (buf' @ aft, e) sp' | (Stop r left, sp') \<Rightarrow> saveResult E req r sp')"
      unfolding readSaveStream_outcome feedItems_ReadStream [where buf = "buf @ b"] fd
      by (cases fd) simp_all
    finally show ?thesis .
  qed
  show ?thesis
  proof (cases fd)
    case (More buf')
    then have "sv' = Feeding buf' (snd sp1)" "s' = fst sp1"
      using f Feeding fd by (auto simp: feedPipe_def split: prod.splits)
    then show ?thesis using step More by (simp add: caughtUp_def)
  next
    case (Stop r left)
    then have "sv' = Ended (fst (saveResult E req r sp1))" "s' = snd (saveResult E req r sp1)"
      using f Feeding fd by (auto simp: feedPipe_def split: prod.splits)
    then show ?thesis using step Stop by (simp add: caughtUp_def)
  qed
qed

lemma caughtUp_close:
  assumes "caughtUp J E req s0 bs sv s"
  shows "closePipe J E req sv e s = readSaveStream J E req (bs, e) (s0, [])"
  using assms [unfolded caughtUp_def, rule_format, of "[]" e] by (simp add: closePipe_def split: saver.splits)

text \<open>Chunk after chunk, as long as each is answered.\<close>

fun sendChunks :: "codec \<Rightarrow> env \<Rightarrow> handler \<Rightarrow> httpRequest list \<Rightarrow> handler option" where
  "sendChunks J E h [] = Some h"
| "sendChunks J E h (r # rs) =
     (case SaveCacheChunkH J E h r of (Some _, h') \<Rightarrow> sendChunks J E h' rs | (None, _) \<Rightarrow> None)"

definition uploading :: "codec \<Rightarrow> env \<Rightarrow> string \<Rightarrow> store \<Rightarrow> request \<Rightarrow> bytes \<Rightarrow> handler \<Rightarrow> bool" where
  "uploading J E u s0 req bs h =
     (\<exists>s sv. gocacheStore h = Some s \<and> map_of (saveSessions h) u = Some sv \<and> sv_request sv = req \<and>
        caughtUp J E req s0 bs (sv_state sv) s)"

lemma sendChunk_uploading:
  assumes u: "u \<noteq> []" "rq_query r ''upload-id'' = u" "snd (rq_body r) = None"
    and h: "uploading J E u s0 req bs h" and c: "SaveCacheChunkH J E h r = (x, h')"
  shows "uploading J E u s0 req (bs @ fst (rq_body r)) h'"
proof -
  obtain s sv where s: "gocacheStore h = Some s" "map_of (saveSessions h) u = Some sv" "sv_request sv = req"
      "caughtUp J E req s0 bs (sv_state sv) s"
    using h by (auto simp: uploading_def)
  obtain st bl s1 where f: "feedPipe J E req (sv_state sv) (fst (rq_body r)) s = ((st, bl), s1)"
    by (metis prod.collapse)
  have "lookupSaveSession h r = Inr (sv, u)"
    using u s by (simp add: lookupSaveSession_def saveUploadID_def)
  then have "\<exists>sv'. sv_request sv' = req \<and> sv_state sv' = st \<and>
      h' = h\<lparr>gocacheStore := Some s1, saveSessions := AList.update u sv' (saveSessions h)\<rparr>"
    using c s f u(3)
    by (intro exI [of _ "if bl then sv\<lparr>sv_state := st\<rparr> else sv\<lparr>sv_state := st, sv_chunks := sv_chunks sv + 1,
          sv_bytes := sv_bytes sv + int (length (fst (rq_body r)))\<rparr>"])
      (auto simp: SaveCacheChunkH_def Let_def split: if_splits)
  then show ?thesis
    using caughtUp_feed [OF s(4) f] by (auto simp: uploading_def)
qed

lemma sendChunks_uploading:
  assumes "u \<noteq> []" "\<forall>r \<in> set rs. rq_query r ''upload-id'' = u \<and> snd (rq_body r) = None"
    "uploading J E u s0 req bs h" "sendChunks J E h rs = Some h'"
  shows "uploading J E u s0 req (bs @ concat (map (fst \<circ> rq_body) rs)) h'"
  using assms(2-4)
proof (induction rs arbitrary: bs h)
  case (Cons r rs)
  obtain rep h1 where c: "SaveCacheChunkH J E h r = (Some rep, h1)" "sendChunks J E h1 rs = Some h'"
    using Cons.prems(3) by (auto split: prod.splits option.splits)
  have "uploading J E u s0 req (bs @ fst (rq_body r)) h1"
    using sendChunk_uploading [OF assms(1) _ _ Cons.prems(2) c(1)] Cons.prems(1) by simp
  then show ?case using Cons.IH [OF _ _ c(2)] Cons.prems(1) by (simp add: append_assoc [symmetric] del: append_assoc)
qed simp

text \<open>
  Claim C11. A chunked upload is one upload: starting a session, sending the bytes in any chunks and
  finalizing leaves the object store exactly as a single save-cache request with the same bytes does,
  whatever is in them, and succeeds exactly if that request does; the session is gone afterwards.\<close>

theorem chunked_upload_equivalence:
  assumes s: "gocacheStore h = Some s" and u: "u \<noteq> []" "map_of (saveSessions h) u = None"
    and r0: "rq_query r0 ''upload-id'' = u" and rf: "rq_query rf ''upload-id'' = u"
    and rs: "\<forall>r \<in> set rs. rq_query r ''upload-id'' = u \<and> snd (rq_body r) = None"
    and sent: "sendChunks J E (snd (StartSaveCacheH E h r0)) rs = Some h1"
    and r1: "rq_body r1 = (concat (map (fst \<circ> rq_body) rs), None)"
      "parseGOCACHERequest r1 = parseGOCACHERequest r0"
  shows "gocacheStore (snd (FinalizeSaveCacheH J E h1 rf)) = gocacheStore (snd (SaveCacheH J E h r1)) \<and>
    (rp_status (fst (FinalizeSaveCacheH J E h1 rf)) = 204 \<longleftrightarrow> rp_status (fst (SaveCacheH J E h r1)) = 204) \<and>
    map_of (saveSessions (snd (FinalizeSaveCacheH J E h1 rf))) u = None"
proof -
  let ?req = "parseGOCACHERequest r0" and ?bs = "concat (map (fst \<circ> rq_body) rs)"
  have "uploading J E u s ?req [] (snd (StartSaveCacheH E h r0))"
    using s u r0 by (simp add: StartSaveCacheH_def saveUploadID_def uploading_def caughtUp_start)
  from sendChunks_uploading [OF u(1) rs this sent] obtain s' sv where
    sv: "gocacheStore h1 = Some s'" "map_of (saveSessions h1) u = Some sv" "sv_request sv = ?req"
      "caughtUp J E ?req s ?bs (sv_state sv) s'"
    by (auto simp: uploading_def)
  have "lookupSaveSession h1 rf = Inr (sv, u)"
    using u rf sv by (simp add: lookupSaveSession_def saveUploadID_def)
  moreover obtain res s2 where res: "readSaveStream J E ?req (?bs, None) (s, []) = (res, s2)" by fastforce
  ultimately show ?thesis
    using s sv r1 caughtUp_close [OF sv(4), of None]
    by (cases res)
      (simp_all add: FinalizeSaveCacheH_def SaveCacheH_def processSaveCacheStream_def Let_def noContent_def
        httpError_def deleteSaveSession_def recordSessionFinalize_def updateSession_def split: option.splits)
qed


text \<open>A server with an empty object store, and requests that upload the stream of two items.\<close>

definition nativeServer :: handler where
  "nativeServer = plainServer (emptyLocal False 0) (Some (emptyStore ''/g'' False 0)) 0"

definition twoItems :: bytes where
  "twoItems = put_be32 3 @ ''2 a'' @ ''xy'' @ put_be32 3 @ ''3 b'' @ ''uvw'' @ put_be32 0"

definition saveReq :: "string \<Rightarrow> bytes \<Rightarrow> httpRequest" where
  "saveReq path b = (toyRequest path ''u'' b)\<lparr>rq_query :=
     (\<lambda>k. if k = ''upload-id'' then ''u'' else if k = ''commit'' then ''c1'' else [])\<rparr>"

definition afterChunks :: "bytes list \<Rightarrow> handler option" where
  "afterChunks bs = sendChunks toyCodec (calm 5)
     (snd (StartSaveCacheH (calm 5) nativeServer (saveReq ''/save-cache-start'' [])))
     (map (saveReq ''/save-cache-chunk'') bs)"

theorem chunked_upload_equivalence_witness:
  "map_option (\<lambda>h. gocacheStore (snd (FinalizeSaveCacheH toyCodec (calm 5) h (saveReq ''/save-cache-finalize'' []))))
       (afterChunks [take 5 twoItems, drop 5 (take 14 twoItems), drop 14 twoItems]) =
     Some (gocacheStore (snd (SaveCacheH toyCodec (calm 5) nativeServer (saveReq ''/save-cache'' twoItems)))) \<and>
   map_option (\<lambda>s. map fst (index s)) (gocacheStore (snd (SaveCacheH toyCodec (calm 5) nativeServer
     (saveReq ''/save-cache'' twoItems)))) = Some [''a'', ''b'']"
proof -
  let ?cs = "[take 5 twoItems, drop 5 (take 14 twoItems), drop 14 twoItems]"
  let ?rs = "map (saveReq ''/save-cache-chunk'') ?cs"
  have "afterChunks ?cs \<noteq> None" by code_simp
  then obtain h1 where h1: "afterChunks ?cs = Some h1" by blast
  have "concat ?cs = twoItems" by code_simp
  then have "rq_body (saveReq ''/save-cache'' twoItems) = (concat (map (fst \<circ> rq_body) ?rs), None)"
    by (simp add: saveReq_def toyRequest_def)
  moreover have "\<forall>r \<in> set ?rs. rq_query r ''upload-id'' = ''u'' \<and> snd (rq_body r) = None"
    "parseGOCACHERequest (saveReq ''/save-cache'' twoItems) = parseGOCACHERequest (saveReq ''/save-cache-start'' [])"
    "gocacheStore nativeServer = Some (emptyStore ''/g'' False 0)" "map_of (saveSessions nativeServer) ''u'' = None"
    "rq_query (saveReq ''/save-cache-start'' []) ''upload-id'' = ''u''"
    "rq_query (saveReq ''/save-cache-finalize'' []) ''upload-id'' = ''u''"
    by (simp_all add: saveReq_def toyRequest_def parseGOCACHERequest_def queryInt_def nativeServer_def plainServer_def)
  ultimately have "gocacheStore (snd (FinalizeSaveCacheH toyCodec (calm 5) h1 (saveReq ''/save-cache-finalize'' []))) =
      gocacheStore (snd (SaveCacheH toyCodec (calm 5) nativeServer (saveReq ''/save-cache'' twoItems)))"
    using chunked_upload_equivalence [of nativeServer _ "''u''" "saveReq ''/save-cache-start'' []"
        "saveReq ''/save-cache-finalize'' []" ?rs toyCodec "calm 5" h1 "saveReq ''/save-cache'' twoItems"]
      h1 [unfolded afterChunks_def]
    by blast
  moreover have "map_option (\<lambda>s. map fst (index s)) (gocacheStore (snd (SaveCacheH toyCodec (calm 5) nativeServer
     (saveReq ''/save-cache'' twoItems)))) = Some [''a'', ''b'']"
    by code_simp
  ultimately show ?thesis using h1 by simp
qed

section \<open>Chunks that are never answered\<close>



end
