(* ===== verification/Local_Content.thy ===== *)
theory Local_Content
  imports Local_Cache
begin

text \<open>
  What the action cache store serves: the round trip of a new output, and the cases in which an entry
  does not describe the bytes that are stored.
\<close>

section \<open>The round trip of a new output\<close>

lemma joinPath_abs_nonempty: "isAbs d \<Longrightarrow> joinPath (d # es) \<noteq> []"
  by (cases es) (auto simp: joinPath_def clean_def isAbs_def Let_def)

lemma bodyReaderL_spec:
  assumes e: "bodyReaderForPutL E s it ie = (Inr rd, ie1)" and z: "zstd_ok E"
    and dl: "delivers (ri_uncompressedBodyReader E (ls_disk s) (ls_pool s) it) b"
    and ie: "le_Compressed ie = 0" "le_WireSize ie = 0" "le_Size ie = ri_Size it"
  shows "\<exists>w. delivers (Inr rd) w \<and> le_Size ie1 = ri_Size it \<and>
    (if le_Compressed ie1 = 1 then rd = None \<and> le_WireSize ie1 = 0 \<and> ri_Size it = 0 \<and> b = [] \<or>
       rd \<noteq> None \<and> zstream E w = (b, None) else w = b)"
proof (cases "ri_IsCompressed it")
  case True
  show ?thesis
  proof (cases "ls_compress s \<and> \<not> (ri_Size it = 0 \<and> ri_WireSize it = 0)")
    case c: True
    then obtain r where r: "ri_openBody E (ls_disk s) (ls_pool s) it = Inr r" "zstdReader E r = (b, None)"
      using dl True by (auto simp: ri_uncompressedBodyReader_def delivers_def split: sum.splits)
    then have "snd r = None" "zstream E (fst r) = (b, None)"
      by (auto simp: zstdReader_def split: option.splits)
    then show ?thesis
      using e ie c r True
      by (intro exI [of _ "fst r"])
        (auto simp: bodyReaderForPutL_def ri_wireBodyReader_def delivers_def intro: prod_eqI)
  next
    case False
    then show ?thesis using e dl ie True
      by (intro exI [of _ b])
        (auto simp: bodyReaderForPutL_def ri_wireBodyReader_def ri_uncompressedBodyReader_def delivers_def
          split: if_splits)
  qed
next
  case False
  show ?thesis
  proof (cases "ls_compress s \<and> MinCompressionSize \<le> ri_Size it")
    case True
    then have "ri_Size it \<noteq> 0" by (simp add: MinCompressionSize_def)
    then have "ri_openBody E (ls_disk s) (ls_pool s) it = Inr (b, None)"
      using dl False by (auto simp: ri_uncompressedBodyReader_def delivers_def split: sum.splits)
    then show ?thesis
      using e ie True False z \<open>ri_Size it \<noteq> 0\<close>
      by (intro exI [of _ "zenc E b"])
        (auto simp: bodyReaderForPutL_def compressNowBodyReaderL_def ri_compressedBodyReader_def
          delivers_def zstd_ok_def Let_def)
  next
    case False
    then show ?thesis using e dl ie \<open>\<not> ri_IsCompressed it\<close>
      by (intro exI [of _ b]) (auto simp: bodyReaderForPutL_def)
  qed
qed

text \<open>A body that was stored for a new output is where the returned location says.\<close>

definition placed :: "lstore \<Rightarrow> string \<Rightarrow> int \<Rightarrow> loc \<Rightarrow> bytes \<Rightarrow> bool" where
  "placed s outputID n l b =
     (if isZero l then map_option content (map_of (ls_disk s) (OutputFilename (ls_dir s) outputID)) = Some b
      else poolRead (ls_pool s) n l = Inr b)"

lemma writeAtomicL_placed:
  assumes "writeAtomicL E d p (Some (b, e)) = (None, d')"
  shows "e = None \<and> map_option content (map_of d' p) = Some b"
  using assms by (auto simp: writeAtomicL_def writeRename_def split: option.splits)

lemma storePutBodyL_placed:
  assumes ok: "pool_ok (ls_pool s)" and e: "storePutBodyL E s it rd n False l0 = (Inr l, s')"
  shows "\<exists>b. rd = (if rd = None then None else Some (b, None)) \<and> (rd = None \<longrightarrow> b = []) \<and>
    placed s' (ri_OutputID it) n l b"
proof (cases "\<not> poolDisabled s \<and> 0 < n \<and> n \<le> maxRecordBytes (ls_pool s)")
  case False
  let ?c = "case rd of None \<Rightarrow> ([], None) | Some r \<Rightarrow> r"
  let ?f = "OutputFilename (ls_dir s) (ri_OutputID it)"
  obtain d where d: "writeAtomicL E (ls_disk s) ?f (Some (fst ?c, snd ?c)) = (None, d)"
    "s' = s\<lparr>ls_disk := d\<rparr>" "l = zeroLoc"
    using e False by (auto simp: storePutBodyL_def Let_def split: prod.splits option.splits if_splits)
  from writeAtomicL_placed [OF d(1)] show ?thesis
    using d(2,3) by (intro exI [of _ "fst ?c"])
      (auto simp: placed_def isZero_def zeroLoc_def split: option.splits)
next
  case True
  then have e: "storePoolEligibleBodyL E s it rd n = (Inr l, s')"
    using e by (auto simp: storePutBodyL_def)
  then obtain body where rd: "rd = Some (body, None)" "int (length body) = n"
    by (auto simp: storePoolEligibleBodyL_def split: option.splits if_splits)
  obtain r q where put: "poolPut (ls_pool s) n body (poolCreate E) (poolWrite E) = (r, q)" by fastforce
  have post: "put_post (ls_pool s) n body (r, q)" using poolPut_post [OF ok] put by metis
  obtain ol where ol: "r = Inr ol"
    using e rd put by (cases r) (auto simp: storePoolEligibleBodyL_def)
  show ?thesis
  proof (cases ol)
    case (Some l')
    then show ?thesis
      using e rd put ol post by (intro exI [of _ body]) (auto simp: storePoolEligibleBodyL_def placed_def put_post_def)
  next
    case None
    obtain d where d: "writeAtomicL E (ls_disk s) (OutputFilename (ls_dir s) (ri_OutputID it)) (Some (body, None)) = (None, d)"
      "s' = s\<lparr>ls_pool := q, ls_disk := d\<rparr>" "l = zeroLoc"
      using e rd put ol None by (auto simp: storePoolEligibleBodyL_def split: prod.splits option.splits)
    from writeAtomicL_placed [OF d(1)] show ?thesis
      using d(2,3) rd by (intro exI [of _ body]) (simp add: placed_def isZero_def zeroLoc_def)
  qed
qed

text \<open>What an entry says of a body \<open>w\<close> that stands for \<open>b\<close>.\<close>

definition describes :: "env \<Rightarrow> lentry \<Rightarrow> bytes \<Rightarrow> bytes \<Rightarrow> bool" where
  "describes E ie w b =
     (if le_Compressed ie = 1
      then le_WireSize ie = 0 \<and> le_Size ie = 0 \<and> b = [] \<or> zstream E w = (b, None) else w = b)"

lemma putOneL_new:
  assumes put: "putOneL E s it = (None, s')" and new: "map_of (ls_index s) (ri_ActionID it) = None"
      "map_of (outputRefs s) (ri_OutputID it) = None" "\<not> tooLarge s (ri_Size it)"
    and ok: "pool_ok (ls_pool s)" and z: "zstd_ok E"
    and dl: "delivers (ri_uncompressedBodyReader E (ls_disk s) (ls_pool s) it) b"
  shows "\<exists>ie w. map_of (ls_index s') (ri_ActionID it) = Some ie \<and> le_OutputID ie = ri_OutputID it \<and>
    le_Size ie = ri_Size it \<and> describes E ie w b \<and>
    placed s' (ri_OutputID it) (entryStoredSizeL ie) (locL ie) w \<and> ls_dir s' = ls_dir s \<and>
    ls_maxFileBytes s' = ls_maxFileBytes s"
proof -
  let ?o = "ri_OutputID it"
  obtain x s1 where x: "putBeginL E s it = (x, s1)" by fastforce
  obtain pc where pc: "x = Inr (Some pc)"
    using x put new(3) by (auto simp: putOneL_def putBeginL_def tooLarge_def Let_def split: if_splits)
  note pb = putBeginL_Some [OF x [unfolded pc]]
  obtain q s2 where q: "putStoreL E s1 it pc = (q, s2)" by fastforce
  obtain ie where ie: "q = Inr ie" "s' = putCommitL E s2 it pc ie"
    using put x pc q by (auto simp: putOneL_def split: sum.splits)
  have fresh: "\<not> pc_refExists pc" "pc_existing pc = None" using pb(1,13) new(1,2) by simp_all
  obtain rd ie1 l where br: "bodyReaderForPutL E s1 it (pc_entry pc) = (Inr rd, ie1)"
    "storePutBodyL E s1 it rd (entryStoredSizeL ie1) False (pc_loc pc) = (Inr l, s2)"
    "ie = ie1\<lparr>le_PoolPage := Page l, le_PoolSlot := Slot l\<rparr>"
    using q ie(1) fresh(1) by (auto simp: putStoreL_def split: sum.splits prod.splits)
  have d1: "delivers (ri_uncompressedBodyReader E (ls_disk s1) (ls_pool s1) it) b" using dl pb(7,8) by simp
  obtain w where w: "delivers (Inr rd) w" "le_Size ie1 = ri_Size it"
    "if le_Compressed ie1 = 1 then rd = None \<and> le_WireSize ie1 = 0 \<and> ri_Size it = 0 \<and> b = [] \<or>
       rd \<noteq> None \<and> zstream E w = (b, None) else w = b"
    using bodyReaderL_spec [OF br(1) z d1 pb(17,18)] pb(11) by auto
  have "pool_ok (ls_pool s1)" using ok pb(8) by simp
  from storePutBodyL_placed [OF this br(2)] obtain w' where
    w': "rd = (if rd = None then None else Some (w', None))" "rd = None \<longrightarrow> w' = []"
      "placed s2 ?o (entryStoredSizeL ie1) l w'" by blast
  have eq: "w' = w" using w'(1,2) w(1) by (auto simp: delivers_def split: if_splits)
  have out: "le_OutputID ie = ?o" using putStoreL_id [OF q [unfolded ie(1)]] pb(10) by simp
  have fr: "ls_disk s' = ls_disk s2" "ls_pool s' = ls_pool s2" "ls_dir s' = ls_dir s"
    "ls_maxFileBytes s' = ls_maxFileBytes s2"
    using fresh(2) putStoreL_frame(6) [OF q] pb(9)
    by (simp_all add: ie(2) putCommitL_def Let_def scheduleEvictionL_def addOutputRefLocked_def)
  have mx: "ls_maxFileBytes s2 = ls_maxFileBytes s"
    using q x by (auto simp: putStoreL_def storePutBodyL_def storePoolEligibleBodyL_def putBeginL_def Let_def
        split: sum.splits prod.splits option.splits if_splits)
  have same: "entryStoredSizeL ie = entryStoredSizeL ie1" "locL ie = l"
    by (simp_all add: br(3) entryStoredSizeL_def locL_def)
  have "placed s' ?o (entryStoredSizeL ie) (locL ie) w"
    using w'(3) eq fr putStoreL_frame(6) [OF q] pb(9) by (auto simp: placed_def same split: if_splits)
  moreover have "describes E ie w b" using w(2,3) by (auto simp: describes_def br(3) split: if_splits)
  moreover have "map_of (ls_index s') (ri_ActionID it) = Some ie" by (simp add: ie(2) putCommitL_index)
  ultimately show ?thesis using out w(2) br(3) fr(3,4) mx by auto
qed

lemma getOneL_placed:
  assumes ie: "map_of (ls_index s) a = Some ie" "\<not> tooLarge s (le_Size ie)" "isAbs (ls_dir s)"
    and pl: "placed s (le_OutputID ie) (entryStoredSizeL ie) (locL ie) w" "describes E ie w b"
    and size: "le_Size ie = int (length b)"
    and E: "\<And>x. statErr E' x = None \<and> readErr E' x = None" "zstream E' = zstream E"
  shows "\<exists>it' s''. getOneL E' s a = (it', s'') \<and> \<not> ri_Miss it' \<and>
    ri_OutputID it' = le_OutputID ie \<and> ri_Size it' = le_Size ie \<and>
    delivers (ri_uncompressedBodyReader E' (ls_disk s'') (ls_pool s'') it') b"
proof -
  let ?ie = "ie\<lparr>le_AccessTimeMicro := now E'\<rparr>"
  let ?s = "s\<lparr>ls_hits := ls_hits s + 1, ls_index := AList.update a ?ie (ls_index s), ls_dirty := True\<rparr>"
  let ?it = "responseItemL E' ?s a ?ie"
  have get: "getOneL E' s a = (?it, ?s)"
    using ie by (auto simp: getOneL_def Let_def tooLarge_def)
  have ob: "ri_openBody E' (ls_disk ?s) (ls_pool ?s) ?it = Inr (w, None)"
  proof (cases "isZero (locL ie)")
    case True
    let ?f = "OutputFilename (ls_dir s) (le_OutputID ie)"
    obtain f where f: "map_of (ls_disk s) ?f = Some f" "content f = w"
      using pl(1) True by (auto simp: placed_def)
    have "outputPathForRead E' ?s (le_OutputID ie) = ?f"
      using f(1) E(1) by (simp add: outputPathForRead_def statFile_def Let_def)
    moreover have "?f \<noteq> []"
      using joinPath_abs_nonempty ie(3) by (simp add: OutputFilename_def Let_def)
    ultimately show ?thesis
      using True f E(1) by (simp add: ri_openBody_def responseItemL_def isZero_def locL_def readFile_def)
  next
    case False
    have "entryStoredSizeL ?ie = entryStoredSizeL ie" "locL ?ie = locL ie"
      by (simp_all add: entryStoredSizeL_def locL_def)
    then show ?thesis
      using False pl(1) by (simp add: ri_openBody_def responseItemL_def isZero_def locL_def placed_def)
  qed
  have it: "ri_Size ?it = le_Size ie" "ri_OutputID ?it = le_OutputID ie" "\<not> ri_Miss ?it"
    "ri_IsCompressed ?it = (le_Compressed ie = 1)" "ri_WireSize ?it = le_WireSize ie"
    by (simp_all add: responseItemL_def)
  have "delivers (ri_uncompressedBodyReader E' (ls_disk ?s) (ls_pool ?s) ?it) b"
    using ob it pl(2) size E(2)
    by (auto simp: ri_uncompressedBodyReader_def delivers_def zstdReader_def describes_def)
  then show ?thesis using get it by blast
qed

text \<open>
  Claim C23. An output that is new to the store and put under a new action is what a lookup returns
  next: the response names the output and its size, and its body, decompressed if it is stored
  compressed, is the very bytes that were put, in a file or in the record pool.\<close>

theorem local_put_get_roundtrip:
  assumes "putOneL E s it = (None, s')" "map_of (ls_index s) (ri_ActionID it) = None"
    and "map_of (outputRefs s) (ri_OutputID it) = None" "\<not> tooLarge s (ri_Size it)"
    and "pool_ok (ls_pool s)" "isAbs (ls_dir s)" "zstd_ok E"
    and "delivers (ri_uncompressedBodyReader E (ls_disk s) (ls_pool s) it) b" "ri_Size it = int (length b)"
    and "\<And>x. statErr E' x = None \<and> readErr E' x = None" "zstream E' = zstream E"
  shows "\<exists>it' s''. getOneL E' s' (ri_ActionID it) = (it', s'') \<and> \<not> ri_Miss it' \<and>
    ri_OutputID it' = ri_OutputID it \<and> ri_Size it' = ri_Size it \<and>
    delivers (ri_uncompressedBodyReader E' (ls_disk s'') (ls_pool s'') it') b"
proof -
  obtain ie w where ie: "map_of (ls_index s') (ri_ActionID it) = Some ie" "le_OutputID ie = ri_OutputID it"
    "le_Size ie = ri_Size it" "describes E ie w b" "ls_dir s' = ls_dir s" "ls_maxFileBytes s' = ls_maxFileBytes s"
    "placed s' (le_OutputID ie) (entryStoredSizeL ie) (locL ie) w"
    using putOneL_new [OF assms(1-5,7,8)] by metis
  then show ?thesis
    using getOneL_placed [OF ie(1) _ _ ie(7,4) _ assms(10,11)] assms(4,6,9) by (simp add: tooLarge_def)
qed

theorem local_put_get_roundtrip_witness:
  "\<exists>it' s''. getOneL (calm 6) (snd (putOneL (calm 5) (emptyLocal False 0) (plainItem ''a'' ''o/1'' ''xyz''))) ''a'' =
       (it', s'') \<and> ri_OutputID it' = ''o/1'' \<and>
     delivers (ri_uncompressedBodyReader (calm 6) (ls_disk s'') (ls_pool s'') it') ''xyz''"
proof -
  let ?s = "emptyLocal False 0" and ?it = "plainItem ''a'' ''o/1'' ''xyz''"
  have "fst (putOneL (calm 5) ?s ?it) = None" by code_simp
  then have put: "putOneL (calm 5) ?s ?it = (None, snd (putOneL (calm 5) ?s ?it))" by (metis prod.collapse)
  have it: "ri_ActionID ?it = ''a''" "ri_OutputID ?it = ''o/1''" "ri_Size ?it = int (length ''xyz'')"
    by (simp_all add: plainItem_def)
  have m: "map_of (ls_index ?s) (ri_ActionID ?it) = None" "map_of (outputRefs ?s) (ri_OutputID ?it) = None"
    "\<not> tooLarge ?s (ri_Size ?it)" "pool_ok (ls_pool ?s)" "isAbs (ls_dir ?s)"
    by (simp_all add: emptyLocal_def tooLarge_def newPool_ok isAbs_def sep_def)
  have d: "delivers (ri_uncompressedBodyReader (calm 5) (ls_disk ?s) (ls_pool ?s) ?it) ''xyz''"
    by (simp add: delivers_def ri_uncompressedBodyReader_def ri_openBody_def plainItem_def)
  have c: "statErr (calm 6) x = None \<and> readErr (calm 6) x = None" "zstream (calm 6) = zstream (calm 5)" for x
    by (simp_all add: calm_def)
  from local_put_get_roundtrip [OF put m zstd_ok_calm d it(3) c] show ?thesis
    unfolding it(1,2) by blast
qed

section \<open>Where the description and the bytes part\<close>

definition encItem :: "string \<Rightarrow> string \<Rightarrow> int \<Rightarrow> bytes \<Rightarrow> cacheItem" where
  "encItem a o' n w =
     \<lparr>ri_ActionID = a, ri_Miss = False, ri_OutputID = o', ri_Size = n, ri_Time = None,
      ri_IsCompressed = True, ri_WireSize = int (length w), ri_DiskPath = [],
      ri_body = BytesReader (Inr (w, None))\<rparr>"

text \<open>A store whose pool promotes a size at once and has pages for a few records.\<close>

definition smallPages :: lstore where
  "smallPages = (emptyLocal True 0)\<lparr>ls_pool := newPool 4096 24 []\<rparr>"

text \<open>
  An output that is already stored keeps its bytes, but a put of it with another encoding
  records that other encoding for its action: here the raw body \<open>xyz\<close> is later announced as two bytes of
  compressed data, and the write of the response would send its first two bytes as such.\<close>

theorem local_other_encoding_misdescribed:
  "let s = foldl lapplyOp (emptyLocal True 0)
       [OpPutL (calm 1) (plainItem ''a'' ''o'' ''xyz''), OpPutL (calm 2) (encItem ''b'' ''o'' 3 ''zz'')];
     (it, s') = getOneL (calm 3) s ''b''
   in \<not> ri_Miss it \<and> ri_IsCompressed it \<and> ri_WireSize it = 2 \<and>
      ri_openBody (calm 3) (ls_disk s') (ls_pool s') it = Inr (''xyz'', None) \<and>
      ri_WriteTo (calm 3) (ls_disk s') (ls_pool s') it bytesBuffer =
        ((2, None), bytesBuffer\<lparr>written := ''xy''\<rparr>)"
  by code_simp

text \<open>
  Such a put under the same action also changes the recorded size of the stored output, by
  which its pool slot is freed later: the slot of the same number in another size class is freed
  instead, and given to the next output. The lookup of \<open>b\<close> then returns the bytes of another output,
  without any error.\<close>

theorem local_wrong_class_freed:
  "let s = foldl lapplyOp smallPages
       [OpPutL (calm 1) (encItem ''a'' ''o1'' 9 ''xyzxyz''), OpPutL (calm 2) (encItem ''b'' ''o2'' 9 ''hello''),
        OpPutL (calm 3) (encItem ''a'' ''o1'' 9 ''XYZXY''), OpPutL (calm 4) (encItem ''a'' ''o3'' 9 ''WORLD''),
        OpPutL (calm 5) (encItem ''c'' ''o4'' 9 ''other'')];
     (it, s') = getOneL (calm 6) s ''b''
   in ri_OutputID it = ''o2'' \<and> ri_openBody (calm 6) (ls_disk s') (ls_pool s') it = Inr (''other'', None)"
  by code_simp

text \<open>Two puts of one new item that overlap: both look before either commits.\<close>

definition overlap :: "env \<Rightarrow> lstore \<Rightarrow> cacheItem \<Rightarrow> cacheItem \<Rightarrow> lstore" where
  "overlap E s it1 it2 =
     (case putBeginL E s it1 of
        (Inr (Some pc1), s1) \<Rightarrow>
          (case putBeginL E s1 it2 of
             (Inr (Some pc2), s2) \<Rightarrow>
               (case putStoreL E s2 it1 pc1 of
                  (Inr ie1, s3) \<Rightarrow>
                    (case putStoreL E s3 it2 pc2 of
                       (Inr ie2, s4) \<Rightarrow> putCommitL E (putCommitL E s4 it1 pc1 ie1) it2 pc2 ie2
                     | (Inl e, s4) \<Rightarrow> s4)
                | (Inl e, s3) \<Rightarrow> s3)
           | (_, s2) \<Rightarrow> s2)
      | (_, s1) \<Rightarrow> s1)"

text \<open>
  Two overlapping puts of the same new action count one entry as two references. When the
  entry is evicted, the output keeps a reference that nothing holds: its file and its bytes stay, and
  no eviction can ever give them back.\<close>

theorem local_overlapping_puts_leak:
  "let s = overlap (calm 1) (emptyLocal False 2) (plainItem ''a'' ''o'' ''xyz'') (plainItem ''a'' ''o'' ''xyz'');
     s' = EvictNowL (calm 2) s
   in ls_index s' = [] \<and> DiskBytesL s' = 3 \<and> ls_maxDiskBytes s' = 2 \<and>
      map fst (ls_disk s') = [''/c/entries/o/o''] \<and> fst (EvictOneL (calm 3) s') = False"
  by code_simp

definition legacyStore :: "lstore result" where
  "legacyStore = NewStoreL (calm 1)
     ((emptyLocal False 0)\<lparr>ls_disk := [(''/c/o'', \<lparr>content = ''xyz'', mtime = 0, fmode = 384\<rparr>)]\<rparr>)
     (Inr [(''a'', \<lparr>le_OutputID = ''o'', le_Size = 3, le_TimeMicro = 1, le_AccessTimeMicro = 1,
        le_Compressed = 0, le_WireSize = 0, le_PoolPage = 0, le_PoolSlot = 0\<rparr>)])"

text \<open>
  A preload deletes what a lookup still serves: an output whose file is only in the legacy
  place is found by \<open>Get\<close>, but \<open>Preload\<close> looks only in the new place, takes the object for broken,
  drops its entry and removes the legacy file.\<close>

theorem local_preload_drops_legacy:
  "case legacyStore of
     Inl _ \<Rightarrow> False
   | Inr s \<Rightarrow>
       (case getOneL (calm 2) s ''a'' of (it, s1) \<Rightarrow>
          ri_openBody (calm 2) (ls_disk s1) (ls_pool s1) it = Inr (''xyz'', None) \<and>
          (case Preload (calm 3) s1 \<lparr>pr_MaxSize = 0, pr_Commit = [], pr_ChangesID = [], pr_BuildType = [],
              pr_BaseCommit = [], pr_ParentCommit = []\<rparr> of
             (Inr its, s2) \<Rightarrow> its = [] \<and> ls_index s2 = [] \<and> ls_disk s2 = []
           | (Inl _, s2) \<Rightarrow> False))"
  by code_simp

end
