(* ===== verification/Proxy.thy ===== *)
theory Proxy
  imports Local_Content
begin

text \<open>
  The caching proxy (\<open>internal/local/proxy.go\<close>) that answers the go command: requests and responses of the
  protocol (\<open>internal/cacheprog/protocol.go\<close>), the state of \<open>Proxy\<close>, and one definition per method. The
  goroutines \<open>resolve\<close>, \<open>consumePut\<close> and those of \<open>dispatchBatch\<close> are cut at their channel operations and
  at the callbacks of the upstream; \<open>pxStep\<close> is one step of one of them, and a run is any interleaving.

  The upstream is the interface \<open>cache.Store\<close> with the optional ones the code asks for: a record of
  functions over a state of its own. The items an upstream streams to a callback are a list, in order,
  with the error the call returns at the end. The response channel holds all that was ever sent; its
  reader never blocks it. A put whose body is empty has a nil body. Times are microseconds.
\<close>

section \<open>The protocol\<close>

record request =
  rq_ID :: int
  rq_Command :: string
  rq_ActionID :: string
  rq_OutputID :: string
  rq_BodySize :: int
  rq_Body :: "bytes option"

record response =
  rs_ID :: int
  rs_Err :: "go_error option"
  rs_KnownCommands :: "string list"
  rs_Miss :: bool
  rs_OutputID :: string
  rs_Size :: int
  rs_Time :: "int option"
  rs_DiskPath :: path

definition CmdPut :: string where "CmdPut = ''put''"
definition CmdGet :: string where "CmdGet = ''get''"
definition CmdClose :: string where "CmdClose = ''close''"

definition emptyResponse :: response where
  "emptyResponse =
     \<lparr>rs_ID = 0, rs_Err = None, rs_KnownCommands = [], rs_Miss = False, rs_OutputID = [], rs_Size = 0,
      rs_Time = None, rs_DiskPath = []\<rparr>"

section \<open>The upstream\<close>

record 'u upstream =
  upGet :: "string list \<Rightarrow> 'u \<Rightarrow> (cacheItem list \<times> go_error option) \<times> 'u"
  upPut :: "env \<Rightarrow> fs \<Rightarrow> pool \<Rightarrow> cacheItem list \<Rightarrow> 'u \<Rightarrow> go_error option \<times> 'u"
  upPreload :: "(preloadRequest \<Rightarrow> 'u \<Rightarrow> (cacheItem list \<times> go_error option) \<times> 'u) option"
  upUsed :: "(string \<Rightarrow> string \<Rightarrow> string \<Rightarrow> string list \<Rightarrow> bool \<Rightarrow> 'u \<Rightarrow> go_error option \<times> 'u) option"
  upGetTotalTime :: "('u \<Rightarrow> int) option"
  upStats :: "('u \<Rightarrow> (string \<times> string) list) option"

text \<open>\<open>local.Store\<close> is itself a \<open>cache.Store\<close>. Its files are not those of the proxy's disk, so the items
  that cross the interface carry their reader with them.\<close>

definition withReader :: "env \<Rightarrow> fs \<Rightarrow> pool \<Rightarrow> cacheItem \<Rightarrow> cacheItem" where
  "withReader E d p it = it\<lparr>ri_body := BytesReader (ri_openBody E d p it)\<rparr>"

definition storeUpstream :: "env \<Rightarrow> lstore upstream" where
  "storeUpstream E =
     \<lparr>upGet = (\<lambda>ids u. case GetL E u ids of
        (its, u') \<Rightarrow> ((map (withReader E (ls_disk u') (ls_pool u')) its, None), u')),
      upPut = (\<lambda>E' d p its u. PutL E u (map (withReader E' d p) its)),
      upPreload = Some (\<lambda>req u. case Preload E u req of
        (Inl e, u') \<Rightarrow> (([], Some e), u')
      | (Inr its, u') \<Rightarrow> ((map (withReader E (ls_disk u') (ls_pool u')) its, None), u')),
      upUsed = Some (\<lambda>c ch bt ids rep u. PostCacheUsed E u c ch bt ids rep),
      upGetTotalTime = None, upStats = Some StatsL\<rparr>"

section \<open>State\<close>

record proxyParams =
  pp_Commit :: string
  pp_ChangesID :: string
  pp_BuildType :: string
  pp_BaseCommit :: string
  pp_ParentCommit :: string
  pp_Preload :: bool
  pp_SkipPreload :: bool
  pp_MaxRemoteGetTime :: int
  pp_MaxFileBytes :: int
  pp_DisableCacheUsed :: bool
  pp_RemoteBatchConcurrency :: int

text \<open>A goroutine of \<open>dispatchBatch\<close>: before its call of the upstream, or with the requests by action id,
  the action ids answered, and the items the upstream has still to hand over.\<close>

datatype batchJob =
    JobWaiting "request list"
  | JobStreaming "(string \<times> request list) list" "string list" "cacheItem list"

text \<open>The fields of \<open>Proxy\<close>, its channels, and where its goroutines are: \<open>px_dispatching\<close> says that \<open>resolve\<close>
  is inside \<open>dispatchBatch\<close>, \<open>px_result\<close> is what \<open>Close\<close> has returned.\<close>

record 'u proxy =
  px_disk :: lstore
  px_upstream :: "'u option"
  px_params :: proxyParams
  px_initialLocalEntries :: bool
  px_lookup :: "request list"
  px_put :: "request list"
  px_resps :: "response list"
  px_batch :: "request list"
  px_dispatching :: bool
  px_jobs :: "batchJob list"
  px_batchSem :: int
  px_toPut :: "cacheItem list"
  px_sumSize :: int
  px_batches :: int
  px_lookups :: int
  px_hits :: int
  px_preloadHits :: int
  px_regularHits :: int
  px_misses :: int
  px_puts :: int
  px_putsExist :: int
  px_batchPuts :: int
  px_skippedPuts :: int
  px_usedActionIDs :: "string list"
  px_preloadedActionIDs :: "string list"
  px_usedPreloadedIDs :: "string list"
  px_lastPreloadSize :: int
  px_limitLogged :: bool
  px_closed :: bool
  px_resolving :: bool
  px_consuming :: bool
  px_result :: "go_error option option"

definition defaultPreloadMaxSize :: int where "defaultPreloadMaxSize = 1000000"

definition defaultRemoteBatchConcurrency :: int where "defaultRemoteBatchConcurrency = 8"

definition batchBarrierItems :: nat where "batchBarrierItems = 100"

definition batchBarrierSize :: int where "batchBarrierSize = 100000000"

definition NewProxy :: "lstore \<Rightarrow> 'u option \<Rightarrow> proxyParams \<Rightarrow> 'u proxy" where
  "NewProxy d u params =
     \<lparr>px_disk = d, px_upstream = u, px_params = params, px_initialLocalEntries = HasEntries d,
      px_lookup = [], px_put = [], px_resps = [], px_batch = [], px_dispatching = False, px_jobs = [],
      px_batchSem = (if pp_RemoteBatchConcurrency params \<le> 0 then defaultRemoteBatchConcurrency
        else pp_RemoteBatchConcurrency params),
      px_toPut = [], px_sumSize = 0, px_batches = 0, px_lookups = 0, px_hits = 0, px_preloadHits = 0,
      px_regularHits = 0, px_misses = 0, px_puts = 0, px_putsExist = 0, px_batchPuts = 0,
      px_skippedPuts = 0, px_usedActionIDs = [], px_preloadedActionIDs = [], px_usedPreloadedIDs = [],
      px_lastPreloadSize = 0, px_limitLogged = False, px_closed = False, px_resolving = True,
      px_consuming = True, px_result = None\<rparr>"

section \<open>Bookkeeping\<close>

definition recordUsedActionID :: "string \<Rightarrow> 'u proxy \<Rightarrow> 'u proxy" where
  "recordUsedActionID a px =
     (if a = [] then px else px\<lparr>px_usedActionIDs := List.insert a (px_usedActionIDs px)\<rparr>)"

definition UsedActionIDs :: "'u proxy \<Rightarrow> string list" where
  "UsedActionIDs px = sort (px_usedActionIDs px)"

definition markPreloaded :: "string \<Rightarrow> 'u proxy \<Rightarrow> 'u proxy" where
  "markPreloaded a px =
     (if a = [] then px else px\<lparr>px_preloadedActionIDs := List.insert a (px_preloadedActionIDs px)\<rparr>)"

definition isPreloaded :: "'u proxy \<Rightarrow> string \<Rightarrow> bool" where
  "isPreloaded px a = (a \<in> set (px_preloadedActionIDs px))"

definition markUsedPreloaded :: "string \<Rightarrow> 'u proxy \<Rightarrow> 'u proxy" where
  "markUsedPreloaded a px =
     (if a \<noteq> [] \<and> isPreloaded px a
      then px\<lparr>px_usedPreloadedIDs := List.insert a (px_usedPreloadedIDs px)\<rparr> else px)"

definition recordHitKind :: "string \<Rightarrow> 'u proxy \<Rightarrow> 'u proxy" where
  "recordHitKind a px =
     (if isPreloaded px a
      then (let px1 = markUsedPreloaded a px in px1\<lparr>px_preloadHits := px_preloadHits px1 + 1\<rparr>)
      else px\<lparr>px_regularHits := px_regularHits px + 1\<rparr>)"

definition preloadUsageStats :: "'u proxy \<Rightarrow> int \<times> int" where
  "preloadUsageStats px =
     (int (length (px_preloadedActionIDs px)), int (length (px_usedPreloadedIDs px)))"

definition shouldSkipRemoteGet :: "'u upstream \<Rightarrow> 'u proxy \<Rightarrow> bool \<times> 'u proxy" where
  "shouldSkipRemoteGet U px =
     (if pp_MaxRemoteGetTime (px_params px) \<le> 0 then (False, px)
      else (case (upGetTotalTime U, px_upstream px) of
          (Some f, Some u) \<Rightarrow>
            (if f u < pp_MaxRemoteGetTime (px_params px) then (False, px)
             else (True, px\<lparr>px_limitLogged := True\<rparr>))
        | _ \<Rightarrow> (False, px)))"

section \<open>The local store\<close>

definition responseOf :: "request \<Rightarrow> cacheItem \<Rightarrow> response" where
  "responseOf req rs =
     (let resp = emptyResponse\<lparr>rs_ID := rq_ID req, rs_OutputID := ri_OutputID rs, rs_Size := ri_Size rs,
            rs_Time := ri_Time rs, rs_DiskPath := ri_DiskPath rs, rs_Miss := ri_Miss rs\<rparr>
      in if \<not> rs_Miss resp \<and> 0 < ri_Size rs \<and> ri_DiskPath rs = []
         then resp\<lparr>rs_Miss := True, rs_OutputID := [], rs_Size := 0, rs_Time := None\<rparr> else resp)"

definition pxGet :: "env \<Rightarrow> request \<Rightarrow> 'u proxy \<Rightarrow> response \<times> 'u proxy" where
  "pxGet E req px =
     (case getOneL E (px_disk px) (rq_ActionID req) of
        (it, d) \<Rightarrow> (responseOf req it, px\<lparr>px_disk := d\<rparr>))"

definition putRespItem :: "env \<Rightarrow> cacheItem \<Rightarrow> bytes \<Rightarrow> 'u proxy \<Rightarrow> go_error option \<times> 'u proxy" where
  "putRespItem E item body px =
     (case PutL E (px_disk px) [item\<lparr>ri_body := BytesReader (Inr (body, None))\<rparr>] of
        (Some e, d) \<Rightarrow> (Some (ErrWrap ''write resp'' e), px\<lparr>px_disk := d\<rparr>)
      | (None, d) \<Rightarrow> (None, px\<lparr>px_disk := d\<rparr>))"

definition itemOfPut :: "request \<Rightarrow> cacheItem" where
  "itemOfPut req =
     \<lparr>ri_ActionID = rq_ActionID req, ri_Miss = False, ri_OutputID = rq_OutputID req,
      ri_Size = rq_BodySize req, ri_Time = None, ri_IsCompressed = False, ri_WireSize = 0,
      ri_DiskPath = [], ri_body = NilReader\<rparr>"

definition pxPutOne :: "env \<Rightarrow> request \<Rightarrow> bytes \<Rightarrow> 'u proxy \<Rightarrow> response \<times> 'u proxy" where
  "pxPutOne E req body px =
     (let px1 = px\<lparr>px_puts := px_puts px + 1\<rparr> in
      case putRespItem E (itemOfPut req) body px1 of
        (Some e, px2) \<Rightarrow>
          (emptyResponse\<lparr>rs_ID := rq_ID req, rs_Err := Some (ErrWrap ''write file'' e)\<rparr>, px2)
      | (None, px2) \<Rightarrow> pxGet E req px2)"

definition pxPut :: "env \<Rightarrow> request \<Rightarrow> bytes \<Rightarrow> 'u proxy \<Rightarrow> response \<times> 'u proxy" where
  "pxPut E req body px =
     (case pxGet E req px of
        (resp, px1) \<Rightarrow>
          (if \<not> rs_Miss resp then (resp, px1\<lparr>px_putsExist := px_putsExist px1 + 1\<rparr>)
           else (case pxPutOne E req body px1 of
               (resp', px2) \<Rightarrow>
                 (let req' = (if int (length body) < 100000
                      then req\<lparr>rq_Body := (if body = [] then None else Some body)\<rparr> else req)
                  in (resp', if px_upstream px2 = None then px2
                       else px2\<lparr>px_put := px_put px2 @ [req']\<rparr>)))))"

section \<open>Lookups\<close>

definition sendResp :: "response \<Rightarrow> 'u proxy \<Rightarrow> 'u proxy" where
  "sendResp r px = px\<lparr>px_resps := px_resps px @ [r]\<rparr>"

definition Lookup :: "'u upstream \<Rightarrow> env \<Rightarrow> request \<Rightarrow> 'u proxy \<Rightarrow> 'u proxy" where
  "Lookup U E req px0 =
     (let px = recordUsedActionID (rq_ActionID req) px0 in
      if px_upstream px = None then (case pxGet E req px of (resp, px1) \<Rightarrow> sendResp resp px1)
      else (case shouldSkipRemoteGet U (px\<lparr>px_lookups := px_lookups px + 1\<rparr>) of
          (True, px1) \<Rightarrow>
            (case pxGet E req px1 of
               (resp, px2) \<Rightarrow>
                 sendResp resp
                   (if rs_Miss resp then px2\<lparr>px_misses := px_misses px2 + 1\<rparr>
                    else recordHitKind (rq_ActionID req) (px2\<lparr>px_hits := px_hits px2 + 1\<rparr>)))
        | (False, px1) \<Rightarrow> px1\<lparr>px_lookup := px_lookup px1 @ [req]\<rparr>))"

text \<open>One turn of \<open>resolve\<close> with a request from the channel; the zero request of a closed channel, or any
  with ID 0, ends it.\<close>

definition resolveRequest :: "env \<Rightarrow> request \<Rightarrow> 'u proxy \<Rightarrow> 'u proxy" where
  "resolveRequest E req px =
     (if rq_ID req = 0 then px\<lparr>px_resolving := False\<rparr>
      else (case pxGet E req px of
          (resp, px1) \<Rightarrow>
            (if rs_Miss resp then
               px1\<lparr>px_batch := px_batch px1 @ [req],
                   px_dispatching := (batchBarrierItems \<le> length (px_batch px1) + 1)\<rparr>
             else sendResp resp (recordHitKind (rq_ActionID req) (px1\<lparr>px_hits := px_hits px1 + 1\<rparr>)))))"

section \<open>Batches\<close>

text \<open>\<open>reqsByAction\<close>; its keys, in the order of their first request, are \<open>actionIDs\<close>.\<close>

definition addReq :: "(string \<times> request list) list \<Rightarrow> request \<Rightarrow> (string \<times> request list) list" where
  "addReq m req = AList.update (rq_ActionID req) (mget0 [] m (rq_ActionID req) @ [req]) m"

definition reqsByAction :: "request list \<Rightarrow> (string \<times> request list) list" where
  "reqsByAction batch = foldl addReq [] batch"

definition respondAll :: "(string \<times> request list) list \<Rightarrow> string \<Rightarrow> response \<Rightarrow> 'u proxy \<Rightarrow> 'u proxy" where
  "respondAll m a rs px =
     px\<lparr>px_resps := px_resps px @ map (\<lambda>req. rs\<lparr>rs_ID := rq_ID req\<rparr>) (mget0 [] m a)\<rparr>"

text \<open>\<open>io.ReadAll\<close> of a reader that may be nil.\<close>

definition readAll :: "reader option \<Rightarrow> bytes result" where
  "readAll rd = (case rd of None \<Rightarrow> Inr [] | Some (b, None) \<Rightarrow> Inr b | Some (b, Some e) \<Rightarrow> Inl e)"

text \<open>The callback of \<open>resolveBatch\<close>. A hit for an action that is not in the batch indexes a nil slice.\<close>

definition onItem :: "env \<Rightarrow> (string \<times> request list) list \<Rightarrow> cacheItem \<Rightarrow> 'u proxy \<Rightarrow> 'u proxy result" where
  "onItem E m resp px =
     (let a = ri_ActionID resp; count = int (length (mget0 [] m a)) in
      if ri_Miss resp then
        Inr (respondAll m a (emptyResponse\<lparr>rs_Miss := True\<rparr>) (px\<lparr>px_misses := px_misses px + count\<rparr>))
      else (case ri_uncompressedBodyReader E (ls_disk (px_disk px)) (ls_pool (px_disk px)) resp of
          Inl e \<Rightarrow> Inr (respondAll m a (emptyResponse\<lparr>rs_Err := Some e\<rparr>) px)
        | Inr br \<Rightarrow>
            (case readAll br of
               Inl e \<Rightarrow> Inr (respondAll m a (emptyResponse\<lparr>rs_Err := Some e\<rparr>) px)
             | Inr b \<Rightarrow>
                 (let px1 = px\<lparr>px_hits := px_hits px + count, px_regularHits := px_regularHits px + count\<rparr> in
                  case mget0 [] m a of
                    [] \<Rightarrow> Inl (ErrPanic ''index out of range'')
                  | req # _ \<Rightarrow>
                      (case pxPutOne E (req\<lparr>rq_Command := CmdPut, rq_OutputID := ri_OutputID resp,
                              rq_BodySize := ri_Size resp\<rparr>) b px1 of
                         (r, px2) \<Rightarrow> Inr (respondAll m a r px2))))))"

definition missAll :: "(string \<times> request list) list \<Rightarrow> string \<Rightarrow> 'u proxy \<Rightarrow> 'u proxy" where
  "missAll m a px =
     respondAll m a (emptyResponse\<lparr>rs_Miss := True\<rparr>)
       (px\<lparr>px_misses := px_misses px + int (length (mget0 [] m a))\<rparr>)"

text \<open>The end of \<open>resolveBatch\<close>: what the upstream has not answered is a miss.\<close>

definition finishBatch :: "(string \<times> request list) list \<Rightarrow> string list \<Rightarrow> 'u proxy \<Rightarrow> 'u proxy" where
  "finishBatch m answered px =
     foldl (\<lambda>px a. missAll m a px) px (filter (\<lambda>a. a \<notin> set answered) (mkeys m))"

text \<open>The start of \<open>resolveBatch\<close>, up to the first callback; without an upstream it is all of it.\<close>

definition startBatch :: "'u upstream \<Rightarrow> request list \<Rightarrow> 'u proxy \<Rightarrow> batchJob \<times> 'u proxy" where
  "startBatch U batch px0 =
     (let px = px0\<lparr>px_batches := px_batches px0 + 1\<rparr> in
      case px_upstream px of
        Some u \<Rightarrow>
          (let m = reqsByAction batch in
           case upGet U (mkeys m) u of
             ((items, err), u') \<Rightarrow> (JobStreaming m [] items, px\<lparr>px_upstream := Some u'\<rparr>))
      | None \<Rightarrow>
          (JobStreaming [] [] [],
           px\<lparr>px_misses := px_misses px + int (length batch),
              px_resps := px_resps px @
                map (\<lambda>req. emptyResponse\<lparr>rs_ID := rq_ID req, rs_Miss := True\<rparr>) batch\<rparr>))"

text \<open>\<open>resolveBatch\<close> without anything in between, for one batch.\<close>

fun feedBatch :: "env \<Rightarrow> (string \<times> request list) list \<Rightarrow> string list \<Rightarrow> cacheItem list \<Rightarrow> 'u proxy \<Rightarrow>
    (string list \<times> 'u proxy) result" where
  "feedBatch E m answered [] px = Inr (answered, px)"
| "feedBatch E m answered (it # its) px =
     (case onItem E m it px of
        Inl e \<Rightarrow> Inl e | Inr px' \<Rightarrow> feedBatch E m (answered @ [ri_ActionID it]) its px')"

definition resolveBatch :: "'u upstream \<Rightarrow> env \<Rightarrow> request list \<Rightarrow> 'u proxy \<Rightarrow> 'u proxy result" where
  "resolveBatch U E batch px =
     (case startBatch U batch px of
        (JobStreaming m answered items, px1) \<Rightarrow>
          (case feedBatch E m answered items px1 of
             Inl e \<Rightarrow> Inl e | Inr (answered', px2) \<Rightarrow> Inr (finishBatch m answered' px2))
      | (JobWaiting _, px1) \<Rightarrow> Inr px1)"

section \<open>Uploads\<close>

definition uploadItem :: "request \<Rightarrow> response \<Rightarrow> cacheItem" where
  "uploadItem req resp =
     \<lparr>ri_ActionID = rq_ActionID req, ri_Miss = False, ri_OutputID = rs_OutputID resp,
      ri_Size = rs_Size resp, ri_Time = rs_Time resp, ri_IsCompressed = False,
      ri_WireSize = rs_Size resp, ri_DiskPath = rs_DiskPath resp,
      ri_body = (case rq_Body req of None \<Rightarrow> NilReader | Some b \<Rightarrow> BytesReader (Inr (b, None)))\<rparr>"

definition upstreamPut :: "'u upstream \<Rightarrow> env \<Rightarrow> 'u proxy \<Rightarrow> 'u proxy" where
  "upstreamPut U E px =
     (case px_upstream px of
        None \<Rightarrow> px
      | Some u \<Rightarrow>
          (case upPut U E (ls_disk (px_disk px)) (ls_pool (px_disk px)) (px_toPut px) u of
             (_, u') \<Rightarrow> px\<lparr>px_upstream := Some u'\<rparr>))"

text \<open>One turn of \<open>consumePut\<close>, and its end.\<close>

definition consumeRequest :: "'u upstream \<Rightarrow> env \<Rightarrow> request \<Rightarrow> 'u proxy \<Rightarrow> 'u proxy" where
  "consumeRequest U E req px =
     (case pxGet E req px of
        (resp, px1) \<Rightarrow>
          (let item = uploadItem req resp in
           if 0 < pp_MaxFileBytes (px_params px1) \<and> pp_MaxFileBytes (px_params px1) < ri_Size item then
             px1\<lparr>px_skippedPuts := px_skippedPuts px1 + 1\<rparr>
           else
             (let px2 = px1\<lparr>px_toPut := px_toPut px1 @ [item], px_sumSize := px_sumSize px1 + ri_Size item\<rparr> in
              if batchBarrierItems \<le> length (px_toPut px2) \<or> batchBarrierSize \<le> px_sumSize px2 then
                (let px3 = px2\<lparr>px_sumSize := 0\<rparr>;
                     px4 = (if px_upstream px3 = None then px3
                       else upstreamPut U E (px3\<lparr>px_batchPuts := px_batchPuts px3 + 1\<rparr>))
                 in px4\<lparr>px_toPut := []\<rparr>)
              else px2)))"

definition consumeEnd :: "'u upstream \<Rightarrow> env \<Rightarrow> 'u proxy \<Rightarrow> 'u proxy" where
  "consumeEnd U E px =
     (if px_toPut px = [] then px else upstreamPut U E px)\<lparr>px_consuming := False\<rparr>"

section \<open>Preload\<close>

definition preloadItem :: "env \<Rightarrow> cacheItem \<Rightarrow> 'u proxy \<Rightarrow> 'u proxy" where
  "preloadItem E resp px =
     (case ri_wireBodyReader E (ls_disk (px_disk px)) (ls_pool (px_disk px)) resp of
        Inl e \<Rightarrow> px
      | Inr br \<Rightarrow>
          (case readAll br of
             Inl e \<Rightarrow> px
           | Inr b \<Rightarrow>
               (case putRespItem E resp b px of
                  (Some e, px1) \<Rightarrow> px1
                | (None, px1) \<Rightarrow> markPreloaded (ri_ActionID resp) px1)))"

definition pxPreload :: "'u upstream \<Rightarrow> env \<Rightarrow> preloadRequest \<Rightarrow> 'u proxy \<Rightarrow> go_error option \<times> 'u proxy" where
  "pxPreload U E req px =
     (case px_upstream px of
        None \<Rightarrow> (Some (ErrMsg ''upstream is not set''), px)
      | Some u \<Rightarrow>
          (case upPreload U of
             None \<Rightarrow> (Some (ErrMsg ''upstream is not preloader''), px)
           | Some f \<Rightarrow>
               (case f req u of
                  ((items, err), u') \<Rightarrow>
                    (let px1 = fold (preloadItem E) items (px\<lparr>px_upstream := Some u'\<rparr>) in
                     (None, px1\<lparr>px_lastPreloadSize := sum_list (map ri_Size items)\<rparr>)))))"

definition preloadScope :: "proxyParams \<Rightarrow> preloadRequest" where
  "preloadScope P =
     \<lparr>pr_MaxSize = (if pp_MaxFileBytes P = 0 then defaultPreloadMaxSize else pp_MaxFileBytes P),
      pr_Commit = pp_Commit P, pr_ChangesID = pp_ChangesID P, pr_BuildType = pp_BuildType P,
      pr_BaseCommit = pp_BaseCommit P, pr_ParentCommit = pp_ParentCommit P\<rparr>"

definition MaybePreload :: "'u upstream \<Rightarrow> env \<Rightarrow> 'u proxy \<Rightarrow> go_error option \<times> 'u proxy" where
  "MaybePreload U E px =
     (let P = px_params px in
      if pp_SkipPreload P then (None, px)
      else if \<not> pp_Preload P \<and> pp_Commit P = [] \<and> pp_ChangesID P = [] \<and> pp_BuildType P = [] \<and>
        pp_BaseCommit P = [] \<and> pp_ParentCommit P = [] then (None, px)
      else if HasEntries (px_disk px) then (None, px)
      else (case pxPreload U E (preloadScope P) px of
          (Some e, px1) \<Rightarrow> (Some (ErrWrap ''preload cache'' e), px1)
        | (None, px1) \<Rightarrow> (None, px1)))"

section \<open>Closing\<close>

definition closeDisk :: "env \<Rightarrow> 'u proxy \<Rightarrow> go_error option \<times> 'u proxy" where
  "closeDisk E px = (case CloseL E (px_disk px) of (r, d) \<Rightarrow> (r, px\<lparr>px_disk := d\<rparr>))"

text \<open>\<open>Close\<close> after \<open>wg.Wait\<close>.\<close>

definition finishClose :: "'u upstream \<Rightarrow> env \<Rightarrow> 'u proxy \<Rightarrow> go_error option \<times> 'u proxy" where
  "finishClose U E px =
     (let P = px_params px in
      if pp_DisableCacheUsed P then closeDisk E px
      else if pp_Commit P = [] \<and> pp_ChangesID P = [] then closeDisk E px
      else (case (upUsed U, px_upstream px) of
          (Some f, Some u) \<Rightarrow>
            (case f (pp_Commit P) (pp_ChangesID P) (pp_BuildType P) (UsedActionIDs px)
                (\<not> px_initialLocalEntries px) u of
               (Some e, u') \<Rightarrow> (Some e, px\<lparr>px_upstream := Some u'\<rparr>)
             | (None, u') \<Rightarrow> closeDisk E (px\<lparr>px_upstream := Some u'\<rparr>))
        | _ \<Rightarrow> closeDisk E px))"

section \<open>Statistics\<close>

text \<open>\<open>percent\<close> for \<open>0 \<le> num \<le> denom < 2 ^ 46\<close>, where the conversions and the product are exact: the
  quotient is rounded to 53 bits, and printed with one decimal, to even.\<close>

definition halfEvenDiv :: "int \<Rightarrow> int \<Rightarrow> int" where
  "halfEvenDiv a b =
     (let q = a div b; r = a mod b in if 2 * r < b \<or> 2 * r = b \<and> even q then q else q + 1)"

definition quotientBits :: "int \<Rightarrow> int \<Rightarrow> nat" where
  "quotientBits a b =
     (case find (\<lambda>k. 2 ^ 52 * b \<le> a * 2 ^ k) [0..<110] of None \<Rightarrow> 110 | Some k \<Rightarrow> k)"

definition percent :: "int \<Rightarrow> int \<Rightarrow> string" where
  "percent num denom =
     (if denom = 0 then ''0.0%''
      else (let k = quotientBits (100 * num) denom;
                t = halfEvenDiv (10 * halfEvenDiv (100 * num * 2 ^ k) denom) (2 ^ k)
            in formatInt (t div 10) @ ''.'' @ formatInt (t mod 10) @ ''%''))"

definition StatsPX :: "'u proxy \<Rightarrow> (string \<times> string) list" where
  "StatsPX px =
     (case preloadUsageStats px of
        (preloadedItems, preloadUsed) \<Rightarrow>
          (let unused = preloadedItems - preloadUsed in
           [(''lookups'', formatInt (px_lookups px)), (''hits'', formatInt (px_hits px)),
            (''hit_rate'', percent (px_hits px) (px_lookups px)),
            (''preload_hits'', formatInt (px_preloadHits px)),
            (''preload_hit_rate'', percent (px_preloadHits px) (px_lookups px)),
            (''preloaded_items'', formatInt preloadedItems), (''preload_used'', formatInt preloadUsed),
            (''preload_unused'', formatInt unused),
            (''preload_unused_rate'', percent unused preloadedItems),
            (''regular_hits'', formatInt (px_regularHits px)),
            (''regular_hit_rate'', percent (px_regularHits px) (px_lookups px)),
            (''misses'', formatInt (px_misses px)),
            (''miss_rate'', percent (px_misses px) (px_lookups px)),
            (''puts'', formatInt (px_puts px)), (''putsExist'', formatInt (px_putsExist px)),
            (''skipped_puts'', formatInt (px_skippedPuts px))]))"

record statsSummary =
  ss_Hits :: int
  ss_Misses :: int
  ss_Puts :: int
  ss_HitRate :: string
  ss_Invocations :: int
  ss_RoundTrips :: int
  ss_BytesRead :: string
  ss_BytesWritten :: string
  ss_GetTotalTime :: string
  ss_GetCount :: string
  ss_PreloadedBytes :: string
  ss_TotalTime :: string
  ss_ForcedCloses :: int

definition statsSummaryOf :: "'u upstream \<Rightarrow> 'u proxy \<Rightarrow> statsSummary" where
  "statsSummaryOf U px =
     (let st = (case (upStats U, px_upstream px) of (Some f, Some u) \<Rightarrow> f u | _ \<Rightarrow> []) in
      \<lparr>ss_Hits = px_hits px, ss_Misses = px_misses px, ss_Puts = px_puts px,
       ss_HitRate = percent (px_hits px) (px_hits px + px_misses px), ss_Invocations = 0,
       ss_RoundTrips = px_batches px, ss_BytesRead = mget0 [] st ''bytes_read'',
       ss_BytesWritten = mget0 [] st ''bytes_written'', ss_GetTotalTime = mget0 [] st ''get_total_time'',
       ss_GetCount = mget0 [] st ''get_cnt'', ss_PreloadedBytes = mget0 [] st ''preload_bytes'',
       ss_TotalTime = [], ss_ForcedCloses = 0\<rparr>)"

definition summaryString :: "statsSummary \<Rightarrow> string" where
  "summaryString s =
     ''hits='' @ formatInt (ss_Hits s) @ '' misses='' @ formatInt (ss_Misses s) @
     '' puts='' @ formatInt (ss_Puts s) @ '' hit_rate='' @ ss_HitRate s @
     (if 0 < ss_Invocations s then '' invocations='' @ formatInt (ss_Invocations s) else []) @
     (if ss_BytesRead s \<noteq> [] \<or> ss_BytesWritten s \<noteq> []
      then '' bytes_read='' @ ss_BytesRead s @ '' bytes_written='' @ ss_BytesWritten s else []) @
     (if 0 < ss_RoundTrips s then '' round_trips='' @ formatInt (ss_RoundTrips s) else []) @
     (if 0 < ss_ForcedCloses s then '' forced_closes='' @ formatInt (ss_ForcedCloses s) else []) @
     (if ss_GetTotalTime s \<noteq> [] then '' round_trip_time='' @ ss_GetTotalTime s else []) @
     (if ss_TotalTime s \<noteq> [] then '' total_time='' @ ss_TotalTime s else [])"

section \<open>Steps\<close>

text \<open>
  The calls of the methods, and the steps of the goroutines: \<open>resolve\<close> receives (\<open>EvReceive\<close>), is woken by
  its ticker (\<open>EvTick\<close>), gets a place for a batch (\<open>EvDispatch\<close>) or returns after the channel is closed
  (\<open>EvResolveEnd\<close>); a batch starts, gets an item or ends; \<open>consumePut\<close> receives or ends; \<open>Close\<close> closes the
  channels (\<open>EvClose\<close>) and, when all have ended, finishes.
\<close>

datatype pxEvent =
    EvLookup env request
  | EvPut env request bytes
  | EvReceive env
  | EvTick
  | EvDispatch
  | EvJobStart nat
  | EvJobItem env nat
  | EvJobEnd nat
  | EvResolveEnd
  | EvConsume env
  | EvConsumeEnd env
  | EvClose
  | EvFinish env

definition channelCap :: nat where "channelCap = 1000"

definition dropNth :: "nat \<Rightarrow> 'a list \<Rightarrow> 'a list" where
  "dropNth i xs = take i xs @ drop (Suc i) xs"

fun jobStep :: "'u upstream \<Rightarrow> 'u proxy \<Rightarrow> pxEvent \<Rightarrow> batchJob \<Rightarrow> 'u proxy result option" where
  "jobStep U px (EvJobStart i) (JobWaiting batch) =
     (case startBatch U batch px of (j, px') \<Rightarrow> Some (Inr (px'\<lparr>px_jobs := (px_jobs px')[i := j]\<rparr>)))"
| "jobStep U px (EvJobItem E i) (JobStreaming m answered (it # its)) =
     (case onItem E m it px of
        Inl e \<Rightarrow> Some (Inl e)
      | Inr px' \<Rightarrow>
          Some (Inr (px'\<lparr>px_jobs := (px_jobs px')[i := JobStreaming m (answered @ [ri_ActionID it]) its]\<rparr>)))"
| "jobStep U px (EvJobEnd i) (JobStreaming m answered []) =
     (let px' = finishBatch m answered px in Some (Inr (px'\<lparr>px_jobs := dropNth i (px_jobs px')\<rparr>)))"
| "jobStep U px ev j = None"

text \<open>A step that is not possible is \<open>None\<close>; one that ends the process with a panic is an error.\<close>

definition pxStep :: "'u upstream \<Rightarrow> 'u proxy \<Rightarrow> pxEvent \<Rightarrow> 'u proxy result option" where
  "pxStep U px ev =
     (case ev of
        EvLookup E req \<Rightarrow>
          (if px_closed px \<or> channelCap \<le> length (px_lookup px) then None
           else Some (Inr (Lookup U E req px)))
      | EvPut E req body \<Rightarrow>
          (if px_closed px \<or> channelCap \<le> length (px_put px) then None
           else Some (Inr (snd (pxPut E req body px))))
      | EvReceive E \<Rightarrow>
          (case px_lookup px of
             req # q \<Rightarrow>
               (if px_resolving px \<and> \<not> px_dispatching px
                then Some (Inr (resolveRequest E req (px\<lparr>px_lookup := q\<rparr>))) else None)
           | [] \<Rightarrow> None)
      | EvTick \<Rightarrow>
          (if px_resolving px \<and> \<not> px_dispatching px \<and> px_batch px \<noteq> []
           then Some (Inr (px\<lparr>px_dispatching := True\<rparr>)) else None)
      | EvDispatch \<Rightarrow>
          (if px_resolving px \<and> px_dispatching px \<and> int (length (px_jobs px)) < px_batchSem px
           then Some (Inr (px\<lparr>px_jobs := px_jobs px @ [JobWaiting (px_batch px)], px_batch := [],
               px_dispatching := False\<rparr>))
           else None)
      | EvJobStart i \<Rightarrow> (if i < length (px_jobs px) then jobStep U px ev (px_jobs px ! i) else None)
      | EvJobItem E i \<Rightarrow> (if i < length (px_jobs px) then jobStep U px ev (px_jobs px ! i) else None)
      | EvJobEnd i \<Rightarrow> (if i < length (px_jobs px) then jobStep U px ev (px_jobs px ! i) else None)
      | EvResolveEnd \<Rightarrow>
          (if px_resolving px \<and> \<not> px_dispatching px \<and> px_closed px \<and> px_lookup px = []
           then Some (Inr (px\<lparr>px_resolving := False\<rparr>)) else None)
      | EvConsume E \<Rightarrow>
          (case px_put px of
             req # q \<Rightarrow>
               (if px_consuming px then Some (Inr (consumeRequest U E req (px\<lparr>px_put := q\<rparr>))) else None)
           | [] \<Rightarrow> None)
      | EvConsumeEnd E \<Rightarrow>
          (if px_consuming px \<and> px_closed px \<and> px_put px = [] then Some (Inr (consumeEnd U E px)) else None)
      | EvClose \<Rightarrow> (if px_closed px then None else Some (Inr (px\<lparr>px_closed := True\<rparr>)))
      | EvFinish E \<Rightarrow>
          (if px_closed px \<and> \<not> px_resolving px \<and> px_jobs px = [] \<and> \<not> px_consuming px \<and> px_result px = None
           then (case finishClose U E px of (r, px') \<Rightarrow> Some (Inr (px'\<lparr>px_result := Some r\<rparr>))) else None))"

inductive pxRun :: "'u upstream \<Rightarrow> 'u proxy \<Rightarrow> pxEvent list \<Rightarrow> 'u proxy \<Rightarrow> bool" for U where
  start: "pxRun U px [] px"
| step: "pxRun U px evs px' \<Longrightarrow> pxStep U px' ev = Some (Inr px'') \<Longrightarrow> pxRun U px (evs @ [ev]) px''"

fun runProxy :: "'u upstream \<Rightarrow> 'u proxy \<Rightarrow> pxEvent list \<Rightarrow> 'u proxy result option" where
  "runProxy U px [] = Some (Inr px)"
| "runProxy U px (ev # evs) =
     (case pxStep U px ev of
        None \<Rightarrow> None | Some (Inl e) \<Rightarrow> Some (Inl e) | Some (Inr px') \<Rightarrow> runProxy U px' evs)"

lemma runProxy_append:
  "runProxy U px (evs @ evs') =
     (case runProxy U px evs of Some (Inr px') \<Rightarrow> runProxy U px' evs' | r \<Rightarrow> r)"
  by (induction evs arbitrary: px) (auto split: option.splits sum.splits)

lemma pxRun_iff: "pxRun U px evs px' \<longleftrightarrow> runProxy U px evs = Some (Inr px')"
proof
  show "pxRun U px evs px' \<Longrightarrow> runProxy U px evs = Some (Inr px')"
    by (induction rule: pxRun.induct) (simp_all add: runProxy_append)
  show "runProxy U px evs = Some (Inr px') \<Longrightarrow> pxRun U px evs px'"
  proof (induction evs arbitrary: px' rule: rev_induct)
    case Nil
    then show ?case by (simp add: pxRun.start)
  next
    case (snoc ev evs)
    then obtain px1 where "runProxy U px evs = Some (Inr px1)" "pxStep U px1 ev = Some (Inr px')"
      by (auto simp: runProxy_append split: option.splits sum.splits)
    then show ?case using snoc.IH pxRun.step by blast
  qed
qed

end
