(* ===== verification/Proxy_Answers.thy ===== *)
theory Proxy_Answers
  imports Proxy
begin

text \<open>
  Every lookup is answered once: the requests the proxy has taken and the responses it has sent, over
  any interleaving of its goroutines. The law of the upstream is the locale \<open>answering_upstream\<close>, which the
  action cache store satisfies.
\<close>

section \<open>Frames\<close>

text \<open>The operations on the local store touch nothing of the proxy but its disk and a counter.\<close>

lemma pxGet_frame: "\<exists>d. snd (pxGet E req px) = px\<lparr>px_disk := d\<rparr>"
  by (auto simp: pxGet_def split: prod.splits)

lemma pxGet_id: "rs_ID (fst (pxGet E req px)) = rq_ID req"
  by (simp add: pxGet_def responseOf_def Let_def split: prod.splits)

lemma putRespItem_frame: "\<exists>d. snd (putRespItem E it b px) = px\<lparr>px_disk := d\<rparr>"
  by (auto simp: putRespItem_def split: prod.splits option.splits)

lemma pxPutOne_frame: "\<exists>n d. snd (pxPutOne E req b px) = px\<lparr>px_puts := n, px_disk := d\<rparr>"
proof -
  let ?px = "px\<lparr>px_puts := px_puts px + 1\<rparr>"
  obtain r px2 where p: "putRespItem E (itemOfPut req) b ?px = (r, px2)" by fastforce
  obtain d where d: "px2 = ?px\<lparr>px_disk := d\<rparr>" using putRespItem_frame [of E "itemOfPut req" b ?px] p by auto
  obtain d' where d': "snd (pxGet E req px2) = px2\<lparr>px_disk := d'\<rparr>" using pxGet_frame by blast
  have "snd (pxPutOne E req b px) = (if r = None then snd (pxGet E req px2) else px2)"
    by (simp add: pxPutOne_def p split: option.splits)
  then have "\<exists>d. snd (pxPutOne E req b px) = ?px\<lparr>px_disk := d\<rparr>" using d d' by auto
  then show ?thesis by blast
qed

text \<open>The channels and goroutines of a proxy, and the ids of the responses it has sent.\<close>

definition chans :: "'u proxy \<Rightarrow> request list \<times> request list \<times> batchJob list \<times> bool \<times> bool \<times> bool \<times> bool" where
  "chans px = (px_lookup px, px_batch px, px_jobs px, px_dispatching px, px_resolving px, px_consuming px,
     px_closed px)"

definition answeredIDs :: "'u proxy \<Rightarrow> int multiset" where
  "answeredIDs px = mset (map rs_ID (px_resps px))"

definition sameFlow :: "'u proxy \<Rightarrow> 'u proxy \<Rightarrow> bool" where
  "sameFlow px px' =
     (chans px' = chans px \<and> px_put px' = px_put px \<and> px_batchSem px' = px_batchSem px \<and>
      px_result px' = px_result px \<and> (px_upstream px' = None \<longleftrightarrow> px_upstream px = None))"

named_theorems flow_defs "the flow of requests through the proxy"

lemmas [flow_defs] = sameFlow_def chans_def answeredIDs_def

lemma sameFlow_refl [simp]: "sameFlow px px"
  by (simp add: sameFlow_def)

lemma sameFlow_trans: "sameFlow px px1 \<Longrightarrow> sameFlow px1 px2 \<Longrightarrow> sameFlow px px2"
  by (simp add: sameFlow_def)

lemma pxGet_flow: "pxGet E req px = (r, px') \<Longrightarrow> sameFlow px px' \<and> px_resps px' = px_resps px"
  using pxGet_frame [of E req px] by (auto simp: flow_defs)

lemma pxPutOne_flow: "pxPutOne E req b px = (r, px') \<Longrightarrow> sameFlow px px' \<and> px_resps px' = px_resps px"
  using pxPutOne_frame [of E req b px] by (auto simp: flow_defs)

lemma recordHitKind_flow: "sameFlow px (recordHitKind a px) \<and> px_resps (recordHitKind a px) = px_resps px"
  by (simp add: recordHitKind_def markUsedPreloaded_def Let_def flow_defs)

lemma shouldSkip_flow: "shouldSkipRemoteGet U px = (b, px') \<Longrightarrow> sameFlow px px' \<and> px_resps px' = px_resps px"
  by (auto simp: shouldSkipRemoteGet_def flow_defs split: if_splits option.splits)

lemma pxPut_flow:
  "pxPut E req b px = (r, px') \<Longrightarrow>
     chans px' = chans px \<and> px_resps px' = px_resps px \<and> px_batchSem px' = px_batchSem px \<and>
     px_result px' = px_result px"
  using pxGet_frame [of E req px] pxPutOne_frame [of E req b "snd (pxGet E req px)"]
  by (auto simp: pxPut_def Let_def flow_defs split: prod.splits if_splits)

lemma upstreamPut_flow: "sameFlow px (upstreamPut U E px) \<and> px_resps (upstreamPut U E px) = px_resps px"
  by (simp add: upstreamPut_def flow_defs split: option.splits prod.splits)

lemma consumeRequest_flow:
  "sameFlow px (consumeRequest U E req px) \<and> px_resps (consumeRequest U E req px) = px_resps px"
proof -
  obtain r px1 where g: "pxGet E req px = (r, px1)" by fastforce
  have px1: "sameFlow px px1" "px_resps px1 = px_resps px" using pxGet_flow [OF g] by simp_all
  have up: "sameFlow px (upstreamPut U E q\<lparr>px_toPut := []\<rparr>)"
      "px_resps (upstreamPut U E q\<lparr>px_toPut := []\<rparr>) = px_resps px"
    if "sameFlow px q" "px_resps q = px_resps px" for q
    using that upstreamPut_flow [of q U E] sameFlow_trans by (auto simp: flow_defs)
  have upd: "sameFlow px (px1\<lparr>px_toPut := is, px_sumSize := n, px_batchPuts := k\<rparr>)"
      "sameFlow px (px1\<lparr>px_toPut := is, px_sumSize := n\<rparr>)"
      "sameFlow px (px1\<lparr>px_sumSize := n, px_toPut := is\<rparr>)" "sameFlow px (px1\<lparr>px_skippedPuts := k\<rparr>)" for "is" n k
    using px1(1) by (simp_all add: flow_defs)
  show ?thesis
    unfolding consumeRequest_def g Let_def prod.case
    using px1(2) up upd by simp
qed

lemma closeDisk_flow: "closeDisk E px = (r, px') \<Longrightarrow> sameFlow px px' \<and> px_resps px' = px_resps px"
  by (auto simp: closeDisk_def flow_defs split: prod.splits)

lemma finishClose_flow: "finishClose U E px = (r, px') \<Longrightarrow> sameFlow px px' \<and> px_resps px' = px_resps px"
  by (auto simp: finishClose_def Let_def closeDisk_def flow_defs
      split: if_splits option.splits prod.splits)

section \<open>Requests grouped by action\<close>

definition groupIDs :: "(string \<times> request list) list \<Rightarrow> int multiset" where
  "groupIDs m = sum_list (map (\<lambda>kv. mset (map rq_ID (snd kv))) m)"

definition unanswered :: "(string \<times> request list) list \<Rightarrow> string list \<Rightarrow> (string \<times> request list) list" where
  "unanswered m answered = filter (\<lambda>kv. fst kv \<notin> set answered) m"

lemma groupIDs_update:
  "wf_map m \<Longrightarrow> groupIDs (AList.update a (mget0 [] m a @ [req]) m) = add_mset (rq_ID req) (groupIDs m)"
proof (induction m)
  case (Cons kv m)
  obtain k v where kv: "kv = (k, v)" by (cases kv)
  have "mget0 [] (kv # m) a = (if k = a then v else mget0 [] m a)" by (simp add: mget0_def kv)
  then show ?case using Cons by (auto simp: groupIDs_def kv)
qed (simp add: groupIDs_def mget0_def)

lemma reqsByAction_ok:
  "wf_map (reqsByAction batch) \<and> groupIDs (reqsByAction batch) = mset (map rq_ID batch) \<and>
   (\<forall>kv \<in> set (reqsByAction batch). snd kv \<noteq> []) \<and> length (reqsByAction batch) \<le> length batch"
proof (induction batch rule: rev_induct)
  case Nil
  then show ?case by (simp add: reqsByAction_def groupIDs_def)
next
  case (snoc r batch)
  let ?m = "reqsByAction batch"
  have m: "reqsByAction (batch @ [r]) = AList.update (rq_ActionID r) (mget0 [] ?m (rq_ActionID r) @ [r]) ?m"
    by (simp add: reqsByAction_def addReq_def)
  have "length (AList.update k v n) \<le> Suc (length n)" for k v and n :: "(string \<times> request list) list"
    by (induction n) auto
  then show ?case
    using snoc groupIDs_update [of ?m "rq_ActionID r" r] unfolding m
    by (auto simp: set_update_wf intro: le_trans)
qed

lemma unanswered_split:
  assumes "wf_map m" "a \<notin> set answered"
  shows "groupIDs (unanswered m answered) =
    mset (map rq_ID (mget0 [] m a)) + groupIDs (unanswered m (answered @ [a]))"
  using assms
proof (induction m)
  case (Cons kv m)
  obtain k v where kv: "kv = (k, v)" by (cases kv)
  show ?case
  proof (cases "k = a")
    case True
    then have "map_of m a = None" using Cons.prems kv by (auto simp: map_of_eq_None_iff)
    then have "mget0 [] m a = []" by (simp add: mget0_def)
    then show ?thesis using Cons kv True by (auto simp: groupIDs_def unanswered_def mget0_def)
  next
    case False
    then have "mget0 [] (kv # m) a = mget0 [] m a" by (simp add: mget0_def kv)
    then show ?thesis using Cons kv False by (auto simp: groupIDs_def unanswered_def)
  qed
qed (simp add: groupIDs_def unanswered_def mget0_def)

lemma mget0_notin: "a \<notin> fst ` set m \<Longrightarrow> mget0 z m a = z"
  by (simp add: mget0_def map_of_eq_None_iff [THEN iffD2])

lemma respondAll_answers:
  "sameFlow px (respondAll m a rs px) \<and>
   answeredIDs (respondAll m a rs px) = answeredIDs px + mset (map rq_ID (mget0 [] m a))"
  by (simp add: respondAll_def flow_defs comp_def)

lemma onItem_answers:
  assumes "onItem E m it px = Inr px'"
  shows "sameFlow px px' \<and> answeredIDs px' = answeredIDs px + mset (map rq_ID (mget0 [] m (ri_ActionID it)))"
proof -
  let ?a = "ri_ActionID it"
  have r: "sameFlow px (respondAll m ?a rs q) \<and>
      answeredIDs (respondAll m ?a rs q) = answeredIDs px + mset (map rq_ID (mget0 [] m ?a))"
    if "sameFlow px q" "px_resps q = px_resps px" for rs q
    using that respondAll_answers [of q m ?a rs] sameFlow_trans by (auto simp: answeredIDs_def)
  have p: "sameFlow px q'" "px_resps q' = px_resps px"
    if "pxPutOne E req b (px\<lparr>px_hits := h, px_regularHits := h'\<rparr>) = (r, q')" for req b h h' r q'
    using pxPutOne_flow [OF that] by (simp_all add: flow_defs)
  have h: "sameFlow px (px\<lparr>px_misses := n\<rparr>)" for n by (simp add: flow_defs)
  show ?thesis
    using assms r h p unfolding onItem_def Let_def
    by (auto split: if_splits sum.splits list.splits prod.splits)
qed

text \<open>The only panic of the callback: an item for an action the batch does not hold.\<close>

lemma onItem_no_panic:
  assumes "mget0 [] m (ri_ActionID it) \<noteq> []"
  shows "\<exists>px'. onItem E m it px = Inr px'"
  using assms by (auto simp: onItem_def Let_def split: sum.splits list.splits prod.splits)

lemma finishBatch_answers:
  assumes "wf_map m"
  shows "sameFlow px (finishBatch m answered px) \<and>
    answeredIDs (finishBatch m answered px) = answeredIDs px + groupIDs (unanswered m answered)"
proof -
  let ?step = "\<lambda>px a. missAll m a px"
  have one: "sameFlow q (missAll m a q) \<and> answeredIDs (missAll m a q) = answeredIDs q + mset (map rq_ID (mget0 [] m a))"
    for q a
    using respondAll_answers [of "q\<lparr>px_misses := px_misses q + int (length (mget0 [] m a))\<rparr>" m a "emptyResponse\<lparr>rs_Miss := True\<rparr>"]
    by (simp add: missAll_def flow_defs)
  have all: "sameFlow q (foldl ?step q as) \<and>
      answeredIDs (foldl ?step q as) = answeredIDs q + sum_list (map (\<lambda>a. mset (map rq_ID (mget0 [] m a))) as)" for q as
  proof (induction as arbitrary: q)
    case (Cons a as)
    then show ?case using one [of q a] sameFlow_trans by (fastforce simp: add.assoc)
  qed simp
  have "map (\<lambda>a. mset (map rq_ID (mget0 [] m a))) (filter (\<lambda>a. a \<notin> set answered) (mkeys m)) =
      map (\<lambda>kv. mset (map rq_ID (snd kv))) (unanswered m answered)"
    using assms by (auto simp: unanswered_def filter_map comp_def mget0_def intro!: map_cong split: option.splits)
  then show ?thesis using all [of px] by (simp add: finishBatch_def groupIDs_def)
qed


section \<open>The flow of requests\<close>

fun jobIDs :: "batchJob \<Rightarrow> int multiset" where
  "jobIDs (JobWaiting batch) = mset (map rq_ID batch)"
| "jobIDs (JobStreaming m answered its) = groupIDs (unanswered m answered)"

fun jobOk :: "batchJob \<Rightarrow> bool" where
  "jobOk (JobWaiting batch) = True"
| "jobOk (JobStreaming m answered its) =
     (wf_map m \<and> (\<forall>kv \<in> set m. snd kv \<noteq> []) \<and> distinct (answered @ map ri_ActionID its) \<and>
      ri_ActionID ` set its \<subseteq> fst ` set m)"

fun jobWork :: "batchJob \<Rightarrow> nat" where
  "jobWork (JobWaiting batch) = length batch + 2"
| "jobWork (JobStreaming m answered its) = length its + 1"

definition pendingIDs :: "'u proxy \<Rightarrow> int multiset" where
  "pendingIDs px =
     mset (map rq_ID (px_lookup px)) + mset (map rq_ID (px_batch px)) + sum_list (map jobIDs (px_jobs px))"

text \<open>A bound on the steps the goroutines can still take.\<close>

definition proxyWork :: "'u proxy \<Rightarrow> nat" where
  "proxyWork px =
     7 * length (px_lookup px) + 5 * length (px_batch px) + sum_list (map jobWork (px_jobs px)) +
     length (px_put px) + (if px_dispatching px then 0 else 1) + (if px_resolving px then 1 else 0) +
     (if px_consuming px then 1 else 0) + (if px_closed px then 0 else 1) +
     (if px_result px = None then 1 else 0)"

definition lookupsOf :: "pxEvent list \<Rightarrow> request list" where
  "lookupsOf evs = concat (map (\<lambda>ev. case ev of EvLookup E req \<Rightarrow> [req] | _ \<Rightarrow> []) evs)"

definition internal :: "pxEvent \<Rightarrow> bool" where
  "internal ev = (case ev of EvLookup E req \<Rightarrow> False | EvPut E req b \<Rightarrow> False | _ \<Rightarrow> True)"

definition flow_ok :: "'u proxy \<Rightarrow> request list \<Rightarrow> bool" where
  "flow_ok px reqs =
     (answeredIDs px + pendingIDs px = mset (map rq_ID reqs) \<and>
      (\<forall>j \<in> set (px_jobs px). jobOk j) \<and> (\<forall>req \<in> set (px_lookup px). rq_ID req \<noteq> 0) \<and>
      (px_upstream px = None \<longrightarrow> px_lookup px = [] \<and> px_batch px = [] \<and> px_jobs px = []) \<and>
      (px_dispatching px \<longrightarrow> px_batch px \<noteq> []) \<and> 1 \<le> px_batchSem px \<and>
      (px_closed px \<or> px_resolving px))"

lemma jobs_split:
  fixes f :: "batchJob \<Rightarrow> 'a :: comm_monoid_add"
  assumes "i < length js"
  shows "sum_list (map f js) = f (js ! i) + sum_list (map f (dropNth i js))"
    and "sum_list (map f (js[i := j])) = f j + sum_list (map f (dropNth i js))"
proof -
  have "sum_list (map f (take i js @ x # drop (Suc i) js)) = f x + sum_list (map f (dropNth i js))" for x
    by (simp add: dropNth_def add.left_commute)
  then show "sum_list (map f js) = f (js ! i) + sum_list (map f (dropNth i js))"
    "sum_list (map f (js[i := j])) = f j + sum_list (map f (dropNth i js))"
    using id_take_nth_drop [OF assms] upd_conv_take_nth_drop [OF assms] by metis+
qed

lemma set_dropNth: "set (dropNth i js) \<subseteq> set js"
  by (auto simp: dropNth_def dest: in_set_takeD in_set_dropD)

lemma flow_ok_same:
  assumes "flow_ok px reqs" "sameFlow px px'" "px_resps px' = px_resps px"
  shows "flow_ok px' reqs"
  using assms by (simp add: flow_ok_def pendingIDs_def flow_defs)

lemma flow_ok_flags:
  "flow_ok px reqs \<Longrightarrow> px_closed px \<Longrightarrow> flow_ok (px\<lparr>px_resolving := b\<rparr>) reqs"
  "flow_ok px reqs \<Longrightarrow> flow_ok (px\<lparr>px_closed := True\<rparr>) reqs"
  "flow_ok px reqs \<Longrightarrow> px_batch px \<noteq> [] \<Longrightarrow> flow_ok (px\<lparr>px_dispatching := b\<rparr>) reqs"
  by (simp_all add: flow_ok_def pendingIDs_def answeredIDs_def)

lemma work_same: "sameFlow px px' \<Longrightarrow> proxyWork px' = proxyWork px"
  by (simp add: proxyWork_def flow_defs)

text \<open>The law of the upstream: every action is answered at most once, and no other is.\<close>

definition answersOnce :: "'u upstream \<Rightarrow> bool" where
  "answersOnce U =
     (\<forall>ids u its err u'. distinct ids \<longrightarrow> upGet U ids u = ((its, err), u') \<longrightarrow>
        distinct (map ri_ActionID its) \<and> ri_ActionID ` set its \<subseteq> set ids)"

lemma resolveRequest_ok:
  assumes ok: "flow_ok px reqs" and q: "px_lookup px = req # q" "\<not> px_dispatching px"
  shows "flow_ok (resolveRequest E req (px\<lparr>px_lookup := q\<rparr>)) reqs \<and>
    proxyWork (resolveRequest E req (px\<lparr>px_lookup := q\<rparr>)) < proxyWork px"
proof -
  obtain r px1 where g: "pxGet E req (px\<lparr>px_lookup := q\<rparr>) = (r, px1)" by fastforce
  have f: "sameFlow (px\<lparr>px_lookup := q\<rparr>) px1" "px_resps px1 = px_resps px"
    using pxGet_flow [OF g] by simp_all
  have id: "rs_ID r = rq_ID req" using pxGet_id [of E req "px\<lparr>px_lookup := q\<rparr>"] g by simp
  let ?h = "recordHitKind (rq_ActionID req) (px1\<lparr>px_hits := px_hits px1 + 1\<rparr>)"
  have h: "sameFlow (px1\<lparr>px_hits := px_hits px1 + 1\<rparr>) ?h" "px_resps ?h = px_resps px1"
    using recordHitKind_flow [of "px1\<lparr>px_hits := px_hits px1 + 1\<rparr>" "rq_ActionID req"] by simp_all
  show ?thesis
    using ok q f h id
    by (auto simp: resolveRequest_def g flow_ok_def pendingIDs_def proxyWork_def flow_defs sendResp_def)
qed

lemma Lookup_ok:
  assumes ok: "flow_ok px reqs" and id: "rq_ID req \<noteq> 0"
  shows "flow_ok (Lookup U E req px) (reqs @ [req])"
proof -
  let ?u = "recordUsedActionID (rq_ActionID req) px"
  have u: "sameFlow px ?u" "px_resps ?u = px_resps px" by (simp_all add: recordUsedActionID_def flow_defs)
  have ok': "flow_ok q reqs" if "sameFlow px q" "px_resps q = px_resps px" for q
    using flow_ok_same [OF ok that] .
  have send: "flow_ok (sendResp r q) (reqs @ [req])"
    if "sameFlow px q" "px_resps q = px_resps px" "rs_ID r = rq_ID req" for r q
    using ok' [OF that(1,2)] that(3) by (simp add: flow_ok_def pendingIDs_def flow_defs sendResp_def)
  have get: "sameFlow px q'" "px_resps q' = px_resps px" "rs_ID r = rq_ID req"
    if "pxGet E req q = (r, q')" "sameFlow px q" "px_resps q = px_resps px" for r q q'
    using pxGet_flow [OF that(1)] sameFlow_trans [OF that(2)] that(3) pxGet_id [of E req q] that(1)
    by simp_all
  show ?thesis
  proof (cases "px_upstream ?u")
    case None
    obtain r q where "pxGet E req ?u = (r, q)" by fastforce
    from send [OF get [OF this u]] show ?thesis by (simp add: Lookup_def Let_def None \<open>pxGet E req ?u = _\<close>)
  next
    case (Some v)
    let ?l = "?u\<lparr>px_lookups := px_lookups ?u + 1\<rparr>"
    obtain b px1 where s: "shouldSkipRemoteGet U ?l = (b, px1)" by fastforce
    have px1: "sameFlow px px1" "px_resps px1 = px_resps px"
      using shouldSkip_flow [OF s] u by (auto simp: flow_defs)
    show ?thesis
    proof (cases b)
      case False
      then show ?thesis
        using ok' [OF px1] id Some px1 u s
        by (auto simp: Lookup_def Let_def flow_ok_def pendingIDs_def flow_defs)
    next
      case True
      obtain r px2 where g: "pxGet E req px1 = (r, px2)" by fastforce
      note px2 = get [OF g px1]
      have "sameFlow px (recordHitKind a (px2\<lparr>px_hits := n\<rparr>))"
        "px_resps (recordHitKind a (px2\<lparr>px_hits := n\<rparr>)) = px_resps px" for a n
        using recordHitKind_flow [of "px2\<lparr>px_hits := n\<rparr>" a] px2(1,2) by (auto simp: flow_defs)
      moreover have "sameFlow px (px2\<lparr>px_misses := n\<rparr>)" for n using px2(1) by (simp add: flow_defs)
      ultimately show ?thesis
        using send px2(2,3) by (simp add: Lookup_def Let_def Some s True g)
    qed
  qed
qed

lemma flow_ok_jobs:
  assumes ok: "flow_ok px reqs" and i: "i < length (px_jobs px)"
    and f: "sameFlow px px'" "answeredIDs px' + X = answeredIDs px + jobIDs (px_jobs px ! i)"
    and js: "sum_list (map jobIDs js) = X + sum_list (map jobIDs (dropNth i (px_jobs px)))"
      "sum_list (map jobWork js) < sum_list (map jobWork (px_jobs px))" "\<forall>j \<in> set js. jobOk j"
  shows "flow_ok (px'\<lparr>px_jobs := js\<rparr>) reqs \<and> proxyWork (px'\<lparr>px_jobs := js\<rparr>) < proxyWork px"
proof -
  let ?rest = "sum_list (map jobIDs (dropNth i (px_jobs px)))"
  let ?w = "mset (map rq_ID (px_lookup px)) + mset (map rq_ID (px_batch px))"
  have ids: "answeredIDs px + (?w + (jobIDs (px_jobs px ! i) + ?rest)) = mset (map rq_ID reqs)"
    using ok jobs_split(1) [OF i, of jobIDs] by (simp add: flow_ok_def pendingIDs_def)
  have same: "px_lookup px' = px_lookup px" "px_batch px' = px_batch px"
    "px_upstream px' = None \<longleftrightarrow> px_upstream px = None" "px_dispatching px' = px_dispatching px"
    "px_batchSem px' = px_batchSem px" "px_put px' = px_put px" "px_resolving px' = px_resolving px"
    "px_consuming px' = px_consuming px" "px_closed px' = px_closed px" "px_result px' = px_result px"
    using f(1) by (simp_all add: sameFlow_def chans_def)
  have "answeredIDs px' + (?w + (X + ?rest)) = mset (map rq_ID reqs)"
    using f(2) ids by (metis (no_types, lifting) add.assoc add.commute)
  then have "answeredIDs (px'\<lparr>px_jobs := js\<rparr>) + pendingIDs (px'\<lparr>px_jobs := js\<rparr>) = mset (map rq_ID reqs)"
    using js(1) same by (simp add: pendingIDs_def answeredIDs_def)
  moreover have "px_jobs px \<noteq> []" using i by auto
  ultimately show ?thesis
    using ok js(2,3) same by (auto simp: flow_ok_def proxyWork_def)
qed

lemma flow_ok_job:
  assumes ok: "flow_ok px reqs" and i: "i < length (px_jobs px)"
    and f: "sameFlow px px'" "answeredIDs px' + jobIDs j = answeredIDs px + jobIDs (px_jobs px ! i)"
    and j: "jobOk j" "jobWork j < jobWork (px_jobs px ! i)"
  shows "let q = px'\<lparr>px_jobs := (px_jobs px')[i := j]\<rparr> in flow_ok q reqs \<and> proxyWork q < proxyWork px"
proof -
  have "\<forall>j' \<in> set ((px_jobs px)[i := j]). jobOk j'"
    using ok j(1) set_update_subset_insert [of "px_jobs px" i j] by (auto simp: flow_ok_def)
  from flow_ok_jobs [OF ok i f jobs_split(2) [OF i] _ this] show ?thesis
    using j(2) f(1) jobs_split [OF i, of jobWork] by (simp add: sameFlow_def chans_def)
qed

lemma flow_ok_lastJob:
  assumes ok: "flow_ok px reqs" and i: "i < length (px_jobs px)"
    and f: "sameFlow px px'" "answeredIDs px' = answeredIDs px + jobIDs (px_jobs px ! i)"
    and j: "0 < jobWork (px_jobs px ! i)"
  shows "let q = px'\<lparr>px_jobs := dropNth i (px_jobs px')\<rparr> in flow_ok q reqs \<and> proxyWork q < proxyWork px"
proof -
  have "\<forall>j' \<in> set (dropNth i (px_jobs px)). jobOk j'"
    using ok set_dropNth by (fastforce simp: flow_ok_def)
  from flow_ok_jobs [OF ok i f(1) _ _ _ this, of "{#}"] show ?thesis
    using j f jobs_split(1) [OF i, of jobWork] by (simp add: sameFlow_def chans_def)
qed

section \<open>An upstream that answers once\<close>

locale answering_upstream =
  fixes U :: "'u upstream"
  assumes once: "answersOnce U"
begin

lemma startBatch_ok:
  assumes "startBatch U batch px = (j, px')" "px_upstream px \<noteq> None"
  shows "jobOk j \<and> jobIDs j = mset (map rq_ID batch) \<and> jobWork j < length batch + 2 \<and>
    sameFlow px px' \<and> answeredIDs px' = answeredIDs px"
proof -
  obtain u where u: "px_upstream px = Some u" using assms(2) by blast
  obtain its err u' where g: "upGet U (mkeys (reqsByAction batch)) u = ((its, err), u')"
    by (metis prod.collapse)
  note m = reqsByAction_ok [of batch]
  have a: "distinct (map ri_ActionID its)" "ri_ActionID ` set its \<subseteq> fst ` set (reqsByAction batch)"
    using once m g unfolding answersOnce_def by (metis list.set_map)+
  have "length its \<le> length (reqsByAction batch)"
    using card_mono [OF _ a(2)] distinct_card [OF a(1)] distinct_card [of "mkeys (reqsByAction batch)"] m by simp
  then show ?thesis
    using assms(1) u g m a by (auto simp: startBatch_def Let_def unanswered_def flow_defs)
qed

lemma jobItem_ok:
  assumes ok: "flow_ok px reqs" and i: "i < length (px_jobs px)"
    and j: "px_jobs px ! i = JobStreaming m answered (it # its)"
  shows "\<exists>px'. onItem E m it px = Inr px' \<and>
    (let q = px'\<lparr>px_jobs := (px_jobs px')[i := JobStreaming m (answered @ [ri_ActionID it]) its]\<rparr>
     in flow_ok q reqs \<and> proxyWork q < proxyWork px)"
proof -
  have "jobOk (px_jobs px ! i)" using ok nth_mem [OF i] by (auto simp: flow_ok_def)
  then have jo: "jobOk (JobStreaming m answered (it # its))" unfolding j .
  let ?a = "ri_ActionID it"
  have "mget0 [] m ?a \<noteq> []"
    using jo by (auto simp: mget0_def map_of_eq_None_iff dest!: map_of_SomeD split: option.splits)
  then obtain px' where it: "onItem E m it px = Inr px'" using onItem_no_panic by blast
  note f = onItem_answers [OF it]
  have "groupIDs (unanswered m answered) =
      mset (map rq_ID (mget0 [] m ?a)) + groupIDs (unanswered m (answered @ [?a]))"
    using jo by (intro unanswered_split) auto
  then have "answeredIDs px' + groupIDs (unanswered m (answered @ [?a])) = answeredIDs px + jobIDs (px_jobs px ! i)"
    using f j by (simp add: add.assoc)
  then have "let q = px'\<lparr>px_jobs := (px_jobs px')[i := JobStreaming m (answered @ [?a]) its]\<rparr>
      in flow_ok q reqs \<and> proxyWork q < proxyWork px"
    using jo j f by (intro flow_ok_job [OF ok i]) auto
  then show ?thesis using it by simp
qed

lemma jobEnd_ok:
  assumes ok: "flow_ok px reqs" and i: "i < length (px_jobs px)"
    and j: "px_jobs px ! i = JobStreaming m answered []"
  shows "let q = finishBatch m answered px
    in flow_ok (q\<lparr>px_jobs := dropNth i (px_jobs q)\<rparr>) reqs \<and> proxyWork (q\<lparr>px_jobs := dropNth i (px_jobs q)\<rparr>) < proxyWork px"
proof -
  have "wf_map m" using ok i j nth_mem [OF i] by (fastforce simp: flow_ok_def)
  note f = finishBatch_answers [OF this, of px answered]
  then have "answeredIDs (finishBatch m answered px) = answeredIDs px + jobIDs (px_jobs px ! i)"
    using j by simp
  from flow_ok_lastJob [OF ok i conjunct1 [OF f] this] show ?thesis using j by (simp add: Let_def)
qed

lemma jobStart_ok:
  assumes ok: "flow_ok px reqs" and i: "i < length (px_jobs px)" and j: "px_jobs px ! i = JobWaiting batch"
    and s: "startBatch U batch px = (j', px')"
  shows "let q = px'\<lparr>px_jobs := (px_jobs px')[i := j']\<rparr> in flow_ok q reqs \<and> proxyWork q < proxyWork px"
proof -
  have "px_upstream px \<noteq> None" using ok i by (auto simp: flow_ok_def)
  note b = startBatch_ok [OF s this]
  then have "answeredIDs px' + jobIDs j' = answeredIDs px + jobIDs (px_jobs px ! i)" using j by simp
  from flow_ok_job [OF ok i _ this] show ?thesis using b j by simp
qed

text \<open>No step panics, each keeps the account of the requests, and one that no caller makes brings the
  proxy closer to rest.\<close>

lemma pxStep_ok:
  assumes ok: "flow_ok px reqs" and s: "pxStep U px ev = Some r"
    and id: "\<forall>req \<in> set (lookupsOf [ev]). rq_ID req \<noteq> 0"
  shows "\<exists>px'. r = Inr px' \<and> flow_ok px' (reqs @ lookupsOf [ev]) \<and> (internal ev \<longrightarrow> proxyWork px' < proxyWork px)"
proof (cases ev)
  case (EvLookup E req)
  then show ?thesis using s id Lookup_ok [OF ok] by (auto simp: pxStep_def internal_def lookupsOf_def split: if_splits)
next
  case (EvPut E req b)
  obtain x px' where p: "pxPut E req b px = (x, px')" by fastforce
  have "px_upstream px' = None \<longleftrightarrow> px_upstream px = None"
    using p pxGet_frame [of E req px] pxPutOne_frame [of E req b "snd (pxGet E req px)"]
    by (auto simp: pxPut_def Let_def split: prod.splits if_splits)
  then show ?thesis
    using s ok pxPut_flow [OF p] p EvPut
    by (auto simp: pxStep_def internal_def lookupsOf_def flow_ok_def pendingIDs_def chans_def answeredIDs_def split: if_splits)
next
  case (EvReceive E)
  then show ?thesis
    using s resolveRequest_ok [OF ok]
    by (auto simp: pxStep_def internal_def lookupsOf_def split: if_splits list.splits)
next
  case (EvJobStart i)
  then show ?thesis
    using s jobStart_ok [OF ok, of i]
    by (cases "px_jobs px ! i") (auto simp: pxStep_def internal_def lookupsOf_def Let_def split: if_splits prod.splits)
next
  case (EvJobItem E i)
  then have i: "i < length (px_jobs px)" using s by (simp add: pxStep_def split: if_splits)
  show ?thesis
  proof (cases "px_jobs px ! i")
    case (JobWaiting b)
    then show ?thesis using s EvJobItem i by (simp add: pxStep_def)
  next
    case (JobStreaming m answered its)
    then obtain it its' where "its = it # its'" using s EvJobItem i by (cases its) (auto simp: pxStep_def)
    then show ?thesis
      using jobItem_ok [OF ok i, of m answered it its' E] s EvJobItem i JobStreaming
      by (auto simp: pxStep_def internal_def lookupsOf_def Let_def)
  qed
next
  case (EvJobEnd i)
  then have i: "i < length (px_jobs px)" using s by (simp add: pxStep_def split: if_splits)
  show ?thesis
  proof (cases "px_jobs px ! i")
    case (JobWaiting b)
    then show ?thesis using s EvJobEnd i by (simp add: pxStep_def)
  next
    case (JobStreaming m answered its)
    then have "its = []" using s EvJobEnd i by (cases its) (auto simp: pxStep_def)
    then show ?thesis
      using jobEnd_ok [OF ok i, of m answered] s EvJobEnd i JobStreaming
      by (auto simp: pxStep_def internal_def lookupsOf_def Let_def)
  qed
next
  case EvDispatch
  let ?q = "px\<lparr>px_jobs := px_jobs px @ [JobWaiting (px_batch px)], px_batch := [], px_dispatching := False\<rparr>"
  have d: "px_dispatching px" "r = Inr ?q" using s EvDispatch by (simp_all add: pxStep_def split: if_splits)
  then have n: "0 < length (px_batch px)" using ok by (simp add: flow_ok_def)
  have "pendingIDs ?q = pendingIDs px" "answeredIDs ?q = answeredIDs px"
    by (simp_all add: pendingIDs_def answeredIDs_def add.assoc add.commute)
  then have "flow_ok ?q reqs" using ok n by (auto simp: flow_ok_def)
  moreover have "proxyWork ?q < proxyWork px" using d(1) n by (cases "px_batch px") (simp_all add: proxyWork_def)
  ultimately show ?thesis using d(2) EvDispatch by (simp add: lookupsOf_def)
next
  case (EvConsume E)
  then obtain req q where q: "px_put px = req # q" "r = Inr (consumeRequest U E req (px\<lparr>px_put := q\<rparr>))"
    using s by (auto simp: pxStep_def split: list.splits if_splits)
  have "flow_ok (px\<lparr>px_put := q\<rparr>) reqs" "proxyWork (px\<lparr>px_put := q\<rparr>) < proxyWork px"
    using ok q by (simp_all add: flow_ok_def pendingIDs_def answeredIDs_def proxyWork_def)
  then show ?thesis
    using consumeRequest_flow [of "px\<lparr>px_put := q\<rparr>" U E req] flow_ok_same work_same q EvConsume
    by (fastforce simp: internal_def lookupsOf_def)
next
  case (EvConsumeEnd E)
  then have r: "r = Inr (consumeEnd U E px)" "px_consuming px"
    using s by (auto simp: pxStep_def split: if_splits)
  let ?q = "if px_toPut px = [] then px else upstreamPut U E px"
  have "flow_ok ?q reqs" "sameFlow px ?q"
    using flow_ok_same [OF ok] upstreamPut_flow [of px U E] ok by auto
  then have "flow_ok (?q\<lparr>px_consuming := False\<rparr>) reqs"
    by (simp add: flow_ok_def pendingIDs_def answeredIDs_def)
  moreover have "proxyWork (?q\<lparr>px_consuming := False\<rparr>) < proxyWork px"
    using r(2) \<open>sameFlow px ?q\<close> work_same [OF \<open>sameFlow px ?q\<close>]
    by (simp add: proxyWork_def sameFlow_def chans_def)
  ultimately show ?thesis using r(1) ok EvConsumeEnd by (auto simp: consumeEnd_def lookupsOf_def)
next
  case (EvFinish E)
  obtain x px' where f: "finishClose U E px = (x, px')" by fastforce
  then have r: "r = Inr (px'\<lparr>px_result := Some x\<rparr>)" "px_result px = None"
    using s EvFinish by (simp_all add: pxStep_def split: if_splits)
  have "flow_ok px' reqs" "sameFlow px px'" using flow_ok_same [OF ok] finishClose_flow [OF f] by auto
  then have "flow_ok (px'\<lparr>px_result := Some x\<rparr>) reqs" "proxyWork (px'\<lparr>px_result := Some x\<rparr>) < proxyWork px"
    using r(2) work_same [OF \<open>sameFlow px px'\<close>]
    by (simp_all add: flow_ok_def pendingIDs_def answeredIDs_def proxyWork_def sameFlow_def)
  then show ?thesis using r(1) EvFinish by (simp add: lookupsOf_def)
next
  case EvTick
  then have "r = Inr (px\<lparr>px_dispatching := True\<rparr>)" "px_batch px \<noteq> []" "\<not> px_dispatching px"
    using s by (simp_all add: pxStep_def split: if_splits)
  then show ?thesis using ok flow_ok_flags EvTick by (simp add: lookupsOf_def proxyWork_def)
next
  case EvResolveEnd
  then have "r = Inr (px\<lparr>px_resolving := False\<rparr>)" "px_resolving px" "px_closed px"
    using s by (simp_all add: pxStep_def split: if_splits)
  then show ?thesis using ok flow_ok_flags EvResolveEnd by (simp add: lookupsOf_def proxyWork_def)
next
  case EvClose
  then have "r = Inr (px\<lparr>px_closed := True\<rparr>)" "\<not> px_closed px"
    using s by (simp_all add: pxStep_def split: if_splits)
  then show ?thesis using ok flow_ok_flags EvClose by (simp add: lookupsOf_def proxyWork_def)
qed

lemma pxRun_ok:
  assumes "pxRun U px0 evs px" "flow_ok px0 reqs" "\<forall>req \<in> set (lookupsOf evs). rq_ID req \<noteq> 0"
  shows "flow_ok px (reqs @ lookupsOf evs)"
  using assms
proof (induction rule: pxRun.induct)
  case (start px)
  then show ?case by (simp add: lookupsOf_def)
next
  case (step px evs px' ev px'')
  have "lookupsOf (evs @ [ev]) = lookupsOf evs @ lookupsOf [ev]" by (simp add: lookupsOf_def)
  then show ?case using pxStep_ok [OF _ step.hyps(2)] step.IH step.prems by fastforce
qed

lemma pxRun_bound:
  assumes "pxRun U px0 evs px" "flow_ok px0 reqs" "\<forall>ev \<in> set evs. internal ev"
  shows "length evs + proxyWork px \<le> proxyWork px0"
  using assms
proof (induction rule: pxRun.induct)
  case (step px evs px' ev px'')
  have l: "lookupsOf (evs @ [ev]) = []" "lookupsOf evs = []" "lookupsOf [ev] = []"
    using step.prems(2) by (auto simp: lookupsOf_def internal_def split: pxEvent.splits)
  have "flow_ok px' reqs" using pxRun_ok [OF step.hyps(1) step.prems(1)] l by simp
  then show ?case using pxStep_ok [OF _ step.hyps(2), of reqs] l step by fastforce
qed simp

text \<open>While the resolver runs, the proxy is at rest only when nothing is pending.\<close>

lemma rest_answered:
  assumes ok: "flow_ok px reqs" "px_resolving px" and rest: "\<And>ev. internal ev \<Longrightarrow> ev \<noteq> EvClose \<Longrightarrow> pxStep U px ev = None"
  shows "pendingIDs px = {#}"
proof -
  have jobs: "px_jobs px = []"
  proof (rule ccontr)
    assume "px_jobs px \<noteq> []"
    then have i: "0 < length (px_jobs px)" by simp
    have r: "pxStep U px (EvJobStart 0) = None" "pxStep U px (EvJobItem undefined 0) = None" "pxStep U px (EvJobEnd 0) = None"
      using rest by (simp_all add: internal_def)
    show False
    proof (cases "px_jobs px ! 0")
      case (JobWaiting b)
      then show False using r i by (simp add: pxStep_def split: prod.splits)
    next
      case (JobStreaming m answered its)
      then show False using r i by (cases its) (auto simp: pxStep_def Let_def split: sum.splits)
    qed
  qed
  have d: "\<not> px_dispatching px"
    using rest [of EvDispatch] ok jobs by (auto simp: internal_def pxStep_def flow_ok_def split: if_splits)
  moreover have "px_lookup px = []"
    using rest [of "EvReceive undefined"] ok d by (auto simp: internal_def pxStep_def split: if_splits list.splits)
  moreover have "px_batch px = []"
    using rest [of EvTick] ok d by (auto simp: internal_def pxStep_def split: if_splits)
  ultimately show ?thesis using jobs by (simp add: pendingIDs_def)
qed

end

section \<open>The stores as upstreams\<close>

lemma GetL_ids: "map ri_ActionID (fst (GetL E s ids)) = ids"
proof (induction ids arbitrary: s)
  case (Cons a ids)
  obtain it s1 where g: "getOneL E s a = (it, s1)" by fastforce
  then have "ri_ActionID it = a"
    by (auto simp: getOneL_def missItem_def responseItemL_def Let_def split: option.splits if_splits)
  then show ?case using Cons [of s1] g by (auto split: prod.splits)
qed simp

interpretation stores: answering_upstream "storeUpstream E" for E
proof
  have "map ri_ActionID its = ids" if "upGet (storeUpstream E) ids u = ((its, err), u')" for ids u its err u'
    using that GetL_ids [of E u ids]
    by (auto simp: storeUpstream_def withReader_def comp_def split: prod.splits)
  then show "answersOnce (storeUpstream E)" unfolding answersOnce_def by (metis list.set_map order_refl)
qed

section \<open>Open proxies\<close>

lemma jobStep_closed:
  assumes "jobStep U px ev j = Some (Inr px')"
  shows "px_closed px' = px_closed px"
proof -
  have miss: "px_closed (foldl (\<lambda>px a. missAll m a px) q as) = px_closed q" for m as and q :: "'a proxy"
    by (induction as arbitrary: q) (simp_all add: missAll_def respondAll_def)
  have "px_closed q = px_closed px" if "onItem E m it px = Inr q" for E m it q
    using onItem_answers [OF that] by (simp add: sameFlow_def chans_def)
  then show ?thesis
    using assms miss
    by (cases "(U, px, ev, j)" rule: jobStep.cases)
      (auto simp: Let_def finishBatch_def startBatch_def split: sum.splits prod.splits option.splits)
qed

lemma pxStep_closed:
  assumes s: "pxStep U px ev = Some (Inr px')" and i: "internal ev" "ev \<noteq> EvClose"
  shows "px_closed px' = px_closed px"
proof -
  have fin: "px_closed q = px_closed px" if "finishClose U E px = (x, q)" for E x q
    using finishClose_flow [OF that] by (simp add: sameFlow_def chans_def)
  have con: "px_closed (consumeRequest U E req (px\<lparr>px_put := q\<rparr>)) = px_closed px" for E req q
    using consumeRequest_flow [of "px\<lparr>px_put := q\<rparr>" U E req] by (simp add: sameFlow_def chans_def)
  have up: "px_closed (upstreamPut U E px) = px_closed px" for E
    using upstreamPut_flow [of px U E] by (simp add: sameFlow_def chans_def)
  have get: "px_closed q = px_closed px" if "pxGet E req (px\<lparr>px_lookup := qs\<rparr>) = (r, q)" for E req qs r q
    using pxGet_flow [OF that] by (simp add: sameFlow_def chans_def)
  have hit: "px_closed (recordHitKind a q) = px_closed q" for a and q :: "'a proxy"
    using recordHitKind_flow [of q a] by (simp add: sameFlow_def chans_def)
  show ?thesis
    using s i fin con up get
    by (cases ev)
      (auto simp: pxStep_def internal_def resolveRequest_def sendResp_def consumeEnd_def hit jobStep_closed
        split: if_splits list.splits prod.splits)
qed

lemma pxRun_closed:
  assumes "pxRun U px evs px'" "\<forall>ev \<in> set evs. internal ev \<and> ev \<noteq> EvClose"
  shows "px_closed px' = px_closed px"
  using assms by (induction rule: pxRun.induct) (auto dest: pxStep_closed)

lemma NewProxy_ok: "flow_ok (NewProxy d u P) []"
  by (simp add: flow_ok_def NewProxy_def answeredIDs_def pendingIDs_def defaultRemoteBatchConcurrency_def)

lemma at_rest:
  "px_lookup px = [] \<Longrightarrow> px_batch px = [] \<Longrightarrow> \<not> px_dispatching px \<Longrightarrow> px_jobs px = [] \<Longrightarrow> px_put px = [] \<Longrightarrow>
     \<not> px_closed px \<Longrightarrow> internal ev \<Longrightarrow> ev \<noteq> EvClose \<Longrightarrow> pxStep U px ev = None"
  by (cases ev) (simp_all add: pxStep_def internal_def)

section \<open>Properties\<close>


definition plainParams :: proxyParams where
  "plainParams =
     \<lparr>pp_Commit = [], pp_ChangesID = [], pp_BuildType = [], pp_BaseCommit = [], pp_ParentCommit = [],
      pp_Preload = False, pp_SkipPreload = False, pp_MaxRemoteGetTime = 0, pp_MaxFileBytes = 0,
      pp_DisableCacheUsed = False, pp_RemoteBatchConcurrency = 0\<rparr>"

definition getReq :: "int \<Rightarrow> string \<Rightarrow> request" where
  "getReq n a = \<lparr>rq_ID = n, rq_Command = CmdGet, rq_ActionID = a, rq_OutputID = [], rq_BodySize = 0, rq_Body = None\<rparr>"

text \<open>A proxy over a plain disk, and an upstream that holds one item.\<close>

definition plainDisk :: lstore where
  "plainDisk = (emptyLocal False 0)\<lparr>poolDisabled := True\<rparr>"

definition oneItem :: lstore where
  "oneItem = snd (putOneL (calm 1) plainDisk (plainItem ''a'' ''o'' ''xyz''))"

definition exampleRun :: "pxEvent list" where
  "exampleRun =
     [EvLookup (calm 2) (getReq 1 ''a''), EvLookup (calm 2) (getReq 2 ''a''), EvReceive (calm 2),
      EvReceive (calm 2), EvTick, EvDispatch, EvLookup (calm 3) (getReq 3 ''b''), EvReceive (calm 3),
      EvJobStart 0, EvTick, EvDispatch, EvJobStart 1, EvJobItem (calm 4) 1, EvJobEnd 1,
      EvJobItem (calm 5) 0]"


text \<open>
  Claim C8. An open proxy always comes to rest by itself and then has answered everything: from any
  state it can reach, its goroutines can take only a bounded number of steps without new calls, and
  when none of them can take one, every request ever taken has its one response.\<close>

theorem proxy_drains:
  assumes "answersOnce U" "pxRun U (NewProxy d u P) evs px" "\<forall>req \<in> set (lookupsOf evs). rq_ID req \<noteq> 0"
    and "\<not> px_closed px" "pxRun U px evs' px'" "\<forall>ev \<in> set evs'. internal ev \<and> ev \<noteq> EvClose"
  shows "length evs' \<le> proxyWork px \<and>
    ((\<forall>ev. internal ev \<and> ev \<noteq> EvClose \<longrightarrow> pxStep U px' ev = None) \<longrightarrow>
       answeredIDs px' = mset (map rq_ID (lookupsOf evs)))"
proof -
  have U: "answering_upstream U" using assms(1) by unfold_locales
  note run = answering_upstream.pxRun_ok [OF U] and bound = answering_upstream.pxRun_bound [OF U]
  have ok: "flow_ok px (lookupsOf evs)" using run [OF assms(2) NewProxy_ok assms(3)] by simp
  have l: "lookupsOf evs' = []" using assms(6) by (fastforce simp: lookupsOf_def internal_def split: pxEvent.splits)
  have ok': "flow_ok px' (lookupsOf evs)" using run [OF assms(5) ok] l by simp
  have "px_resolving px'" using ok' pxRun_closed [OF assms(5,6)] assms(4) by (simp add: flow_ok_def)
  then have "pendingIDs px' = {#}" if "\<forall>ev. internal ev \<and> ev \<noteq> EvClose \<longrightarrow> pxStep U px' ev = None"
    using answering_upstream.rest_answered [OF U ok'] that by blast
  then show ?thesis using bound [OF assms(5) ok] assms(6) ok' by (auto simp: flow_ok_def)
qed

theorem proxy_drains_witness:
  "\<exists>px px'. pxRun (storeUpstream (calm 9)) (NewProxy plainDisk (Some oneItem) plainParams)
      [EvLookup (calm 2) (getReq 1 ''a'')] px \<and>
    pxRun (storeUpstream (calm 9)) px
      [EvReceive (calm 2), EvTick, EvDispatch, EvJobStart 0, EvJobItem (calm 4) 0, EvJobEnd 0] px' \<and>
    6 \<le> proxyWork px \<and> answeredIDs px' = {#1#}"
proof -
  let ?U = "storeUpstream (calm 9)" and ?p = "NewProxy plainDisk (Some oneItem) plainParams"
  let ?e = "[EvLookup (calm 2) (getReq 1 ''a'')]"
  let ?e' = "[EvReceive (calm 2), EvTick, EvDispatch, EvJobStart 0, EvJobItem (calm 4) 0, EvJobEnd 0]"
  have "(case runProxy ?U ?p ?e of Some (Inr px) \<Rightarrow> \<not> px_closed px \<and>
      (case runProxy ?U px ?e' of Some (Inr px') \<Rightarrow> px_lookup px' = [] \<and> px_batch px' = [] \<and>
         \<not> px_dispatching px' \<and> px_jobs px' = [] \<and> px_put px' = [] \<and> \<not> px_closed px' | _ \<Rightarrow> False) | _ \<Rightarrow> False)"
    by code_simp
  then obtain px px' where r: "runProxy ?U ?p ?e = Some (Inr px)" "\<not> px_closed px" "runProxy ?U px ?e' = Some (Inr px')"
    and rest: "px_lookup px' = []" "px_batch px' = []" "\<not> px_dispatching px'" "px_jobs px' = []" "px_put px' = []"
      "\<not> px_closed px'"
    by (auto split: option.splits sum.splits)
  note run = r(1) [folded pxRun_iff] r(3) [folded pxRun_iff]
  have l: "map rq_ID (lookupsOf ?e) = [1]" "\<forall>req \<in> set (lookupsOf ?e). rq_ID req \<noteq> 0"
    "\<forall>ev \<in> set ?e'. internal ev \<and> ev \<noteq> EvClose"
    by (simp_all add: lookupsOf_def getReq_def internal_def)
  have "\<forall>ev. internal ev \<and> ev \<noteq> EvClose \<longrightarrow> pxStep ?U px' ev = None" using at_rest [OF rest] by blast
  with proxy_drains [OF stores.once run(1) l(2) r(2) run(2) l(3)] have "6 \<le> proxyWork px" "answeredIDs px' = {#1#}"
    using l(1) by simp_all
  then show ?thesis using run by blast
qed

end
