(* ===== verification/Proxy_Content.thy ===== *)
theory Proxy_Content
  imports Proxy_Answers
begin

text \<open>
  What the proxy answers and uploads: the file a put is served from, the statistics, and the
  cases in which a request, an upload or the index of the local store is lost.
\<close>

section \<open>A new output on a plain disk\<close>

lemma putOneL_plain:
  assumes plain: "\<not> ls_compress s" "poolDisabled s"
    and new: "map_of (ls_index s) (ri_ActionID it) = None" "map_of (outputRefs s) (ri_OutputID it) = None"
      "\<not> tooLarge s (ri_Size it)"
    and it: "ri_body it = BytesReader (Inr (body, None))" "\<not> ri_IsCompressed it" "ri_Size it = int (length body)"
      "ri_WireSize it = 0"
    and put: "putOneL E s it = (None, s')"
  shows "\<exists>ie. map_of (ls_index s') (ri_ActionID it) = Some ie \<and> le_OutputID ie = ri_OutputID it \<and>
    le_Size ie = ri_Size it \<and> le_PoolPage ie = 0 \<and>
    map_option content (map_of (ls_disk s') (OutputFilename (ls_dir s) (ri_OutputID it))) = Some body \<and>
    ls_dir s' = ls_dir s \<and> ls_maxFileBytes s' = ls_maxFileBytes s"
proof -
  obtain x s1 where x: "putBeginL E s it = (x, s1)" by fastforce
  obtain pc where pc: "x = Inr (Some pc)"
    using x put new(3) by (auto simp: putOneL_def putBeginL_def tooLarge_def Let_def split: if_splits)
  note pb = putBeginL_Some [OF x [unfolded pc]]
  have s1: "\<not> ls_compress s1" "poolDisabled s1" "ls_maxFileBytes s1 = ls_maxFileBytes s"
    using x plain by (auto simp: putBeginL_def Let_def split: if_splits)
  have fresh: "\<not> pc_refExists pc" "pc_existing pc = None" using pb(1,13) new(1,2) by simp_all
  obtain q s2 where q: "putStoreL E s1 it pc = (q, s2)" by fastforce
  obtain ie where ie: "q = Inr ie" "s' = putCommitL E s2 it pc ie"
    using put x pc q by (auto simp: putOneL_def split: sum.splits)
  let ?f = "OutputFilename (ls_dir s1) (ri_OutputID it)"
  let ?rd = "if ri_Size it = 0 then None else Some (body, None)"
  have "bodyReaderForPutL E s1 it (pc_entry pc) = (Inr ?rd, pc_entry pc)"
    using s1(1) it by (simp add: bodyReaderForPutL_def ri_uncompressedBodyReader_def ri_openBody_def)
  then obtain d where d: "writeAtomicL E (ls_disk s1) ?f (Some (body, None)) = (None, d)" "s2 = s1\<lparr>ls_disk := d\<rparr>"
      "ie = (pc_entry pc)\<lparr>le_PoolPage := 0, le_PoolSlot := 0\<rparr>"
    using q ie(1) s1(2) fresh(1) it
    by (auto simp: putStoreL_def storePutBodyL_def Let_def zeroLoc_def split: prod.splits option.splits if_splits)
  have "map_option content (map_of (ls_disk s') ?f) = Some body" "ls_dir s' = ls_dir s"
    "ls_maxFileBytes s' = ls_maxFileBytes s"
    using writeAtomicL_placed [OF d(1)] d(2) fresh(2) s1(3) pb(9)
    by (auto simp: ie(2) putCommitL_def Let_def scheduleEvictionL_def addOutputRefLocked_def)
  moreover have "le_OutputID ie = ri_OutputID it" "le_Size ie = ri_Size it" using d(3) pb(10,11) by simp_all
  ultimately show ?thesis using d(3) pb(9) by (auto simp: ie(2) putCommitL_index)
qed


definition putReq :: "int \<Rightarrow> string \<Rightarrow> string \<Rightarrow> bytes \<Rightarrow> request" where
  "putReq n a out body =
     \<lparr>rq_ID = n, rq_Command = CmdPut, rq_ActionID = a, rq_OutputID = out, rq_BodySize = int (length body), rq_Body = None\<rparr>"


section \<open>Statistics\<close>

definition stats_ok :: "'u proxy \<Rightarrow> bool" where
  "stats_ok px =
     (px_hits px = px_preloadHits px + px_regularHits px \<and>
      set (px_usedPreloadedIDs px) \<subseteq> set (px_preloadedActionIDs px) \<and>
      distinct (px_usedPreloadedIDs px) \<and> distinct (px_preloadedActionIDs px))"

text \<open>What the statistics are made of.\<close>

definition counters :: "'u proxy \<Rightarrow> int \<times> int \<times> int \<times> string list \<times> string list" where
  "counters px = (px_hits px, px_preloadHits px, px_regularHits px, px_usedPreloadedIDs px, px_preloadedActionIDs px)"

lemma stats_ok_same: "counters px' = counters px \<Longrightarrow> stats_ok px' = stats_ok px"
  by (simp add: counters_def stats_ok_def)

lemma pxGet_counters: "pxGet E req px = (r, px') \<Longrightarrow> counters px' = counters px"
  using pxGet_frame [of E req px] by (auto simp: counters_def)

lemma pxPutOne_counters: "pxPutOne E req b px = (r, px') \<Longrightarrow> counters px' = counters px"
  using pxPutOne_frame [of E req b px] by (auto simp: counters_def)

lemma recordHitKind_stats: "stats_ok px \<Longrightarrow> stats_ok (recordHitKind a (px\<lparr>px_hits := px_hits px + 1\<rparr>))"
  by (auto simp: recordHitKind_def markUsedPreloaded_def isPreloaded_def Let_def stats_ok_def)

lemma sendResp_stats [simp]: "stats_ok (sendResp r px) = stats_ok px"
  by (simp add: sendResp_def stats_ok_def)

lemma respondAll_stats [simp]: "stats_ok (respondAll m a rs px) = stats_ok px"
  by (simp add: respondAll_def stats_ok_def)

lemma upstreamPut_counters: "counters (upstreamPut U E px) = counters px"
  by (simp add: upstreamPut_def counters_def split: option.splits prod.splits)

lemma missAll_stats [simp]: "stats_ok (missAll m a px) = stats_ok px"
  by (simp add: missAll_def stats_ok_def respondAll_def)

lemma foldl_missAll_stats [simp]: "stats_ok (foldl (\<lambda>px a. missAll m a px) px as) = stats_ok px"
  by (induction as arbitrary: px) simp_all

lemma finishBatch_stats: "stats_ok px \<Longrightarrow> stats_ok (finishBatch m answered px)"
  by (simp add: finishBatch_def)

lemma onItem_stats:
  assumes "onItem E m it px = Inr px'" "stats_ok px"
  shows "stats_ok px'"
proof -
  have "stats_ok q" if "pxPutOne E req b (px\<lparr>px_hits := px_hits px + n, px_regularHits := px_regularHits px + n\<rparr>) = (r, q)"
    for req b n r q
    using stats_ok_same [OF pxPutOne_counters [OF that]] assms(2) by (simp add: stats_ok_def)
  moreover have "stats_ok (px\<lparr>px_misses := n\<rparr>)" for n using assms(2) by (simp add: stats_ok_def)
  ultimately show ?thesis
    using assms unfolding onItem_def Let_def by (auto split: if_splits sum.splits list.splits prod.splits)
qed

lemma putRespItem_counters: "putRespItem E it b px = (r, px') \<Longrightarrow> counters px' = counters px"
  using putRespItem_frame [of E it b px] by (auto simp: counters_def)

lemma preloadItem_stats:
  assumes ok: "stats_ok px"
  shows "stats_ok (preloadItem E it px)"
proof -
  have put: "stats_ok q" if "putRespItem E it b px = (r, q)" for b r q
    using stats_ok_same [OF putRespItem_counters [OF that]] ok by simp
  have "stats_ok (markPreloaded a q)" if "stats_ok q" for a and q :: "'a proxy"
    using that by (auto simp: markPreloaded_def stats_ok_def)
  then show ?thesis
    using ok put by (auto simp: preloadItem_def split: sum.splits prod.splits option.splits)
qed

lemma pxPreload_stats: "stats_ok px \<Longrightarrow> stats_ok (snd (pxPreload U E req px))"
proof -
  assume ok: "stats_ok px"
  have "stats_ok (fold (preloadItem E) its q)" if "stats_ok q" for its and q :: "'a proxy"
    using that by (induction its arbitrary: q) (simp_all add: preloadItem_stats)
  moreover have "stats_ok (px\<lparr>px_upstream := u\<rparr>)" for u using ok by (simp add: stats_ok_def)
  ultimately show ?thesis
    using ok by (auto simp: pxPreload_def Let_def stats_ok_def split: option.splits prod.splits)
qed

lemma Lookup_stats:
  assumes "stats_ok px"
  shows "stats_ok (Lookup U E req px)"
proof -
  let ?u = "recordUsedActionID (rq_ActionID req) px"
  let ?l = "?u\<lparr>px_lookups := px_lookups ?u + 1\<rparr>"
  have u: "stats_ok ?u" "stats_ok ?l" using assms by (simp_all add: recordUsedActionID_def stats_ok_def)
  have get: "stats_ok q'" if "pxGet E req q = (r, q')" "stats_ok q" for r q q'
    using stats_ok_same [OF pxGet_counters [OF that(1)]] that(2) by simp
  obtain b px1 where s: "shouldSkipRemoteGet U ?l = (b, px1)" by fastforce
  then have px1: "stats_ok px1"
    using u(2) by (auto simp: shouldSkipRemoteGet_def stats_ok_def split: if_splits option.splits)
  obtain r px2 where g: "pxGet E req px1 = (r, px2)" by fastforce
  have px2: "stats_ok px2" using get [OF g px1] .
  obtain r0 px0 where g0: "pxGet E req ?u = (r0, px0)" by fastforce
  have px0: "stats_ok px0" using get [OF g0 u(1)] .
  have f: "stats_ok (px1\<lparr>px_lookup := x\<rparr>)" "stats_ok (px2\<lparr>px_misses := n\<rparr>)" for x n
    using px1 px2 by (simp_all add: stats_ok_def)
  show ?thesis
    using px0 f recordHitKind_stats [OF px2] by (simp add: Lookup_def Let_def s g g0 split: bool.splits)
qed

lemma pxStep_stats:
  assumes s: "pxStep U px ev = Some (Inr px')" and ok: "stats_ok px"
  shows "stats_ok px'"
proof -
  have same: "stats_ok q" if "counters q = counters px" for q using stats_ok_same [OF that] ok by simp
  have job: "stats_ok q" if "jobStep U px ev j = Some (Inr q)" for j q
  proof -
    have upd: "stats_ok (q\<lparr>px_jobs := js\<rparr>) = stats_ok q" for js and q :: "'a proxy" by (simp add: stats_ok_def)
    have start: "stats_ok q" if "startBatch U batch px = (j', q)" for batch j' q
      using that ok by (auto simp: startBatch_def stats_ok_def Let_def split: option.splits prod.splits)
    show ?thesis
      using that ok onItem_stats [OF _ ok] finishBatch_stats [OF ok] start
      by (cases "(U, px, ev, j)" rule: jobStep.cases) (auto simp: Let_def upd split: sum.splits prod.splits)
  qed
  have flags: "stats_ok (px\<lparr>px_dispatching := b\<rparr>)" "stats_ok (px\<lparr>px_closed := b\<rparr>)" "stats_ok (px\<lparr>px_resolving := b\<rparr>)"
    "stats_ok (px\<lparr>px_jobs := js, px_batch := [], px_dispatching := False\<rparr>)" for b js
    using ok by (simp_all add: stats_ok_def)
  show ?thesis
  proof (cases ev)
    case (EvPut E req b)
    obtain r px1 where g: "pxGet E req px = (r, px1)" by fastforce
    obtain r2 px2 where p: "pxPutOne E req b px1 = (r2, px2)" by fastforce
    have "counters px1 = counters px" "counters px2 = counters px"
      using pxGet_counters [OF g] pxPutOne_counters [OF p] by simp_all
    then have "counters (snd (pxPut E req b px)) = counters px"
      by (simp add: pxPut_def g p Let_def counters_def)
    then show ?thesis using s EvPut same by (auto simp: pxStep_def split: if_splits)
  next
    case (EvReceive E)
    then obtain req q where q: "px' = resolveRequest E req (px\<lparr>px_lookup := q\<rparr>)"
      using s by (auto simp: pxStep_def split: list.splits if_splits)
    obtain r px1 where g: "pxGet E req (px\<lparr>px_lookup := q\<rparr>) = (r, px1)" by fastforce
    have px1: "stats_ok px1" using pxGet_counters [OF g] same by (simp add: counters_def)
    have "stats_ok (px1\<lparr>px_batch := bs, px_dispatching := d\<rparr>)" for bs d
      using px1 by (simp add: stats_ok_def)
    moreover have "stats_ok (px\<lparr>px_lookup := q, px_resolving := False\<rparr>)" using ok by (simp add: stats_ok_def)
    ultimately show ?thesis using q g recordHitKind_stats [OF px1] by (simp add: resolveRequest_def)
  next
    case (EvConsume E)
    then obtain req q where q: "px' = consumeRequest U E req (px\<lparr>px_put := q\<rparr>)"
      using s by (auto simp: pxStep_def split: list.splits if_splits)
    obtain r px1 where g: "pxGet E req (px\<lparr>px_put := q\<rparr>) = (r, px1)" by fastforce
    have "counters px1 = counters px" using pxGet_counters [OF g] by (simp add: counters_def)
    moreover have "counters (upstreamPut U E q) = counters q" for q by (rule upstreamPut_counters)
    ultimately have "counters px' = counters px"
      by (simp add: q consumeRequest_def g Let_def counters_def)
    then show ?thesis by (rule same)
  next
    case (EvConsumeEnd E)
    then have "counters px' = counters px"
      using s upstreamPut_counters [of U E px] by (auto simp: pxStep_def consumeEnd_def counters_def split: if_splits)
    then show ?thesis by (rule same)
  next
    case (EvFinish E)
    then have "counters px' = counters px"
      using s by (auto simp: pxStep_def finishClose_def closeDisk_def Let_def counters_def
          split: if_splits prod.splits option.splits)
    then show ?thesis by (rule same)
  qed (use s ok job Lookup_stats [OF ok] in \<open>auto simp: pxStep_def flags split: if_splits\<close>)
qed

lemma pxRun_stats: "pxRun U px evs px' \<Longrightarrow> stats_ok px \<Longrightarrow> stats_ok px'"
  by (induction rule: pxRun.induct) (auto dest: pxStep_stats)

text \<open>
  The statistics agree with each other: whatever was preloaded and in whatever order the
  goroutines ran, every hit is counted once, as preloaded or as regular, and the preloaded items that
  were used are among those that were preloaded, so that the unused ones are never negative.\<close>

theorem proxy_stats_consistent:
  assumes "pxRun U (snd (MaybePreload U E (NewProxy d u P))) evs px"
  shows "px_hits px = px_preloadHits px + px_regularHits px \<and>
    snd (preloadUsageStats px) \<le> fst (preloadUsageStats px)"
proof -
  have "stats_ok (NewProxy d u P)" by (simp add: stats_ok_def NewProxy_def)
  then have "stats_ok (snd (MaybePreload U E (NewProxy d u P)))"
    using pxPreload_stats [of "NewProxy d u P" U E] by (auto simp: MaybePreload_def Let_def split: prod.splits option.splits) (metis snd_conv)+
  then have "stats_ok px" using assms pxRun_stats by blast
  then show ?thesis
    using card_mono [of "set (px_preloadedActionIDs px)" "set (px_usedPreloadedIDs px)"]
    by (simp add: stats_ok_def preloadUsageStats_def distinct_card)
qed

definition preloadParams :: proxyParams where
  "preloadParams = plainParams\<lparr>pp_Preload := True\<rparr>"

theorem proxy_stats_consistent_witness:
  "\<exists>px. pxRun (storeUpstream (calm 9)) (snd (MaybePreload (storeUpstream (calm 9)) (calm 1)
       (NewProxy plainDisk (Some oneItem) preloadParams))) [EvLookup (calm 2) (getReq 1 ''a''), EvReceive (calm 3)] px \<and>
     px_preloadHits px = 1 \<and> 1 = 1 + px_regularHits px \<and> snd (preloadUsageStats px) \<le> fst (preloadUsageStats px)"
proof -
  let ?p = "snd (MaybePreload (storeUpstream (calm 9)) (calm 1) (NewProxy plainDisk (Some oneItem) preloadParams))"
  let ?e = "[EvLookup (calm 2) (getReq 1 ''a''), EvReceive (calm 3)]"
  have "(case runProxy (storeUpstream (calm 9)) ?p ?e of
      Some (Inr px) \<Rightarrow> px_hits px = 1 \<and> px_preloadHits px = 1 | _ \<Rightarrow> False)"
    by code_simp
  then obtain px where px: "runProxy (storeUpstream (calm 9)) ?p ?e = Some (Inr px)" "px_hits px = 1" "px_preloadHits px = 1"
    by (auto split: option.splits sum.splits)
  from px(1) have run: "pxRun (storeUpstream (calm 9)) ?p ?e px" by (simp add: pxRun_iff)
  from proxy_stats_consistent [OF run] px(2,3) run show ?thesis by (intro exI [of _ px]) simp
qed

section \<open>What is lost\<close>

text \<open>
  A close that comes before the ticker loses a lookup: \<open>resolve\<close> returns as soon as the closed
  channel yields a zero request, without dispatching the batch it has gathered. Here \<open>Close\<close> returns
  without an error, request 1 has no response, and the proxy can take no further step.\<close>

theorem proxy_close_drops_batch:
  "case runProxy (storeUpstream (calm 9)) (NewProxy plainDisk (Some oneItem) plainParams)
      [EvLookup (calm 2) (getReq 1 ''a''), EvReceive (calm 2), EvClose, EvResolveEnd, EvConsumeEnd (calm 3),
       EvFinish (calm 4)] of
     Some (Inr px) \<Rightarrow> px_result px = Some None \<and> px_resps px = [] \<and> map rq_ID (px_batch px) = [1] \<and>
       pxStep (storeUpstream (calm 9)) px EvTick = None \<and> pxStep (storeUpstream (calm 9)) px EvDispatch = None
   | _ \<Rightarrow> False"
  by code_simp

text \<open>An environment in which the file of one output cannot be written.\<close>

definition badWrite :: "int \<Rightarrow> string \<Rightarrow> env" where
  "badWrite t out = (calm t)\<lparr>writeErr := \<lambda>p. if p = OutputFilename ''/c'' out then Some ErrNoSpace else None\<rparr>"

definition emptyUpstream :: lstore where
  "emptyUpstream = plainDisk"


text \<open>An upstream that cannot record the use of a commit.\<close>

definition unusedUpstream :: "lstore upstream" where
  "unusedUpstream = (storeUpstream (calm 9))\<lparr>upUsed := Some (\<lambda>_ _ _ _ _ u. (Some (ErrMsg ''status 503''), u))\<rparr>"

text \<open>
  A failed upload of the usage list costs the local cache: \<open>Close\<close> returns its error before it
  closes the store, so that \<open>index.json\<close> is not written and what was put in this run is not found by
  the next one, though its files are there. With an upstream that records the use, the entry is saved.\<close>

theorem proxy_usage_failure_loses_index:
  "(let P = plainParams\<lparr>pp_Commit := ''c1''\<rparr>;
        evs = [EvPut (calm 2) (putReq 2 ''b'' ''o2'' ''uv'') ''uv'', EvClose, EvResolveEnd, EvConsume (calm 4),
          EvConsumeEnd (calm 5), EvFinish (calm 6)];
        saved = (\<lambda>U. case runProxy U (NewProxy plainDisk (Some emptyUpstream) P) evs of
          Some (Inr px) \<Rightarrow> Some (px_result px, ls_savedIndex (px_disk px), map fst (ls_disk (px_disk px)))
        | _ \<Rightarrow> None)
    in saved unusedUpstream = Some (Some (Some (ErrMsg ''status 503'')), None, [''/c/entries/o2/o2'']) \<and>
       map_option (\<lambda>(r, idx, _). (r, map_option (map fst) idx)) (saved (storeUpstream (calm 9))) =
         Some (Some None, Some [''b'']))"
  by code_simp

text \<open>
  An item the batch did not ask for ends the process: if the upstream answers with a hit for
  another action, the callback indexes an empty slice. With such a miss nothing happens.\<close>

theorem proxy_unasked_item_panics:
  assumes "ri_ActionID it \<notin> set (map rq_ActionID batch)"
    and "delivers (ri_uncompressedBodyReader E (ls_disk (px_disk px)) (ls_pool (px_disk px)) it) b"
  shows "if ri_Miss it then \<exists>px'. onItem E (reqsByAction batch) it px = Inr px' \<and> px_resps px' = px_resps px
    else onItem E (reqsByAction batch) it px = Inl (ErrPanic ''index out of range'')"
proof -
  have "fst ` set (reqsByAction batch) \<subseteq> rq_ActionID ` set batch"
    by (induction batch rule: rev_induct) (auto simp: reqsByAction_def addReq_def)
  then have "mget0 [] (reqsByAction batch) (ri_ActionID it) = []"
    using assms(1) by (intro mget0_notin) auto
  then show ?thesis
    using assms(2) by (auto simp: onItem_def Let_def delivers_def readAll_def respondAll_def)
qed

theorem proxy_unasked_item_panics_witness:
  "onItem (calm 2) (reqsByAction [getReq 1 ''a'']) (plainItem ''z'' ''o'' ''xyz'') (NewProxy plainDisk (Some oneItem) plainParams)
     = Inl (ErrPanic ''index out of range'')"
  using proxy_unasked_item_panics [of "plainItem ''z'' ''o'' ''xyz''" "[getReq 1 ''a'']" "calm 2"
      "NewProxy plainDisk (Some oneItem) plainParams" "''xyz''"]
  by (simp add: plainItem_def getReq_def delivers_def ri_uncompressedBodyReader_def ri_openBody_def)

end
