(* ===== verification/Shim.thy ===== *)
theory Shim
  imports Proxy_Answers
begin

text \<open>
  The daemon that serves many go commands through one proxy (\<open>internal/local/shim.go\<close>), the process of
  direct mode (\<open>internal/local/app.go\<close>), and the session of a shim client. A connection is a number; the
  state of \<open>ShimServer\<close> includes the proxy it drives, and \<open>sh_taken\<close> says how many of the responses the
  proxy has sent \<open>dispatchResponses\<close> has taken from the channel. JSON text is left out: a message is what
  it decodes to, and a stream that does not decode is an event of its own. A response that is written is
  in \<open>sn_written\<close>; once the peer has gone, writes fail.
\<close>

section \<open>Direct mode\<close>

text \<open>What the decoder yields for one request: the request, and for a put with a body the second
  value.\<close>

datatype appInput = AppBroken go_error | AppRequest request "bytes result"

text \<open>One turn of \<open>IterateInput\<close>: the result with which it returns, if it does.\<close>

definition appStep :: "'u upstream \<Rightarrow> env \<Rightarrow> appInput \<Rightarrow> 'u proxy \<Rightarrow> go_error option option \<times> 'u proxy" where
  "appStep U E inp px =
     (case inp of
        AppBroken e \<Rightarrow> (Some (Some (ErrWrap ''decode request'' e)), px)
      | AppRequest req b \<Rightarrow>
          (if rq_Command req = CmdClose then (Some None, px)
           else if rq_Command req = CmdGet then (None, Lookup U E req px)
           else if rq_Command req = CmdPut then
             (case (if 0 < rq_BodySize req then b else Inr []) of
                Inl e \<Rightarrow> (Some (Some (ErrWrap ''decode base64 cache body'' e)), px)
              | Inr body \<Rightarrow>
                  (if 0 < rq_BodySize req \<and> int (length body) \<noteq> rq_BodySize req
                   then (Some (Some (ErrMsg ''cache body size mismatch'')), px)
                   else (case pxPut E req body px of (resp, px') \<Rightarrow> (None, sendResp resp px'))))
           else (Some (Some (ErrMsg ''unsupported command'')), px)))"

fun IterateInput :: "'u upstream \<Rightarrow> env \<Rightarrow> appInput list \<Rightarrow> 'u proxy \<Rightarrow> go_error option option \<times> 'u proxy" where
  "IterateInput U E [] px = (None, px)"
| "IterateInput U E (inp # inps) px =
     (case appStep U E inp px of
        (Some r, px') \<Rightarrow> (Some r, px') | (None, px') \<Rightarrow> IterateInput U E inps px')"

text \<open>The first message of \<open>IterateResponses\<close>, and of \<open>ProcessShimSession\<close>.\<close>

definition knownCommands :: response where
  "knownCommands = emptyResponse\<lparr>rs_KnownCommands := [CmdPut, CmdGet, CmdClose]\<rparr>"

section \<open>Forced closes\<close>

definition shimForcedCloseSuffix :: string where "shimForcedCloseSuffix = ''.forced-closes''"

text \<open>\<open>url.Parse\<close> and \<open>Host\<close> are an argument.\<close>

definition shimNetworkAndAddr :: "(string \<Rightarrow> string result) \<Rightarrow> string \<Rightarrow> (string \<times> string) result" where
  "shimNetworkAndAddr host remoteURL =
     (if prefix ''unix://'' remoteURL then Inr (''unix'', drop 7 remoteURL)
      else if sublist ''://'' remoteURL then
        (case host remoteURL of Inl e \<Rightarrow> Inl e | Inr h \<Rightarrow> Inr (''tcp'', h))
      else Inr (''tcp'', remoteURL))"

definition shimForcedCloseMarkerPath :: "(string \<Rightarrow> string result) \<Rightarrow> string \<Rightarrow> path result" where
  "shimForcedCloseMarkerPath host remoteURL =
     (case shimNetworkAndAddr host remoteURL of
        Inl e \<Rightarrow> Inl e | Inr (_, addr) \<Rightarrow> Inr (addr @ shimForcedCloseSuffix))"

definition newline :: char where "newline = CHR 0x0A"

definition RecordShimForcedClose :: "(string \<Rightarrow> string result) \<Rightarrow> env \<Rightarrow> string \<Rightarrow> fs \<Rightarrow> fs" where
  "RecordShimForcedClose host E remoteURL d =
     (case shimForcedCloseMarkerPath host remoteURL of
        Inl _ \<Rightarrow> d
      | Inr p \<Rightarrow>
          (if writeErr E p \<noteq> None then d
           else AList.update p
             (case map_of d p of
                None \<Rightarrow> \<lparr>content = [CHR ''1'', newline], mtime = now E, fmode = 420\<rparr>
              | Some f \<Rightarrow> f\<lparr>content := content f @ [CHR ''1'', newline], mtime := now E\<rparr>) d))"

definition CountShimForcedCloses :: "(string \<Rightarrow> string result) \<Rightarrow> env \<Rightarrow> string \<Rightarrow> fs \<Rightarrow> int \<times> fs" where
  "CountShimForcedCloses host E remoteURL d =
     (case shimForcedCloseMarkerPath host remoteURL of
        Inl _ \<Rightarrow> (0, d)
      | Inr p \<Rightarrow>
          (case readFile E d p of
             Inl _ \<Rightarrow> (0, d)
           | Inr data \<Rightarrow>
               (if data = [] then (0, d)
                else (int (length (split_on newline (trimSpace data))), snd (removeIfExists E d p)))))"

section \<open>State\<close>

record shimHello =
  hello_SessionID :: string
  hello_AuthToken :: string
  hello_Stop :: bool

record shimSession =
  sn_sessionID :: string
  sn_serving :: bool
  sn_started :: bool
  sn_peer :: bool
  sn_written :: "response list"
  sn_firstGetLogged :: bool

record shimPending =
  pend_session :: nat
  pend_originalID :: int

record shimStopResponse =
  stop_Lines :: "string list"
  stop_Err :: string

record 'u shim =
  sh_authToken :: string
  sh_proxy :: "'u proxy"
  sh_taken :: nat
  sh_nextID :: int
  sh_waiters :: "(int \<times> shimPending) list"
  sh_conns :: "(nat \<times> shimSession) list"
  sh_stopReq :: "nat option"
  sh_stopReply :: "nat option"
  sh_stopReplies :: "(nat \<times> shimStopResponse) list"
  sh_sessionsSeen :: int
  sh_activeSessions :: int
  sh_firstGetsServed :: int

definition NewShimServer :: "'u proxy \<Rightarrow> string \<Rightarrow> 'u shim" where
  "NewShimServer px token =
     \<lparr>sh_authToken = token, sh_proxy = px, sh_taken = 0, sh_nextID = 0, sh_waiters = [], sh_conns = [],
      sh_stopReq = None, sh_stopReply = None, sh_stopReplies = [], sh_sessionsSeen = 0,
      sh_activeSessions = 0, sh_firstGetsServed = 0\<rparr>"

section \<open>Sessions\<close>

definition updSession :: "nat \<Rightarrow> (shimSession \<Rightarrow> shimSession) \<Rightarrow> 'u shim \<Rightarrow> 'u shim" where
  "updSession c f sh =
     (case map_of (sh_conns sh) c of
        None \<Rightarrow> sh | Some sn \<Rightarrow> sh\<lparr>sh_conns := AList.update c (f sn) (sh_conns sh)\<rparr>)"

definition dropSessionWaiters :: "nat \<Rightarrow> 'u shim \<Rightarrow> 'u shim" where
  "dropSessionWaiters c sh =
     sh\<lparr>sh_waiters := filter (\<lambda>(_, pending). pend_session pending \<noteq> c) (sh_waiters sh)\<rparr>"

text \<open>The return from \<open>serveConn\<close>: the waiters are dropped, the deferred calls close the connection.\<close>

definition endSession :: "nat \<Rightarrow> 'u shim \<Rightarrow> 'u shim" where
  "endSession c sh =
     (let sh1 = updSession c (\<lambda>sn. sn\<lparr>sn_serving := False, sn_peer := False\<rparr>) (dropSessionWaiters c sh)
      in sh1\<lparr>sh_activeSessions := sh_activeSessions sh1 - 1\<rparr>)"

text \<open>\<open>writeResponse\<close>: whether it went well.\<close>

definition writeResponse :: "nat \<Rightarrow> response \<Rightarrow> 'u shim \<Rightarrow> bool \<times> 'u shim" where
  "writeResponse c resp sh =
     (case map_of (sh_conns sh) c of
        None \<Rightarrow> (False, sh)
      | Some sn \<Rightarrow>
          (if sn_peer sn
           then (True, updSession c (\<lambda>sn. sn\<lparr>sn_written := sn_written sn @ [resp]\<rparr>) sh)
           else (False, sh)))"

text \<open>The start of \<open>serveConn\<close>, with the hello message.\<close>

definition acceptHello :: "nat \<Rightarrow> shimHello \<Rightarrow> 'u shim \<Rightarrow> 'u shim" where
  "acceptHello c hello sh =
     (if sh_authToken sh \<noteq> [] \<and> trimSpace (hello_AuthToken hello) \<noteq> sh_authToken sh then sh
      else if hello_Stop hello then
        (if sh_stopReq sh = None then sh\<lparr>sh_stopReq := Some c\<rparr>
         else sh\<lparr>sh_stopReplies := sh_stopReplies sh @
             [(c, \<lparr>stop_Lines = [], stop_Err = ''stop already in progress''\<rparr>)]\<rparr>)
      else sh\<lparr>sh_conns := AList.update c
            \<lparr>sn_sessionID = hello_SessionID hello, sn_serving = True, sn_started = False, sn_peer = True,
             sn_written = [], sn_firstGetLogged = False\<rparr> (sh_conns sh),
          sh_sessionsSeen := sh_sessionsSeen sh + 1, sh_activeSessions := sh_activeSessions sh + 1\<rparr>)"

text \<open>The end of the wait for the daemon: it is ready, its preload failed, or the wait timed out.\<close>

definition sessionReady :: "nat \<Rightarrow> bool \<Rightarrow> 'u shim \<Rightarrow> 'u shim" where
  "sessionReady c ok sh =
     (if ok then updSession c (\<lambda>sn. sn\<lparr>sn_started := True\<rparr>) sh else endSession c sh)"

text \<open>One turn of the loop of \<open>serveConn\<close>.\<close>

definition serveRequest :: "'u upstream \<Rightarrow> env \<Rightarrow> nat \<Rightarrow> request \<Rightarrow> bytes \<Rightarrow> 'u shim \<Rightarrow> 'u shim" where
  "serveRequest U E c req body sh =
     (if rq_Command req = CmdGet then
        (let internalID = sh_nextID sh + 1;
             sh1 = sh\<lparr>sh_nextID := internalID,
               sh_waiters := AList.update internalID
                 \<lparr>pend_session = c, pend_originalID = rq_ID req\<rparr> (sh_waiters sh)\<rparr>
         in sh1\<lparr>sh_proxy := Lookup U E (req\<lparr>rq_ID := internalID\<rparr>) (sh_proxy sh1)\<rparr>)
      else if rq_Command req = CmdPut then
        (let internalID = sh_nextID sh + 1;
             sh1 = sh\<lparr>sh_nextID := internalID\<rparr>
         in case pxPut E (req\<lparr>rq_ID := internalID\<rparr>) body (sh_proxy sh1) of
              (resp, px) \<Rightarrow>
                (case writeResponse c (resp\<lparr>rs_ID := rq_ID req\<rparr>) (sh1\<lparr>sh_proxy := px\<rparr>) of
                   (True, sh2) \<Rightarrow> sh2 | (False, sh2) \<Rightarrow> endSession c sh2))
      else endSession c sh)"

text \<open>One turn of \<open>dispatchResponses\<close>.\<close>

definition dispatchResponse :: "response \<Rightarrow> 'u shim \<Rightarrow> 'u shim" where
  "dispatchResponse resp sh =
     (case map_of (sh_waiters sh) (rs_ID resp) of
        None \<Rightarrow> sh
      | Some pending \<Rightarrow>
          (let c = pend_session pending;
               sh1 = sh\<lparr>sh_waiters := AList.delete (rs_ID resp) (sh_waiters sh)\<rparr>;
               first = (case map_of (sh_conns sh1) c of None \<Rightarrow> False | Some sn \<Rightarrow> \<not> sn_firstGetLogged sn);
               sh2 = updSession c (\<lambda>sn. sn\<lparr>sn_firstGetLogged := True\<rparr>) sh1;
               sh3 = sh2\<lparr>sh_firstGetsServed := sh_firstGetsServed sh2 + (if first then 1 else 0)\<rparr>
           in snd (writeResponse c (resp\<lparr>rs_ID := pend_originalID pending\<rparr>) sh3)))"

text \<open>The branch of \<open>Serve\<close> that takes the stop request, with \<open>shutdown\<close>, and \<open>ReplyStop\<close>.\<close>

definition takeStop :: "nat \<Rightarrow> 'u shim \<Rightarrow> 'u shim" where
  "takeStop c sh =
     sh\<lparr>sh_stopReq := None, sh_stopReply := Some c,
       sh_conns := map (\<lambda>(k, sn). (k, sn\<lparr>sn_peer := False\<rparr>)) (sh_conns sh)\<rparr>"

definition ReplyStop :: "shimStopResponse \<Rightarrow> 'u shim \<Rightarrow> 'u shim" where
  "ReplyStop resp sh =
     (case sh_stopReply sh of
        None \<Rightarrow> sh
      | Some c \<Rightarrow> sh\<lparr>sh_stopReply := None, sh_stopReplies := sh_stopReplies sh @ [(c, resp)]\<rparr>)"

section \<open>Steps\<close>

datatype shimEvent =
    ShHello nat shimHello
  | ShReady nat bool
  | ShRequest env nat request bytes
  | ShEOF nat
  | ShPeerGone nat
  | ShDispatch
  | ShProxy pxEvent
  | ShStop
  | ShReplyStop shimStopResponse

text \<open>The calls the daemon makes of the proxy, one for each get and each put.\<close>

definition canCall :: "'u shim \<Rightarrow> request \<Rightarrow> bool" where
  "canCall sh req =
     (\<not> px_closed (sh_proxy sh) \<and>
      (rq_Command req = CmdGet \<longrightarrow> length (px_lookup (sh_proxy sh)) < channelCap) \<and>
      (rq_Command req = CmdPut \<longrightarrow> length (px_put (sh_proxy sh)) < channelCap))"

definition shimStep :: "'u upstream \<Rightarrow> 'u shim \<Rightarrow> shimEvent \<Rightarrow> 'u shim option" where
  "shimStep U sh ev =
     (case ev of
        ShHello c hello \<Rightarrow> (if map_of (sh_conns sh) c = None then Some (acceptHello c hello sh) else None)
      | ShReady c ok \<Rightarrow>
          (case map_of (sh_conns sh) c of
             Some sn \<Rightarrow> (if sn_serving sn \<and> \<not> sn_started sn then Some (sessionReady c ok sh) else None)
           | None \<Rightarrow> None)
      | ShRequest E c req body \<Rightarrow>
          (case map_of (sh_conns sh) c of
             Some sn \<Rightarrow>
               (if sn_serving sn \<and> sn_started sn \<and> canCall sh req
                then Some (serveRequest U E c req body sh) else None)
           | None \<Rightarrow> None)
      | ShEOF c \<Rightarrow>
          (case map_of (sh_conns sh) c of
             Some sn \<Rightarrow> (if sn_serving sn \<and> sn_started sn then Some (endSession c sh) else None)
           | None \<Rightarrow> None)
      | ShPeerGone c \<Rightarrow> Some (updSession c (\<lambda>sn. sn\<lparr>sn_peer := False\<rparr>) sh)
      | ShDispatch \<Rightarrow>
          (if sh_taken sh < length (px_resps (sh_proxy sh))
           then Some (dispatchResponse (px_resps (sh_proxy sh) ! sh_taken sh) (sh\<lparr>sh_taken := sh_taken sh + 1\<rparr>))
           else None)
      | ShProxy ev' \<Rightarrow>
          (if internal ev' then
             (case pxStep U (sh_proxy sh) ev' of Some (Inr px) \<Rightarrow> Some (sh\<lparr>sh_proxy := px\<rparr>) | _ \<Rightarrow> None)
           else None)
      | ShStop \<Rightarrow> (case sh_stopReq sh of Some c \<Rightarrow> Some (takeStop c sh) | None \<Rightarrow> None)
      | ShReplyStop resp \<Rightarrow> Some (ReplyStop resp sh))"

inductive shimRun :: "'u upstream \<Rightarrow> 'u shim \<Rightarrow> shimEvent list \<Rightarrow> 'u shim \<Rightarrow> bool" for U where
  start: "shimRun U sh [] sh"
| step: "shimRun U sh evs sh' \<Longrightarrow> shimStep U sh' ev = Some sh'' \<Longrightarrow> shimRun U sh (evs @ [ev]) sh''"

fun runShim :: "'u upstream \<Rightarrow> 'u shim \<Rightarrow> shimEvent list \<Rightarrow> 'u shim option" where
  "runShim U sh [] = Some sh"
| "runShim U sh (ev # evs) = (case shimStep U sh ev of None \<Rightarrow> None | Some sh' \<Rightarrow> runShim U sh' evs)"

lemma runShim_append:
  "runShim U sh (evs @ evs') = (case runShim U sh evs of None \<Rightarrow> None | Some sh' \<Rightarrow> runShim U sh' evs')"
  by (induction evs arbitrary: sh) (auto split: option.splits)

lemma runShim_run: "runShim U sh evs = Some sh' \<Longrightarrow> shimRun U sh evs sh'"
proof (induction evs arbitrary: sh' rule: rev_induct)
  case Nil
  then show ?case by (simp add: shimRun.start)
next
  case (snoc ev evs)
  then obtain sh1 where "runShim U sh evs = Some sh1" "shimStep U sh1 ev = Some sh'"
    by (auto simp: runShim_append split: option.splits)
  then show ?case using snoc.IH shimRun.step by blast
qed

section \<open>The session of a client\<close>

text \<open>
  \<open>ProcessShimSession\<close>: what it has sent to the daemon, what it has passed on to the go command, and the
  number of requests in flight. The reader of the daemon's responses ends with the connection
  (\<open>sc_readerDone\<close>, the value of \<open>errCh\<close>); \<open>sc_result\<close> is the result once it has returned.
\<close>

record shimClientSession =
  sc_sent :: "request list"
  sc_out :: "response list"
  sc_inFlight :: int
  sc_readerDone :: "go_error option option"
  sc_waiting :: bool
  sc_result :: "go_error option option"

datatype clientEvent =
    ClInput appInput "go_error option"
  | ClResponse response
  | ClReaderEnds
  | ClTimeout
  | ClPendingDone

definition newClientSession :: shimClientSession where
  "newClientSession =
     \<lparr>sc_sent = [], sc_out = [knownCommands], sc_inFlight = 0, sc_readerDone = None, sc_waiting = False,
      sc_result = None\<rparr>"

definition ErrShimCloseTimeout :: go_error where "ErrShimCloseTimeout = ErrMsg ''shim close wait timed out''"

text \<open>The loop over the input; \<open>sendErr\<close> is the outcome of \<open>Send\<close>.\<close>

definition clientInput :: "appInput \<Rightarrow> go_error option \<Rightarrow> shimClientSession \<Rightarrow> shimClientSession" where
  "clientInput inp sendErr cl =
     (case inp of
        AppBroken e \<Rightarrow> cl\<lparr>sc_result := Some (Some (ErrWrap ''decode request'' e))\<rparr>
      | AppRequest req b \<Rightarrow>
          (case (if rq_Command req \<noteq> CmdPut \<or> rq_BodySize req \<le> 0 then Inr []
                 else (case b of Inl e \<Rightarrow> Inl (ErrWrap ''decode base64 cache body'' e)
                   | Inr body \<Rightarrow> (if int (length body) \<noteq> rq_BodySize req
                       then Inl (ErrMsg ''body shorter than declared'') else Inr body))) of
             Inl e \<Rightarrow> cl\<lparr>sc_result := Some (Some e)\<rparr>
           | Inr body \<Rightarrow>
               (if rq_Command req = CmdClose then cl\<lparr>sc_waiting := True\<rparr>
                else (case sendErr of
                    Some e \<Rightarrow> cl\<lparr>sc_result := Some (Some e)\<rparr>
                  | None \<Rightarrow>
                      (let cl1 = cl\<lparr>sc_inFlight := sc_inFlight cl + 1, sc_sent := sc_sent cl @ [req]\<rparr> in
                       case sc_readerDone cl of
                         None \<Rightarrow> cl1
                       | Some (Some e) \<Rightarrow> cl1\<lparr>sc_result := Some (Some e), sc_readerDone := None\<rparr>
                       | Some None \<Rightarrow> cl1\<lparr>sc_result := Some (Some errEOF), sc_readerDone := None\<rparr>)))))"

definition clientStep :: "shimClientSession \<Rightarrow> clientEvent \<Rightarrow> shimClientSession option" where
  "clientStep cl ev =
     (case ev of
        ClInput inp sendErr \<Rightarrow>
          (if sc_result cl = None \<and> \<not> sc_waiting cl then Some (clientInput inp sendErr cl) else None)
      | ClResponse resp \<Rightarrow>
          (if sc_readerDone cl = None \<and> sc_result cl = None then
             Some (let cl1 = cl\<lparr>sc_out := sc_out cl @ [resp], sc_inFlight := sc_inFlight cl - 1\<rparr> in
               if sc_inFlight cl = 0
               then cl1\<lparr>sc_result := Some (Some (ErrPanic ''negative WaitGroup counter''))\<rparr> else cl1)
           else None)
      | ClReaderEnds \<Rightarrow>
          (if sc_readerDone cl = None \<and> sc_result cl = None
           then Some (cl\<lparr>sc_readerDone := Some (if 0 < sc_inFlight cl then Some errUnexpectedEOF else None)\<rparr>)
           else None)
      | ClPendingDone \<Rightarrow>
          (if sc_waiting cl \<and> sc_result cl = None then
             (if sc_inFlight cl = 0 then Some (cl\<lparr>sc_result := Some None\<rparr>)
              else (case sc_readerDone cl of
                  Some (Some e) \<Rightarrow>
                    Some (cl\<lparr>sc_result := Some (Some (ErrWrap ''wait for pending shim responses'' e))\<rparr>)
                | Some None \<Rightarrow> Some (cl\<lparr>sc_result := Some None\<rparr>)
                | None \<Rightarrow> None))
           else None)
      | ClTimeout \<Rightarrow>
          (if sc_waiting cl \<and> sc_result cl = None
           then Some (cl\<lparr>sc_result := Some (Some (ErrWrap ''timed out'' ErrShimCloseTimeout))\<rparr>) else None))"

inductive clientRun :: "shimClientSession \<Rightarrow> clientEvent list \<Rightarrow> shimClientSession \<Rightarrow> bool" where
  start: "clientRun cl [] cl"
| step: "clientRun cl evs cl' \<Longrightarrow> clientStep cl' ev = Some cl'' \<Longrightarrow> clientRun cl (evs @ [ev]) cl''"

end
