(* ===== verification/Shim_Routing.thy ===== *)
theory Shim_Routing
  imports Shim
begin

text \<open>
  The daemon hands every session the responses to its own requests, under the ids the session used,
  although all sessions share one proxy whose responses come in any order; and a client session that
  closes well has received all of them.
\<close>

section \<open>The responses of a proxy only grow\<close>

lemma jobStep_grows:
  assumes "jobStep U px ev j = Some (Inr px')"
  shows "prefix (px_resps px) (px_resps px')"
proof -
  have miss: "prefix (px_resps q) (px_resps (foldl (\<lambda>px a. missAll m a px) q as))" for m as and q :: "'a proxy"
  proof (induction as arbitrary: q)
    case (Cons a as)
    have "prefix (px_resps q) (px_resps (missAll m a q))" by (simp add: missAll_def respondAll_def)
    then show ?case using Cons [of "missAll m a q"] by (simp add: prefix_order.trans)
  qed simp
  have item: "prefix (px_resps px) (px_resps q)" if "onItem E m it px = Inr q" for E m it q
  proof -
    have "px_resps px2 = px_resps px" if "pxPutOne E req b (px\<lparr>px_hits := h, px_regularHits := h'\<rparr>) = (r, px2)"
      for req b h h' r px2
      using pxPutOne_flow [OF that] by simp
    then show ?thesis
      using that unfolding onItem_def Let_def
      by (auto simp: respondAll_def split: if_splits sum.splits list.splits prod.splits)
  qed
  show ?thesis
    using assms miss item
    by (cases "(U, px, ev, j)" rule: jobStep.cases)
      (auto simp: Let_def finishBatch_def startBatch_def split: sum.splits prod.splits option.splits)
qed

lemma Lookup_grows: "prefix (px_resps px) (px_resps (Lookup U E req px))"
proof -
  let ?u = "recordUsedActionID (rq_ActionID req) px"
  have get: "px_resps q' = px_resps q" if "pxGet E req q = (r, q')" for r q q'
    using pxGet_flow [OF that] by simp
  have skip: "px_resps q = px_resps px" if "shouldSkipRemoteGet U (?u\<lparr>px_lookups := n\<rparr>) = (b, q)" for n b q
    using shouldSkip_flow [OF that] by (simp add: recordUsedActionID_def)
  have hit: "px_resps (recordHitKind a q) = px_resps q" for a and q :: "'a proxy"
    using recordHitKind_flow by blast
  have u: "px_resps ?u = px_resps px" by (simp add: recordUsedActionID_def)
  obtain b px1 where s: "shouldSkipRemoteGet U (?u\<lparr>px_lookups := px_lookups ?u + 1\<rparr>) = (b, px1)" by fastforce
  obtain r px2 where g: "pxGet E req px1 = (r, px2)" by fastforce
  obtain r0 px0 where g0: "pxGet E req ?u = (r0, px0)" by fastforce
  have "px_resps px0 = px_resps px" "px_resps px1 = px_resps px" "px_resps px2 = px_resps px"
    using get [OF g0] u skip [OF s] get [OF g] by simp_all
  then show ?thesis by (simp add: Lookup_def Let_def sendResp_def hit s g g0 split: bool.splits)
qed

lemma pxStep_grows:
  assumes s: "pxStep U px ev = Some (Inr px')"
  shows "prefix (px_resps px) (px_resps px')"
proof -
  have get: "px_resps q = px_resps px" if "pxGet E req (px\<lparr>px_lookup := qs\<rparr>) = (r, q)" for E req qs r q
    using pxGet_flow [OF that] by simp
  have hit: "px_resps (recordHitKind a q) = px_resps q" for a and q :: "'a proxy"
    using recordHitKind_flow by blast
  have put: "px_resps (snd (pxPut E req b px)) = px_resps px" for E req b
    using pxPut_flow [OF surjective_pairing] by metis
  have con: "px_resps (consumeRequest U E req (px\<lparr>px_put := q\<rparr>)) = px_resps px" for E req q
    using consumeRequest_flow [of "px\<lparr>px_put := q\<rparr>" U E req] by simp
  have fin: "px_resps q = px_resps px" if "finishClose U E px = (x, q)" for E x q
    using finishClose_flow [OF that] by simp
  show ?thesis
    using s get put con fin upstreamPut_flow [of px U] jobStep_grows Lookup_grows
    by (cases ev)
      (auto simp: pxStep_def resolveRequest_def sendResp_def consumeEnd_def hit split: if_splits list.splits prod.splits)
qed

section \<open>The account of a session\<close>

definition receivedOf :: "nat \<Rightarrow> shimEvent list \<Rightarrow> int list" where
  "receivedOf c evs =
     concat (map (\<lambda>ev. case ev of
        ShRequest E c' req b \<Rightarrow>
          (if c' = c \<and> (rq_Command req = CmdGet \<or> rq_Command req = CmdPut) then [rq_ID req] else [])
      | _ \<Rightarrow> []) evs)"

definition waitingIDs :: "nat \<Rightarrow> 'u shim \<Rightarrow> int multiset" where
  "waitingIDs c sh =
     mset (map (\<lambda>kv. pend_originalID (snd kv)) (filter (\<lambda>kv. pend_session (snd kv) = c) (sh_waiters sh)))"

definition writtenIDs :: "shimSession \<Rightarrow> int multiset" where
  "writtenIDs sn = mset (map rs_ID (sn_written sn))"

definition session_ok :: "'u shim \<Rightarrow> nat \<Rightarrow> int list \<Rightarrow> bool" where
  "session_ok sh c ids =
     (case map_of (sh_conns sh) c of
        None \<Rightarrow> ids = [] \<and> waitingIDs c sh = {#}
      | Some sn \<Rightarrow>
          (sn_peer sn \<longrightarrow> writtenIDs sn + waitingIDs c sh = mset ids) \<and>
          writtenIDs sn + waitingIDs c sh \<subseteq># mset ids)"

definition proxy_ok :: "'u shim \<Rightarrow> bool" where
  "proxy_ok sh =
     (\<exists>reqs. flow_ok (sh_proxy sh) reqs \<and> distinct (map rq_ID reqs) \<and>
        (\<forall>r \<in> set reqs. 1 \<le> rq_ID r \<and> rq_ID r \<le> sh_nextID sh) \<and>
        mset (mkeys (sh_waiters sh)) + mset (map rs_ID (take (sh_taken sh) (px_resps (sh_proxy sh))))
          \<subseteq># mset (map rq_ID reqs) \<and>
        wf_map (sh_waiters sh) \<and> sh_taken sh \<le> length (px_resps (sh_proxy sh)) \<and> 0 \<le> sh_nextID sh)"

definition shim_ok :: "'u shim \<Rightarrow> shimEvent list \<Rightarrow> bool" where
  "shim_ok sh evs = (proxy_ok sh \<and> (\<forall>c. session_ok sh c (receivedOf c evs)))"

lemma take_prefix: "prefix xs ys \<Longrightarrow> n \<le> length xs \<Longrightarrow> take n ys = take n xs \<and> n \<le> length ys"
  by (auto elim!: prefixE)

lemma proxy_ok_waiters:
  assumes "proxy_ok sh" "sh_proxy sh' = sh_proxy sh" "sh_nextID sh' = sh_nextID sh" "sh_taken sh' = sh_taken sh"
    and "mset (mkeys (sh_waiters sh')) \<subseteq># mset (mkeys (sh_waiters sh))" "wf_map (sh_waiters sh')"
  shows "proxy_ok sh'"
  using assms subset_mset.add_right_mono [OF assms(5)] subset_mset.order_trans unfolding proxy_ok_def
  by (metis (no_types, lifting))

lemma updSession_frame [simp]:
  "sh_proxy (updSession c f sh) = sh_proxy sh" "sh_nextID (updSession c f sh) = sh_nextID sh"
  "sh_taken (updSession c f sh) = sh_taken sh" "sh_waiters (updSession c f sh) = sh_waiters sh"
  "map_of (sh_conns (updSession c f sh)) c' =
     (if c' = c then map_option f (map_of (sh_conns sh) c) else map_of (sh_conns sh) c')"
  by (auto simp: updSession_def split: option.splits)

lemma waiting_upd [simp]: "waitingIDs c (updSession c' f sh) = waitingIDs c sh"
  by (simp add: waitingIDs_def)

lemma session_ok_same:
  assumes "sh_waiters sh' = sh_waiters sh" "sh_conns sh' = sh_conns sh"
  shows "session_ok sh' c ids = session_ok sh c ids"
  unfolding session_ok_def waitingIDs_def assms ..

lemma filter_mset_sub: "mset (map f (filter P xs)) \<subseteq># mset (map f xs)"
  by (induction xs) (auto intro: subset_mset.order_trans)

lemma sub_add: "A \<subseteq># B \<Longrightarrow> A \<subseteq># add_mset x B"
  by (auto simp: subseteq_mset_def intro: le_SucI)

lemma sub_left: "A + B \<subseteq># C \<Longrightarrow> A \<subseteq># C"
  by (metis mset_subset_eq_add_left subset_mset.order_trans)

lemma sub_drop: "add_mset x A \<subseteq># B \<Longrightarrow> A \<subseteq># B"
  by (metis add_mset_add_single sub_left)

lemma endSession_ok:
  assumes "proxy_ok sh" "\<forall>c'. session_ok sh c' (ids c')"
  shows "proxy_ok (endSession c sh) \<and> (\<forall>c'. session_ok (endSession c sh) c' (ids c'))"
proof (intro conjI allI)
  have w: "sh_waiters (endSession c sh) = filter (\<lambda>(_, p). pend_session p \<noteq> c) (sh_waiters sh)"
    by (simp add: endSession_def dropSessionWaiters_def Let_def)
  have "wf_map (sh_waiters sh)" using assms(1) by (auto simp: proxy_ok_def)
  then show "proxy_ok (endSession c sh)"
    using w filter_mset_sub
    by (intro proxy_ok_waiters [OF assms(1)])
      (auto simp: endSession_def dropSessionWaiters_def Let_def distinct_map_filter)
  fix c'
  have "waitingIDs c' (endSession c sh) = (if c' = c then {#} else waitingIDs c' sh)"
  proof -
    have f: "filter (\<lambda>kv. pend_session (snd kv) = c') (filter (\<lambda>(_, p). pend_session p \<noteq> c) ws) =
        (if c' = c then [] else filter (\<lambda>kv. pend_session (snd kv) = c') ws)" for ws
      by (induction ws) auto
    show ?thesis unfolding waitingIDs_def w f by simp
  qed
  moreover have "session_ok sh c' (ids c')" using assms(2) by blast
  moreover have "map_of (sh_conns (endSession c sh)) c' =
      (if c' = c then map_option (\<lambda>sn. sn\<lparr>sn_serving := False, sn_peer := False\<rparr>) (map_of (sh_conns sh) c)
       else map_of (sh_conns sh) c')"
    by (simp add: endSession_def dropSessionWaiters_def Let_def)
  moreover have "writtenIDs (sn\<lparr>sn_serving := False, sn_peer := False\<rparr>) = writtenIDs sn" for sn
    by (simp add: writtenIDs_def)
  ultimately show "session_ok (endSession c sh) c' (ids c')"
    by (auto simp: session_ok_def sub_left split: option.splits) (metis mset_subset_eq_add_left)
qed

lemma writeResponse_ok:
  assumes w: "writeResponse c resp sh = (b, sh')" and ok: "proxy_ok sh"
  shows "proxy_ok sh' \<and> waitingIDs c' sh' = waitingIDs c' sh \<and>
    sh_proxy sh' = sh_proxy sh \<and> sh_nextID sh' = sh_nextID sh \<and>
    (case map_of (sh_conns sh') c' of
       None \<Rightarrow> map_of (sh_conns sh) c' = None
     | Some sn' \<Rightarrow> \<exists>sn. map_of (sh_conns sh) c' = Some sn \<and> sn_peer sn' = sn_peer sn \<and>
         writtenIDs sn' = writtenIDs sn + (if c' = c \<and> sn_peer sn then {#rs_ID resp#} else {#})) \<and>
    b = (case map_of (sh_conns sh) c of None \<Rightarrow> False | Some sn \<Rightarrow> sn_peer sn)"
proof -
  let ?w = "updSession c (\<lambda>sn. sn\<lparr>sn_written := sn_written sn @ [resp]\<rparr>) sh"
  have p: "proxy_ok ?w" using ok by (simp add: proxy_ok_def)
  show ?thesis
  proof (cases "map_of (sh_conns sh) c")
    case None
    then show ?thesis using w ok by (auto simp: writeResponse_def split: option.splits)
  next
    case (Some sn)
    then have sh': "sh' = (if sn_peer sn then ?w else sh)" "b = sn_peer sn"
      using w by (auto simp: writeResponse_def split: if_splits)
    show ?thesis
      using ok p Some unfolding sh'
      by (cases "map_of (sh_conns sh) c'") (auto simp: writtenIDs_def)
  qed
qed

lemma update_new: "k \<notin> set (mkeys m) \<Longrightarrow> AList.update k v m = m @ [(k, v)]"
  by (induction m) auto

lemma receivedOf_append: "receivedOf c (evs @ evs') = receivedOf c evs @ receivedOf c evs'"
  by (simp add: receivedOf_def)

lemma session_ok_write:
  assumes "writeResponse c resp sh = (b, sh')" "proxy_ok sh" "session_ok sh c' ids"
  shows "if c' = c then (map_of (sh_conns sh) c \<noteq> None \<longrightarrow> session_ok sh' c' (ids @ [rs_ID resp])) else session_ok sh' c' ids"
  using writeResponse_ok [OF assms(1,2), of c'] assms(3)
  by (auto simp: session_ok_def sub_add split: option.splits if_splits)

text \<open>A get: the new waiter is matched by the request the proxy has taken.\<close>

lemma get_ok:
  assumes ok: "proxy_ok sh" "session_ok sh c' ids" and c: "map_of (sh_conns sh) c = Some sn"
    and s: "serveRequest U E c req b sh = sh'" "rq_Command req = CmdGet"
  shows "proxy_ok sh' \<and> session_ok sh' c' (if c' = c then ids @ [rq_ID req] else ids)"
proof -
  let ?n = "sh_nextID sh + 1" and ?p = "\<lparr>pend_session = c, pend_originalID = rq_ID req\<rparr>"
  let ?px = "Lookup U E (req\<lparr>rq_ID := ?n\<rparr>) (sh_proxy sh)"
  obtain reqs where r: "flow_ok (sh_proxy sh) reqs" "distinct (map rq_ID reqs)"
      "\<forall>r \<in> set reqs. 1 \<le> rq_ID r \<and> rq_ID r \<le> sh_nextID sh" "wf_map (sh_waiters sh)" "0 \<le> sh_nextID sh"
      "sh_taken sh \<le> length (px_resps (sh_proxy sh))"
    and sub: "mset (mkeys (sh_waiters sh)) + mset (map rs_ID (take (sh_taken sh) (px_resps (sh_proxy sh))))
      \<subseteq># mset (map rq_ID reqs)"
    using ok(1) by (auto simp: proxy_ok_def)
  have fresh: "?n \<notin> set (mkeys (sh_waiters sh))"
  proof
    assume "?n \<in> set (mkeys (sh_waiters sh))"
    then have "?n \<in># mset (map rq_ID reqs)"
      using mset_subset_eqD [OF sub] by (metis set_mset_mset union_iff)
    then show False using r(3) by auto
  qed
  have upd: "AList.update ?n ?p (sh_waiters sh) = sh_waiters sh @ [(?n, ?p)]"
    using fresh by (rule update_new)
  have sh': "sh' = sh\<lparr>sh_nextID := ?n, sh_waiters := sh_waiters sh @ [(?n, ?p)], sh_proxy := ?px\<rparr>"
    using s by (simp add: serveRequest_def Let_def upd)
  have fl: "flow_ok ?px (reqs @ [req\<lparr>rq_ID := ?n\<rparr>])" using Lookup_ok [OF r(1)] r(5) by simp
  note gr = take_prefix [OF Lookup_grows [of "sh_proxy sh" U E "req\<lparr>rq_ID := ?n\<rparr>"] r(6)]
  have "proxy_ok sh'"
    unfolding proxy_ok_def
    using fl r(2-5) gr sub fresh
    by (intro exI [of _ "reqs @ [req\<lparr>rq_ID := ?n\<rparr>]"]) (auto simp: sh')
  moreover have "session_ok sh' c' (if c' = c then ids @ [rq_ID req] else ids)"
    using ok(2) c by (auto simp: session_ok_def sh' waitingIDs_def split: option.splits)
  ultimately show ?thesis by blast
qed

lemma proxy_ok_flow:
  assumes ok: "proxy_ok sh" and f: "\<And>reqs. flow_ok (sh_proxy sh) reqs \<Longrightarrow> flow_ok px reqs"
    and g: "prefix (px_resps (sh_proxy sh)) (px_resps px)" and n: "sh_nextID sh \<le> n"
  shows "proxy_ok (sh\<lparr>sh_nextID := n, sh_proxy := px\<rparr>)"
proof -
  obtain reqs where r: "flow_ok (sh_proxy sh) reqs" "distinct (map rq_ID reqs)"
      "\<forall>r \<in> set reqs. 1 \<le> rq_ID r \<and> rq_ID r \<le> sh_nextID sh" "wf_map (sh_waiters sh)" "0 \<le> sh_nextID sh"
      "sh_taken sh \<le> length (px_resps (sh_proxy sh))"
      "mset (mkeys (sh_waiters sh)) + mset (map rs_ID (take (sh_taken sh) (px_resps (sh_proxy sh))))
      \<subseteq># mset (map rq_ID reqs)"
    using ok by (auto simp: proxy_ok_def)
  note t = take_prefix [OF g r(6)]
  have "\<forall>r \<in> set reqs. 1 \<le> rq_ID r \<and> rq_ID r \<le> n" using r(3) n by fastforce
  then show ?thesis
    unfolding proxy_ok_def
    using f [OF r(1)] r(2,4,5,7) t n by (intro exI [of _ reqs]) simp
qed

lemma pxPut_flow_ok:
  assumes "pxPut E req b px = (r, px')" "flow_ok px reqs"
  shows "flow_ok px' reqs"
proof -
  have "px_upstream px' = None \<longleftrightarrow> px_upstream px = None"
    using assms(1) pxGet_frame [of E req px] pxPutOne_frame [of E req b "snd (pxGet E req px)"]
    by (auto simp: pxPut_def Let_def split: prod.splits if_splits)
  then show ?thesis
    using assms(2) pxPut_flow [OF assms(1)] by (simp add: flow_ok_def pendingIDs_def chans_def answeredIDs_def)
qed

text \<open>A put is answered at once, unless its session is gone.\<close>

lemma put_ok:
  assumes ok: "proxy_ok sh" "\<forall>c'. session_ok sh c' (ids c')" and c: "map_of (sh_conns sh) c = Some sn"
    and s: "serveRequest U E c req b sh = sh'" "rq_Command req = CmdPut"
  shows "proxy_ok sh' \<and> (\<forall>c'. session_ok sh' c' (if c' = c then ids c' @ [rq_ID req] else ids c'))"
proof -
  let ?n = "sh_nextID sh + 1"
  obtain resp px where p: "pxPut E (req\<lparr>rq_ID := ?n\<rparr>) b (sh_proxy sh) = (resp, px)" by fastforce
  let ?sh1 = "sh\<lparr>sh_nextID := ?n, sh_proxy := px\<rparr>" and ?r = "resp\<lparr>rs_ID := rq_ID req\<rparr>"
  obtain w sh2 where w: "writeResponse c ?r ?sh1 = (w, sh2)" by fastforce
  have sh': "sh' = (if w then sh2 else endSession c sh2)"
    using s p w by (simp add: serveRequest_def Let_def CmdGet_def CmdPut_def split: bool.splits)
  have "prefix (px_resps (sh_proxy sh)) (px_resps px)" using pxPut_flow [OF p] by simp
  then have ok1: "proxy_ok ?sh1" using pxPut_flow_ok [OF p] by (intro proxy_ok_flow [OF ok(1)]) auto
  have ses1: "session_ok ?sh1 c' (ids c')" for c'
    using ok(2) session_ok_same [of ?sh1 sh] by simp
  have ok2: "proxy_ok sh2" using writeResponse_ok [OF w ok1] by simp
  have ses2: "session_ok sh2 c' (if c' = c then ids c' @ [rq_ID req] else ids c')" for c'
    using session_ok_write [OF w ok1 ses1, of c'] c by (auto split: if_splits)
  show ?thesis
    using ok2 ses2 endSession_ok [OF ok2, of "\<lambda>c'. if c' = c then ids c' @ [rq_ID req] else ids c'"] by (simp add: sh')
qed

text \<open>A response is taken from the channel once, and goes to the session that waits for it.\<close>

lemma dispatch_ok:
  assumes ok: "proxy_ok sh" "\<forall>c'. session_ok sh c' (ids c')" and t: "sh_taken sh < length (px_resps (sh_proxy sh))"
    and sh': "sh' = dispatchResponse (px_resps (sh_proxy sh) ! sh_taken sh) (sh\<lparr>sh_taken := sh_taken sh + 1\<rparr>)"
  shows "proxy_ok sh' \<and> (\<forall>c'. session_ok sh' c' (ids c'))"
proof -
  let ?resp = "px_resps (sh_proxy sh) ! sh_taken sh" and ?sh0 = "sh\<lparr>sh_taken := sh_taken sh + 1\<rparr>"
  let ?id = "rs_ID ?resp" and ?T = "mset (map rs_ID (take (sh_taken sh) (px_resps (sh_proxy sh))))"
  obtain reqs where r: "flow_ok (sh_proxy sh) reqs" "distinct (map rq_ID reqs)"
      "\<forall>r \<in> set reqs. 1 \<le> rq_ID r \<and> rq_ID r \<le> sh_nextID sh" "wf_map (sh_waiters sh)" "0 \<le> sh_nextID sh"
    and sub: "mset (mkeys (sh_waiters sh)) + ?T \<subseteq># mset (map rq_ID reqs)"
    using ok(1) by (auto simp: proxy_ok_def)
  have T: "mset (map rs_ID (take (sh_taken sh + 1) (px_resps (sh_proxy sh)))) = add_mset ?id ?T"
    using t by (simp add: take_Suc_conv_app_nth)
  have once: "count (mset (map rq_ID reqs)) x \<le> 1" for x
    using r(2) distinct_count_atmost_1 [of "map rq_ID reqs"] by (metis le_refl zero_le_one)
  have ans: "add_mset ?id ?T \<subseteq># mset (map rq_ID reqs)"
  proof -
    have "mset (map rs_ID (take (sh_taken sh + 1) (px_resps (sh_proxy sh)))) \<subseteq># answeredIDs (sh_proxy sh)"
      unfolding answeredIDs_def
      by (metis append_take_drop_id map_append mset_append mset_subset_eq_add_left)
    then show ?thesis
      using r(1) T by (metis flow_ok_def mset_subset_eq_add_left subset_mset.order_trans)
  qed
  have sub': "mset (mkeys (AList.delete ?id (sh_waiters sh))) + add_mset ?id ?T \<subseteq># mset (map rq_ID reqs)"
  proof (rule mset_subset_eqI)
    fix x
    have "x \<in> set (mkeys (AList.delete ?id (sh_waiters sh))) \<longleftrightarrow> x \<in> set (mkeys (sh_waiters sh)) \<and> x \<noteq> ?id" by auto
    then have "count (mset (mkeys (AList.delete ?id (sh_waiters sh)))) x =
        (if x = ?id then 0 else count (mset (mkeys (sh_waiters sh))) x)"
      using r(4) distinct_delete [OF r(4)] by (simp add: distinct_count_atmost_1)
    then show "count (mset (mkeys (AList.delete ?id (sh_waiters sh))) + add_mset ?id ?T) x \<le> count (mset (map rq_ID reqs)) x"
      using mset_subset_eq_count [OF sub, of x] mset_subset_eq_count [OF ans, of x] by auto
  qed
  let ?sh1 = "?sh0\<lparr>sh_waiters := AList.delete ?id (sh_waiters sh)\<rparr>"
  have ok1: "proxy_ok ?sh1"
    unfolding proxy_ok_def using r sub' T t distinct_delete [OF r(4)] by (intro exI [of _ reqs]) simp
  show ?thesis
  proof (cases "map_of (sh_waiters sh) ?id")
    case None
    then have "?sh0 = ?sh1" by (simp add: map_of_None_delete)
    moreover have "session_ok ?sh0 c' (ids c')" for c' using ok(2) session_ok_same [of ?sh0 sh] by simp
    ultimately show ?thesis using ok1 None by (simp add: sh' dispatchResponse_def)
  next
    case (Some p)
    let ?c = "pend_session p" and ?o = "pend_originalID p"
    let ?u = "updSession ?c (\<lambda>sn. sn\<lparr>sn_firstGetLogged := True\<rparr>) ?sh1"
    obtain n where n: "sh' = snd (writeResponse ?c (?resp\<lparr>rs_ID := ?o\<rparr>) (?u\<lparr>sh_firstGetsServed := n\<rparr>))"
      using Some by (simp add: sh' dispatchResponse_def Let_def)
    define w0 where "w0 = ?u\<lparr>sh_firstGetsServed := n\<rparr>"
    have w0: "sh_waiters w0 = AList.delete ?id (sh_waiters sh)" "map_of (sh_conns w0) k =
        (if k = ?c then map_option (\<lambda>sn. sn\<lparr>sn_firstGetLogged := True\<rparr>) (map_of (sh_conns sh) k) else map_of (sh_conns sh) k)" for k
      by (simp_all add: w0_def)
    have okw: "proxy_ok w0" using ok1 by (simp add: proxy_ok_def w0_def)
    obtain b sh2 where w: "writeResponse ?c (?resp\<lparr>rs_ID := ?o\<rparr>) w0 = (b, sh2)" by fastforce
    have sh': "sh' = sh2" using n w by (simp add: w0_def)
    have wait: "waitingIDs c' sh = waitingIDs c' w0 + (if c' = ?c then {#?o#} else {#})" for c'
    proof -
      have "mset (map (\<lambda>kv. pend_originalID (snd kv)) (filter (\<lambda>kv. pend_session (snd kv) = c') ws)) =
          mset (map (\<lambda>kv. pend_originalID (snd kv)) (filter (\<lambda>kv. pend_session (snd kv) = c') (AList.delete i ws))) +
          (if c' = ?c then {#?o#} else {#})" if "wf_map ws" "map_of ws i = Some p" for ws and i :: int
        using that by (induction ws) (auto simp: delete_notin split: if_splits)
      from this [OF r(4) Some] show ?thesis by (simp add: waitingIDs_def w0(1))
    qed
    note wr = writeResponse_ok [OF w okw]
    have "session_ok sh2 c' (ids c')" for c'
    proof -
      have s: "session_ok sh c' (ids c')" using ok(2) by blast
      have e: "waitingIDs c' sh2 = waitingIDs c' w0" using wr [of c'] by blast
      show ?thesis
      proof (cases "map_of (sh_conns sh) c'")
        case None
        then have "map_of (sh_conns w0) c' = None" by (auto simp: w0(2))
        then have "map_of (sh_conns sh2) c' = None" using wr [of c'] by (cases "map_of (sh_conns sh2) c'") simp_all
        then show ?thesis using s None e wait [of c'] by (auto simp: session_ok_def split: if_splits)
      next
        case (Some sn)
        obtain sn0 where sn0: "map_of (sh_conns w0) c' = Some sn0" "writtenIDs sn0 = writtenIDs sn" "sn_peer sn0 = sn_peer sn"
          using Some by (cases "c' = ?c") (auto simp: writtenIDs_def w0(2))
        then obtain sn2 where sn2: "map_of (sh_conns sh2) c' = Some sn2" "sn_peer sn2 = sn_peer sn"
            "writtenIDs sn2 = writtenIDs sn + (if c' = ?c \<and> sn_peer sn then {#?o#} else {#})"
          using wr [of c'] by (cases "map_of (sh_conns sh2) c'") auto
        show ?thesis
          using s Some sn2 e wait [of c']
          by (cases "c' = ?c"; cases "sn_peer sn") (auto simp: session_ok_def dest: sub_drop)
      qed
    qed
    then show ?thesis using wr by (simp add: sh')
  qed
qed

lemma hello_ok:
  assumes ok: "proxy_ok sh" "session_ok sh c' ids" and c: "map_of (sh_conns sh) c = None"
  shows "proxy_ok (acceptHello c hello sh) \<and> session_ok (acceptHello c hello sh) c' ids"
proof -
  have w: "sh_waiters (acceptHello c hello sh) = sh_waiters sh" "sh_proxy (acceptHello c hello sh) = sh_proxy sh"
    "sh_nextID (acceptHello c hello sh) = sh_nextID sh" "sh_taken (acceptHello c hello sh) = sh_taken sh"
    by (simp_all add: acceptHello_def)
  have "waitingIDs c' (acceptHello c hello sh) = waitingIDs c' sh" unfolding waitingIDs_def w ..
  then show ?thesis
    using ok c w unfolding proxy_ok_def
    by (auto simp: session_ok_def acceptHello_def writtenIDs_def split: option.splits)
qed

lemma peer_gone_ok:
  assumes "proxy_ok sh" "session_ok sh c' ids" and "\<And>sn. writtenIDs (f sn) = writtenIDs sn \<and> (sn_peer (f sn) \<longrightarrow> sn_peer sn)"
  shows "proxy_ok (updSession c f sh) \<and> session_ok (updSession c f sh) c' ids"
  using assms by (auto simp: proxy_ok_def session_ok_def split: option.splits)

lemma takeStop_ok:
  assumes "proxy_ok sh" "session_ok sh c' ids"
  shows "proxy_ok (takeStop c sh) \<and> session_ok (takeStop c sh) c' ids"
proof -
  have m: "map_of (sh_conns (takeStop c sh)) c' = map_option (\<lambda>sn. sn\<lparr>sn_peer := False\<rparr>) (map_of (sh_conns sh) c')"
    by (simp add: takeStop_def map_of_map)
  have "waitingIDs c' (takeStop c sh) = waitingIDs c' sh" by (simp add: waitingIDs_def takeStop_def)
  then show ?thesis
    using assms m by (auto simp: proxy_ok_def session_ok_def takeStop_def writtenIDs_def split: option.splits)
qed

section \<open>All sessions\<close>

context answering_upstream
begin

lemma shimStep_ok:
  assumes s: "shimStep U sh ev = Some sh'" and ok: "shim_ok sh evs"
  shows "shim_ok sh' (evs @ [ev])"
proof -
  have p: "proxy_ok sh" and q: "\<forall>c. session_ok sh c (receivedOf c evs)" using ok by (auto simp: shim_ok_def)
  have keep: "shim_ok sh' (evs @ [ev])"
    if "\<forall>c. receivedOf c [ev] = []" "proxy_ok sh' \<and> (\<forall>c. session_ok sh' c (receivedOf c evs))"
    using that by (simp add: shim_ok_def receivedOf_append)
  show ?thesis
  proof (cases ev)
    case (ShHello c hello)
    then show ?thesis
      using s hello_ok [OF p spec [OF q]] keep by (auto simp: shimStep_def receivedOf_def split: if_splits)
  next
    case (ShReady c b)
    then have "sh' = sessionReady c b sh" using s by (auto simp: shimStep_def split: option.splits if_splits)
    then show ?thesis
      using ShReady endSession_ok [OF p q] peer_gone_ok [OF p spec [OF q]] keep
      by (auto simp: sessionReady_def receivedOf_def writtenIDs_def)
  next
    case (ShRequest E c req b)
    then obtain sn where sn: "map_of (sh_conns sh) c = Some sn" "serveRequest U E c req b sh = sh'"
      using s by (auto simp: shimStep_def split: option.splits if_splits)
    show ?thesis
    proof (cases "rq_Command req = CmdGet \<or> rq_Command req = CmdPut")
      case True
      then have rec: "receivedOf c' (evs @ [ev]) = (if c' = c then receivedOf c' evs @ [rq_ID req] else receivedOf c' evs)" for c'
        by (simp add: receivedOf_append) (simp add: receivedOf_def ShRequest)
      show ?thesis
        unfolding shim_ok_def rec using True get_ok [OF p spec [OF q] sn] put_ok [OF p q sn] by blast
    next
      case False
      then show ?thesis
        using sn ShRequest endSession_ok [OF p q] keep by (auto simp: serveRequest_def receivedOf_def)
    qed
  next
    case (ShEOF c)
    then show ?thesis
      using s endSession_ok [OF p q] keep by (auto simp: shimStep_def receivedOf_def split: option.splits if_splits)
  next
    case (ShPeerGone c)
    then show ?thesis
      using s peer_gone_ok [OF p spec [OF q]] keep by (auto simp: shimStep_def receivedOf_def writtenIDs_def)
  next
    case ShDispatch
    then show ?thesis
      using s dispatch_ok [OF p q] keep by (auto simp: shimStep_def receivedOf_def split: if_splits)
  next
    case (ShProxy ev')
    then obtain px where px: "internal ev'" "pxStep U (sh_proxy sh) ev' = Some (Inr px)" "sh' = sh\<lparr>sh_proxy := px\<rparr>"
      using s by (auto simp: shimStep_def split: if_splits option.splits sum.splits)
    have l: "lookupsOf [ev'] = []" using px(1) by (auto simp: lookupsOf_def internal_def split: pxEvent.splits)
    have "flow_ok px reqs" if "flow_ok (sh_proxy sh) reqs" for reqs
      using pxStep_ok [OF that px(2)] l by simp
    then have "proxy_ok (sh\<lparr>sh_nextID := sh_nextID sh, sh_proxy := px\<rparr>)"
      using pxStep_grows [OF px(2)] by (intro proxy_ok_flow [OF p]) auto
    moreover have "session_ok sh' c (receivedOf c evs)" for c
      using q session_ok_same [of sh' sh] px(3) by simp
    ultimately show ?thesis using keep px(3) ShProxy by (simp add: receivedOf_def)
  next
    case ShStop
    then show ?thesis
      using s takeStop_ok [OF p spec [OF q]] keep by (auto simp: shimStep_def receivedOf_def split: option.splits)
  next
    case (ShReplyStop resp)
    have r: "sh_waiters (ReplyStop resp sh) = sh_waiters sh" "sh_conns (ReplyStop resp sh) = sh_conns sh"
      "sh_proxy (ReplyStop resp sh) = sh_proxy sh" "sh_nextID (ReplyStop resp sh) = sh_nextID sh"
      "sh_taken (ReplyStop resp sh) = sh_taken sh"
      by (simp_all add: ReplyStop_def split: option.splits)
    have "proxy_ok (ReplyStop resp sh)" using p unfolding proxy_ok_def r .
    then show ?thesis
      using s ShReplyStop keep q session_ok_same [OF r(1,2)] by (simp add: shimStep_def receivedOf_def)
  qed
qed

lemma shimRun_ok: "shimRun U sh evs sh' \<Longrightarrow> shim_ok sh [] \<Longrightarrow> shim_ok sh' evs"
  by (induction rule: shimRun.induct) (auto intro: shimStep_ok)

end

lemma NewShim_ok: "shim_ok (NewShimServer (NewProxy d u P) token) []"
proof -
  have "flow_ok (NewProxy d u P) []" by (rule NewProxy_ok)
  then show ?thesis
    by (auto simp: shim_ok_def proxy_ok_def session_ok_def NewShimServer_def receivedOf_def waitingIDs_def
        intro!: exI [of _ "[]"])
qed


definition hello :: "string \<Rightarrow> shimHello" where
  "hello name = \<lparr>hello_SessionID = name, hello_AuthToken = ''t'', hello_Stop = False\<rparr>"

text \<open>Two sessions that both use the ids 1 and 2.\<close>

definition twoSessions :: "shimEvent list" where
  "twoSessions =
     [ShHello 7 (hello ''s''), ShHello 8 (hello ''r''), ShReady 7 True, ShReady 8 True,
      ShRequest (calm 2) 7 (getReq 1 ''a'') [], ShRequest (calm 2) 8 (getReq 1 ''b'') [],
      ShRequest (calm 2) 8 (getReq 2 ''a'') [], ShProxy (EvReceive (calm 3)), ShProxy (EvReceive (calm 3)),
      ShProxy (EvReceive (calm 3)), ShProxy EvTick, ShProxy EvDispatch, ShProxy (EvJobStart 0),
      ShProxy (EvJobItem (calm 4) 0), ShDispatch, ShDispatch, ShPeerGone 7, ShProxy (EvJobItem (calm 4) 0),
      ShProxy (EvJobEnd 0), ShDispatch]"


section \<open>The client's side\<close>

text \<open>Sent and not yet passed on.\<close>

definition client_ok :: "shimClientSession \<Rightarrow> bool" where
  "client_ok cl =
     ((\<forall>e. sc_result cl \<noteq> Some (Some e)) \<longrightarrow>
        sc_inFlight cl = int (length (sc_sent cl)) - (int (length (sc_out cl)) - 1) \<and> 0 \<le> sc_inFlight cl \<and>
        (sc_readerDone cl = Some None \<longrightarrow> sc_inFlight cl = 0) \<and>
        (sc_result cl = Some None \<longrightarrow> sc_inFlight cl = 0))"

lemma clientInput_ok:
  assumes "client_ok cl" "sc_result cl = None"
  shows "client_ok (clientInput inp se cl)"
  using assms unfolding clientInput_def client_ok_def Let_def
  by (auto split: appInput.splits sum.splits if_splits option.splits)

lemma clientStep_ok: "clientStep cl ev = Some cl' \<Longrightarrow> client_ok cl \<Longrightarrow> client_ok cl'"
proof (cases ev)
  case (ClInput inp se)
  then show "clientStep cl ev = Some cl' \<Longrightarrow> client_ok cl \<Longrightarrow> client_ok cl'"
    using clientInput_ok by (auto simp: clientStep_def split: if_splits)
qed (auto simp: clientStep_def client_ok_def Let_def split: if_splits option.splits)

lemma clientRun_ok: "clientRun cl evs cl' \<Longrightarrow> client_ok cl \<Longrightarrow> client_ok cl'"
  by (induction rule: clientRun.induct) (auto dest: clientStep_ok)

text \<open>
  A session that ends without an error has passed on one response for each request it sent, besides the
  first message: it does not exit on the close command before the last of them.\<close>

theorem client_close_complete:
  assumes "clientRun newClientSession evs cl" "sc_result cl = Some None"
  shows "length (sc_out cl) = length (sc_sent cl) + 1"
  using clientRun_ok [OF assms(1)] assms(2) by (auto simp: client_ok_def newClientSession_def)

text \<open>The close command itself is never answered, in either mode.\<close>

theorem close_unanswered:
  assumes "rq_Command req = CmdClose"
  shows "appStep U E (AppRequest req b) px = (Some None, px)"
    and "sc_result cl = None \<Longrightarrow> \<not> sc_waiting cl \<Longrightarrow>
      clientStep cl (ClInput (AppRequest req b) se) = Some (cl\<lparr>sc_waiting := True\<rparr>)"
  using assms by (simp_all add: appStep_def clientStep_def clientInput_def CmdClose_def CmdPut_def)

end
