(* ===== verification/Http_Client.thy ===== *)
theory Http_Client
  imports Http_Save
begin

text \<open>
  The HTTP client (\<open>internal/http/client.go\<close>) through which the proxy and the GitHub Actions helpers use
  the server. A method takes the state of the client and returns its result and the new state; what lies
  behind the connection is a value \<open>cl_world\<close> in that state and a function, the transport, that takes a
  request and answers it. Redirects, timeouts, dialing and the encoding of URLs are the transport's.

  A callback that gets items one by one is a list of them. Not modelled: the counters of raw bytes on
  connections, the latency histograms, and log lines.
\<close>

section \<open>Requests and responses\<close>

text \<open>\<open>hs_body\<close> is what reading the body delivers, \<open>hs_trailer\<close> the headers that follow it, and
  \<open>hs_elapsed\<close> the time from sending the request to the end of the body.\<close>

record httpResponse =
  hs_status :: int
  hs_header :: "string \<Rightarrow> string"
  hs_trailer :: "string \<Rightarrow> string"
  hs_body :: reader
  hs_elapsed :: int

text \<open>A transport gets the base URL, the request, and the world.\<close>

type_synonym 'w transport = "string \<Rightarrow> httpRequest \<Rightarrow> 'w \<Rightarrow> httpResponse result \<times> 'w"

text \<open>The JSON functions for the types that only the client writes or reads.\<close>

record clientCodec =
  enc_actionIDs :: "string list \<Rightarrow> bytes result"
  enc_preload :: "preloadRequest \<Rightarrow> bytes result"
  enc_paths :: "string list \<Rightarrow> bytes result"
  enc_extra :: "(string \<times> jval) list \<Rightarrow> bytes result"
  dec_limits :: "bytes \<Rightarrow> (string \<times> int) list result"
  dec_keys :: "bytes \<Rightarrow> keyInspection list result"

section \<open>The state\<close>

record 'w client =
  cl_baseURL :: string
  cl_authToken :: string
  cl_sessionID :: string
  cl_preloadItems :: int
  cl_getCnt :: int
  cl_getReqCnt :: int
  cl_getTotal :: int
  cl_putCnt :: int
  cl_saveCacheMaxRequestBytes :: int
  cl_lastPreloadSources :: string
  cl_lastPreloadQueueWait :: string
  cl_lastPreloadPrepareTime :: string
  cl_lastPreloadTotalTime :: string
  cl_lastRestoreSources :: string
  cl_lastRestorePrepareTime :: string
  cl_lastRestoreTotalTime :: string
  cl_lastSaveTotalTime :: string
  cl_world :: 'w

definition DefaultSaveCacheChunkBytes :: int where "DefaultSaveCacheChunkBytes = 900 * 1024"

definition saveCacheMaxRetries :: nat where "saveCacheMaxRetries = 3"

definition gatewayRetryDelay :: int where "gatewayRetryDelay = 5000000"

text \<open>A start time is given as it is printed; the zero time is the empty string.\<close>

record sessionParams =
  sp_Commit :: string
  sp_ParentCommit :: string
  sp_ChangesID :: string
  sp_BuildType :: string
  sp_BaseCommit :: string

record sessionInfo =
  si_SessionID :: string
  si_StartedAt :: string
  si_PID :: int
  si_CacheDir :: string
  si_JobURL :: string
  si_Params :: "sessionParams option"

section \<open>Headers\<close>

type_synonym header = "string \<Rightarrow> string"

definition setAuthHeader :: "string \<Rightarrow> header \<Rightarrow> header" where
  "setAuthHeader token hm = (if trimSpace token = [] then hm else hm(''Authorization'' := ''Bearer '' @ token))"

definition setNonEmpty :: "string \<Rightarrow> string \<Rightarrow> header \<Rightarrow> header" where
  "setNonEmpty k v hm = (if v = [] then hm else hm(k := v))"

definition setSessionHeaders :: "sessionInfo option \<Rightarrow> header \<Rightarrow> header" where
  "setSessionHeaders info hd0 =
     (case info of
        None \<Rightarrow> hd0
      | Some si \<Rightarrow>
          (let hd1 = setNonEmpty ''X-Gocacheprog-Session-Id'' (si_SessionID si) hd0;
               hd2 = setNonEmpty ''X-Gocacheprog-Started-At'' (si_StartedAt si) hd1;
               hd3 = (if si_PID si \<noteq> 0 then hd2(''X-Gocacheprog-Pid'' := formatInt (si_PID si)) else hd2);
               hd4 = setNonEmpty ''X-Gocacheprog-Cache-Dir'' (si_CacheDir si) hd3;
               hd5 = setNonEmpty ''X-Gocacheprog-Job-Url'' (si_JobURL si) hd4
           in case si_Params si of
                None \<Rightarrow> hd5
              | Some ps \<Rightarrow>
                  setNonEmpty ''X-Gocacheprog-Base'' (sp_BaseCommit ps)
                    (setNonEmpty ''X-Gocacheprog-Build-Type'' (sp_BuildType ps)
                      (setNonEmpty ''X-Gocacheprog-Changes'' (sp_ChangesID ps)
                        (setNonEmpty ''X-Gocacheprog-Parent'' (sp_ParentCommit ps)
                          (setNonEmpty ''X-Gocacheprog-Commit'' (sp_Commit ps) hd5))))))"

definition setSessionAuthHeaders :: "'w client \<Rightarrow> header \<Rightarrow> header" where
  "setSessionAuthHeaders c hm =
     setNonEmpty ''X-Gocacheprog-Session-Id'' (cl_sessionID c) (setAuthHeader (cl_authToken c) hm)"

section \<open>Query parameters\<close>

text \<open>\<open>url.Values\<close>, of which each key has one value.\<close>

definition gocacheQuery :: "request \<Rightarrow> (string \<times> string) list" where
  "gocacheQuery req =
     (let str = (\<lambda>k v. if v = [] then [] else [(k, v)]); num = (\<lambda>k n. if 0 < n then [(k, formatInt n)] else [])
      in str ''commit'' (Commit req) @ str ''changes-id'' (ChangesID req) @ str ''build-type'' (BuildType req) @
         str ''base-commit'' (BaseCommit req) @ str ''parent-commit'' (ParentCommit req) @
         num ''max-file-bytes'' (MaxFileBytes req) @
         num ''max-preload-total-bytes'' (MaxPreloadTotalBytes req))"

definition saveCacheQuery :: "request \<Rightarrow> string \<Rightarrow> (string \<times> string) list" where
  "saveCacheQuery req uploadID =
     gocacheQuery req @ (if uploadID = [] then [] else [(''upload-id'', uploadID)])"

definition queryGet :: "(string \<times> string) list \<Rightarrow> string \<Rightarrow> string" where
  "queryGet q k = (case map_of q k of None \<Rightarrow> [] | Some v \<Rightarrow> v)"

section \<open>Sending a request\<close>

definition clientRequest ::
  "'w client \<Rightarrow> string \<Rightarrow> string \<Rightarrow> (string \<times> string) list \<Rightarrow> string \<Rightarrow> bytes \<Rightarrow> httpRequest" where
  "clientRequest c meth p q ctype body =
     \<lparr>rq_method = meth, rq_path = p,
      rq_header = setSessionAuthHeaders c (setNonEmpty ''Content-Type'' ctype (\<lambda>_. [])),
      rq_query = queryGet q, rq_basicAuth = None, rq_body = (body, None), rq_elapsed = 0\<rparr>"

definition gatewayStatus :: "httpResponse \<Rightarrow> bool" where
  "gatewayStatus res = (hs_status res = 502 \<or> hs_status res = 504)"

text \<open>\<open>roundTrip\<close>. \<open>getBody\<close> tells whether the request has a \<open>GetBody\<close>, which every body that is a buffer or a
  string has.\<close>

definition roundTrip ::
  "'w transport \<Rightarrow> bool \<Rightarrow> httpRequest \<Rightarrow> 'w client \<Rightarrow> httpResponse result \<times> 'w client" where
  "roundTrip T getBody r c =
     (case T (cl_baseURL c) r (cl_world c) of
        (Inl e, w) \<Rightarrow> (Inl e, c\<lparr>cl_world := w\<rparr>)
      | (Inr res, w) \<Rightarrow>
          (if \<not> gatewayStatus res then (Inr res, c\<lparr>cl_world := w\<rparr>)
           else if \<not> getBody \<and> rq_body r \<noteq> ([], None) then (Inr res, c\<lparr>cl_world := w\<rparr>)
           else (case snd (hs_body res) of
               Some e \<Rightarrow> (Inl e, c\<lparr>cl_world := w\<rparr>)
             | None \<Rightarrow>
                 (case T (cl_baseURL c) r w of
                    (Inl e, w') \<Rightarrow> (Inl e, c\<lparr>cl_world := w'\<rparr>)
                  | (Inr res', w') \<Rightarrow>
                      (let t = hs_elapsed res + gatewayRetryDelay + hs_elapsed res' in
                       (Inr (if gatewayStatus res'
                             then res\<lparr>hs_trailer := (\<lambda>_. []), hs_elapsed := t\<rparr>
                             else res'\<lparr>hs_elapsed := t\<rparr>),
                        c\<lparr>cl_world := w'\<rparr>))))))"

text \<open>\<open>http.StatusText\<close>.\<close>

definition statusText :: "int \<Rightarrow> string" where
  "statusText code =
     queryGet
       [(formatInt 100, ''Continue''), (formatInt 101, ''Switching Protocols''), (formatInt 102, ''Processing''),
        (formatInt 103, ''Early Hints''), (formatInt 200, ''OK''), (formatInt 201, ''Created''),
        (formatInt 202, ''Accepted''), (formatInt 203, ''Non-Authoritative Information''),
        (formatInt 204, ''No Content''), (formatInt 205, ''Reset Content''), (formatInt 206, ''Partial Content''),
        (formatInt 207, ''Multi-Status''), (formatInt 208, ''Already Reported''), (formatInt 226, ''IM Used''),
        (formatInt 300, ''Multiple Choices''), (formatInt 301, ''Moved Permanently''), (formatInt 302, ''Found''),
        (formatInt 303, ''See Other''), (formatInt 304, ''Not Modified''), (formatInt 305, ''Use Proxy''),
        (formatInt 307, ''Temporary Redirect''), (formatInt 308, ''Permanent Redirect''),
        (formatInt 400, ''Bad Request''), (formatInt 401, ''Unauthorized''), (formatInt 402, ''Payment Required''),
        (formatInt 403, ''Forbidden''), (formatInt 404, ''Not Found''), (formatInt 405, ''Method Not Allowed''),
        (formatInt 406, ''Not Acceptable''), (formatInt 407, ''Proxy Authentication Required''),
        (formatInt 408, ''Request Timeout''), (formatInt 409, ''Conflict''), (formatInt 410, ''Gone''),
        (formatInt 411, ''Length Required''), (formatInt 412, ''Precondition Failed''),
        (formatInt 413, ''Request Entity Too Large''), (formatInt 414, ''Request URI Too Long''),
        (formatInt 415, ''Unsupported Media Type''), (formatInt 416, ''Requested Range Not Satisfiable''),
        (formatInt 417, ''Expectation Failed''), (formatInt 418, ''I'' @ [CHR 0x27] @ ''m a teapot''),
        (formatInt 421, ''Misdirected Request''), (formatInt 422, ''Unprocessable Entity''),
        (formatInt 423, ''Locked''), (formatInt 424, ''Failed Dependency''), (formatInt 425, ''Too Early''),
        (formatInt 426, ''Upgrade Required''), (formatInt 428, ''Precondition Required''),
        (formatInt 429, ''Too Many Requests''), (formatInt 431, ''Request Header Fields Too Large''),
        (formatInt 451, ''Unavailable For Legal Reasons''), (formatInt 500, ''Internal Server Error''),
        (formatInt 501, ''Not Implemented''), (formatInt 502, ''Bad Gateway''),
        (formatInt 503, ''Service Unavailable''), (formatInt 504, ''Gateway Timeout''),
        (formatInt 505, ''HTTP Version Not Supported''), (formatInt 506, ''Variant Also Negotiates''),
        (formatInt 507, ''Insufficient Storage''), (formatInt 508, ''Loop Detected''),
        (formatInt 510, ''Not Extended''), (formatInt 511, ''Network Authentication Required'')]
       (formatInt code)"

definition checkStatus :: "httpResponse \<Rightarrow> int \<Rightarrow> string \<Rightarrow> go_error option" where
  "checkStatus res expected opname =
     (if hs_status res = expected then None
      else (let pre = opname @ '' status '' @ formatInt (hs_status res) @ '': '' in
        case snd (hs_body res) of
          Some e \<Rightarrow> Some (ErrWrap (pre @ ''response read failed'') e)
        | None \<Rightarrow>
            (let msg = trimSpace (fst (hs_body res)) in
             Some (ErrMsg (pre @ (if msg = [] then statusText (hs_status res) else msg))))))"

text \<open>The first half of most methods: send the request and check the status.\<close>

definition exchange ::
  "'w transport \<Rightarrow> int \<Rightarrow> string \<Rightarrow> httpRequest \<Rightarrow> 'w client \<Rightarrow> httpResponse result \<times> 'w client" where
  "exchange T expected opname r c =
     (case roundTrip T True r c of
        (Inl e, c') \<Rightarrow> (Inl e, c')
      | (Inr res, c') \<Rightarrow>
          (case checkStatus res expected opname of Some e \<Rightarrow> (Inl e, c') | None \<Rightarrow> (Inr res, c')))"

definition readAll :: "reader \<Rightarrow> bytes result" where
  "readAll rd = (case snd rd of Some e \<Rightarrow> Inl e | None \<Rightarrow> Inr (fst rd))"

text \<open>\<open>json.NewDecoder(res.Body).Decode\<close>.\<close>

definition decodeReader :: "(bytes \<Rightarrow> 'a result) \<Rightarrow> reader \<Rightarrow> 'a result" where
  "decodeReader f rd =
     (case f (fst rd) of
        Inr v \<Rightarrow> Inr v
      | Inl e \<Rightarrow> Inl (case snd rd of Some e' \<Rightarrow> e' | None \<Rightarrow> e))"

definition headerOf :: "httpResponse \<Rightarrow> string \<Rightarrow> string" where
  "headerOf res k = trimSpace (hs_header res k)"

section \<open>Opening\<close>

definition newClient :: "string \<Rightarrow> string \<Rightarrow> sessionInfo option \<Rightarrow> 'w \<Rightarrow> 'w client" where
  "newClient url token info w =
     \<lparr>cl_baseURL = url, cl_authToken = token,
      cl_sessionID = (case info of None \<Rightarrow> [] | Some si \<Rightarrow> si_SessionID si),
      cl_preloadItems = 0, cl_getCnt = 0, cl_getReqCnt = 0, cl_getTotal = 0, cl_putCnt = 0,
      cl_saveCacheMaxRequestBytes = DefaultSaveCacheChunkBytes,
      cl_lastPreloadSources = [], cl_lastPreloadQueueWait = [], cl_lastPreloadPrepareTime = [],
      cl_lastPreloadTotalTime = [], cl_lastRestoreSources = [], cl_lastRestorePrepareTime = [],
      cl_lastRestoreTotalTime = [], cl_lastSaveTotalTime = [], cl_world = w\<rparr>"

definition trimSuffixChar :: "char \<Rightarrow> string \<Rightarrow> string" where
  "trimSuffixChar ch s = (if s \<noteq> [] \<and> last s = ch then butlast s else s)"

text \<open>\<open>urlErr\<close> is the error of \<open>http.NewRequest\<close> for a URL that does not parse; \<open>ver\<close> is the version of
  this module, from the package \<open>bool64/dev\<close>.\<close>

definition NewClientWithSession ::
  "'w transport \<Rightarrow> (string \<Rightarrow> go_error option) \<Rightarrow> string \<Rightarrow> string \<Rightarrow> string \<Rightarrow> sessionInfo option \<Rightarrow> 'w \<Rightarrow>
     'w client result \<times> 'w" where
  "NewClientWithSession T urlErr ver base token info w =
     (let url = trimSuffixChar CHR ''/'' base in
      case urlErr (url @ ''/version'') of
        Some e \<Rightarrow> (Inl e, w)
      | None \<Rightarrow>
          (let r = \<lparr>rq_method = ''GET'', rq_path = ''/version'',
                  rq_header = (setSessionHeaders info (setAuthHeader token (\<lambda>_. [])))
                    (''X-Gocacheprog-Client-Version'' := ver),
                  rq_query = (\<lambda>_. []), rq_basicAuth = None, rq_body = ([], None), rq_elapsed = 0\<rparr>
           in case roundTrip T False r (newClient url token info w) of
                (Inl e, c) \<Rightarrow> (Inl e, cl_world c)
              | (Inr res, c) \<Rightarrow>
                  (case checkStatus res 200 ''version'' of
                     Some e \<Rightarrow>
                       (Inl (if hs_status res = 401
                             then ErrMsg ''authentication failed: -auth-token <value> is missing or incorrect''
                             else e), cl_world c)
                   | None \<Rightarrow>
                       (case readAll (hs_body res) of
                          Inl e \<Rightarrow> (Inl e, cl_world c)
                        | Inr b \<Rightarrow>
                            (if prefix ''gocacheprog '' b then (Inr c, cl_world c)
                             else (Inl (ErrMsg (''unexpected version: '' @ b)), cl_world c))))))"

section \<open>The action cache\<close>

text \<open>The callback of \<open>Get\<close> and \<open>Preload\<close> around the caller's: it counts the items and keeps those that
  the caller got.\<close>

definition handItem :: "(cacheItem, int \<times> cacheItem list) callback" where
  "handItem it body st =
     (case st of (n, its) \<Rightarrow>
       (if ri_Size it \<noteq> 0 then
          (case body of
             None \<Rightarrow> ((0, Some (ErrMsg ''empty body'')), (n + 1, its))
           | Some rd \<Rightarrow> ((0, None), (n + 1, its @ [it\<lparr>ri_body := BytesReader (Inr rd)\<rparr>])))
        else ((0, None), (n + 1, its @ [it]))))"

definition receiveItems :: "codec \<Rightarrow> reader \<Rightarrow> go_error option \<times> int \<times> cacheItem list" where
  "receiveItems J rd =
     (case Response_ReaderFrom (dec_items J) handItem rd (0, []) of ((_, e), _, n, its) \<Rightarrow> (e, n, its))"

definition ClientGet ::
  "codec \<Rightarrow> clientCodec \<Rightarrow> 'w transport \<Rightarrow> string list \<Rightarrow> 'w client \<Rightarrow>
     (cacheItem list \<times> go_error option) \<times> 'w client" where
  "ClientGet J K T ids c0 =
     (let c = c0\<lparr>cl_getCnt := cl_getCnt c0 + 1, cl_getReqCnt := cl_getReqCnt c0 + 1\<rparr> in
      case enc_actionIDs K ids of
        Inl e \<Rightarrow> (([], Some e), c)
      | Inr j \<Rightarrow>
          (case exchange T 200 ''get'' (clientRequest c ''POST'' ''/get'' [] ''application/json'' j) c of
             (Inl e, c') \<Rightarrow> (([], Some e), c')
           | (Inr res, c') \<Rightarrow>
               (case receiveItems J (hs_body res) of (e, _, its) \<Rightarrow>
                  ((its, e), c'\<lparr>cl_getTotal := cl_getTotal c' + hs_elapsed res\<rparr>))))"

definition ClientPreload ::
  "codec \<Rightarrow> clientCodec \<Rightarrow> 'w transport \<Rightarrow> preloadRequest \<Rightarrow> 'w client \<Rightarrow>
     (cacheItem list \<times> go_error option) \<times> 'w client" where
  "ClientPreload J K T req c =
     (case enc_preload K req of
        Inl e \<Rightarrow> (([], Some e), c)
      | Inr j \<Rightarrow>
          (case exchange T 200 ''preload'' (clientRequest c ''POST'' ''/preload'' [] ''application/json'' j) c of
             (Inl e, c') \<Rightarrow> (([], Some e), c')
           | (Inr res, c') \<Rightarrow>
               (case receiveItems J (hs_body res) of (e, n, its) \<Rightarrow>
                  ((its, e),
                   c'\<lparr>cl_lastPreloadSources := headerOf res ''X-Gocacheprog-Preload-Sources'',
                      cl_lastPreloadQueueWait := headerOf res ''X-Gocacheprog-Preload-Queue-Wait'',
                      cl_lastPreloadPrepareTime := headerOf res ''X-Gocacheprog-Preload-Prepare-Time'',
                      cl_lastPreloadTotalTime := headerOf res ''X-Gocacheprog-Preload-Total-Time'',
                      cl_preloadItems := cl_preloadItems c' + n\<rparr>))))"

definition ClientHead ::
  "codec \<Rightarrow> clientCodec \<Rightarrow> 'w transport \<Rightarrow> string list \<Rightarrow> 'w client \<Rightarrow> cacheItem list result \<times> 'w client" where
  "ClientHead J K T ids c0 =
     (let c = c0\<lparr>cl_getCnt := cl_getCnt c0 + 1\<rparr> in
      case enc_actionIDs K ids of
        Inl e \<Rightarrow> (Inl e, c)
      | Inr j \<Rightarrow>
          (case exchange T 200 ''head'' (clientRequest c ''POST'' ''/head'' [] ''application/json'' j) c of
             (Inl e, c') \<Rightarrow> (Inl e, c')
           | (Inr res, c') \<Rightarrow>
               (case readAll (hs_body res) of
                  Inl e \<Rightarrow> (Inl e, c') | Inr b \<Rightarrow> (dec_items J b, c'))))"

text \<open>An item that is not small gets a reader of its compressed body, made at once; its error comes out
  when the body is written.\<close>

definition compressedItem :: "env \<Rightarrow> fs \<Rightarrow> pool \<Rightarrow> cacheItem \<Rightarrow> cacheItem" where
  "compressedItem E d p it =
     (if MinCompressionSize \<le> ri_Size it then
        (case ri_compressedBodyReader E d p it of
           (r, it') \<Rightarrow>
             it'\<lparr>ri_body := BytesReader (case r of
                Inl e \<Rightarrow> Inl e | Inr None \<Rightarrow> Inl (ErrPanic ''nil reader'') | Inr (Some rd) \<Rightarrow> Inr rd)\<rparr>)
      else it)"

definition filterPutItems ::
  "codec \<Rightarrow> clientCodec \<Rightarrow> 'w transport \<Rightarrow> env \<Rightarrow> fs \<Rightarrow> pool \<Rightarrow> cacheItem list \<Rightarrow> 'w client \<Rightarrow>
     cacheItem list result \<times> 'w client" where
  "filterPutItems J K T E d p its c =
     (case ClientHead J K T (map ri_ActionID its) c of
        (Inl e, c') \<Rightarrow> (Inl (ErrWrap ''head'' e), c')
      | (Inr xs, c') \<Rightarrow>
          (let have = map ri_ActionID (filter (\<lambda>x. \<not> ri_Miss x \<and> ri_ActionID x \<noteq> []) xs) in
           (Inr (map (compressedItem E d p) (filter (\<lambda>it. ri_ActionID it \<notin> set have) its)), c')))"

definition ClientPut ::
  "codec \<Rightarrow> clientCodec \<Rightarrow> 'w transport \<Rightarrow> env \<Rightarrow> fs \<Rightarrow> pool \<Rightarrow> cacheItem list \<Rightarrow> 'w client \<Rightarrow>
     go_error option \<times> 'w client" where
  "ClientPut J K T E d p values c0 =
     (case filterPutItems J K T E d p values (c0\<lparr>cl_putCnt := cl_putCnt c0 + 1\<rparr>) of
        (Inl e, c) \<Rightarrow> (Some e, c)
      | (Inr its, c) \<Rightarrow>
          (case Response_ContentLength (enc_items J) its of
             Inl e \<Rightarrow> (Some e, c)
           | Inr _ \<Rightarrow>
               (case Response_ReaderNaive (enc_items J) E d p its of
                  Inl e \<Rightarrow> (Some (ErrWrap ''buffering request body'' e), c)
                | Inr b \<Rightarrow>
                    (case roundTrip T True (clientRequest c ''POST'' ''/put'' [] [] b) c of
                       (Inl e, c') \<Rightarrow> (Some (ErrWrap ''sending request'' e), c')
                     | (Inr res, c') \<Rightarrow> (checkStatus res 204 ''put'', c')))))"

definition ClientPostCacheUsed ::
  "'w transport \<Rightarrow> string \<Rightarrow> string \<Rightarrow> string \<Rightarrow> string list \<Rightarrow> bool \<Rightarrow> 'w client \<Rightarrow>
     go_error option \<times> 'w client" where
  "ClientPostCacheUsed T commit changes buildType ids replaceChanges c =
     (if commit = [] \<and> changes = [] then (None, c)
      else (let str = (\<lambda>k v. if v = [] then [] else [(k, v)]);
                q = str ''commit'' commit @ str ''changes-id'' changes @ str ''build-type'' buildType @
                  (if replaceChanges then [(''replace-changes'', ''1'')] else [])
            in case roundTrip T True
                   (clientRequest c ''POST'' ''/cache-used'' q ''text/plain'' (join_with nl ids)) c of
                 (Inl e, c') \<Rightarrow> (Some e, c')
               | (Inr res, c') \<Rightarrow>
                   (if hs_status res = 204 then (None, c')
                    else (let pre = ''cache-used status '' @ formatInt (hs_status res) in
                      (Some (case readAll (hs_body res) of
                          Inl e \<Rightarrow> ErrWrap (pre @ '' and response read failed'') e
                        | Inr b \<Rightarrow> ErrMsg (pre @ '': '' @ trimSpace b)), c')))))"

section \<open>The object store: restoring and asking\<close>

record transferStats =
  ts_Files :: int
  ts_CompressedBytes :: int
  ts_UncompressedBytes :: int

definition noTransfer :: transferStats where
  "noTransfer = \<lparr>ts_Files = 0, ts_CompressedBytes = 0, ts_UncompressedBytes = 0\<rparr>"

text \<open>The callback of \<open>RestoreCache\<close> around the caller's, which gets the item and a reader of its
  uncompressed body and has a state of its own.\<close>

definition restoreItem ::
  "env \<Rightarrow> fs \<Rightarrow> pool \<Rightarrow> (fileItem \<Rightarrow> reader option \<Rightarrow> 's \<Rightarrow> go_error option \<times> 's) \<Rightarrow>
     (fileItem, transferStats \<times> 's) callback" where
  "restoreItem E d p cb it body st =
     (let ts = (fst st)\<lparr>ts_Files := ts_Files (fst st) + 1,
            ts_UncompressedBytes := ts_UncompressedBytes (fst st) + fi_Size it,
            ts_CompressedBytes := ts_CompressedBytes (fst st) +
              (if fi_WireSize it \<noteq> 0 then fi_WireSize it else fi_Size it)\<rparr>
      in case body of
           None \<Rightarrow> (case cb it None (snd st) of (e, s) \<Rightarrow> ((0, e), (ts, s)))
         | Some rd \<Rightarrow>
             (case snd rd of
                Some e \<Rightarrow> ((length (fst rd), Some e), (ts, snd st))
              | None \<Rightarrow>
                  (let it' = it\<lparr>fi_body := BytesReader (Inr (fst rd, None))\<rparr> in
                   case uncompressedBodyReader E d p it' of
                     Inl e \<Rightarrow> ((length (fst rd), Some e), (ts, snd st))
                   | Inr rd' \<Rightarrow>
                       (case cb it' rd' (snd st) of (e, s) \<Rightarrow> ((length (fst rd), e), (ts, s))))))"

definition RestoreCache ::
  "codec \<Rightarrow> 'w transport \<Rightarrow> env \<Rightarrow> fs \<Rightarrow> pool \<Rightarrow>
     (fileItem \<Rightarrow> reader option \<Rightarrow> 's \<Rightarrow> go_error option \<times> 's) \<Rightarrow> request \<Rightarrow> 's \<Rightarrow> 'w client \<Rightarrow>
     (transferStats \<times> go_error option) \<times> 's \<times> 'w client" where
  "RestoreCache J T E d p cb req s c =
     (case exchange T 200 ''restore-cache''
             (clientRequest c ''GET'' ''/restore-cache'' (gocacheQuery req) [] []) c of
        (Inl e, c') \<Rightarrow> ((noTransfer, Some e), s, c')
      | (Inr res, c') \<Rightarrow>
          (case ReadStream (dec_file J) (restoreItem E d p cb) (hs_body res) 0 (noTransfer, s) of
             ((_, e), _, ts, s') \<Rightarrow>
               (let trail = trimSpace (hs_trailer res ''X-Gocacheprog-Restore-Total-Time'') in
                ((ts, e), s',
                 c'\<lparr>cl_lastRestoreSources := headerOf res ''X-Gocacheprog-Restore-Sources'',
                    cl_lastRestorePrepareTime := headerOf res ''X-Gocacheprog-Restore-Prepare-Time'',
                    cl_lastRestoreTotalTime := (if trail \<noteq> [] then trail
                      else headerOf res ''X-Gocacheprog-Restore-Total-Time'')\<rparr>))))"

definition ClientExistingPaths ::
  "codec \<Rightarrow> clientCodec \<Rightarrow> 'w transport \<Rightarrow> request \<Rightarrow> string list \<Rightarrow> 'w client \<Rightarrow>
     string list result \<times> 'w client" where
  "ClientExistingPaths J K T req ps c =
     (case enc_paths K ps of
        Inl e \<Rightarrow> (Inl e, c)
      | Inr j \<Rightarrow>
          (case exchange T 200 ''save-cache-has''
                  (clientRequest c ''POST'' ''/save-cache-has'' (gocacheQuery req) ''application/json'' j) c of
             (Inl e, c') \<Rightarrow> (Inl e, c')
           | (Inr res, c') \<Rightarrow> (decodeReader (dec_paths J) (hs_body res), c')))"

definition ClientInspectKeys ::
  "clientCodec \<Rightarrow> 'w transport \<Rightarrow> request \<Rightarrow> string list \<Rightarrow> 'w client \<Rightarrow>
     keyInspection list result \<times> 'w client" where
  "ClientInspectKeys K T req ks c =
     (case enc_paths K ks of
        Inl e \<Rightarrow> (Inl e, c)
      | Inr j \<Rightarrow>
          (case exchange T 200 ''inspect-keys''
                  (clientRequest c ''POST'' ''/inspect-keys'' (gocacheQuery req) ''application/json'' j) c of
             (Inl e, c') \<Rightarrow> (Inl e, c')
           | (Inr res, c') \<Rightarrow> (decodeReader (dec_keys K) (hs_body res), c')))"

definition MaxFileBytesFor ::
  "clientCodec \<Rightarrow> 'w transport \<Rightarrow> string \<Rightarrow> 'w client \<Rightarrow> int result \<times> 'w client" where
  "MaxFileBytesFor K T buildType c =
     (case exchange T 200 ''settings/max-file-bytes''
             (clientRequest c ''GET'' ''/settings/max-file-bytes'' [] [] []) c of
        (Inl e, c') \<Rightarrow> (Inl e, c')
      | (Inr res, c') \<Rightarrow>
          (case decodeReader (dec_limits K) (hs_body res) of
             Inl e \<Rightarrow> (Inl e, c')
           | Inr m \<Rightarrow> (Inr (case map_of m buildType of None \<Rightarrow> 0 | Some n \<Rightarrow> n), c')))"

definition MarkSessionDone ::
  "clientCodec \<Rightarrow> 'w transport \<Rightarrow> (string \<times> jval) list \<Rightarrow> 'w client \<Rightarrow> go_error option \<times> 'w client" where
  "MarkSessionDone K T extra c =
     (case (if extra = [] then Inr [] else enc_extra K extra) of
        Inl e \<Rightarrow> (Some (ErrWrap ''marshal session-done extra'' e), c)
      | Inr b \<Rightarrow>
          (case exchange T 204 ''session-done''
                  (clientRequest c ''POST'' ''/session-done'' []
                     (if extra = [] then [] else ''application/json'') b) c of
             (Inl e, c') \<Rightarrow> (Some e, c') | (Inr _, c') \<Rightarrow> (None, c')))"

section \<open>The object store: saving\<close>

definition startSaveCache ::
  "'w transport \<Rightarrow> request \<Rightarrow> string \<Rightarrow> 'w client \<Rightarrow> int result \<times> 'w client" where
  "startSaveCache T req u c =
     (case exchange T 204 ''save-cache-start''
             (clientRequest c ''POST'' ''/save-cache-start'' (saveCacheQuery req u) [] []) c of
        (Inl e, c') \<Rightarrow> (Inl e, c')
      | (Inr res, c') \<Rightarrow>
          (let v = headerOf res ''X-Gocacheprog-Save-Max-File-Bytes'' in
           (Inr (if v = [] then 0 else (case parseInt64 v of Inl _ \<Rightarrow> 0 | Inr n \<Rightarrow> n)), c')))"

definition saveCacheChunk ::
  "'w transport \<Rightarrow> request \<Rightarrow> string \<Rightarrow> bytes \<Rightarrow> 'w client \<Rightarrow> go_error option \<times> 'w client" where
  "saveCacheChunk T req u b c =
     (case exchange T 204 ''save-cache-chunk''
             (clientRequest c ''POST'' ''/save-cache-chunk'' (saveCacheQuery req u) [] b) c of
        (Inl e, c') \<Rightarrow> (Some e, c') | (Inr _, c') \<Rightarrow> (None, c'))"

definition postSaveCacheControl ::
  "'w transport \<Rightarrow> request \<Rightarrow> string \<Rightarrow> string \<Rightarrow> string \<Rightarrow> 'w client \<Rightarrow> go_error option \<times> 'w client" where
  "postSaveCacheControl T req u p opname c =
     (case roundTrip T True (clientRequest c ''POST'' p (saveCacheQuery req u) [] []) c of
        (Inl e, c') \<Rightarrow> (Some e, c')
      | (Inr res, c') \<Rightarrow>
          (checkStatus res 204 opname,
           c'\<lparr>cl_lastSaveTotalTime := headerOf res ''X-Gocacheprog-Save-Total-Time''\<rparr>))"

definition finalizeSaveCache ::
  "'w transport \<Rightarrow> request \<Rightarrow> string \<Rightarrow> 'w client \<Rightarrow> go_error option \<times> 'w client" where
  "finalizeSaveCache T req u = postSaveCacheControl T req u ''/save-cache-finalize'' ''save-cache-finalize''"

definition abortSaveCache ::
  "'w transport \<Rightarrow> request \<Rightarrow> string \<Rightarrow> 'w client \<Rightarrow> go_error option \<times> 'w client" where
  "abortSaveCache T req u = postSaveCacheControl T req u ''/save-cache-abort'' ''save-cache-abort''"

definition prepareSaveCacheItem :: "env \<Rightarrow> fs \<Rightarrow> pool \<Rightarrow> fileItem \<Rightarrow> fileItem result" where
  "prepareSaveCacheItem E d p it =
     (if fi_Size it < MinCompressionSize
      then Inr (if fi_WireSize it = 0 then it\<lparr>fi_WireSize := fi_Size it\<rparr> else it)
      else (case compressedBodyReader E d p it of
          Inl e \<Rightarrow> Inl e
        | Inr None \<Rightarrow> Inl (ErrPanic ''nil reader'')
        | Inr (Some rd) \<Rightarrow>
            (case readAll rd of
               Inl e \<Rightarrow> Inl e
             | Inr b \<Rightarrow> Inr (it\<lparr>fi_IsCompressed := True, fi_WireSize := int (length b),
                              fi_body := BytesReader (Inr (b, None))\<rparr>))))"

definition wireBodySize :: "fileItem \<Rightarrow> int" where
  "wireBodySize it = (if 0 < fi_WireSize it then fi_WireSize it else fi_Size it)"

text \<open>The goroutine that writes the stream into the pipe: what the pipe delivers, and its end. A write to
  the pipe fails only after the reader has given up.\<close>

fun saveStream ::
  "codec \<Rightarrow> env \<Rightarrow> fs \<Rightarrow> pool \<Rightarrow> int \<Rightarrow> fileItem list \<Rightarrow> transferStats \<Rightarrow> writer \<Rightarrow> transferStats \<times> reader" where
  "saveStream J E d p lim [] ts w = (case StreamClose w of (e, w') \<Rightarrow> (ts, (written w', e)))"
| "saveStream J E d p lim (it # its) ts w =
     (if 0 < lim \<and> lim < fi_Size it then saveStream J E d p lim its ts w
      else (let ts1 = ts\<lparr>ts_Files := ts_Files ts + 1,
                         ts_UncompressedBytes := ts_UncompressedBytes ts + fi_Size it\<rparr>
            in case prepareSaveCacheItem E d p it of
                 Inl e \<Rightarrow> (ts1, (written w, Some e))
               | Inr it' \<Rightarrow>
                   (let ts2 = ts1\<lparr>ts_CompressedBytes := ts_CompressedBytes ts1 + wireBodySize it'\<rparr>
                    in case WriteItem (enc_file J) E d p it' w of
                         (Some e, w') \<Rightarrow> (ts2, (written w', Some e))
                       | (None, w') \<Rightarrow> saveStream J E d p lim its ts2 w')))"

text \<open>The loop over the chunks: \<open>io.ReadFull\<close> fills the buffer until the pipe ends.\<close>

function sendStream ::
  "'w transport \<Rightarrow> request \<Rightarrow> string \<Rightarrow> nat \<Rightarrow> bytes \<Rightarrow> 'w client \<Rightarrow> go_error option \<times> 'w client" where
  "sendStream T req u n b c =
     (if b = [] \<or> n = 0 then (None, c)
      else (case saveCacheChunk T req u (take n b) c of
          (Some e, c') \<Rightarrow> (Some e, c')
        | (None, c') \<Rightarrow> sendStream T req u n (drop n b) c'))"
  by pat_completeness auto
termination
  by (relation "measure (\<lambda>(T, req, u, n, b, c). length b)") auto

declare sendStream.simps [simp del]

definition aborted ::
  "'w transport \<Rightarrow> request \<Rightarrow> string \<Rightarrow> string \<Rightarrow> go_error \<Rightarrow> 'w client \<Rightarrow> transferStats result \<times> 'w client" where
  "aborted T req u msg e c = (Inl (ErrWrap msg e), snd (abortSaveCache T req u c))"

text \<open>An end of the pipe that is an \<open>io.EOF\<close> is only taken for an error when the result of the goroutine
  is looked at.\<close>

definition saveCacheOnce ::
  "codec \<Rightarrow> 'w transport \<Rightarrow> env \<Rightarrow> fs \<Rightarrow> pool \<Rightarrow> request \<Rightarrow> fileItem list \<Rightarrow> string \<Rightarrow> 'w client \<Rightarrow>
     transferStats result \<times> 'w client" where
  "saveCacheOnce J T E d p req its u c =
     (case startSaveCache T req u c of
        (Inl e, c1) \<Rightarrow> (Inl e, c1)
      | (Inr lim, c1) \<Rightarrow>
          (let n = (if cl_saveCacheMaxRequestBytes c1 \<le> 0 then DefaultSaveCacheChunkBytes
                    else cl_saveCacheMaxRequestBytes c1)
           in case saveStream J E d p lim its noTransfer bytesBuffer of
                (ts, b, pend) \<Rightarrow>
                  (case sendStream T req u (nat n) b c1 of
                     (Some e, c2) \<Rightarrow> aborted T req u ''save-cache chunk upload failed'' e c2
                   | (None, c2) \<Rightarrow>
                       (case pend of
                          Some e \<Rightarrow>
                            aborted T req u
                              (if errorsIs errEOF e \<or> errorsIs errUnexpectedEOF e
                               then ''build save-cache stream failed'' else ''read save-cache stream failed'') e c2
                        | None \<Rightarrow>
                            (case finalizeSaveCache T req u c2 of
                               (Some e, c3) \<Rightarrow> aborted T req u ''save-cache finalize failed'' e c3
                             | (None, c3) \<Rightarrow> (Inr ts, c3))))))"

definition uploadID :: "int \<Rightarrow> int \<Rightarrow> string" where
  "uploadID nanos pid = formatInt nanos @ ''-'' @ formatInt pid"

text \<open>The attempts. \<open>clock k\<close> is the time in nanoseconds when \<open>k\<close> attempts are left after this one.\<close>

fun saveAttempts ::
  "codec \<Rightarrow> 'w transport \<Rightarrow> env \<Rightarrow> fs \<Rightarrow> pool \<Rightarrow> request \<Rightarrow> fileItem list \<Rightarrow> (nat \<Rightarrow> int) \<Rightarrow> int \<Rightarrow> nat \<Rightarrow>
     'w client \<Rightarrow> transferStats result \<times> 'w client" where
  "saveAttempts J T E d p req its clock pid k c =
     (case saveCacheOnce J T E d p req its (uploadID (clock k) pid) c of
        (Inr ts, c') \<Rightarrow> (Inr ts, c')
      | (Inl e, c') \<Rightarrow>
          (case k of
             0 \<Rightarrow> (Inl (ErrWrap ''save-cache upload failed after 4 attempts'' e), c')
           | Suc k' \<Rightarrow> saveAttempts J T E d p req its clock pid k' c'))"

definition ClientSaveCache ::
  "codec \<Rightarrow> 'w transport \<Rightarrow> env \<Rightarrow> fs \<Rightarrow> pool \<Rightarrow> request \<Rightarrow> fileItem list \<Rightarrow> (nat \<Rightarrow> int) \<Rightarrow> int \<Rightarrow>
     'w client \<Rightarrow> transferStats result \<times> 'w client" where
  "ClientSaveCache J T E d p req its clock pid c0 =
     (let c = c0\<lparr>cl_putCnt := cl_putCnt c0 + 1\<rparr> in
      if its = [] then (Inr noTransfer, c)
      else saveAttempts J T E d p req its clock pid saveCacheMaxRetries c)"

definition SetSaveCacheChunkBytes :: "int \<Rightarrow> 'w client \<Rightarrow> 'w client" where
  "SetSaveCacheChunkBytes n c =
     c\<lparr>cl_saveCacheMaxRequestBytes := (if n \<le> 0 then DefaultSaveCacheChunkBytes else n)\<rparr>"

section \<open>Statistics\<close>

text \<open>\<open>Stats\<close> without the byte counters and the latencies.\<close>

definition ClientStats :: "'w client \<Rightarrow> (string \<times> string) list" where
  "ClientStats c =
     [(''preload_sources'', cl_lastPreloadSources c), (''preload_queue_wait'', cl_lastPreloadQueueWait c),
      (''preload_prepare_time'', cl_lastPreloadPrepareTime c), (''preload_total_time'', cl_lastPreloadTotalTime c),
      (''preloaded'', formatInt (cl_preloadItems c)), (''get_cnt'', formatInt (cl_getCnt c)),
      (''get_req_cnt'', formatInt (cl_getReqCnt c)), (''put_cnt'', formatInt (cl_putCnt c))]"

definition LastRestoreTimings :: "'w client \<Rightarrow> string \<times> string" where
  "LastRestoreTimings c = (cl_lastRestorePrepareTime c, cl_lastRestoreTotalTime c)"

definition LastPreloadTimings :: "'w client \<Rightarrow> string \<times> string \<times> string" where
  "LastPreloadTimings c = (cl_lastPreloadQueueWait c, cl_lastPreloadPrepareTime c, cl_lastPreloadTotalTime c)"

end
