(* ===== verification/Http_Link.thy ===== *)
theory Http_Link
  imports Http_Client
begin

text \<open>
  The client talking to the server: the server as a transport, a gateway that may lose requests and
  replies, and what uploads through them come to. The encoding of a reply's body where it is a JSON value,
  an error or a page is a parameter.
\<close>

section \<open>The server behind the connection\<close>

definition bodyBytes :: "(reply_body \<Rightarrow> bytes) \<Rightarrow> reply_body \<Rightarrow> bytes" where
  "bodyBytes R b = (case b of NoBody \<Rightarrow> [] | Octets x \<Rightarrow> x | _ \<Rightarrow> R b)"

text \<open>A body shorter than its \<open>Content-Length\<close> ends with an error on the client's side.\<close>

definition onWire :: "(reply_body \<Rightarrow> bytes) \<Rightarrow> reply \<Rightarrow> httpResponse" where
  "onWire R rep =
     (let b = bodyBytes R (rp_body rep); hm = queryGet (rp_header rep) in
      \<lparr>hs_status = rp_status rep, hs_header = hm, hs_trailer = (\<lambda>_. []),
       hs_body = (b, if hm ''Content-Length'' \<noteq> [] \<and> hm ''Content-Length'' \<noteq> formatInt (int (length b))
                     then Some errUnexpectedEOF else None),
       hs_elapsed = 0\<rparr>)"

text \<open>A request that the server does not answer runs into the client's \<open>ResponseHeaderTimeout\<close>.\<close>

definition headerTimeout :: go_error where
  "headerTimeout = ErrIO ''net/http: timeout awaiting response headers''"

definition serverTransport :: "codec \<Rightarrow> env \<Rightarrow> (reply_body \<Rightarrow> bytes) \<Rightarrow> handler transport" where
  "serverTransport J E R base r h =
     (case ServeHTTP J E h r of
        (None, h') \<Rightarrow> (Inl headerTimeout, h')
      | (Some rep, h') \<Rightarrow> (Inr (onWire R rep), h'))"

text \<open>A gateway in front of a transport, with what it does to the requests to come: \<open>Refuse\<close> answers 502
  without passing the request on, \<open>LoseReply\<close> passes it on and answers 504.\<close>

datatype gatewayAct = Pass | Refuse | LoseReply

definition gatewayReply :: "int \<Rightarrow> httpResponse" where
  "gatewayReply code =
     \<lparr>hs_status = code, hs_header = (\<lambda>_. []), hs_trailer = (\<lambda>_. []), hs_body = ([], None), hs_elapsed = 0\<rparr>"

definition viaGateway :: "'w transport \<Rightarrow> ('w \<times> gatewayAct list) transport" where
  "viaGateway T base r wa =
     (case snd wa of
        Refuse # acts \<Rightarrow> (Inr (gatewayReply 502), (fst wa, acts))
      | LoseReply # acts \<Rightarrow> (Inr (gatewayReply 504), (snd (T base r (fst wa)), acts))
      | acts \<Rightarrow> (case T base r (fst wa) of (res, w) \<Rightarrow> (res, (w, tl acts))))"

section \<open>What the client sends\<close>

lemma queryGet_simps [simp]:
  "queryGet [] k = []" "queryGet ((k', v) # q) k = (if k' = k then v else queryGet q k)"
  by (simp_all add: queryGet_def)

lemma queryGet_append: "queryGet (q @ q') k = (if map_of q k = None then queryGet q' k else queryGet q k)"
  by (simp add: queryGet_def map_add_def split: option.splits)

lemma map_of_str: "map_of (if v = [] then [] else [(k, v)]) k' = (if k' = k \<and> v \<noteq> [] then Some v else None)"
  by simp

text \<open>What the server makes of the parameters: strings without their outer blanks, limits that are not
  negative.\<close>

definition normalRequest :: "request \<Rightarrow> request" where
  "normalRequest req =
     \<lparr>Commit = trimSpace (Commit req), ChangesID = trimSpace (ChangesID req), BuildType = trimSpace (BuildType req),
      BaseCommit = trimSpace (BaseCommit req), ParentCommit = trimSpace (ParentCommit req),
      MaxFileBytes = max 0 (MaxFileBytes req), MaxPreloadTotalBytes = max 0 (MaxPreloadTotalBytes req)\<rparr>"

lemma gocacheQuery_get:
  "queryGet (gocacheQuery req @ q) ''commit'' = (if Commit req = [] then queryGet q ''commit'' else Commit req)"
  "queryGet (gocacheQuery req @ q) ''changes-id'' = (if ChangesID req = [] then queryGet q ''changes-id'' else ChangesID req)"
  "queryGet (gocacheQuery req @ q) ''build-type'' = (if BuildType req = [] then queryGet q ''build-type'' else BuildType req)"
  "queryGet (gocacheQuery req @ q) ''base-commit'' = (if BaseCommit req = [] then queryGet q ''base-commit'' else BaseCommit req)"
  "queryGet (gocacheQuery req @ q) ''parent-commit'' = (if ParentCommit req = [] then queryGet q ''parent-commit'' else ParentCommit req)"
  "queryGet (gocacheQuery req @ q) ''max-file-bytes'' =
     (if 0 < MaxFileBytes req then formatInt (MaxFileBytes req) else queryGet q ''max-file-bytes'')"
  "queryGet (gocacheQuery req @ q) ''max-preload-total-bytes'' =
     (if 0 < MaxPreloadTotalBytes req then formatInt (MaxPreloadTotalBytes req) else queryGet q ''max-preload-total-bytes'')"
  "queryGet (gocacheQuery req @ q) ''upload-id'' = queryGet q ''upload-id''"
  by (simp_all add: gocacheQuery_def Let_def queryGet_append)

lemma dec_ends: "is_digit (hd (dec n))" "is_digit (last (dec n))"
  using dec_digits dec_nonempty by (metis hd_in_set, metis last_in_set)

lemma is_digit_alnum: "is_digit ch \<Longrightarrow> is_alnum ch"
  by (simp add: is_digit_def is_alnum_def Let_def)

lemma is_digit_cases: "is_digit ch \<Longrightarrow> ch \<in> set ''0123456789''"
proof -
  assume "is_digit ch"
  then have "(of_char ch :: nat) \<in> {48 .. 57}" by (simp add: is_digit_def Let_def)
  also have "{48 .. 57 :: nat} = {48, 49, 50, 51, 52, 53, 54, 55, 56, 57}" by (simp add: atLeastAtMost_insertL numeral_eq_Suc atLeastAtMostSuc_conv insert_commute)
  finally have "(of_char ch :: nat) \<in> {48, 49, 50, 51, 52, 53, 54, 55, 56, 57}" .
  then have "char_of (of_char ch :: nat) \<in> char_of ` {48, 49, 50, 51, 52, 53, 54, 55, 56, 57 :: nat}" by (rule imageI)
  also have "char_of ` {48, 49, 50, 51, 52, 53, 54, 55, 56, 57 :: nat} = set ''0123456789''" by code_simp
  finally show ?thesis by (simp only: char_of_char)
qed

lemma intDigits_dec: "intDigits (dec n) = Inr (int n)"
  by (simp add: intDigits_def undec_dec list_all_iff dec_digits)

lemma parse_formatInt:
  assumes "0 < n" "n < 2 ^ 63"
  shows "trimSpace (formatInt n) = formatInt n" "formatInt n \<noteq> []" "parseInt64 (formatInt n) = Inr n"
proof -
  have f: "formatInt n = dec (nat n)" using assms by (simp add: formatInt_def)
  show "trimSpace (formatInt n) = formatInt n"
    using dec_ends is_digit_alnum by (simp add: f trimSpace_trimmed trimmed_alnum_ends)
  show "formatInt n \<noteq> []" by (simp add: f)
  have "is_digit (hd (dec (nat n)))" by (rule dec_ends)
  then obtain ch cs where c: "dec (nat n) = ch # cs" "is_digit ch" using dec_nonempty by (cases "dec (nat n)") auto
  then have "parseInt64 (ch # cs) = (case intDigits (ch # cs) of Inl e \<Rightarrow> Inl e | Inr n \<Rightarrow> int64Range n)"
    using is_digit_cases [OF c(2)] by (auto simp: parseInt64_def)
  then show "parseInt64 (formatInt n) = Inr n"
    using intDigits_dec [of "nat n"] assms by (simp add: f c(1) [symmetric] int64Range_def)
qed

lemma queryInt_formatInt:
  assumes "rq_query r k = (if 0 < n then formatInt n else [])" "n < 2 ^ 63"
  shows "queryInt r k = max 0 n"
  using assms parse_formatInt [of n] by (auto simp: queryInt_def Let_def trimSpace_def)

lemma saveCacheQuery_get:
  "rq_query (clientRequest c m p (gocacheQuery req) ct b) = queryGet (gocacheQuery req @ [])"
  "rq_query (clientRequest c m p (saveCacheQuery req u) ct b) =
     queryGet (gocacheQuery req @ (if u = [] then [] else [(''upload-id'', u)]))"
  by (simp_all add: clientRequest_def saveCacheQuery_def)

lemma queryGet_upload:
  "k \<noteq> ''upload-id'' \<Longrightarrow> queryGet (if u = [] then [] else [(''upload-id'', u)]) k = []"
  "queryGet (if u = [] then [] else [(''upload-id'', u)]) ''upload-id'' = u"
  by auto

lemma parse_clientRequest:
  assumes "MaxFileBytes req < 2 ^ 63" "MaxPreloadTotalBytes req < 2 ^ 63"
  shows "parseGOCACHERequest (clientRequest c m p (gocacheQuery req) ct b) = normalRequest req"
    and "parseGOCACHERequest (clientRequest c m p (saveCacheQuery req u) ct b) = normalRequest req"
proof -
  have "parseGOCACHERequest r = normalRequest req"
    if "rq_query r = queryGet (gocacheQuery req @ q)" "\<And>k. k \<noteq> ''upload-id'' \<Longrightarrow> queryGet q k = []" for r q
  proof -
    have "queryInt r ''max-file-bytes'' = max 0 (MaxFileBytes req)"
      "queryInt r ''max-preload-total-bytes'' = max 0 (MaxPreloadTotalBytes req)"
      using that assms by (auto intro!: queryInt_formatInt simp: gocacheQuery_get)
    then show ?thesis using that by (auto simp: parseGOCACHERequest_def normalRequest_def gocacheQuery_get)
  qed
  from this [OF saveCacheQuery_get(1)] this [OF saveCacheQuery_get(2) queryGet_upload(1)]
  show "parseGOCACHERequest (clientRequest c m p (gocacheQuery req) ct b) = normalRequest req"
    "parseGOCACHERequest (clientRequest c m p (saveCacheQuery req u) ct b) = normalRequest req"
    by simp_all
qed

lemma upload_id: "rq_query (clientRequest c m p (saveCacheQuery req u) ct b) ''upload-id'' = u"
  unfolding saveCacheQuery_get(2) gocacheQuery_get(8) by (rule queryGet_upload(2))

lemma clientRequest_simps [simp]:
  "rq_path (clientRequest c m p q ct b) = p" "rq_body (clientRequest c m p q ct b) = (b, None)"
  by (simp_all add: clientRequest_def)

section \<open>Save requests at the server\<close>

lemma touchSession_frame:
  obtains cs fl where "touchSession J E h r = h\<lparr>clientSessions := cs, h_files := fl\<rparr>"
proof -
  have "\<exists>cs fl. touchSession J E h r = h\<lparr>clientSessions := cs, h_files := fl\<rparr>"
    unfolding touchSession_def appendSessionsJSONL_def Let_def
    by (cases h) (auto split: option.splits)
  then show thesis using that by blast
qed

lemma touchSession_simps [simp]:
  "gocacheStore (touchSession J E h r) = gocacheStore h" "saveSessions (touchSession J E h r) = saveSessions h"
  "combinedMaxDiskBytes (touchSession J E h r) = combinedMaxDiskBytes h"
  by (rule touchSession_frame [of J E h r], simp)+

lemma uploading_touch: "uploading J E u s0 req bs (touchSession J E' h r) = uploading J E u s0 req bs h"
  by (simp add: uploading_def)

lemma serve_authorized:
  assumes "authorized h r" "combinedMaxDiskBytes h \<le> 0"
    and "rq_path r \<noteq> ''/''" "rq_path r \<noteq> ''/sessions.jsonl''"
    and "map_of (routes J E (touchSession J E h r) r) (rq_path r) = Some res"
    and "combinedMaxDiskBytes (snd res) = combinedMaxDiskBytes h"
  shows "ServeHTTP J E h r =
    (case res of (None, h') \<Rightarrow> (None, h') | (Some rep, h') \<Rightarrow> always (recovered E rep h'))"
  using assms
  by (cases res; cases "fst res") (auto simp: ServeHTTP_def Let_def enforceCombinedBudget_def split: option.splits)

lemma serve_unauthorized:
  assumes "\<not> authorized h r" "rq_path r \<noteq> ''/''" "rq_path r \<noteq> ''/sessions.jsonl''"
  shows "ServeHTTP J E h r = (Some (unauthorizedReply ''Bearer realm=gocacheprogd''), h)"
  using assms by (simp add: ServeHTTP_def)

text \<open>What each save request does at a server without a combined budget.\<close>

lemma serve_chunk:
  assumes "authorized h r" "combinedMaxDiskBytes h \<le> 0" "rq_path r = ''/save-cache-chunk''"
    and "uploading J E u s0 req bs h" "u \<noteq> []" "rq_query r ''upload-id'' = u" "snd (rq_body r) = None"
    and "SaveCacheChunkH J E (touchSession J E h r) r = (x, h')"
  shows "ServeHTTP J E h r = (map_option (\<lambda>_. noContent) x, h') \<and> combinedMaxDiskBytes h' \<le> 0"
proof -
  have x: "(x = None \<or> x = Some noContent) \<and> combinedMaxDiskBytes h' = combinedMaxDiskBytes h"
    using assms(4-8)
    by (auto simp: SaveCacheChunkH_def uploading_def lookupSaveSession_def saveUploadID_def Let_def
        split: prod.splits if_splits)
  have "map_of (routes J E (touchSession J E h r) r) (rq_path r) = Some (x, h')"
    using assms(3,8) by (simp add: routes_def)
  from serve_authorized [OF assms(1,2) _ _ this] x assms(2,3) show ?thesis
    by (auto simp: always_def recovered_def noContent_def)
qed

lemma serve_start:
  assumes "authorized h r" "combinedMaxDiskBytes h \<le> 0" "rq_path r = ''/save-cache-start''"
    and "StartSaveCacheH E (touchSession J E h r) r = (rep, h')"
  shows "ServeHTTP J E h r = (Some rep, h') \<and> combinedMaxDiskBytes h' \<le> 0 \<and> rp_status rep \<notin> {502, 504}"
proof -
  have x: "combinedMaxDiskBytes h' = combinedMaxDiskBytes h \<and> rp_panic rep = None \<and> rp_status rep \<notin> {502, 504}"
    using assms(4)
    by (auto simp: StartSaveCacheH_def saveUploadID_def notSupported_def httpError_def noContent_def
        split: option.splits if_splits)
  have "map_of (routes J E (touchSession J E h r) r) (rq_path r) = Some (Some rep, h')"
    using assms(3,4) by (simp add: routes_def always_def)
  from serve_authorized [OF assms(1,2) _ _ this] x assms(2,3) show ?thesis
    by (auto simp: always_def recovered_def)
qed

lemma serve_finalize:
  assumes "authorized h r" "combinedMaxDiskBytes h \<le> 0" "rq_path r = ''/save-cache-finalize''"
    and "FinalizeSaveCacheH J E (touchSession J E h r) r = (rep, h')"
  shows "ServeHTTP J E h r = always (recovered E rep h') \<and> rp_status rep \<notin> {502, 504}"
proof -
  have x: "combinedMaxDiskBytes h' = combinedMaxDiskBytes h \<and> rp_status rep \<notin> {502, 504}"
    using assms(4)
    by (auto simp: FinalizeSaveCacheH_def lookupSaveSession_def saveUploadID_def notSupported_def httpError_def
        noContent_def Let_def deleteSaveSession_def recordSessionFinalize_def updateSession_def
        split: option.splits prod.splits if_splits sum.splits)
  have "map_of (routes J E (touchSession J E h r) r) (rq_path r) = Some (Some rep, h')"
    using assms(3,4) by (simp add: routes_def always_def)
  from serve_authorized [OF assms(1,2) _ _ this] x assms(2,3) show ?thesis
    by (auto simp: always_def)
qed

section \<open>The client at the server\<close>

lemma roundTrip_server:
  assumes "roundTrip (serverTransport J E R) True r c = (Inr res, c')"
    and "\<And>rep. fst (ServeHTTP J E (cl_world c) r) = Some rep \<Longrightarrow> rp_status rep \<notin> {502, 504}"
  obtains rep h' where "ServeHTTP J E (cl_world c) r = (Some rep, h')" "res = onWire R rep" "c' = c\<lparr>cl_world := h'\<rparr>"
proof -
  obtain x h' where sv: "ServeHTTP J E (cl_world c) r = (x, h')" by fastforce
  show thesis
  proof (cases x)
    case None
    then show thesis using assms(1) sv by (simp add: roundTrip_def serverTransport_def)
  next
    case (Some rep)
    then have "\<not> gatewayStatus (onWire R rep)"
      using assms(2) [of rep] sv by (simp add: gatewayStatus_def onWire_def Let_def)
    then show thesis using assms(1) sv Some that by (simp add: roundTrip_def serverTransport_def)
  qed
qed

lemma checkStatus_None [simp]: "checkStatus res n opname = None \<longleftrightarrow> hs_status res = n"
  by (simp add: checkStatus_def Let_def split: option.splits)

lemma onWire_status [simp]: "hs_status (onWire R rep) = rp_status rep"
  by (simp add: onWire_def Let_def)

lemma unauthorized_status [simp]: "rp_status (unauthorizedReply x) = 401"
  by (simp add: unauthorizedReply_def httpError_def)

lemma exchange_server:
  assumes "exchange (serverTransport J E R) n opname r c = (Inr res, c')"
    and "\<And>rep. fst (ServeHTTP J E (cl_world c) r) = Some rep \<Longrightarrow> rp_status rep \<notin> {502, 504}"
  obtains rep h' where "ServeHTTP J E (cl_world c) r = (Some rep, h')" "rp_status rep = n" "res = onWire R rep"
    "c' = c\<lparr>cl_world := h'\<rparr>"
proof -
  have rt: "roundTrip (serverTransport J E R) True r c = (Inr res, c')" and st: "checkStatus res n opname = None"
    using assms(1) by (auto simp only: exchange_def split: prod.splits sum.splits option.splits)
  note that' = that
  show thesis
  proof (rule roundTrip_server [OF rt])
    show "rp_status rep \<notin> {502, 504}" if "fst (ServeHTTP J E (cl_world c) r) = Some rep" for rep
      by (rule assms(2) [OF that])
    show thesis
      if "ServeHTTP J E (cl_world c) r = (Some rep, h')" "res = onWire R rep" "c' = c\<lparr>cl_world := h'\<rparr>" for rep h'
      by (rule that') (use st that in simp_all)
  qed
qed

lemma client_start:
  assumes "startSaveCache (serverTransport J E R) req u c = (Inr lim, c')"
    and "gocacheStore (cl_world c) = Some s" "maxFileBytes s < 2 ^ 63" "combinedMaxDiskBytes (cl_world c) \<le> 0"
    and "MaxFileBytes req < 2 ^ 63" "MaxPreloadTotalBytes req < 2 ^ 63"
  shows "\<exists>h'. c' = c\<lparr>cl_world := h'\<rparr> \<and> combinedMaxDiskBytes h' \<le> 0 \<and> u \<noteq> [] \<and>
    uploading J E u s (normalRequest req) [] h' \<and> lim = max 0 (maxFileBytes s)"
proof -
  let ?r = "clientRequest c ''POST'' ''/save-cache-start'' (saveCacheQuery req u) [] []" and ?h = "cl_world c"
  obtain rep h' where st: "StartSaveCacheH E (touchSession J E ?h ?r) ?r = (rep, h')" by fastforce
  have serve: "ServeHTTP J E ?h ?r = (if authorized ?h ?r then (Some rep, h')
      else (Some (unauthorizedReply ''Bearer realm=gocacheprogd''), ?h))"
    and bud: "authorized ?h ?r \<Longrightarrow> combinedMaxDiskBytes h' \<le> 0 \<and> rp_status rep \<notin> {502, 504}"
    using serve_start [OF _ assms(4) _ st] serve_unauthorized [of ?h ?r J E] by auto
  obtain res where ex: "exchange (serverTransport J E R) 204 ''save-cache-start'' ?r c = (Inr res, c')"
    and lim: "lim = (let v = headerOf res ''X-Gocacheprog-Save-Max-File-Bytes'' in
        if v = [] then 0 else (case parseInt64 v of Inl _ \<Rightarrow> 0 | Inr n \<Rightarrow> n))"
    using assms(1) by (auto simp: startSaveCache_def Let_def split: prod.splits sum.splits)
  obtain rep' h'' where r: "ServeHTTP J E ?h ?r = (Some rep', h'')" "rp_status rep' = 204" "res = onWire R rep'"
      "c' = c\<lparr>cl_world := h''\<rparr>"
    by (rule exchange_server [OF ex]) (use serve bud in \<open>auto split: if_splits\<close>)
  then have a: "authorized ?h ?r" and rep: "rep' = rep" "h'' = h'" "rp_status rep = 204"
    using serve by (auto split: if_splits)
  have u: "u \<noteq> []" and new: "map_of (saveSessions ?h) u = None"
    and rh: "rp_header rep = (if 0 < maxFileBytes s
        then [(''X-Gocacheprog-Save-Max-File-Bytes'', formatInt (maxFileBytes s))] else [])"
    and h': "h' = (touchSession J E ?h ?r)\<lparr>saveSessions := AList.update u
        \<lparr>sv_request = parseGOCACHERequest ?r, sv_state = Feeding [] [], sv_startedAt = now E, sv_chunks = 0,
         sv_bytes = 0\<rparr> (saveSessions ?h)\<rparr>"
    using st rep(3) assms(2)
    by (auto simp: StartSaveCacheH_def saveUploadID_def upload_id httpError_def split: if_splits)
  have "uploading J E u s (normalRequest req) [] h'"
    using assms(2) by (simp add: uploading_def h' caughtUp_start parse_clientRequest [OF assms(5,6)])
  moreover have "lim = max 0 (maxFileBytes s)"
    using parse_formatInt [of "maxFileBytes s"] assms(3)
    by (auto simp: lim headerOf_def r(3) rep(1) onWire_def rh Let_def)
  ultimately show ?thesis using r(4) rep(2) u bud a by blast
qed

definition linked :: "codec \<Rightarrow> env \<Rightarrow> string \<Rightarrow> store \<Rightarrow> request \<Rightarrow> bytes \<Rightarrow> handler \<Rightarrow> bool" where
  "linked J E u s0 req bs h = (uploading J E u s0 req bs h \<and> combinedMaxDiskBytes h \<le> 0 \<and> u \<noteq> [])"

text \<open>A chunk at the server: the answer, and the session afterwards.\<close>

lemma linked_chunk:
  assumes "linked J E u s0 req bs h" "rq_path r = ''/save-cache-chunk''" "rq_query r ''upload-id'' = u"
    and "rq_body r = (b, None)" "ServeHTTP J E h r = (x, h')"
  shows "(\<forall>rep. x = Some rep \<longrightarrow> rp_status rep \<in> {204, 401}) \<and>
    (authorized h r \<longrightarrow> linked J E u s0 req (bs @ b) h') \<and>
    (\<not> authorized h r \<longrightarrow> x \<noteq> None \<and> rp_status (the x) = 401 \<and> h' = h)"
proof (cases "authorized h r")
  case True
  have l: "uploading J E u s0 req bs h" "combinedMaxDiskBytes h \<le> 0" "u \<noteq> []" "snd (rq_body r) = None"
    using assms(1,4) by (simp_all add: linked_def)
  obtain y k where c: "SaveCacheChunkH J E (touchSession J E h r) r = (y, k)" by fastforce
  from serve_chunk [OF True l(2) assms(2) l(1,3) assms(3) l(4) c] assms(5)
  have x: "x = map_option (\<lambda>_. noContent) y" "h' = k" "combinedMaxDiskBytes h' \<le> 0" by simp_all
  have "linked J E u s0 req (bs @ b) h'"
    using sendChunk_uploading [OF l(3) assms(3) l(4) uploading_touch [THEN iffD2, OF l(1)] c]
      x l(3) assms(4) by (simp add: linked_def)
  with True x show ?thesis by (cases y) (simp_all add: noContent_def)
next
  case False
  then show ?thesis using serve_unauthorized [OF False, of J E] assms(2,5) by auto
qed

lemma client_chunk:
  assumes "saveCacheChunk (serverTransport J E R) creq u b c = (None, c')" "linked J E u s0 req bs (cl_world c)"
  shows "\<exists>h'. c' = c\<lparr>cl_world := h'\<rparr> \<and> linked J E u s0 req (bs @ b) h'"
proof -
  let ?r = "clientRequest c ''POST'' ''/save-cache-chunk'' (saveCacheQuery creq u) [] b"
  obtain x h' where sv: "ServeHTTP J E (cl_world c) ?r = (x, h')" by fastforce
  note ch = linked_chunk [OF assms(2) _ upload_id _ sv, simplified]
  obtain res where ex: "exchange (serverTransport J E R) 204 ''save-cache-chunk'' ?r c = (Inr res, c')"
    using assms(1) by (auto simp: saveCacheChunk_def split: prod.splits sum.splits)
  show ?thesis
  proof (rule exchange_server [OF ex])
    show "rp_status rep \<notin> {502, 504}" if "fst (ServeHTTP J E (cl_world c) ?r) = Some rep" for rep
      using that sv ch by auto
  next
    fix rep h'' assume r: "ServeHTTP J E (cl_world c) ?r = (Some rep, h'')" "rp_status rep = 204"
      "c' = c\<lparr>cl_world := h''\<rparr>"
    have "authorized (cl_world c) ?r" using ch r(1,2) sv by auto
    then have "linked J E u s0 req (bs @ b) h''" using ch r(1) sv by simp
    then show ?thesis using r(3) by blast
  qed
qed

lemma client_stream:
  "sendStream (serverTransport J E R) creq u n b c = (None, c') \<Longrightarrow> n \<noteq> 0 \<Longrightarrow>
     linked J E u s0 req bs (cl_world c) \<Longrightarrow>
     \<exists>h'. c' = c\<lparr>cl_world := h'\<rparr> \<and> linked J E u s0 req (bs @ b) h'"
proof (induction "length b" arbitrary: b bs c rule: less_induct)
  case less
  show ?case
  proof (cases "b = []")
    case True
    then show ?thesis using less.prems by (intro exI [of _ "cl_world c"]) (simp add: sendStream.simps)
  next
    case False
    then obtain c1 where c1: "saveCacheChunk (serverTransport J E R) creq u (take n b) c = (None, c1)"
        "sendStream (serverTransport J E R) creq u n (drop n b) c1 = (None, c')"
      using less.prems(1,2) sendStream.simps [of "serverTransport J E R" creq u n b c]
      by (auto split: prod.splits option.splits)
    obtain h1 where h1: "c1 = c\<lparr>cl_world := h1\<rparr>" "linked J E u s0 req (bs @ take n b) h1"
      using client_chunk [OF c1(1) less.prems(3)] by blast
    have "length (drop n b) < length b" using False less.prems(2) by simp
    from less.hyps [OF this c1(2) less.prems(2), of "bs @ take n b"] h1
    obtain h' where "c' = c1\<lparr>cl_world := h'\<rparr>" "linked J E u s0 req ((bs @ take n b) @ drop n b) h'" by auto
    then show ?thesis by (intro exI [of _ h']) (simp add: h1(1))
  qed
qed

lemma client_finalize:
  assumes "finalizeSaveCache (serverTransport J E R) creq u c = (None, c')" "linked J E u s0 req bs (cl_world c)"
  shows "gocacheStore (cl_world c') \<noteq> None \<and>
    processSaveCacheStream J E s0 req (bs, None) = (None, the (gocacheStore (cl_world c'))) \<and>
    map_of (saveSessions (cl_world c')) u = None"
proof -
  let ?r = "clientRequest c ''POST'' ''/save-cache-finalize'' (saveCacheQuery creq u) [] []" and ?h = "cl_world c"
  obtain rep h' where fin: "FinalizeSaveCacheH J E (touchSession J E ?h ?r) ?r = (rep, h')" by fastforce
  have l: "combinedMaxDiskBytes ?h \<le> 0" "u \<noteq> []" using assms(2) by (simp_all add: linked_def)
  note serve = serve_finalize [OF _ l(1) _ fin, simplified]
  obtain res c1 where rt: "roundTrip (serverTransport J E R) True ?r c = (Inr res, c1)" "hs_status res = 204"
      "cl_world c' = cl_world c1"
    using assms(1)
    by (auto simp: finalizeSaveCache_def postSaveCacheControl_def split: prod.splits sum.splits)
  have st: "rp_status rep' \<notin> {502, 504}" if "fst (ServeHTTP J E ?h ?r) = Some rep'" for rep'
    using that serve serve_unauthorized [of ?h ?r J E]
    by (cases "authorized ?h ?r")
      (auto simp: always_def recovered_def internalError_def httpError_def split: option.splits reply_body.splits)
  obtain rep' h'' where r: "ServeHTTP J E ?h ?r = (Some rep', h'')" "res = onWire R rep'" "c1 = c\<lparr>cl_world := h''\<rparr>"
    by (rule roundTrip_server [OF rt(1) st])
  then have a: "authorized ?h ?r"
    using rt(2) serve_unauthorized [of ?h ?r J E] by (cases "authorized ?h ?r") auto
  with serve r have rep: "recovered E rep h' = (rep', h'')" by (auto simp: always_def prod_eq_iff)
  obtain s sv where s: "gocacheStore ?h = Some s" "map_of (saveSessions ?h) u = Some sv" "sv_request sv = req"
      "caughtUp J E req s0 bs (sv_state sv) s"
    using assms(2) by (auto simp: linked_def uploading_def)
  obtain e s' where cl: "closePipe J E req (sv_state sv) None s = (e, s')" by fastforce
  have e: "e = None" and h': "gocacheStore h' = Some s' \<and> map_of (saveSessions h') u = None \<and> h'' = h'"
    using fin rep rt(2) r(2) s(1,2,3) cl l(2)
    by (cases e; auto simp: FinalizeSaveCacheH_def lookupSaveSession_def saveUploadID_def upload_id Let_def
        deleteSaveSession_def recordSessionFinalize_def updateSession_def httpError_def noContent_def
        recovered_def internalError_def split: option.splits if_splits)+
  show ?thesis
    using caughtUp_close [OF s(4), of None] cl e h' rt(3) r(3) by (simp add: processSaveCacheStream_def)
qed

section \<open>Properties\<close>

text \<open>
  Claim C3. An upload by the client is one save. If an attempt of \<open>SaveCache\<close> succeeds at a server without a
  combined budget, then the object store is what a single save of the whole stream makes of the store the
  upload found, and that save succeeds; the stream was written to its end, without the files that are
  over the server's limit, which the client took from the server's answer; the request the server saw is the
  client's; and the session is gone. The client may cut the stream into chunks of any size.\<close>

theorem client_upload_is_one_save:
  assumes "saveCacheOnce J (serverTransport J E R) E' d p req its u c = (Inr ts, c')"
    and "gocacheStore (cl_world c) = Some s" "combinedMaxDiskBytes (cl_world c) \<le> 0"
    and "maxFileBytes s < 2 ^ 63" "MaxFileBytes req < 2 ^ 63" "MaxPreloadTotalBytes req < 2 ^ 63"
  shows "\<exists>b s'. saveStream J E' d p (max 0 (maxFileBytes s)) its noTransfer bytesBuffer = (ts, b, None) \<and>
    processSaveCacheStream J E s (normalRequest req) (b, None) = (None, s') \<and>
    gocacheStore (cl_world c') = Some s' \<and> map_of (saveSessions (cl_world c')) u = None"
proof -
  let ?T = "serverTransport J E R"
  obtain lim c1 where start: "startSaveCache ?T req u c = (Inr lim, c1)"
    using assms(1) by (auto simp: saveCacheOnce_def split: prod.splits sum.splits)
  from client_start [OF this assms(2,4,3,5,6)] obtain h1 where
    h1: "c1 = c\<lparr>cl_world := h1\<rparr>" "linked J E u s (normalRequest req) [] h1" "lim = max 0 (maxFileBytes s)"
    by (auto simp: linked_def)
  obtain ts' b pend where st: "saveStream J E' d p lim its noTransfer bytesBuffer = (ts', b, pend)"
    by (metis prod.exhaust)
  define n where "n = nat (if cl_saveCacheMaxRequestBytes c1 \<le> 0 then DefaultSaveCacheChunkBytes
    else cl_saveCacheMaxRequestBytes c1)"
  obtain c2 where sent: "sendStream ?T req u n b c1 = (None, c2)" and pend: "pend = None"
    and fin: "finalizeSaveCache ?T req u c2 = (None, c')" and ts: "ts' = ts"
    using assms(1)
    by (auto simp: saveCacheOnce_def start st n_def aborted_def Let_def split: prod.splits option.splits if_splits)
  have "n \<noteq> 0" by (simp add: n_def DefaultSaveCacheChunkBytes_def)
  from client_stream [OF sent this, of s "normalRequest req" "[]"] h1 obtain h2 where
    h2: "c2 = c1\<lparr>cl_world := h2\<rparr>" "linked J E u s (normalRequest req) b h2" by auto
  from client_finalize [OF fin, of s "normalRequest req" b] h2 st pend ts h1(3) show ?thesis by auto
qed


section \<open>Concrete uploads\<close>

text \<open>To run the server, only the handler that is asked for is to be evaluated.\<close>

lemma route_lookup:
  "map_of (routes J E h r) p =
     (if p = ''/version'' then Some (always (serveVersion (moduleVersion J), h))
      else if p = ''/status'' then Some (always (StatusH h, h))
      else if p = ''/session-done'' then Some (always (serveSessionDone J E h r))
      else if p = ''/preload'' then Some (always (PreloadH J E h r))
      else if p = ''/cache-used'' then Some (always (CacheUsedH E h r))
      else if p = ''/restore-cache'' then Some (always (RestoreCacheH J E h r))
      else if p = ''/clear'' then Some (always (ClearCacheH E h r))
      else if p = ''/inspect'' then Some (always (InspectCacheH E h r))
      else if p = ''/inspect-keys'' then Some (always (InspectKeysH J E h r))
      else if p = ''/integrity-check'' then Some (always (IntegrityCheckH E h r))
      else if p = ''/save-cache-has'' then Some (always (SaveCacheHasH J E h r))
      else if p = ''/save-cache'' then Some (always (SaveCacheH J E h r))
      else if p = ''/save-cache-chunk'' then Some (SaveCacheChunkH J E h r)
      else if p = ''/save-cache-start'' then Some (always (StartSaveCacheH E h r))
      else if p = ''/save-cache-finalize'' then Some (always (FinalizeSaveCacheH J E h r))
      else if p = ''/save-cache-abort'' then Some (always (AbortSaveCacheH J E h r))
      else if p = ''/put'' then Some (always (PutH J E h r))
      else if p = ''/get'' then Some (always (GetH J E h r))
      else if p = ''/head'' then Some (always (HeadH J E h r))
      else if p = ''/settings/max-preload-total-bytes'' then Some (always (MaxPreloadTotalBytesSettings J E h r))
      else if p = ''/settings/max-file-bytes'' then Some (always (MaxFileBytesSettings J E h r))
      else None)"
  by (simp add: routes_def)

declare ServeHTTP_def [unfolded route_lookup, code]

definition smallClient :: "'w \<Rightarrow> 'w client" where
  "smallClient w = (newClient ''http://h'' ''t'' None w)\<lparr>cl_saveCacheMaxRequestBytes := 50\<rparr>"

definition commitRequest :: request where
  "commitRequest =
     \<lparr>Commit = ''c1'', ChangesID = [], BuildType = [], BaseCommit = [], ParentCommit = [], MaxFileBytes = 0,
      MaxPreloadTotalBytes = 0\<rparr>"

text \<open>An upload of two items in one chunk, step by step.\<close>

definition testServer :: "handler transport" where
  "testServer = serverTransport toyCodec (calm 5) (\<lambda>_. [])"

definition uploadStarted :: "handler client" where
  "uploadStarted = snd (startSaveCache testServer commitRequest ''u'' (smallClient nativeServer))"

definition uploadSent :: "handler client" where
  "uploadSent = snd (saveCacheChunk testServer commitRequest ''u'' twoItems uploadStarted)"

definition uploadDone :: "handler client" where
  "uploadDone = snd (finalizeSaveCache testServer commitRequest ''u'' uploadSent)"

lemma exampleUpload:
  "saveCacheOnce toyCodec testServer (calm 4) [] (newPool 4096 8388608 []) commitRequest
     [toyItem ''a'' ''xy'', toyItem ''b'' ''uvw''] ''u'' (smallClient nativeServer) =
     (Inr \<lparr>ts_Files = 2, ts_CompressedBytes = 5, ts_UncompressedBytes = 5\<rparr>, uploadDone)"
proof -
  have step: "fst (startSaveCache testServer commitRequest ''u'' (smallClient nativeServer)) = Inr 0"
    "cl_saveCacheMaxRequestBytes uploadStarted = 50"
    "fst (saveCacheChunk testServer commitRequest ''u'' twoItems uploadStarted) = None"
    "fst (finalizeSaveCache testServer commitRequest ''u'' uploadSent) = None"
    "saveStream toyCodec (calm 4) [] (newPool 4096 8388608 []) 0 [toyItem ''a'' ''xy'', toyItem ''b'' ''uvw'']
       noTransfer bytesBuffer =
     (\<lparr>ts_Files = 2, ts_CompressedBytes = 5, ts_UncompressedBytes = 5\<rparr>, twoItems, None)"
    "take 50 twoItems = twoItems" "drop 50 twoItems = []" "twoItems \<noteq> []"
    by code_simp+
  have pairs: "startSaveCache testServer commitRequest ''u'' (smallClient nativeServer) = (Inr 0, uploadStarted)"
    "saveCacheChunk testServer commitRequest ''u'' twoItems uploadStarted = (None, uploadSent)"
    "finalizeSaveCache testServer commitRequest ''u'' uploadSent = (None, uploadDone)"
    using step(1,3,4) by (simp_all add: prod_eq_iff uploadStarted_def uploadSent_def uploadDone_def)
  have "sendStream testServer commitRequest ''u'' 50 twoItems uploadStarted = (None, uploadSent)"
    using step(6-8) pairs(2)
    by (simp add: sendStream.simps [of _ _ _ _ twoItems] sendStream.simps [of _ _ _ _ "[]"])
  then show ?thesis using step(2,5) pairs by (simp add: saveCacheOnce_def)
qed

theorem client_upload_is_one_save_witness:
  "\<exists>s'. processSaveCacheStream toyCodec (calm 5) (emptyStore ''/g'' False 0) (normalRequest commitRequest)
       (twoItems, None) = (None, s') \<and>
     gocacheStore (cl_world uploadDone) = Some s' \<and> map fst (index s') = [''a'', ''b'']"
proof -
  have "map_option (\<lambda>s. map fst (index s)) (gocacheStore (cl_world uploadDone)) = Some [''a'', ''b'']"
    by code_simp
  moreover have w: "gocacheStore (cl_world (smallClient nativeServer)) = Some (emptyStore ''/g'' False 0)"
    "combinedMaxDiskBytes (cl_world (smallClient nativeServer)) \<le> 0"
    "maxFileBytes (emptyStore ''/g'' False 0) = 0" "MaxFileBytes commitRequest = 0"
    "MaxPreloadTotalBytes commitRequest = 0"
    by (simp_all add: smallClient_def newClient_def nativeServer_def plainServer_def emptyStore_def commitRequest_def)
  moreover have "fst (snd (saveStream toyCodec (calm 4) [] (newPool 4096 8388608 []) (max 0 0)
      [toyItem ''a'' ''xy'', toyItem ''b'' ''uvw''] noTransfer bytesBuffer)) = twoItems"
    by code_simp
  ultimately show ?thesis
    using client_upload_is_one_save [OF exampleUpload [unfolded testServer_def] w(1,2)] by auto
qed

definition beforeChunk :: handler where
  "beforeChunk = snd (SaveCacheChunkH toyCodec (calm 5)
     (snd (StartSaveCacheH (calm 5) nativeServer (saveReq ''/save-cache-start'' [])))
     (saveReq ''/save-cache-chunk'' (put_be32 3 @ ''8 a'')))"

definition exampleChunk :: "(handler \<times> gatewayAct list) client" where
  "exampleChunk = smallClient (beforeChunk, [LoseReply])"


end
