(* ===== verification/Remote.thy ===== *)
theory Remote
  imports Http_Link Proxy_Answers
begin

text \<open>
  The proxy with the server as its upstream: \<open>Client\<close> as a \<open>cache.Store\<close> with all the optional interfaces
  (\<open>internal/http/client.go\<close>, \<open>internal/local/proxy.go\<close>). What a transport must do for the proxy to answer
  every lookup once is the locale \<open>get_transport\<close>; the server keeps it, and so does a gateway in front of it.
\<close>

section \<open>The client as an upstream\<close>

definition clientUpstream :: "codec \<Rightarrow> clientCodec \<Rightarrow> 'w transport \<Rightarrow> 'w client upstream" where
  "clientUpstream J K T =
     \<lparr>upGet = ClientGet J K T, upPut = ClientPut J K T, upPreload = Some (ClientPreload J K T),
      upUsed = Some (ClientPostCacheUsed T), upGetTotalTime = Some cl_getTotal, upStats = Some ClientStats\<rparr>"

section \<open>What a response to a lookup holds\<close>

definition idsGot :: "codec \<Rightarrow> reader \<Rightarrow> string list" where
  "idsGot J rd = map ri_ActionID (snd (snd (receiveItems J rd)))"

text \<open>The items in the body answer a beginning of the request's actions.\<close>

definition answersGet :: "codec \<Rightarrow> httpRequest \<Rightarrow> httpResponse \<Rightarrow> bool" where
  "answersGet J r res =
     (hs_status res = 200 \<longrightarrow>
        (\<forall>ids. dec_actionIDs J (fst (rq_body r)) = Inr ids \<longrightarrow> prefix (idsGot J (hs_body res)) ids))"

text \<open>\<open>encoding/json\<close>, on the strings that reach it (an encoder of the model may refuse others): what one
  side writes the other side reads.\<close>

definition json_faithful :: "codec \<Rightarrow> clientCodec \<Rightarrow> bool" where
  "json_faithful J K =
     ((\<forall>ids b. enc_actionIDs K ids = Inr b \<longrightarrow> dec_actionIDs J b = Inr ids) \<and>
      (\<forall>its b. enc_items J its = Inr b \<longrightarrow> dec_items J b = Inr (map ri_wire its)))"

lemma handItem_ids:
  "handItem it body (n, out) = ((k, e), (n', out')) \<Longrightarrow>
     map ri_ActionID out' = map ri_ActionID out @ (if e = None then [ri_ActionID it] else [])"
  by (auto simp: handItem_def split: if_splits option.splits)

lemma readItems_ids:
  "readItems ws handItem its rd t (n, out) = (q, rd', n', out') \<Longrightarrow>
     \<exists>k. map ri_ActionID out' = map ri_ActionID out @ take k (map ri_ActionID its)"
proof (induction its arbitrary: rd t n out)
  case Nil
  then show ?case by auto
next
  case (Cons it its)
  show ?case
  proof (cases "ws it = 0")
    case True
    obtain k e n1 out1 where h: "handItem it None (n, out) = ((k, e), (n1, out1))" by (metis prod.exhaust)
    note ids = handItem_ids [OF h]
    show ?thesis
    proof (cases e)
      case None
      then have "readItems ws handItem its rd t (n1, out1) = (q, rd', n', out')"
        using Cons.prems True h by simp
      from Cons.IH [OF this] obtain j where
        "map ri_ActionID out' = map ri_ActionID out1 @ take j (map ri_ActionID its)" ..
      then show ?thesis using ids None by (intro exI [of _ "Suc j"]) simp
    next
      case (Some e')
      then show ?thesis using Cons.prems True h ids by (intro exI [of _ 0]) auto
    qed
  next
    case False
    let ?f = "\<lambda>lim. handItem it (Some lim)"
    obtain m r rd1 n1 out1 where b: "readItemBody rd (ws it) ?f (n, out) = ((m, r), rd1, n1, out1)"
      by (metis prod.exhaust)
    have "map ri_ActionID out1 = map ri_ActionID out @ [ri_ActionID it]"
      using b by (auto simp: readItemBody_def handItem_def Let_def split: option.splits if_splits)
    moreover have "(r = None \<longrightarrow> readItems ws handItem its rd1 (t + m) (n1, out1) = (q, rd', n', out')) \<and>
        (r \<noteq> None \<longrightarrow> out' = out1)"
      using Cons.prems False b by (auto split: option.splits)
    ultimately show ?thesis
      using Cons.IH [of rd1 "t + m" n1 out1]
      by (cases "r = None") (fastforce intro: exI [of _ "Suc _"], force intro: exI [of _ 1])
  qed
qed

section \<open>What the server writes\<close>

lemma wwrite_grows: "wwrite w b = (r, w') \<Longrightarrow> prefix (written w) (written w')"
  by (auto simp: wwrite_def split: option.splits if_splits)

lemma ri_WriteTo_grows: "ri_WriteTo E d p it w = (r, w') \<Longrightarrow> prefix (written w) (written w')"
  by (auto simp: ri_WriteTo_def split: if_splits sum.splits option.splits prod.splits dest: wwrite_grows)

lemma writeItems_grows:
  assumes "\<And>it w r w'. wr it w = (r, w') \<Longrightarrow> prefix (written w) (written w')"
  shows "writeItems wr its w t = (r, w') \<Longrightarrow> prefix (written w) (written w')"
proof (induction its arbitrary: w t)
  case (Cons it its)
  obtain n e w1 where w1: "wr it w = ((n, e), w1)" by (metis prod.exhaust)
  have "prefix (written w) (written w1)" by (rule assms [OF w1])
  then show ?case
    using Cons w1 by (cases e) (auto intro: prefix_order.trans)
qed simp

text \<open>Nothing, or the metadata of all items and then some.\<close>

lemma writeResponse_head:
  assumes "writeResponse J E s its = (b, e)"
  shows "b = [] \<or> (\<exists>json rest. enc_items J its = Inr json \<and> length json \<le> 2147483647 \<and>
    b = put_be32 (word_of_nat (length json)) @ json @ rest)"
proof (cases "enc_items J its")
  case (Inl x)
  then show ?thesis
    using assms by (simp add: writeResponse_def Response_WriteTo_def frameWriteTo_def bytesBuffer_def)
next
  case (Inr json)
  show ?thesis
  proof (cases "length json \<le> 2147483647")
    case True
    let ?w = "bytesBuffer\<lparr>written := put_be32 (word_of_nat (length json)) @ json\<rparr>"
    have hd: "writeHead json bytesBuffer = ((4 + int (length json), None), ?w)"
      using resp.writeHead_ok [OF True, of bytesBuffer] by (simp add: bytesBuffer_def)
    obtain r w' where w': "writeItems (ri_WriteTo E (ls_disk s) (ls_pool s)) its ?w (4 + int (length json)) = (r, w')"
      by fastforce
    have "prefix (written ?w) (written w')"
      by (rule writeItems_grows [OF _ w']) (rule ri_WriteTo_grows)
    moreover have "b = written w'"
      using assms Inr hd w'
      by (simp add: writeResponse_def Response_WriteTo_def frameWriteTo_def split: prod.splits)
    ultimately show ?thesis using Inr True by (auto simp: prefix_def)
  next
    case False
    then have "checkedJSONLength json = Inl (ErrMsg ''response header too large'')"
      by (simp add: checkedJSONLength_def)
    then show ?thesis
      using assms Inr
      by (simp add: writeResponse_def Response_WriteTo_def frameWriteTo_def writeHead_def bytesBuffer_def)
  qed
qed

lemma idsGot_response:
  assumes "json_faithful J K" "writeResponse J E s its = (b, e)"
  shows "prefix (idsGot J (b, err)) (map ri_ActionID its)"
  using writeResponse_head [OF assms(2)]
proof
  assume "b = []"
  then show ?thesis
    by (simp add: idsGot_def receiveItems_def Response_ReaderFrom_def frameReaderFrom_def readFull_def)
next
  assume "\<exists>json rest. enc_items J its = Inr json \<and> length json \<le> 2147483647 \<and>
    b = put_be32 (word_of_nat (length json)) @ json @ rest"
  then obtain json rest where j: "enc_items J its = Inr json" "length json \<le> 2147483647"
    "b = put_be32 (word_of_nat (length json)) @ json @ rest" by blast
  have "checkedJSONLength json = Inr (word_of_nat (length json))"
    using j(2) by (simp add: checkedJSONLength_def)
  then have len: "sint (word_of_nat (length json) :: u32) = int (length json)"
    by (rule checkedJSONLength_ok)
  obtain q rd' n' out' where r: "readItems ri_WireSize handItem (map ri_wire its) (rest, err)
      (4 + int (length json)) (0, []) = (q, rd', n', out')"
    by (metis prod.exhaust)
  then have "Response_ReaderFrom (dec_items J) handItem (b, err) (0, []) = (q, rd', n', out')"
    using assms(1) j
    by (simp add: Response_ReaderFrom_def frameReaderFrom_def readFull_append len json_faithful_def)
  then have "idsGot J (b, err) = map ri_ActionID out'"
    by (cases q) (simp add: idsGot_def receiveItems_def)
  moreover obtain k where "map ri_ActionID out' = take k (map ri_ActionID (map ri_wire its))"
    using readItems_ids [OF r] by auto
  ultimately show ?thesis by (simp add: ri_wire_def comp_def take_is_prefix)
qed

section \<open>The server answers lookups\<close>

lemma servedItem_id [simp]: "ri_ActionID (servedItem E d it) = ri_ActionID it"
  by (simp add: servedItem_def withWireSize_def Let_def)

lemma GetH_items:
  assumes "GetH J E h r = (rep, h')" "rp_status rep = 200" "dec_actionIDs J (fst (rq_body r)) = Inr ids"
  shows "\<exists>its s b e. map ri_ActionID its = ids \<and> writeResponse J E s its = (b, e) \<and> rp_body rep = Octets b"
proof -
  obtain its0 s where g: "GetL E (h_store h) ids = (its0, s)" by fastforce
  let ?its = "map (servedItem E (ls_disk s)) its0"
  obtain b e where w: "writeResponse J E s ?its = (b, e)" by fastforce
  have "map ri_ActionID ?its = ids"
    using GetL_ids [of E "h_store h" ids] g by (simp add: comp_def)
  moreover have "rp_body rep = Octets b"
    using assms g w
    by (auto simp: GetH_def readBody_def httpError_def octetReply_def Let_def
        split: option.splits sum.splits)
  ultimately show ?thesis using w by blast
qed

lemma recovered_200:
  assumes "recovered E rep h = (rep', h')" "rp_status rep' = 200"
  shows "rp_status rep = 200 \<and> rp_body rep' = rp_body rep"
  using assms by (auto simp: recovered_def internalError_def httpError_def split: option.splits reply_body.splits)

lemma serve_get:
  assumes "ServeHTTP J E h r = (Some rep, h')" "rp_status rep = 200" "rq_path r = ''/get''"
  shows "\<exists>rep0 h0. GetH J E (touchSession J E h r) r = (rep0, h0) \<and> rp_status rep0 = 200 \<and> rp_body rep = rp_body rep0"
proof -
  obtain rep0 h0 where g: "GetH J E (touchSession J E h r) r = (rep0, h0)" by fastforce
  obtain e h3 where b: "enforceCombinedBudget E h0 = (e, h3)" by fastforce
  have a: "authorized h r"
    using assms serve_unauthorized [of h r J E] by (cases "authorized h r") auto
  have route: "map_of (routes J E (touchSession J E h r) r) (rq_path r) = Some (Some rep0, h0)"
    using assms(3) g by (simp add: routes_def always_def)
  have "recovered E (case e of None \<Rightarrow> rep0 | Some x \<Rightarrow> rep0\<lparr>rp_panic := Some x\<rparr>) h3 = (rep, h')"
    using assms(1,3) a route b
    by (cases e; cases "recovered E rep0 h3"; cases "recovered E (rep0\<lparr>rp_panic := e\<rparr>) h3")
      (simp_all add: ServeHTTP_def Let_def always_def)
  from recovered_200 [OF this assms(2)] show ?thesis using g by (cases e) auto
qed

lemma server_answers:
  assumes "json_faithful J K" "serverTransport J E R base r h = (Inr res, h')" "rq_path r = ''/get''"
  shows "answersGet J r res"
  unfolding answersGet_def
proof (intro impI allI)
  fix ids assume st: "hs_status res = 200" and ids: "dec_actionIDs J (fst (rq_body r)) = Inr ids"
  obtain rep where rep: "ServeHTTP J E h r = (Some rep, h')" "res = onWire R rep"
    using assms(2) by (auto simp: serverTransport_def split: prod.splits option.splits)
  then obtain rep0 h0 where g: "GetH J E (touchSession J E h r) r = (rep0, h0)" "rp_status rep0 = 200"
      "rp_body rep = rp_body rep0"
    using serve_get [OF rep(1) _ assms(3)] st by auto
  from GetH_items [OF g(1,2) ids] obtain its s b e where
    i: "map ri_ActionID its = ids" "writeResponse J E s its = (b, e)" "rp_body rep0 = Octets b"
    by blast
  have "fst (hs_body res) = b" by (simp add: rep(2) onWire_def Let_def g(3) i(3) bodyBytes_def)
  then have "hs_body res = (b, snd (hs_body res))" by (simp add: prod_eq_iff)
  then show "prefix (idsGot J (hs_body res)) ids"
    using idsGot_response [OF assms(1) i(2), of "snd (hs_body res)"] i(1) by metis
qed

locale get_transport =
  fixes T :: "'w transport" and J :: codec and K :: clientCodec
  assumes answers:
    "json_faithful J K \<Longrightarrow> T base r w = (Inr res, w') \<Longrightarrow> rq_path r = ''/get'' \<Longrightarrow> answersGet J r res"
begin

lemma roundTrip_answers:
  assumes "json_faithful J K" "roundTrip T g r c = (Inr res, c')" "rq_path r = ''/get''"
  shows "answersGet J r res"
proof -
  note a = answers [OF assms(1) _ assms(3)]
  obtain x w where x: "T (cl_baseURL c) r (cl_world c) = (x, w)" by fastforce
  obtain y w' where y: "T (cl_baseURL c) r w = (y, w')" by fastforce
  show ?thesis
    using assms(2) x y a [of "cl_baseURL c" "cl_world c" _ w] a [of "cl_baseURL c" w _ w']
    by (auto simp: roundTrip_def answersGet_def gatewayStatus_def Let_def
        split: sum.splits option.splits if_splits)
qed

lemma get_answers:
  assumes "json_faithful J K" "ClientGet J K T ids c = ((its, e), c')"
  shows "prefix (map ri_ActionID its) ids"
proof (cases "its = []")
  case False
  let ?c = "c\<lparr>cl_getCnt := cl_getCnt c + 1, cl_getReqCnt := cl_getReqCnt c + 1\<rparr>"
  obtain b where b: "enc_actionIDs K ids = Inr b"
    using assms(2) False by (auto simp: ClientGet_def Let_def split: sum.splits)
  let ?r = "clientRequest ?c ''POST'' ''/get'' [] ''application/json'' b"
  obtain res c1 where ex: "exchange T 200 ''get'' ?r ?c = (Inr res, c1)"
    and its: "its = snd (snd (receiveItems J (hs_body res)))"
    using assms(2) False b by (auto simp: ClientGet_def Let_def split: sum.splits prod.splits)
  then have "roundTrip T True ?r ?c = (Inr res, c1)" "hs_status res = 200"
    by (auto simp: exchange_def split: prod.splits sum.splits option.splits)
  moreover have "dec_actionIDs J (fst (rq_body ?r)) = Inr ids"
    using assms(1) b by (simp add: json_faithful_def)
  ultimately show ?thesis
    using roundTrip_answers [OF assms(1), of True ?r ?c res c1] its by (simp add: answersGet_def idsGot_def)
qed simp

lemma upstream_once:
  assumes "json_faithful J K"
  shows "answersOnce (clientUpstream J K T)"
proof -
  have "distinct (map ri_ActionID its) \<and> ri_ActionID ` set its \<subseteq> set ids"
    if "distinct ids" "upGet (clientUpstream J K T) ids u = ((its, e), u')" for ids u its e u'
  proof -
    have p: "prefix (map ri_ActionID its) ids"
      using get_answers [OF assms, of ids u its e u'] that(2) by (simp add: clientUpstream_def)
    then have "set (map ri_ActionID its) \<subseteq> set ids" by (rule set_mono_prefix)
    moreover have "distinct (map ri_ActionID its)" using p that(1) by (auto simp: prefix_def)
    ultimately show ?thesis by simp
  qed
  then show ?thesis unfolding answersOnce_def by blast
qed

end

interpretation server: get_transport "serverTransport J E R" J K for J E R K
  by unfold_locales (rule server_answers)

interpretation gateway: get_transport "viaGateway (serverTransport J E R)" J K for J E R K
proof
  fix base r and w w' :: "handler \<times> gatewayAct list" and res
  assume "json_faithful J K" "viaGateway (serverTransport J E R) base r w = (Inr res, w')" "rq_path r = ''/get''"
  then show "answersGet J r res"
    using server.answers [of J K E R base r "fst w" _ "fst w'"]
    by (auto simp: viaGateway_def answersGet_def gatewayReply_def split: list.splits gatewayAct.splits prod.splits)
qed

section \<open>Properties\<close>


section \<open>A concrete remote proxy\<close>

text \<open>A simple encoding of items, which refuses those it could not give back.\<close>

definition wordsOfItem :: "cacheItem \<Rightarrow> string" where
  "wordsOfItem it =
     join_with CHR '' '' [ri_ActionID it, (if ri_Miss it then ''miss'' else ''hit''), ri_OutputID it,
       dec (nat (ri_Size it)), (case ri_Time it of None \<Rightarrow> ''-'' | Some t \<Rightarrow> dec (nat t)),
       (if ri_IsCompressed it then ''z'' else ''-''), dec (nat (ri_WireSize it)), ri_DiskPath it]"

definition itemOfWords :: "string \<Rightarrow> cacheItem" where
  "itemOfWords b =
     (case split_on CHR '' '' b of
        [a, m, out, n, t, z, ws, p] \<Rightarrow>
          \<lparr>ri_ActionID = a, ri_Miss = (m = ''miss''), ri_OutputID = out, ri_Size = int (undec n),
           ri_Time = (if t = ''-'' then None else Some (int (undec t))), ri_IsCompressed = (z = ''z''),
           ri_WireSize = int (undec ws), ri_DiskPath = p, ri_body = NilReader\<rparr>
      | _ \<Rightarrow> toyCacheItem [] [])"

definition lineCodec :: codec where
  "lineCodec = toyCodec\<lparr>
     enc_items := (\<lambda>its. let b = join_with nl (map wordsOfItem its) in
       if map itemOfWords (split_on nl b) = map ri_wire its then Inr b else Inl (ErrMsg ''json'')),
     dec_items := (\<lambda>b. Inr (map itemOfWords (split_on nl b)))\<rparr>"

definition lineClientCodec :: clientCodec where
  "lineClientCodec =
     \<lparr>enc_actionIDs = (\<lambda>ids. let b = join_with CHR '','' ids in
        if split_on CHR '','' b = ids then Inr b else Inl (ErrMsg ''json'')),
      enc_preload = (\<lambda>_. Inl (ErrMsg ''json'')), enc_paths = (\<lambda>_. Inl (ErrMsg ''json'')),
      enc_extra = (\<lambda>_. Inl (ErrMsg ''json'')), dec_limits = (\<lambda>_. Inl (ErrMsg ''json'')),
      dec_keys = (\<lambda>_. Inl (ErrMsg ''json''))\<rparr>"

lemma lineCodec_faithful: "json_faithful lineCodec lineClientCodec"
  by (auto simp: json_faithful_def lineCodec_def lineClientCodec_def toyCodec_def Let_def split: if_splits)

definition remoteUp :: "(handler \<times> gatewayAct list) client upstream" where
  "remoteUp = clientUpstream lineCodec lineClientCodec (viaGateway (serverTransport lineCodec (calm 5) (\<lambda>_. [])))"

definition remoteProxy :: "(handler \<times> gatewayAct list) client proxy" where
  "remoteProxy = NewProxy plainDisk
     (Some (newClient ''http://h'' ''t'' None (plainServer oneItem None 0, [Refuse]))) plainParams"

definition remoteRun :: "pxEvent list" where
  "remoteRun =
     [EvLookup (calm 2) (getReq 1 ''a''), EvLookup (calm 2) (getReq 2 ''b''), EvReceive (calm 2),
      EvReceive (calm 2), EvTick, EvDispatch, EvJobStart 0, EvJobItem (calm 4) 0, EvJobItem (calm 4) 0]"


end
