(* ===== verification/Native_Cache.thy ===== *)
theory Native_Cache
  imports Http_Link
begin

text \<open>
  The native GOCACHE directory of a job: what a restore writes into it and remembers, and which files a save
  collects (\<open>CollectFilesToSave\<close> and its neighbours in \<open>internal/gocache/store.go\<close>,
  \<open>internal/local/native_cache.go\<close>); the eviction and usage statistics of the local mode
  (\<open>internal/local/local_gocache_stats.go\<close>); and canonical time stamps (\<open>canonicalize_timestamps.go\<close>).

  The local file system is a map from paths to regular files, so directories, links and special files do
  not occur; \<open>listErr\<close> of the root is the error of walking it. Times are microseconds, but the marker and
  the clock of an upload are nanoseconds as in the code. Log lines are left out.
\<close>

section \<open>Files a job leaves in its cache directory\<close>

definition jobStartMarkerName :: string where "jobStartMarkerName = ''.gocacheprog-job-start-unixnano''"

definition restoredPathsListName :: string where "restoredPathsListName = ''.gocacheprog-restored-paths''"

text \<open>\<open>os.WriteFile\<close> keeps the mode of a file that exists.\<close>

definition osWriteFile :: "env \<Rightarrow> fs \<Rightarrow> path \<Rightarrow> bytes \<Rightarrow> nat \<Rightarrow> go_error option \<times> fs" where
  "osWriteFile E d p b mode =
     (case writeErr E p of
        Some e \<Rightarrow> (Some e, d)
      | None \<Rightarrow>
          (None, AList.update p \<lparr>content = b, mtime = now E,
             fmode = (case map_of d p of None \<Rightarrow> mode | Some f \<Rightarrow> fmode f)\<rparr> d))"

definition WriteJobStartMarker :: "env \<Rightarrow> fs \<Rightarrow> path \<Rightarrow> int \<Rightarrow> go_error option \<times> fs" where
  "WriteJobStartMarker E d cacheDir nanos =
     osWriteFile E d (joinPath [cacheDir, jobStartMarkerName]) (formatInt nanos) 384"

definition ReadJobStartMarker :: "env \<Rightarrow> fs \<Rightarrow> path \<Rightarrow> int result" where
  "ReadJobStartMarker E d cacheDir =
     (case readFile E d (joinPath [cacheDir, jobStartMarkerName]) of
        Inl e \<Rightarrow> Inl e
      | Inr b \<Rightarrow>
          (case parseInt64 (trimSpace b) of
             Inl e \<Rightarrow> Inl (ErrWrap ''parse job start marker'' e) | Inr n \<Rightarrow> Inr n))"

text \<open>The paths in the order of their first occurrence.\<close>

fun cleanPaths :: "string list \<Rightarrow> string list \<Rightarrow> string list result" where
  "cleanPaths seen [] = Inr seen"
| "cleanPaths seen (p # ps) =
     (case cleanRelativePath p of
        Inl e \<Rightarrow> Inl e
      | Inr q \<Rightarrow> cleanPaths (if q \<in> set seen then seen else seen @ [q]) ps)"

definition WriteRestoredPaths :: "env \<Rightarrow> fs \<Rightarrow> path \<Rightarrow> string list \<Rightarrow> go_error option \<times> fs" where
  "WriteRestoredPaths E d cacheDir ps =
     (case cleanPaths [] ps of
        Inl e \<Rightarrow> (Some e, d)
      | Inr qs \<Rightarrow>
          (let body = join_with nl qs;
               data = (if body = [] then [] else body @ [nl]);
               p = joinPath [cacheDir, restoredPathsListName]
           in case writeErr E (p @ ''.tmp'') of
                Some e \<Rightarrow> (Some (ErrWrap ''write restored paths'' e), d)
              | None \<Rightarrow>
                  (case writeRename E d p data 384 of
                     (Some e, d') \<Rightarrow> (Some (ErrWrap ''rename restored paths'' e), d')
                   | (None, d') \<Rightarrow> (None, d'))))"

text \<open>The set of restored paths as a list without repetitions.\<close>

fun readRestored_lines :: "string list \<Rightarrow> string list \<Rightarrow> string list" where
  "readRestored_lines res [] = res"
| "readRestored_lines res (l # ls) =
     (let p = trimSpace l in
      if p = [] then readRestored_lines res ls
      else (case cleanRelativePath p of
          Inl _ \<Rightarrow> readRestored_lines res ls
        | Inr q \<Rightarrow> readRestored_lines (List.insert q res) ls))"

definition ReadRestoredPaths :: "env \<Rightarrow> fs \<Rightarrow> path \<Rightarrow> string list result" where
  "ReadRestoredPaths E d cacheDir =
     (case readFile E d (joinPath [cacheDir, restoredPathsListName]) of
        Inl e \<Rightarrow> Inl e
      | Inr b \<Rightarrow>
          (case scan_lines scanLimit b of
             Inl e \<Rightarrow> Inl (ErrWrap ''scan restored paths'' e)
           | Inr ls \<Rightarrow> Inr (readRestored_lines [] ls)))"

section \<open>Collecting the files to save\<close>

record skippedLargeFiles =
  sk_Count :: int
  sk_Bytes :: int

text \<open>\<open>filepath.Base\<close> and \<open>filepath.Rel\<close> of a path that a walk from the root came to.\<close>

definition baseName :: "path \<Rightarrow> string" where
  "baseName p = last (split_on sep p)"

definition relTo :: "path \<Rightarrow> path \<Rightarrow> path" where
  "relTo root p = (if p = root then ''.'' else drop (Suc (length root)) p)"

definition itemToSave :: "path \<Rightarrow> path \<Rightarrow> osfile \<Rightarrow> fileItem" where
  "itemToSave rel p f =
     \<lparr>fi_Path = rel, fi_Size = int (length (content f)), fi_ModTime = Some (mtime f), fi_Mode = fmode f,
      fi_IsCompressed = False, fi_WireSize = int (length (content f)), fi_DiskPath = p, fi_body = NilReader\<rparr>"

fun collectFiles ::
  "env \<Rightarrow> fs \<Rightarrow> path \<Rightarrow> string list \<Rightarrow> int \<Rightarrow> path list \<Rightarrow> fileItem list \<times> skippedLargeFiles \<Rightarrow>
     (fileItem list \<times> skippedLargeFiles) result" where
  "collectFiles E d root restored limit [] acc = Inr acc"
| "collectFiles E d root restored limit (p # ps) (its, sk) =
     (if baseName p = jobStartMarkerName \<or> baseName p = restoredPathsListName
      then collectFiles E d root restored limit ps (its, sk)
      else (case statFile E d p of
          Inl e \<Rightarrow> Inl e
        | Inr f \<Rightarrow>
            (let size = int (length (content f)) in
             if 0 < limit \<and> limit < size
             then collectFiles E d root restored limit ps
                    (its, sk\<lparr>sk_Count := sk_Count sk + 1, sk_Bytes := sk_Bytes sk + size\<rparr>)
             else (case cleanRelativePath (relTo root p) of
                 Inl e \<Rightarrow> Inl e
               | Inr rel \<Rightarrow>
                   (if rel \<in> set restored then collectFiles E d root restored limit ps (its, sk)
                    else collectFiles E d root restored limit ps (its @ [itemToSave rel p f], sk))))))"

definition noneSkipped :: skippedLargeFiles where
  "noneSkipped = \<lparr>sk_Count = 0, sk_Bytes = 0\<rparr>"

definition CollectFilesToSave ::
  "env \<Rightarrow> fs \<Rightarrow> path \<Rightarrow> string list \<Rightarrow> int \<Rightarrow> (fileItem list \<times> skippedLargeFiles) result" where
  "CollectFilesToSave E d cacheDir restored limit =
     (case listErr E cacheDir of
        Some e \<Rightarrow> Inl e
      | None \<Rightarrow> collectFiles E d cacheDir restored limit (walkFiles d cacheDir) ([], noneSkipped))"

text \<open>A list of restored paths that is missing is empty.\<close>

definition restoredOrNone :: "env \<Rightarrow> fs \<Rightarrow> path \<Rightarrow> string list result" where
  "restoredOrNone E d cacheDir =
     (case ReadRestoredPaths E d cacheDir of
        Inl e \<Rightarrow> (if isNotExist e then Inr [] else Inl e) | Inr ps \<Rightarrow> Inr ps)"

definition CollectFreshFiles ::
  "env \<Rightarrow> fs \<Rightarrow> path \<Rightarrow> int \<Rightarrow> (fileItem list \<times> skippedLargeFiles) result" where
  "CollectFreshFiles E d cacheDir limit =
     (case restoredOrNone E d cacheDir of
        Inl e \<Rightarrow> Inl e | Inr ps \<Rightarrow> CollectFilesToSave E d cacheDir ps limit)"

definition RestoreToDir :: "env \<Rightarrow> fs \<Rightarrow> path \<Rightarrow> fileItem \<Rightarrow> reader option \<Rightarrow> go_error option \<times> fs" where
  "RestoreToDir E d cacheDir it body =
     (case cleanRelativePath (fi_Path it) of
        Inl e \<Rightarrow> (Some e, d)
      | Inr rel \<Rightarrow>
          writeAtomic E d (joinPath [cacheDir, rel]) body (if fileMode it = 0 then 384 else fileMode it))"

section \<open>Restoring from the server and saving to it\<close>

definition restoreCallback ::
  "env \<Rightarrow> path \<Rightarrow> fileItem \<Rightarrow> reader option \<Rightarrow> fs \<times> string list \<Rightarrow> go_error option \<times> (fs \<times> string list)" where
  "restoreCallback E cacheDir it body st =
     (case RestoreToDir E (fst st) cacheDir it body of
        (e, d) \<Rightarrow> (e, (d, snd st @ [fi_Path it])))"

text \<open>\<open>p\<close> is a record pool for the readers, which none of these items uses.\<close>

definition RestoreNativeCache ::
  "codec \<Rightarrow> 'w transport \<Rightarrow> env \<Rightarrow> pool \<Rightarrow> path \<Rightarrow> request \<Rightarrow> int \<Rightarrow> fs \<Rightarrow> 'w client \<Rightarrow>
     transferStats result \<times> fs \<times> 'w client" where
  "RestoreNativeCache J T E p cacheDir req startedAt d c =
     (case RestoreCache J T E d p (restoreCallback E cacheDir) req (d, []) c of
        ((_, Some e), (d', _), c') \<Rightarrow> (Inl e, d', c')
      | ((ts, None), (d', ps), c') \<Rightarrow>
          (case WriteRestoredPaths E d' cacheDir ps of
             (Some e, d'') \<Rightarrow> (Inl e, d'', c')
           | (None, d'') \<Rightarrow>
               (case WriteJobStartMarker E d'' cacheDir startedAt of
                  (Some e, d3) \<Rightarrow> (Inl e, d3, c') | (None, d3) \<Rightarrow> (Inr ts, d3, c'))))"

record saveSkipStats =
  ss_ExistingSkipped :: int
  ss_Considered :: int
  ss_LargeSkipped :: skippedLargeFiles

text \<open>The restored paths are asked for as well, so that the server adds them to the manifests; they come in
  the order of a map, here that of the list.\<close>

definition reportExistingAndDedupe ::
  "codec \<Rightarrow> clientCodec \<Rightarrow> 'w transport \<Rightarrow> request \<Rightarrow> string list \<Rightarrow> fileItem list \<Rightarrow> 'w client \<Rightarrow>
     (fileItem list \<times> int) \<times> 'w client" where
  "reportExistingAndDedupe J K T req restored its c =
     (if its = [] \<and> restored = [] then ((its, 0), c)
      else (case ClientExistingPaths J K T req (restored @ map fi_Path its) c of
          (Inl _, c') \<Rightarrow> ((its, 0), c')
        | (Inr existing, c') \<Rightarrow>
            (if existing = [] then ((its, 0), c')
             else (let left = filter (\<lambda>it. fi_Path it \<notin> set existing) its in
               ((left, int (length its) - int (length left)), c')))))"

text \<open>\<open>since\<close> is \<open>None\<close> for the zero time.\<close>

definition freshItem :: "int option \<Rightarrow> (string \<Rightarrow> bool) \<Rightarrow> fileItem \<Rightarrow> bool" where
  "freshItem since exclude it =
     (\<not> exclude (baseName (fi_DiskPath it)) \<and>
      (case since of
         None \<Rightarrow> True
       | Some t \<Rightarrow> (case fi_ModTime it of None \<Rightarrow> False | Some mt \<Rightarrow> \<not> mt < t)))"

definition noSkips :: saveSkipStats where
  "noSkips = \<lparr>ss_ExistingSkipped = 0, ss_Considered = 0, ss_LargeSkipped = noneSkipped\<rparr>"

definition SaveFreshNativeCache ::
  "codec \<Rightarrow> clientCodec \<Rightarrow> 'w transport \<Rightarrow> env \<Rightarrow> pool \<Rightarrow> path \<Rightarrow> request \<Rightarrow> int \<Rightarrow> int option \<Rightarrow>
     (string \<Rightarrow> bool) \<Rightarrow> (nat \<Rightarrow> int) \<Rightarrow> int \<Rightarrow> fs \<Rightarrow> 'w client \<Rightarrow>
     (transferStats result \<times> saveSkipStats) \<times> 'w client" where
  "SaveFreshNativeCache J K T E p cacheDir req limit since exclude clock pid d c =
     (case restoredOrNone E d cacheDir of
        Inl e \<Rightarrow> ((Inl e, noSkips), c)
      | Inr restored \<Rightarrow>
          (case CollectFilesToSave E d cacheDir restored limit of
             Inl e \<Rightarrow> ((Inl e, noSkips), c)
           | Inr (its0, large) \<Rightarrow>
               (let its = filter (freshItem since exclude) its0 in
                case reportExistingAndDedupe J K T req restored its c of
                  ((left, n), c') \<Rightarrow>
                    (let sk = \<lparr>ss_ExistingSkipped = n, ss_Considered = int (length its),
                               ss_LargeSkipped = large\<rparr>
                     in if left = [] then ((Inr noTransfer, sk), c')
                        else (case ClientSaveCache J T E d p req left clock pid c' of
                            (res, c'') \<Rightarrow> ((res, sk), c''))))))"

section \<open>The local mode: usage statistics and eviction\<close>

record cacheFileEntry =
  ce_path :: path
  ce_size :: int
  ce_modTime :: int

fun statEntries :: "env \<Rightarrow> fs \<Rightarrow> path list \<Rightarrow> cacheFileEntry list result" where
  "statEntries E d [] = Inr []"
| "statEntries E d (p # ps) =
     (case statFile E d p of
        Inl e \<Rightarrow> Inl e
      | Inr f \<Rightarrow>
          (case statEntries E d ps of
             Inl e \<Rightarrow> Inl e
           | Inr es \<Rightarrow>
               Inr (\<lparr>ce_path = p, ce_size = int (length (content f)), ce_modTime = mtime f\<rparr> # es)))"

text \<open>A missing directory has no entries.\<close>

definition scanCacheDir :: "env \<Rightarrow> fs \<Rightarrow> path \<Rightarrow> cacheFileEntry list result" where
  "scanCacheDir E d root =
     (case listErr E root of
        Some e \<Rightarrow> (if isNotExist e then Inr [] else Inl e)
      | None \<Rightarrow> statEntries E d (walkFiles d root))"

definition DirStats :: "env \<Rightarrow> fs \<Rightarrow> path \<Rightarrow> (int \<times> int) result" where
  "DirStats E d root =
     (case scanCacheDir E d root of
        Inl e \<Rightarrow> Inl e | Inr es \<Rightarrow> Inr (int (length es), sum_list (map ce_size es)))"

definition localGocacheStatsFilename :: string where "localGocacheStatsFilename = ''gocacheprog.json''"

definition localGocacheLockFilename :: string where "localGocacheLockFilename = ''lock''"

definition isLocalGocacheProtectedFile :: "string \<Rightarrow> bool" where
  "isLocalGocacheProtectedFile name =
     (name = localGocacheLockFilename \<or> name = localGocacheStatsFilename \<or>
      prefix (localGocacheStatsFilename @ ''.tmp.'') name)"

text \<open>The loop of the eviction: the file system and the total that is left. A file that is gone counts as
  evicted.\<close>

fun evictOldest :: "env \<Rightarrow> int \<Rightarrow> cacheFileEntry list \<Rightarrow> fs \<Rightarrow> int \<Rightarrow> fs \<times> int" where
  "evictOldest E target [] d tot = (d, tot)"
| "evictOldest E target (e # es) d tot =
     (if tot < target then (d, tot)
      else (case removeIfExists E d (ce_path e) of
          (Some _, d') \<Rightarrow> evictOldest E target es d' tot
        | (None, d') \<Rightarrow> evictOldest E target es d' (tot - ce_size e)))"

definition evictable :: "cacheFileEntry list \<Rightarrow> cacheFileEntry list" where
  "evictable es = sort_key ce_modTime (filter (\<lambda>e. \<not> isLocalGocacheProtectedFile (baseName (ce_path e))) es)"

definition evictOldestUntilFits :: "env \<Rightarrow> cacheFileEntry list \<Rightarrow> int \<Rightarrow> fs \<Rightarrow> fs \<times> int" where
  "evictOldestUntilFits E es maxBytes d =
     (let tot = sum_list (map ce_size es) in
      if maxBytes \<le> 0 \<or> tot \<le> maxBytes then (d, tot)
      else evictOldest E (maxBytes - maxBytes div 10) (evictable es) d tot)"

record buildTypeUsage =
  bu_First :: "int option" \<comment> \<open>\<open>None\<close> is the zero time\<close>
  bu_Last :: "int option"
  bu_Count :: int

type_synonym usageStats = "(string \<times> buildTypeUsage) list"

definition localGocacheStatsBuildTypeKey :: "string \<Rightarrow> string" where
  "localGocacheStatsBuildTypeKey bt = (if bt = [] then ''(default)'' else bt)"

definition loadLocalGocacheStats ::
  "(bytes \<Rightarrow> usageStats result) \<Rightarrow> env \<Rightarrow> fs \<Rightarrow> path \<Rightarrow> usageStats result" where
  "loadLocalGocacheStats unmarshal E d cacheDir =
     (case readFile E d (joinPath [cacheDir, localGocacheStatsFilename]) of
        Inl e \<Rightarrow> (if isNotExist e then Inr [] else Inl (ErrWrap ''read gocacheprog.json'' e))
      | Inr b \<Rightarrow>
          (case unmarshal b of Inl e \<Rightarrow> Inl (ErrWrap ''parse gocacheprog.json'' e) | Inr m \<Rightarrow> Inr m))"

text \<open>The temporary file carries the process id; it is renamed into place.\<close>

definition saveLocalGocacheStats ::
  "(usageStats \<Rightarrow> bytes result) \<Rightarrow> env \<Rightarrow> fs \<Rightarrow> path \<Rightarrow> int \<Rightarrow> usageStats \<Rightarrow> go_error option \<times> fs" where
  "saveLocalGocacheStats marshal E d cacheDir pid m =
     (case marshal m of
        Inl e \<Rightarrow> (Some (ErrWrap ''marshal gocacheprog.json'' e), d)
      | Inr b \<Rightarrow>
          (let p = joinPath [cacheDir, localGocacheStatsFilename]; tmp = p @ ''.tmp.'' @ formatInt pid in
           case writeErr E tmp of
             Some e \<Rightarrow> (Some (ErrWrap ''write gocacheprog.json'' e), d)
           | None \<Rightarrow>
               (case writeRename E d p b 384 of
                  (Some e, d') \<Rightarrow> (Some (ErrWrap ''rename gocacheprog.json'' e), d')
                | (None, d') \<Rightarrow> (None, d'))))"

definition recordLocalGocacheUsage ::
  "(bytes \<Rightarrow> usageStats result) \<Rightarrow> (usageStats \<Rightarrow> bytes result) \<Rightarrow> env \<Rightarrow> fs \<Rightarrow> path \<Rightarrow> int \<Rightarrow> string \<Rightarrow>
     usageStats result \<times> fs" where
  "recordLocalGocacheUsage unmarshal marshal E d cacheDir pid buildType =
     (case loadLocalGocacheStats unmarshal E d cacheDir of
        Inl e \<Rightarrow> (Inl e, d)
      | Inr m \<Rightarrow>
          (let k = localGocacheStatsBuildTypeKey buildType;
               old = (case map_of m k of Some u \<Rightarrow> u
                 | None \<Rightarrow> \<lparr>bu_First = None, bu_Last = None, bu_Count = 0\<rparr>);
               new = \<lparr>bu_First = (if bu_First old = None then Some (now E) else bu_First old),
                      bu_Last = Some (now E), bu_Count = bu_Count old + 1\<rparr>;
               m' = AList.update k new m
           in case saveLocalGocacheStats marshal E d cacheDir pid m' of
                (Some e, d') \<Rightarrow> (Inl e, d') | (None, d') \<Rightarrow> (Inr m', d')))"

section \<open>Canonical time stamps\<close>

definition canonicalBaseUnix :: int where "canonicalBaseUnix = 1684178360"

text \<open>\<open>sha\<close> is \<open>crypto/sha1\<close>. The prefix of five bytes fits its 64 bits.\<close>

definition canonicalModUnix :: "(bytes \<Rightarrow> bytes) \<Rightarrow> bytes \<Rightarrow> int" where
  "canonicalModUnix sha b =
     canonicalBaseUnix - foldl (\<lambda>a ch. 256 * a + of_char ch) 0 (take 5 (sha b)) mod 10000"

definition canonicalFileModTime :: "(bytes \<Rightarrow> bytes) \<Rightarrow> env \<Rightarrow> fs \<Rightarrow> path \<Rightarrow> int result" where
  "canonicalFileModTime sha E d p =
     (case readFile E d p of Inl e \<Rightarrow> Inl e | Inr b \<Rightarrow> Inr (1000000 * canonicalModUnix sha b))"

definition chtimes :: "env \<Rightarrow> fs \<Rightarrow> path \<Rightarrow> int \<Rightarrow> go_error option \<times> fs" where
  "chtimes E d p t =
     (case chtimesErr E p of
        Some e \<Rightarrow> (Some e, d)
      | None \<Rightarrow> (case map_of d p of
            None \<Rightarrow> (Some ErrNotExist, d) | Some f \<Rightarrow> (None, AList.update p (f\<lparr>mtime := t\<rparr>) d)))"

text \<open>The files; the directories, which get the base time, are not part of the file system of the model.\<close>

fun canonFiles :: "(bytes \<Rightarrow> bytes) \<Rightarrow> env \<Rightarrow> path list \<Rightarrow> fs \<Rightarrow> go_error option \<times> fs" where
  "canonFiles sha E [] d = (None, d)"
| "canonFiles sha E (p # ps) d =
     (case canonicalFileModTime sha E d p of
        Inl e \<Rightarrow> (Some (ErrWrap ''hash'' e), d)
      | Inr t \<Rightarrow>
          (case chtimes E d p t of
             (Some e, d') \<Rightarrow> (Some (ErrWrap ''chtimes file'' e), d')
           | (None, d') \<Rightarrow> canonFiles sha E ps d'))"

definition CanonicalizeTimestamps :: "(bytes \<Rightarrow> bytes) \<Rightarrow> env \<Rightarrow> fs \<Rightarrow> path \<Rightarrow> go_error option \<times> fs" where
  "CanonicalizeTimestamps sha E d root =
     (case listErr E root of
        Some e \<Rightarrow> (Some e, d)
      | None \<Rightarrow> canonFiles sha E (filter (\<lambda>p. p \<noteq> root) (walkFiles d root)) d)"

section \<open>Which directory\<close>

text \<open>What these functions ask the operating system for: the home directory, the user's cache directory, the
  working directory, and variables of the environment (an unset one is empty).\<close>

record osinfo =
  homeDir :: "string result"
  userCacheDir :: "string result"
  workDir :: "string result"
  getenv :: "string \<Rightarrow> string"

definition filepathAbs :: "osinfo \<Rightarrow> path \<Rightarrow> path result" where
  "filepathAbs oi p =
     (if isAbs p then Inr (clean p)
      else (case workDir oi of Inl e \<Rightarrow> Inl e | Inr wd \<Rightarrow> Inr (joinPath [wd, p])))"

definition resolveAbsPath :: "osinfo \<Rightarrow> path \<Rightarrow> path result" where
  "resolveAbsPath oi p =
     (if p = ''~'' \<or> prefix ''~/'' p then
        (case homeDir oi of
           Inl e \<Rightarrow> Inl (ErrWrap ''user home dir'' e)
         | Inr hm \<Rightarrow> filepathAbs oi (if p = ''~'' then hm else joinPath [hm, drop 2 p]))
      else filepathAbs oi p)"

definition ResolveNativeCacheDir :: "osinfo \<Rightarrow> path \<Rightarrow> path result" where
  "ResolveNativeCacheDir oi d =
     (if d \<noteq> [] then resolveAbsPath oi d
      else (let envDir = trimSpace (getenv oi ''GOCACHE'') in
        if envDir \<noteq> [] then resolveAbsPath oi envDir
        else (case userCacheDir oi of
            Inl e \<Rightarrow> Inl (ErrWrap ''user cache dir'' e)
          | Inr u \<Rightarrow> Inr (joinPath [u, ''go-build'']))))"

end
