(* ===== verification/Native_Content.thy ===== *)
theory Native_Content
  imports Native_Cache
begin

text \<open>
  What the native cache directory holds and loses: a job that changes nothing uploads nothing of what it
  restored; the eviction of the local mode takes the oldest files and no more of them than it has to;
  canonical time stamps depend on nothing but the contents.
\<close>

section \<open>Paths below the cache directory\<close>

lemma joinPath_relative:
  assumes "abs_clean root" "root \<noteq> ''/''" "relative_clean q"
  shows "joinPath [root, q] = root @ sep # q"
proof -
  obtain ds where ds: "\<forall>e \<in> set ds. normal_elem e" "root = sep # join_with sep ds"
    using assms(1) by (rule abs_cleanE)
  obtain es where es: "es \<noteq> []" "\<forall>e \<in> set es. normal_elem e" "q = join_with sep es"
    using assms(3) by (rule relative_cleanE)
  have "ds \<noteq> []" using assms(2) ds(2) by (auto simp: sep_def)
  then show ?thesis
    using joinPath_abs [OF ds(1) es(2,1)] join_with_append [OF _ es(1), of ds sep] by (simp add: ds(2) es(3))
qed

lemma relTo_join: "q \<noteq> [] \<Longrightarrow> relTo root (root @ sep # q) = q"
  by (simp add: relTo_def)

lemma baseName_join:
  assumes "sep \<notin> set n" "n \<noteq> []"
  shows "baseName (root @ sep # n) = n"
  using assms by (simp add: baseName_def split_on_two split_on_absent)

lemma bookkeeping_names:
  "relative_clean jobStartMarkerName" "relative_clean restoredPathsListName"
  "sep \<notin> set jobStartMarkerName" "sep \<notin> set restoredPathsListName"
  "jobStartMarkerName \<noteq> []" "restoredPathsListName \<noteq> []" "jobStartMarkerName \<noteq> restoredPathsListName"
  by code_simp+

section \<open>What a restore leaves behind\<close>

text \<open>Every file is one of before, or was restored.\<close>

definition restoredFrom :: "path \<Rightarrow> fs \<Rightarrow> fs \<times> string list \<Rightarrow> bool" where
  "restoredFrom root d0 st =
     (set (mkeys (fst st)) \<subseteq> set (mkeys d0) \<union> {joinPath [root, q] |p q. p \<in> set (snd st) \<and> cleanRelativePath p = Inr q})"

lemma writeAtomic_shape:
  "writeAtomic E d p rd mode = (e, d') \<Longrightarrow> d' = d \<or> (\<exists>f. d' = AList.update p f d)"
  by (auto simp: writeAtomic_def writeRename_def split: option.splits prod.splits)

lemma writeAtomic_keys:
  assumes "writeAtomic E d p rd mode = (e, d')"
  shows "set (mkeys d') \<subseteq> insert p (set (mkeys d))"
  using writeAtomic_shape [OF assms] by (elim disjE exE) (simp_all add: subset_insertI)

lemma restoreCallback_from:
  assumes "restoredFrom root d0 st"
  shows "restoredFrom root d0 (snd (restoreCallback E root it body st))"
proof -
  obtain e d where r: "RestoreToDir E (fst st) root it body = (e, d)" by fastforce
  have "set (mkeys d) \<subseteq> set (mkeys (fst st)) \<union> {joinPath [root, q] |q. cleanRelativePath (fi_Path it) = Inr q}"
  proof (cases "cleanRelativePath (fi_Path it)")
    case (Inr q)
    then have "set (mkeys d) \<subseteq> insert (joinPath [root, q]) (set (mkeys (fst st)))"
      using r writeAtomic_keys by (simp add: RestoreToDir_def)
    then show ?thesis using Inr by blast
  qed (use r in \<open>simp add: RestoreToDir_def\<close>)
  also have "\<dots> \<subseteq> set (mkeys d0) \<union>
      {joinPath [root, q] |p q. p \<in> set (snd st @ [fi_Path it]) \<and> cleanRelativePath p = Inr q}"
    using assms unfolding restoredFrom_def set_append list.set by blast
  finally show ?thesis using r by (simp add: restoredFrom_def restoreCallback_def)
qed

lemma restoreItem_from:
  assumes "restoredFrom root d0 (snd st)"
  shows "restoredFrom root d0 (snd (snd (restoreItem E d p (restoreCallback E root) it body st)))"
  using restoreCallback_from [OF assms, of E] assms
  by (auto simp: restoreItem_def Let_def split: option.splits sum.splits prod.splits) (metis snd_conv)+

lemma RestoreCache_from:
  assumes "RestoreCache J T E d p (restoreCallback E root) req (d0, []) c = (r, st, c')"
  shows "restoredFrom root d0 st"
proof -
  let ?cb = "restoreItem E d p (restoreCallback E root)"
  have 0: "restoredFrom root d0 (d0, [])" by (simp add: restoredFrom_def)
  have "restoredFrom root d0 (snd (snd (snd (ReadStream (dec_file J) ?cb rd 0 (noTransfer, (d0, []))))))" for rd
    by (rule ReadStream_inv [of "\<lambda>s. restoredFrom root d0 (snd s)"]) (simp_all add: restoreItem_from 0)
  note str = this
  obtain x c1 where ex: "exchange T 200 ''restore-cache''
      (clientRequest c ''GET'' ''/restore-cache'' (gocacheQuery req) [] []) c = (x, c1)" by fastforce
  show ?thesis
  proof (cases x)
    case (Inl e)
    then show ?thesis using assms ex 0 by (simp add: RestoreCache_def)
  next
    case (Inr res)
    obtain n e rd ts st' where rs: "ReadStream (dec_file J) ?cb (hs_body res) 0 (noTransfer, (d0, [])) =
        ((n, e), rd, ts, st')" by (metis prod.exhaust)
    have "restoredFrom root d0 st'" using str [of "hs_body res"] rs by simp
    moreover have "st' = st" using assms ex Inr rs by (simp add: RestoreCache_def Let_def)
    ultimately show ?thesis by simp
  qed
qed

section \<open>The list of restored paths\<close>

lemma cleanPaths_fixed:
  "\<forall>p \<in> set ps. manifest_path p \<Longrightarrow> distinct seen \<Longrightarrow>
     \<exists>qs. cleanPaths seen ps = Inr qs \<and> set qs = set seen \<union> set ps \<and> distinct qs"
proof (induction ps arbitrary: seen)
  case (Cons p ps)
  have "cleanRelativePath p = Inr p" using Cons.prems(1) by (simp add: manifest_path_def cleanRelativePath_fixed)
  then show ?case using Cons.IH [of "if p \<in> set seen then seen else seen @ [p]"] Cons.prems by auto
qed simp

lemma readRestored_fixed:
  "\<forall>p \<in> set ps. manifest_path p \<Longrightarrow> set (readRestored_lines res ps) = set res \<union> set ps"
proof (induction ps arbitrary: res)
  case (Cons p ps)
  have "trimSpace p = p" "p \<noteq> []" "cleanRelativePath p = Inr p"
    using Cons.prems relative_clean_nonempty
    by (auto simp: manifest_path_def cleanRelativePath_fixed trimSpace_trimmed)
  then show ?case using Cons.IH [of "List.insert p res"] Cons.prems by auto
qed simp

lemma WriteRestoredPaths_ok:
  assumes "WriteRestoredPaths E d root ps = (None, d')" "\<forall>p \<in> set ps. manifest_path p"
  shows "\<exists>qs f. set qs = set ps \<and> content f = joinManifestBody qs \<and>
    d' = AList.update (joinPath [root, restoredPathsListName]) f d"
proof -
  obtain qs where qs: "cleanPaths [] ps = Inr qs" "set qs = set ps"
    using cleanPaths_fixed [OF assms(2), of "[]"] by auto
  have ne: "\<forall>p \<in> set qs. p \<noteq> []" using qs(2) assms(2) relative_clean_nonempty by (auto simp: manifest_path_def)
  then have "(join_with nl qs = []) = (qs = [])"
    by (cases "(nl, qs)" rule: join_with.cases) auto
  then show ?thesis
    using assms(1) qs
    by (intro exI [of _ qs] exI [of _ "\<lparr>content = joinManifestBody qs, mtime = now E, fmode = 384\<rparr>"])
      (auto simp: WriteRestoredPaths_def Let_def writeRename_def joinManifestBody_def split: option.splits if_splits)
qed

section \<open>A job that changes nothing uploads nothing\<close>

lemma collectFiles_none:
  assumes "\<forall>p \<in> set ps. baseName p = jobStartMarkerName \<or> baseName p = restoredPathsListName \<or>
      (\<exists>q. cleanRelativePath (relTo root p) = Inr q \<and> q \<in> set restored)"
    and "\<forall>p \<in> set ps. \<exists>f. statFile E d p = Inr f"
  shows "\<exists>sk'. collectFiles E d root restored limit ps ([], sk) = Inr ([], sk')"
  using assms
proof (induction ps arbitrary: sk)
  case (Cons p ps)
  obtain f where f: "statFile E d p = Inr f" using Cons.prems(2) by auto
  have "\<exists>sk'. collectFiles E d root restored limit ps ([], k) = Inr ([], sk')" for k
    using Cons.IH Cons.prems by simp
  moreover have "baseName p = jobStartMarkerName \<or> baseName p = restoredPathsListName \<or>
      (\<exists>q. cleanRelativePath (relTo root p) = Inr q \<and> q \<in> set restored)"
    using Cons.prems(1) by simp
  ultimately show ?case using f by (auto simp: Let_def)
qed simp

lemma ReadRestoredPaths_ok:
  assumes "map_of d (joinPath [root, restoredPathsListName]) = Some f" "content f = joinManifestBody qs"
    and "\<forall>p \<in> set qs. manifest_path p" "readErr E (joinPath [root, restoredPathsListName]) = None"
  shows "\<exists>rs. restoredOrNone E d root = Inr rs \<and> set rs = set qs"
  using assms readRestored_fixed [OF assms(3), of "[]"]
  by (simp add: restoredOrNone_def ReadRestoredPaths_def readFile_def scan_joinManifestBody)

text \<open>
  Claim C16. A job that changes nothing uploads nothing. If a restore into an empty cache directory succeeds, then a
  later save that finds the directory as the restore left it considers no file at all and sends nothing but
  the one question for the restored paths, which puts them into the job's own manifests, whatever size limit,
  time and names it is given. The paths the server sent must be such as can stand in a manifest.\<close>

theorem unchanged_cache_uploads_nothing:
  assumes root: "abs_clean root" "root \<noteq> ''/''" and empty: "\<forall>p \<in> set (mkeys d). \<not> under root p"
    and restored: "RestoreCache J T E d p (restoreCallback E root) req (d, []) c = ((ts, None), (d1, ps), c1)"
    and clean: "\<forall>q \<in> set ps. manifest_path q"
    and native: "RestoreNativeCache J T E p root req t d c = (Inr ts', d2, c2)"
    and calm: "listErr E' root = None" "\<And>q. statErr E' q = None" "\<And>q. readErr E' q = None"
  shows "\<exists>rs large. set rs = set ps \<and>
    SaveFreshNativeCache J K T E' p root req limit since exclude clock pid d2 c2 =
      ((Inr noTransfer, \<lparr>ss_ExistingSkipped = 0, ss_Considered = 0, ss_LargeSkipped = large\<rparr>),
       snd (reportExistingAndDedupe J K T req rs [] c2))"
proof -
  let ?list = "root @ sep # restoredPathsListName" and ?mark = "root @ sep # jobStartMarkerName"
  have bk: "joinPath [root, restoredPathsListName] = ?list" "joinPath [root, jobStartMarkerName] = ?mark"
    using joinPath_relative [OF root] bookkeeping_names by simp_all
  obtain d' where w: "WriteRestoredPaths E d1 root ps = (None, d')" and m: "WriteJobStartMarker E d' root t = (None, d2)"
    using native restored by (auto simp: RestoreNativeCache_def split: prod.splits option.splits)
  obtain qs f where f: "set qs = set ps" "content f = joinManifestBody qs" "d' = AList.update ?list f d1"
    using WriteRestoredPaths_ok [OF w clean] bk(1) by metis
  obtain g where g: "d2 = AList.update ?mark g d'"
    using m bk(2) by (auto simp: WriteJobStartMarker_def osWriteFile_def split: option.splits)
  have "map_of d2 ?list = Some f" using bookkeeping_names(7) by (simp add: g f(3) update_conv')
  then obtain rs where rs: "restoredOrNone E' d2 root = Inr rs" "set rs = set ps"
    using ReadRestoredPaths_ok [of d2 root f qs E'] f clean calm(3) bk(1) by auto
  have keys: "set (mkeys d2) \<subseteq> {?list, ?mark} \<union> set (mkeys d) \<union> {root @ sep # q |q. q \<in> set ps}"
  proof -
    have "joinPath [root, q] = root @ sep # q" if "q \<in> set ps" for q
      using that clean joinPath_relative [OF root] by (simp add: manifest_path_def)
    moreover have "cleanRelativePath q = Inr q" if "q \<in> set ps" for q
      using that clean cleanRelativePath_fixed by (simp add: manifest_path_def)
    ultimately have "{joinPath [root, q] |p q. p \<in> set ps \<and> cleanRelativePath p = Inr q} \<subseteq>
        {root @ sep # q |q. q \<in> set ps}"
      by (auto)
    then have "set (mkeys d1) \<subseteq> set (mkeys d) \<union> {root @ sep # q |q. q \<in> set ps}"
      using RestoreCache_from [OF restored] unfolding restoredFrom_def fst_conv snd_conv by blast
    moreover have "set (mkeys d2) = {?list, ?mark} \<union> set (mkeys d1)" by (simp add: g f(3) insert_commute)
    ultimately show ?thesis by blast
  qed
  have walk: "\<forall>x \<in> set (walkFiles d2 root). baseName x = jobStartMarkerName \<or> baseName x = restoredPathsListName \<or>
      (\<exists>q. cleanRelativePath (relTo root x) = Inr q \<and> q \<in> set rs)"
  proof
    fix x assume "x \<in> set (walkFiles d2 root)"
    then have x: "x \<in> set (mkeys d2)" "under root x" by (simp_all only: set_walkFiles mem_Collect_eq)
    with keys empty consider "x = ?list" | "x = ?mark" | q where "x = root @ sep # q" "q \<in> set ps" by blast
    then show "baseName x = jobStartMarkerName \<or> baseName x = restoredPathsListName \<or>
      (\<exists>q. cleanRelativePath (relTo root x) = Inr q \<and> q \<in> set rs)"
    proof cases
      case 1
      then show ?thesis using bookkeeping_names by (simp add: baseName_join)
    next
      case 2
      then show ?thesis using bookkeeping_names by (simp add: baseName_join)
    next
      case 3
      then have "relative_clean q" "trimmed q" using clean by (simp_all add: manifest_path_def)
      then have "cleanRelativePath (relTo root x) = Inr q"
        using 3(1) relTo_join [OF relative_clean_nonempty] cleanRelativePath_fixed by simp
      then show ?thesis using 3(2) rs(2) by blast
    qed
  qed
  have "\<exists>f. statFile E' d2 x = Inr f" if "x \<in> set (walkFiles d2 root)" for x
  proof -
    have "x \<in> set (mkeys d2)" using that unfolding set_walkFiles by blast
    then have "map_of d2 x \<noteq> None" by (simp add: map_of_eq_None_iff)
    then show ?thesis using calm(2) by (auto simp: statFile_def)
  qed
  then obtain large where col: "CollectFilesToSave E' d2 root rs limit = Inr ([], large)"
    using collectFiles_none [OF walk, of E' d2 limit noneSkipped] calm(1)
    by (auto simp: CollectFilesToSave_def)
  show ?thesis
    using rs col
    by (intro exI [of _ rs] exI [of _ large])
      (auto simp: SaveFreshNativeCache_def reportExistingAndDedupe_def Let_def split: sum.splits prod.splits)
qed

text \<open>A server that answers every request with the stream of two files.\<close>

definition streamTransport :: "unit transport" where
  "streamTransport base r w = (Inr ((gatewayReply 200)\<lparr>hs_body := (twoItems, None)\<rparr>), w)"

definition noKeys :: clientCodec where
  "noKeys =
     (let no = Inl (ErrMsg ''json'') in
      \<lparr>enc_actionIDs = (\<lambda>_. no), enc_preload = (\<lambda>_. no), enc_paths = (\<lambda>ps. Inr (join_with nl ps)),
       enc_extra = (\<lambda>_. no), dec_limits = (\<lambda>_. Inl (ErrMsg ''json'')), dec_keys = (\<lambda>_. Inl (ErrMsg ''json''))\<rparr>)"

definition restoredDir :: "transferStats result \<times> fs \<times> unit client" where
  "restoredDir = RestoreNativeCache toyCodec streamTransport (calm 3) (newPool 4096 8388608 []) ''/w'' commitRequest 7 []
     (smallClient ())"

theorem unchanged_cache_uploads_nothing_witness:
  "map fst (fst (snd restoredDir)) = [''/w/a'', ''/w/b'', ''/w/'' @ restoredPathsListName, ''/w/'' @ jobStartMarkerName] \<and>
   (\<exists>large c'. SaveFreshNativeCache toyCodec noKeys streamTransport (calm 9) (newPool 4096 8388608 []) ''/w''
        commitRequest 0 None (\<lambda>_. False) (\<lambda>_. 1) 1 (fst (snd restoredDir)) (snd (snd restoredDir)) =
      ((Inr noTransfer, \<lparr>ss_ExistingSkipped = 0, ss_Considered = 0, ss_LargeSkipped = large\<rparr>), c'))"
proof -
  let ?p = "newPool 4096 8388608 []" and ?c = "smallClient ()"
  let ?r = "RestoreCache toyCodec streamTransport (calm 3) [] ?p (restoreCallback (calm 3) ''/w'') commitRequest ([], []) ?c"
  have "snd (fst ?r) = None" "snd (fst (snd ?r)) = [''a'', ''b'']" by code_simp+
  then obtain ts d1 c1 where r: "?r = ((ts, None), (d1, [''a'', ''b'']), c1)"
    by (metis prod.collapse)
  have mp: "\<forall>q \<in> set [''a'', ''b'']. manifest_path q"
    by (simp add: manifest_path_def relative_clean_def normal_elem_def sep_def nl_def scanLimit_def trimmed_strip)
      code_simp
  have "case restoredDir of (Inr _, _) \<Rightarrow> True | _ \<Rightarrow> False" by code_simp
  then obtain ts' d2 c2 where n: "restoredDir = (Inr ts', d2, c2)" by (auto split: prod.splits sum.splits)
  have w: "abs_clean ''/w''" "''/w'' \<noteq> ''/''" "\<forall>p \<in> set (mkeys ([] :: fs)). \<not> under ''/w'' p" by code_simp+
  have e: "listErr (calm 9) ''/w'' = None" "statErr (calm 9) q = None" "readErr (calm 9) q = None" for q
    by (simp_all add: calm_def)
  obtain rs large where
    "SaveFreshNativeCache toyCodec noKeys streamTransport (calm 9) ?p ''/w'' commitRequest 0 None (\<lambda>_. False)
       (\<lambda>_. 1) 1 d2 c2 =
     ((Inr noTransfer, \<lparr>ss_ExistingSkipped = 0, ss_Considered = 0, ss_LargeSkipped = large\<rparr>),
      snd (reportExistingAndDedupe toyCodec noKeys streamTransport commitRequest rs [] c2))"
    using unchanged_cache_uploads_nothing [where K = noKeys and limit = 0 and since = None and
        exclude = "\<lambda>_. False" and clock = "\<lambda>_. 1" and pid = 1, OF w r mp n [unfolded restoredDir_def] e] by blast
  moreover have "map fst (fst (snd restoredDir)) =
      [''/w/a'', ''/w/b'', ''/w/'' @ restoredPathsListName, ''/w/'' @ jobStartMarkerName]"
    by code_simp
  moreover have "fst (snd restoredDir) = d2" "snd (snd restoredDir) = c2" unfolding n by simp_all
  ultimately show ?thesis by blast
qed

section \<open>Evicting the oldest files\<close>

lemma evictOldest_prefix:
  assumes "\<forall>p. removeErr E p = None" "distinct (map ce_path es)"
    and "evictOldest E target es d tot = (d', tot')"
  shows "\<exists>k \<le> length es. tot' = tot - sum_list (map ce_size (take k es)) \<and>
    (\<forall>p. map_of d' p = (if p \<in> ce_path ` set (take k es) then None else map_of d p)) \<and>
    (k = length es \<or> tot' < target) \<and> (\<forall>j < k. target \<le> tot - sum_list (map ce_size (take j es)))"
  using assms(2,3)
proof (induction es arbitrary: d tot)
  case Nil
  then show ?case by simp
next
  case (Cons e es)
  show ?case
  proof (cases "tot < target")
    case True
    then show ?thesis using Cons.prems by (intro exI [of _ 0]) simp
  next
    case False
    obtain r d1 where r: "removeIfExists E d (ce_path e) = (r, d1)" by fastforce
    then have "r = None"
      using assms(1) by (auto simp: removeIfExists_def removeFile_def split: option.splits if_splits)
    moreover have d1: "map_of d1 q = (if q = ce_path e then None else map_of d q)" for q
      using map_of_removeIfExists [OF r] assms(1) by simp
    ultimately obtain k where k: "k \<le> length es" "tot' = tot - ce_size e - sum_list (map ce_size (take k es))"
      "\<forall>p. map_of d' p = (if p \<in> ce_path ` set (take k es) then None else map_of d1 p)"
      "k = length es \<or> tot' < target" "\<forall>j < k. target \<le> tot - ce_size e - sum_list (map ce_size (take j es))"
      using Cons.IH [of d1 "tot - ce_size e"] Cons.prems False r by auto
    have "target \<le> tot - sum_list (map ce_size (take j (e # es)))" if "j < Suc k" for j
      using that k(5) False by (cases j) (auto simp: diff_diff_eq)
    then show ?thesis using k d1 by (intro exI [of _ "Suc k"]) auto
  qed
qed

text \<open>
  Claim C17. The eviction of the local mode. If the files fit the limit, or there is none, nothing happens.
  Otherwise exactly the first \<open>k\<close> of the files that may go, ordered by age, are removed and no other file
  is touched; the files that are left, counting the protected ones, are below nine tenths of the limit unless
  every file that may go has gone; and with one file fewer removed they would not have been. Files of
  the go command's lock and of the usage statistics stay.\<close>

theorem local_gocache_eviction:
  assumes "\<forall>p. removeErr E p = None" "distinct (map ce_path es)"
    and "evictOldestUntilFits E es maxBytes d = (d', left)"
  shows "if maxBytes \<le> 0 \<or> sum_list (map ce_size es) \<le> maxBytes then d' = d
    else \<exists>k \<le> length (evictable es).
      (\<forall>p. map_of d' p = (if p \<in> ce_path ` set (take k (evictable es)) then None else map_of d p)) \<and>
      left = sum_list (map ce_size es) - sum_list (map ce_size (take k (evictable es))) \<and>
      (k = length (evictable es) \<or> left < maxBytes - maxBytes div 10) \<and>
      (\<forall>j < k. maxBytes - maxBytes div 10 \<le> sum_list (map ce_size es) - sum_list (map ce_size (take j (evictable es)))) \<and>
      sorted (map ce_modTime (evictable es)) \<and>
      set (evictable es) = {e \<in> set es. \<not> isLocalGocacheProtectedFile (baseName (ce_path e))}"
proof (cases "maxBytes \<le> 0 \<or> sum_list (map ce_size es) \<le> maxBytes")
  case False
  have "distinct (map ce_path (filter P es))" for P using assms(2) by (rule distinct_map_filter)
  then have "distinct (map ce_path (evictable es))"
    by (simp add: evictable_def distinct_map inj_on_def)
  moreover have "evictOldest E (maxBytes - maxBytes div 10) (evictable es) d (sum_list (map ce_size es)) = (d', left)"
    using assms(3) False by (simp add: evictOldestUntilFits_def Let_def)
  ultimately have "\<exists>k \<le> length (evictable es). left = sum_list (map ce_size es) - sum_list (map ce_size (take k (evictable es))) \<and>
      (\<forall>p. map_of d' p = (if p \<in> ce_path ` set (take k (evictable es)) then None else map_of d p)) \<and>
      (k = length (evictable es) \<or> left < maxBytes - maxBytes div 10) \<and>
      (\<forall>j < k. maxBytes - maxBytes div 10 \<le> sum_list (map ce_size es) - sum_list (map ce_size (take j (evictable es))))"
    by (rule evictOldest_prefix [OF assms(1)])
  moreover have "sorted (map ce_modTime (evictable es))"
    "set (evictable es) = {e \<in> set es. \<not> isLocalGocacheProtectedFile (baseName (ce_path e))}"
    by (simp_all add: evictable_def)
  ultimately show ?thesis using False by auto
qed (use assms(3) in \<open>simp add: evictOldestUntilFits_def Let_def\<close>)

definition threeFiles :: fs where
  "threeFiles =
     [(''/c/lock'', \<lparr>content = ''l'', mtime = 1, fmode = 0\<rparr>), (''/c/new'', \<lparr>content = ''abcdef'', mtime = 9, fmode = 0\<rparr>),
      (''/c/old'', \<lparr>content = ''uvwxyz'', mtime = 3, fmode = 0\<rparr>)]"

theorem local_gocache_eviction_witness:
  "map fst (fst (evictOldestUntilFits (calm 9) (projr (scanCacheDir (calm 9) threeFiles ''/c'')) 10 threeFiles)) =
     [''/c/lock'', ''/c/new''] \<and>
   snd (evictOldestUntilFits (calm 9) (projr (scanCacheDir (calm 9) threeFiles ''/c'')) 10 threeFiles) < 9"
proof -
  let ?es = "projr (scanCacheDir (calm 9) threeFiles ''/c'')"
  let ?r = "evictOldestUntilFits (calm 9) ?es 10 threeFiles"
  have e: "\<forall>p. removeErr (calm 9) p = None" by (simp add: calm_def)
  have c: "distinct (map ce_path ?es)" "\<not> (10 \<le> (0 :: int) \<or> sum_list (map ce_size ?es) \<le> 10)"
    "map ce_size (evictable ?es) = [6, 6]" "sum_list (map ce_size ?es) = 13"
    "map fst (fst ?r) = [''/c/lock'', ''/c/new'']"
    by code_simp+
  have l: "length (evictable ?es) = 2" using arg_cong [OF c(3), of length] by simp
  obtain k where k: "k \<le> 2" "snd ?r = 13 - sum_list (take k [6, 6])" "k = 2 \<or> snd ?r < 10 - 10 div 10"
    using local_gocache_eviction [OF e c(1), of 10 threeFiles "fst ?r" "snd ?r"] c(2,3,4) l
    by (auto simp: take_map [symmetric])
  then have "snd ?r < 9" by (auto simp: numeral_2_eq_2)
  then show ?thesis using c(5) by simp
qed

section \<open>Canonical time stamps\<close>

lemma canonFiles_effect:
  "canonFiles sha E ps d = (None, d') \<Longrightarrow>
     map_of d' q = (if q \<in> set ps
       then map_option (\<lambda>f. f\<lparr>mtime := 1000000 * canonicalModUnix sha (content f)\<rparr>) (map_of d q)
       else map_of d q)"
proof (induction ps arbitrary: d)
  case (Cons p ps)
  obtain t where t: "canonicalFileModTime sha E d p = Inr t"
    using Cons.prems by (auto split: sum.splits)
  obtain d1 where d1: "chtimes E d p t = (None, d1)" "canonFiles sha E ps d1 = (None, d')"
    using Cons.prems t by (auto split: prod.splits option.splits)
  obtain f where f: "map_of d p = Some f" "t = 1000000 * canonicalModUnix sha (content f)"
    using t by (auto simp: canonicalFileModTime_def readFile_def split: sum.splits option.splits)
  have "map_of d1 x = (if x = p then Some (f\<lparr>mtime := t\<rparr>) else map_of d x)" for x
    using d1(1) f(1) by (auto simp: chtimes_def split: option.splits)
  then show ?case using Cons.IH [OF d1(2)] f by auto
qed simp

text \<open>
  Canonical time stamps. After a run without errors every file below the root, and no other, has the
  time stamp that its contents give it, within ten thousand seconds before the base time; contents, modes and
  the set of files are as before. So two checkouts with the same contents get the same time stamps, and a
  second run changes nothing.\<close>

theorem timestamps_canonical:
  assumes "CanonicalizeTimestamps sha E d root = (None, d')" "root \<notin> set (mkeys d)"
  shows "map_of d' q = (if under root q
      then map_option (\<lambda>f. f\<lparr>mtime := 1000000 * canonicalModUnix sha (content f)\<rparr>) (map_of d q)
      else map_of d q) \<and>
    canonicalBaseUnix - 10000 < canonicalModUnix sha b \<and> canonicalModUnix sha b \<le> canonicalBaseUnix"
proof -
  have c: "canonFiles sha E (filter (\<lambda>p. p \<noteq> root) (walkFiles d root)) d = (None, d')"
    using assms(1) by (auto simp: CanonicalizeTimestamps_def split: option.splits)
  have m: "q \<in> set (filter (\<lambda>p. p \<noteq> root) (walkFiles d root)) \<longleftrightarrow> map_of d q \<noteq> None \<and> under root q"
    using assms(2) by (auto simp: set_walkFiles map_of_eq_None_iff)
  have "map_of d' q = (if under root q
      then map_option (\<lambda>f. f\<lparr>mtime := 1000000 * canonicalModUnix sha (content f)\<rparr>) (map_of d q)
      else map_of d q)"
    using canonFiles_effect [OF c, of q] m by auto
  then show ?thesis by (simp add: canonicalModUnix_def)
qed

definition firstBytes :: "bytes \<Rightarrow> bytes" where "firstBytes b = take 20 (b @ replicate 20 CHR 0x00)"

theorem timestamps_canonical_witness:
  "map_of (snd (CanonicalizeTimestamps firstBytes (calm 9) threeFiles ''/c'')) ''/c/new'' =
     map_option (\<lambda>f. f\<lparr>mtime := 1000000 * canonicalModUnix firstBytes (content f)\<rparr>) (map_of threeFiles ''/c/new'')"
proof -
  have "fst (CanonicalizeTimestamps firstBytes (calm 9) threeFiles ''/c'') = None" by code_simp
  then have "CanonicalizeTimestamps firstBytes (calm 9) threeFiles ''/c'' =
      (None, snd (CanonicalizeTimestamps firstBytes (calm 9) threeFiles ''/c''))" by (simp add: prod_eq_iff)
  moreover have "''/c'' \<notin> set (mkeys threeFiles)" "under ''/c'' ''/c/new''" by code_simp+
  ultimately show ?thesis
    using timestamps_canonical [of firstBytes "calm 9" threeFiles "''/c''" _ "''/c/new''"] by simp
qed

end
