(* ===== verification/Github_Actions.thy ===== *)
theory Github_Actions
  imports Native_Cache Shim
begin

text \<open>
  The two commands that wrap a GitHub Actions job, \<open>-github-actions-init\<close> and \<open>-github-actions-done\<close>
  (\<open>internal/local/github_actions.go\<close>). Both read variables of the environment; the first leaves others for
  the second in the file that \<open>$GITHUB_ENV\<close> names.

  A command takes the file system and the world behind the connections and returns them; its clock stands
  still. An error of \<open>os.MkdirAll\<close> is the \<open>writeErr\<close> of the directory. A file that has been opened takes all
  that is written to it. Log lines are left out, and so is what only they show.
\<close>

section \<open>What the commands use\<close>

text \<open>The keys of a query with their values.\<close>

type_synonym query = "(string \<times> string list) list"

record prEvent =
  pr_Number :: int
  pr_BaseSHA :: string
  pr_HeadSHA :: string

record testcachePkgKeys =
  tk_Hits :: "string list"
  tk_Misses :: "string list"

record directRunRecord =
  dr_Summary :: statsSummary
  dr_ParentPID :: int
  dr_ParentCmd :: string

text \<open>Functions of the standard library on texts: \<open>url.Parse\<close> (the query, and the URL without it), \<open>encoding/json\<close>
  for the types of this file (\<open>lib_summary\<close> gives the fields that a summary is encoded to, \<open>lib_value\<close> what a
  text that is valid decodes to), \<open>time.Format\<close> and \<open>time.Parse\<close> with nanoseconds, \<open>Duration.String\<close>,
  \<open>time.ParseDuration\<close>, and \<open>strconv.ParseFloat\<close>, whose result \<open>(m, e)\<close> is the number \<open>m * 2 ^ e\<close>; and those the
  other parts take: JSON, the URL check of \<open>http.NewRequest\<close>, \<open>crypto/sha1\<close>, and the host of a URL.\<close>

record library =
  lib_url :: "string \<Rightarrow> (query \<times> string) result"
  lib_files :: "(string \<times> string) list \<Rightarrow> string result"
  lib_readFiles :: "bytes \<Rightarrow> (string \<times> string) list result"
  lib_stats :: "transferStats \<Rightarrow> string result"
  lib_event :: "bytes \<Rightarrow> prEvent option result"
  lib_testKeys :: "bytes \<Rightarrow> (string \<times> testcachePkgKeys) list result"
  lib_summary :: "statsSummary \<Rightarrow> (string \<times> jval) list"
  lib_value :: "bytes \<Rightarrow> jval option"
  lib_record :: "directRunRecord \<Rightarrow> bytes result"
  lib_readRecord :: "bytes \<Rightarrow> directRunRecord result"
  lib_formatTime :: "int \<Rightarrow> string"
  lib_parseTime :: "string \<Rightarrow> int result"
  lib_duration :: "int \<Rightarrow> string"
  lib_parseDuration :: "string \<Rightarrow> int result"
  lib_float :: "string \<Rightarrow> (int \<times> int) result"
  lib_codec :: codec
  lib_clientCodec :: clientCodec
  lib_readUsage :: "bytes \<Rightarrow> usageStats result"
  lib_usage :: "usageStats \<Rightarrow> bytes result"
  lib_urlErr :: "string \<Rightarrow> go_error option"
  lib_sha :: "bytes \<Rightarrow> bytes"
  lib_host :: "string \<Rightarrow> string result"

text \<open>What the process finds outside itself. \<open>sys_run\<close> and \<open>sys_start\<close> are this program as a child process, run to
  its end and left running; \<open>sys_dials\<close> the looks at the clock of the loop that waits for the daemon, with
  the error of dialing or that of closing the connection; \<open>sys_stop\<close> the conversation with the daemon at an
  address; \<open>sys_pool\<close> the record pool that readers are given and never use; \<open>sys_clock\<close> the times of the
  attempts of an upload, in nanoseconds.\<close>

record 'w system =
  sys_os :: osinfo
  sys_pid :: int
  sys_parent :: "int \<times> string"
  sys_executable :: "path result"
  sys_version :: string
  sys_run :: "path \<Rightarrow> string list \<Rightarrow> fs \<times> 'w \<Rightarrow> go_error option \<times> (fs \<times> 'w)"
  sys_start :: "path \<Rightarrow> string list \<Rightarrow> fs \<times> 'w \<Rightarrow> int result \<times> (fs \<times> 'w)"
  sys_dials :: "(int \<times> (go_error + go_error option)) list"
  sys_stop :: "string \<times> string \<Rightarrow> shimHello \<Rightarrow> 'w \<Rightarrow> (shimStopResponse \<times> statsSummary) result \<times> 'w"
  sys_signal :: "int \<Rightarrow> 'w \<Rightarrow> 'w"
  sys_pool :: pool
  sys_clock :: "nat \<Rightarrow> int"

definition getvar :: "'w system \<Rightarrow> string \<Rightarrow> string" where
  "getvar S = getenv (sys_os S)"

section \<open>The DSN\<close>

record githubActionsConfig =
  gc_remoteURL :: string
  gc_authToken :: string
  gc_cacheDir :: string
  gc_buildType :: string
  gc_mode :: string
  gc_canonicalize :: string
  gc_maxFileBytes :: int
  gc_maxCacheBytes :: int
  gc_skipPreload :: bool
  gc_fallbackRemote :: bool
  gc_reportFiles :: "(string \<times> string) list"
  gc_testcacheKeys :: string

definition maxFileBytesUnset :: int where "maxFileBytesUnset = - 1"

definition defaultGithubActionsPreloadSize :: int where "defaultGithubActionsPreloadSize = 3000000"

text \<open>\<open>url.Values\<close>.\<close>

definition valuesGet :: "query \<Rightarrow> string \<Rightarrow> string" where
  "valuesGet q k = (case map_of q k of Some (v # _) \<Rightarrow> v | _ \<Rightarrow> [])"

definition valuesHas :: "query \<Rightarrow> string \<Rightarrow> bool" where
  "valuesHas q k = (map_of q k \<noteq> None)"

text \<open>\<open>strconv.ParseBool\<close>.\<close>

definition parseBool :: "string \<Rightarrow> bool result" where
  "parseBool s =
     (if s \<in> set [''1'', ''t'', ''T'', ''true'', ''TRUE'', ''True''] then Inr True
      else if s \<in> set [''0'', ''f'', ''F'', ''false'', ''FALSE'', ''False''] then Inr False
      else Inl (ErrMsg ''invalid syntax''))"

text \<open>A parameter that may be absent or empty.\<close>

definition optParam :: "query \<Rightarrow> string \<Rightarrow> (string \<Rightarrow> 'a result) \<Rightarrow> 'a \<Rightarrow> 'a result" where
  "optParam q k parse dflt =
     (let v = valuesGet q k in
      if v = [] then Inr dflt
      else (case parse v of Inl e \<Rightarrow> Inl (ErrWrap (''invalid '' @ k) e) | Inr x \<Rightarrow> Inr x))"

definition parseReportFileParams :: "query \<Rightarrow> (string \<times> string) list" where
  "parseReportFileParams q =
     concat (map (\<lambda>(k, vs). (case vs of
        [] \<Rightarrow> []
      | v # _ \<Rightarrow> if prefix ''report_'' k \<and> drop 7 k \<noteq> [] then [(drop 7 k, v)] else [])) q)"

definition canonicalizeParam :: "query \<Rightarrow> string" where
  "canonicalizeParam q =
     (let v = valuesGet q ''canonicalize_timestamps'' in
      if valuesHas q ''canonicalize_timestamps'' \<and> v \<noteq> [] then v else ''.'')"

definition parseGithubActionsDSN :: "library \<Rightarrow> string \<Rightarrow> githubActionsConfig result" where
  "parseGithubActionsDSN L dsn =
     (case lib_url L dsn of
        Inl e \<Rightarrow> Inl (ErrWrap ''parse DSN'' e)
      | Inr (q, base) \<Rightarrow>
          (case optParam q ''max_file_bytes'' parseInt64 maxFileBytesUnset of
             Inl e \<Rightarrow> Inl e
           | Inr fileBytes \<Rightarrow>
          (case optParam q ''max_cache_bytes'' parseInt64 0 of
             Inl e \<Rightarrow> Inl e
           | Inr cacheBytes \<Rightarrow>
          (case optParam q ''skip_preload'' parseBool False of
             Inl e \<Rightarrow> Inl e
           | Inr skip \<Rightarrow>
          (case optParam q ''fallback_remote'' parseBool False of
             Inl e \<Rightarrow> Inl e
           | Inr fallback \<Rightarrow>
          (case optParam q ''skip_canonicalize_timestamps'' parseBool False of
             Inl e \<Rightarrow> Inl e
           | Inr skipCanon \<Rightarrow>
               Inr \<lparr>gc_remoteURL = base, gc_authToken = valuesGet q ''auth'',
                 gc_cacheDir = valuesGet q ''cache_dir'', gc_buildType = valuesGet q ''build_type'',
                 gc_mode = (let m = valuesGet q ''mode'' in if m = [] then ''shim'' else m),
                 gc_canonicalize = (if skipCanon then [] else canonicalizeParam q),
                 gc_maxFileBytes = fileBytes, gc_maxCacheBytes = cacheBytes, gc_skipPreload = skip,
                 gc_fallbackRemote = fallback, gc_reportFiles = parseReportFileParams q,
                 gc_testcacheKeys = valuesGet q ''testcache_keys''\<rparr>))))))"

section \<open>The scope of a job\<close>

definition buildTypeChar :: "char \<Rightarrow> bool" where
  "buildTypeChar ch = (is_alnum ch \<or> ch \<in> set ''._-'')"

text \<open>Every longest run of other characters becomes one hyphen.\<close>

fun replaceInvalid :: "bool \<Rightarrow> string \<Rightarrow> string" where
  "replaceInvalid inRun [] = []"
| "replaceInvalid inRun (ch # s) =
     (if buildTypeChar ch then ch # replaceInvalid False s
      else if inRun then replaceInvalid True s
      else CHR ''-'' # replaceInvalid True s)"

definition repoScopedBuildType :: "'w system \<Rightarrow> string \<Rightarrow> string" where
  "repoScopedBuildType S buildType =
     (let repo = replaceInvalid False (getvar S ''GITHUB_REPOSITORY'') in
      if repo = [] then buildType else if buildType = [] then repo else repo @ ''-'' @ buildType)"

text \<open>The commit, the base commit, and the changes-id.\<close>

definition githubContext :: "library \<Rightarrow> env \<Rightarrow> 'w system \<Rightarrow> fs \<Rightarrow> (string \<times> string \<times> string) result" where
  "githubContext L E S d =
     (let ev = getvar S ''GITHUB_EVENT_NAME'' in
      if ev \<noteq> ''pull_request'' \<and> ev \<noteq> ''pull_request_target'' then Inr (getvar S ''GITHUB_SHA'', [], [])
      else (let p = getvar S ''GITHUB_EVENT_PATH'' in
        if p = [] then Inl (ErrMsg ''GITHUB_EVENT_PATH is not set'')
        else (case readFile E d p of
            Inl e \<Rightarrow> Inl (ErrWrap ''read GITHUB_EVENT_PATH'' e)
          | Inr b \<Rightarrow>
              (case lib_event L b of
                 Inl e \<Rightarrow> Inl (ErrWrap ''parse GITHUB_EVENT_PATH'' e)
               | Inr None \<Rightarrow> Inl (ErrMsg ''event payload is missing the pull_request field'')
               | Inr (Some pr) \<Rightarrow>
                   Inr (pr_HeadSHA pr, pr_BaseSHA pr,
                        getvar S ''GITHUB_REPOSITORY'' @ ''#'' @ formatInt (pr_Number pr))))))"

record jobScope =
  jb_commit :: string
  jb_baseCommit :: string
  jb_changesID :: string
  jb_sessionID :: string

definition commonScopeArgs :: "githubActionsConfig \<Rightarrow> jobScope \<Rightarrow> string list" where
  "commonScopeArgs cfg jb =
     (let arg = (\<lambda>k v. if v = [] then [] else [k, v]) in
      arg ''-auth-token'' (gc_authToken cfg) @ arg ''-commit'' (jb_commit jb) @
      arg ''-changes-id'' (jb_changesID jb) @ arg ''-build-type'' (gc_buildType cfg) @
      arg ''-base-commit'' (jb_baseCommit jb) @ arg ''-session-id'' (jb_sessionID jb))"

definition GithubActionsJobURL :: "'w system \<Rightarrow> string" where
  "GithubActionsJobURL S =
     (let url = getvar S ''GITHUB_SERVER_URL''; repo = getvar S ''GITHUB_REPOSITORY'';
          run = getvar S ''GITHUB_RUN_ID''
      in if url = [] \<or> repo = [] \<or> run = [] then []
         else url @ ''/'' @ repo @ ''/actions/runs/'' @ run)"

definition resolveHelperCacheDir :: "osinfo \<Rightarrow> path \<Rightarrow> path result" where
  "resolveHelperCacheDir oi dr =
     (if dr \<noteq> [] then resolveAbsPath oi dr
      else (case userCacheDir oi of
          Inl e \<Rightarrow> Inl (ErrWrap ''user cache dir'' e) | Inr u \<Rightarrow> Inr (joinPath [u, ''gocacheprog''])))"

definition ensureDir :: "env \<Rightarrow> path \<Rightarrow> string \<Rightarrow> go_error option" where
  "ensureDir E p msg = (case writeErr E p of None \<Rightarrow> None | Some e \<Rightarrow> Some (ErrWrap msg e))"

section \<open>Files and the environment of later steps\<close>

definition osAppend :: "env \<Rightarrow> fs \<Rightarrow> path \<Rightarrow> bytes \<Rightarrow> nat \<Rightarrow> go_error option \<times> fs" where
  "osAppend E d p b mode =
     (case writeErr E p of
        Some e \<Rightarrow> (Some e, d)
      | None \<Rightarrow>
          (None, AList.update p
             (case map_of d p of
                None \<Rightarrow> \<lparr>content = b, mtime = now E, fmode = mode\<rparr>
              | Some f \<Rightarrow> f\<lparr>content := content f @ b, mtime := now E\<rparr>) d))"

definition envLine :: "string \<times> string \<Rightarrow> bytes" where
  "envLine kv = fst kv @ ''='' @ snd kv @ [newline]"

text \<open>The variables are a map; the lines come in its order, which is arbitrary.\<close>

definition setGitHubEnv :: "env \<Rightarrow> 'w system \<Rightarrow> (string \<times> string) list \<Rightarrow> fs \<Rightarrow> go_error option \<times> fs" where
  "setGitHubEnv E S vars d =
     (let p = getvar S ''GITHUB_ENV'' in
      if p = [] then (Some (ErrMsg ''GITHUB_ENV environment variable is not set''), d)
      else (case osAppend E d p (concat (map envLine vars)) 420 of
          (Some e, d') \<Rightarrow> (Some (ErrWrap ''open GITHUB_ENV'' e), d') | (None, d') \<Rightarrow> (None, d')))"

definition setReportFilesEnv :: "library \<Rightarrow> (string \<times> string) list \<Rightarrow> (string \<times> string) list \<Rightarrow> (string \<times> string) list" where
  "setReportFilesEnv L fls vars =
     (if fls = [] then vars
      else (case lib_files L fls of
          Inl _ \<Rightarrow> vars | Inr j \<Rightarrow> AList.update ''GOCACHEPROG_GHA_REPORT_FILES'' j vars))"

definition shellJoin :: "path \<Rightarrow> string list \<Rightarrow> string" where
  "shellJoin bin args = join_with CHR '' '' (bin # args)"

definition osTempDir :: "'w system \<Rightarrow> path" where
  "osTempDir S = (let t = getvar S ''TMPDIR'' in if t = [] then ''/tmp'' else t)"

definition tailFile :: "env \<Rightarrow> fs \<Rightarrow> path \<Rightarrow> nat \<Rightarrow> string" where
  "tailFile E d p n =
     (case readFile E d p of Inl _ \<Rightarrow> ''(could not read log)'' | Inr b \<Rightarrow> drop (length b - n) b)"

section \<open>The remote server\<close>

definition remoteClientMaxRetries :: nat where "remoteClientMaxRetries = 3"

definition connect :: "library \<Rightarrow> 'w transport \<Rightarrow> 'w system \<Rightarrow> string \<Rightarrow> string \<Rightarrow> sessionInfo option \<Rightarrow> 'w \<Rightarrow>
    'w client result \<times> 'w" where
  "connect L T S = NewClientWithSession T (lib_urlErr L) (sys_version S)"

fun remoteClientAttempts ::
  "library \<Rightarrow> 'w transport \<Rightarrow> 'w system \<Rightarrow> string \<Rightarrow> string \<Rightarrow> sessionInfo \<Rightarrow> nat \<Rightarrow> 'w \<Rightarrow>
     'w client result \<times> 'w" where
  "remoteClientAttempts L T S url auth info k w =
     (case connect L T S url auth (Some info) w of
        (Inr c, w') \<Rightarrow> (Inr c, w')
      | (Inl e, w') \<Rightarrow>
          (case k of 0 \<Rightarrow> (Inl e, w') | Suc k' \<Rightarrow> remoteClientAttempts L T S url auth info k' w'))"

definition newRemoteClientWithRetry ::
  "library \<Rightarrow> 'w transport \<Rightarrow> 'w system \<Rightarrow> string \<Rightarrow> string \<Rightarrow> sessionInfo \<Rightarrow> 'w \<Rightarrow>
     'w client result \<times> 'w" where
  "newRemoteClientWithRetry L T S url auth info w =
     remoteClientAttempts L T S url auth info remoteClientMaxRetries w"

definition resolveMaxFileBytesDefault ::
  "library \<Rightarrow> 'w transport \<Rightarrow> 'w system \<Rightarrow> string \<Rightarrow> string \<Rightarrow> string \<Rightarrow> 'w \<Rightarrow> int \<times> 'w" where
  "resolveMaxFileBytesDefault L T S url auth buildType w =
     (case connect L T S url auth None w of
        (Inl _, w') \<Rightarrow> (defaultGithubActionsPreloadSize, w')
      | (Inr c, _) \<Rightarrow>
          (case MaxFileBytesFor (lib_clientCodec L) T buildType c of
             (Inl _, c') \<Rightarrow> (defaultGithubActionsPreloadSize, cl_world c')
           | (Inr n, c') \<Rightarrow> (if n \<le> 0 then defaultGithubActionsPreloadSize else n, cl_world c')))"

text \<open>The session of a client and the request of its transfers, of which both commands make one each.\<close>

definition jobSession ::
  "library \<Rightarrow> env \<Rightarrow> 'w system \<Rightarrow> string \<Rightarrow> path \<Rightarrow> string \<Rightarrow> jobScope \<Rightarrow> sessionInfo" where
  "jobSession L E S sid cacheDir buildType jb =
     \<lparr>si_SessionID = sid, si_StartedAt = lib_formatTime L (now E), si_PID = sys_pid S,
      si_CacheDir = cacheDir, si_JobURL = GithubActionsJobURL S,
      si_Params = Some \<lparr>sp_Commit = jb_commit jb, sp_ParentCommit = [], sp_ChangesID = jb_changesID jb,
        sp_BuildType = buildType, sp_BaseCommit = jb_baseCommit jb\<rparr>\<rparr>"

definition jobRequest :: "jobScope \<Rightarrow> string \<Rightarrow> int \<Rightarrow> Gocache_Store.request" where
  "jobRequest jb buildType limit =
     \<lparr>Commit = jb_commit jb, ChangesID = jb_changesID jb, BuildType = buildType,
      BaseCommit = jb_baseCommit jb, ParentCommit = [], MaxFileBytes = limit, MaxPreloadTotalBytes = 0\<rparr>"

section \<open>Mode gocache\<close>

definition gocacheVars ::
  "library \<Rightarrow> env \<Rightarrow> githubActionsConfig \<Rightarrow> jobScope \<Rightarrow> path \<Rightarrow> string \<Rightarrow> (string \<times> string) list" where
  "gocacheVars L E cfg jb cacheDir statsText =
     [(''GOCACHE'', cacheDir), (''GOCACHEPROG_GHA_MODE'', ''gocache''), (''GOCACHEPROG_GHA_CACHE_DIR'', cacheDir),
      (''GOCACHEPROG_GHA_REMOTE_URL'', gc_remoteURL cfg), (''GOCACHEPROG_GHA_AUTH'', gc_authToken cfg),
      (''GOCACHEPROG_GHA_COMMIT'', jb_commit jb), (''GOCACHEPROG_GHA_CHANGES_ID'', jb_changesID jb),
      (''GOCACHEPROG_GHA_BUILD_TYPE'', gc_buildType cfg), (''GOCACHEPROG_GHA_BASE_COMMIT'', jb_baseCommit jb),
      (''GOCACHEPROG_GHA_MAX_FILE_BYTES'', formatInt (gc_maxFileBytes cfg)),
      (''GOCACHEPROG_GHA_RESTORE_STATS'', statsText), (''GOCACHEPROG_GHA_INIT_TIME'', lib_formatTime L (now E)),
      (''GOCACHEPROG_GHA_SESSION_ID'', jb_sessionID jb)] @
     (if gc_testcacheKeys cfg = [] then [] else [(''GOCACHEPROG_GHA_TESTCACHE_KEYS'', gc_testcacheKeys cfg)])"

text \<open>Connect and restore; whatever fails, the cache stays as it is.\<close>

definition warmGocache ::
  "library \<Rightarrow> 'w transport \<Rightarrow> env \<Rightarrow> 'w system \<Rightarrow> githubActionsConfig \<Rightarrow> jobScope \<Rightarrow> path \<Rightarrow> fs \<Rightarrow> 'w \<Rightarrow>
     transferStats \<times> fs \<times> 'w" where
  "warmGocache L T E S cfg jb cacheDir d w =
     (case newRemoteClientWithRetry L T S (gc_remoteURL cfg) (gc_authToken cfg)
             (jobSession L E S (jb_sessionID jb) cacheDir (gc_buildType cfg) jb) w of
        (Inl _, w') \<Rightarrow> (noTransfer, d, w')
      | (Inr c, _) \<Rightarrow>
          (case RestoreNativeCache (lib_codec L) T E (sys_pool S) cacheDir
                  (jobRequest jb (gc_buildType cfg) (gc_maxFileBytes cfg)) (1000 * now E) d c of
             (Inl _, d', c') \<Rightarrow> (noTransfer, d', cl_world c')
           | (Inr ts, d', c') \<Rightarrow> (ts, d', cl_world c')))"

definition initGocacheMode ::
  "library \<Rightarrow> 'w transport \<Rightarrow> env \<Rightarrow> 'w system \<Rightarrow> githubActionsConfig \<Rightarrow> jobScope \<Rightarrow> fs \<Rightarrow> 'w \<Rightarrow>
     go_error option \<times> fs \<times> 'w" where
  "initGocacheMode L T E S cfg jb d w =
     (case ResolveNativeCacheDir (sys_os S) (gc_cacheDir cfg) of
        Inl e \<Rightarrow> (Some e, d, w)
      | Inr cacheDir \<Rightarrow>
          (case ensureDir E cacheDir ''ensure native cache dir'' of
             Some e \<Rightarrow> (Some e, d, w)
           | None \<Rightarrow>
               (case warmGocache L T E S cfg jb cacheDir d w of
                  (ts, d', w') \<Rightarrow>
                    (case lib_stats L ts of
                       Inl e \<Rightarrow> (Some (ErrWrap ''marshal restore stats'' e), d', w')
                     | Inr j \<Rightarrow>
                         (case setGitHubEnv E S
                                 (setReportFilesEnv L (gc_reportFiles cfg) (gocacheVars L E cfg jb cacheDir j)) d' of
                            (r, d'') \<Rightarrow> (r, d'', w'))))))"

section \<open>Reports\<close>

text \<open>\<open>maps.Copy\<close>.\<close>

definition mapsCopy :: "('k \<times> 'v) list \<Rightarrow> ('k \<times> 'v) list \<Rightarrow> ('k \<times> 'v) list" where
  "mapsCopy dst src = foldl (\<lambda>m kv. AList.update (fst kv) (snd kv) m) dst src"

definition reportFileValue :: "library \<Rightarrow> bytes \<Rightarrow> jval" where
  "reportFileValue L b = (case lib_value L b of Some v \<Rightarrow> v | None \<Rightarrow> JStr b)"

definition collectReportExtras :: "library \<Rightarrow> env \<Rightarrow> 'w system \<Rightarrow> fs \<Rightarrow> (string \<times> jval) list" where
  "collectReportExtras L E S d =
     (let raw = getvar S ''GOCACHEPROG_GHA_REPORT_FILES'' in
      if raw = [] then []
      else (case lib_readFiles L raw of
          Inl _ \<Rightarrow> []
        | Inr fls \<Rightarrow>
            concat (map (\<lambda>(n, p). (case readFile E d p of
                Inl _ \<Rightarrow> [] | Inr b \<Rightarrow> [(n, reportFileValue L b)])) fls)))"

definition sessionExtras ::
  "library \<Rightarrow> env \<Rightarrow> 'w system \<Rightarrow> fs \<Rightarrow> string \<Rightarrow> statsSummary \<Rightarrow> (string \<times> jval) list" where
  "sessionExtras L E S d mode summary =
     mapsCopy (mapsCopy [(''mode'', JStr mode)] (lib_summary L summary)) (collectReportExtras L E S d)"

definition bareSession :: "string \<Rightarrow> sessionInfo" where
  "bareSession sid =
     \<lparr>si_SessionID = sid, si_StartedAt = [], si_PID = 0, si_CacheDir = [], si_JobURL = [], si_Params = None\<rparr>"

definition markRemoteSessionDone ::
  "library \<Rightarrow> 'w transport \<Rightarrow> 'w system \<Rightarrow> string \<Rightarrow> string \<Rightarrow> string \<Rightarrow> (string \<times> jval) list \<Rightarrow> 'w \<Rightarrow> 'w" where
  "markRemoteSessionDone L T S url auth sid extra w =
     (if url = [] \<or> sid = [] then w
      else (case connect L T S url auth (Some (bareSession sid)) w of
          (Inl _, w') \<Rightarrow> w'
        | (Inr c, _) \<Rightarrow> cl_world (snd (MarkSessionDone (lib_clientCodec L) T extra c))))"

text \<open>The distinct keys that some package missed, as they come.\<close>

fun distinctMisses :: "string list \<Rightarrow> string list \<Rightarrow> string list" where
  "distinctMisses seen [] = seen"
| "distinctMisses seen (k # ks) = distinctMisses (if k \<in> set seen then seen else seen @ [k]) ks"

definition investigateTestcacheKeys ::
  "library \<Rightarrow> 'w transport \<Rightarrow> env \<Rightarrow> 'w system \<Rightarrow> fs \<Rightarrow> Gocache_Store.request \<Rightarrow> 'w client \<Rightarrow> 'w client" where
  "investigateTestcacheKeys L T E S d req c =
     (let p = getvar S ''GOCACHEPROG_GHA_TESTCACHE_KEYS'' in
      if p = [] then c
      else (case readFile E d p of
          Inl _ \<Rightarrow> c
        | Inr b \<Rightarrow>
            (case lib_testKeys L b of
               Inl _ \<Rightarrow> c
             | Inr pkgs \<Rightarrow>
                 (let ks = distinctMisses [] (concat (map (tk_Misses \<circ> snd) pkgs)) in
                  if ks = [] then c else snd (ClientInspectKeys (lib_clientCodec L) T req ks c)))))"

definition gocacheExtras :: "saveSkipStats \<Rightarrow> (string \<times> jval) list" where
  "gocacheExtras sk =
     [(''mode'', JStr ''gocache''), (''save_skipped_existing'', JInt (ss_ExistingSkipped sk)),
      (''save_considered'', JInt (ss_Considered sk)),
      (''save_skipped_large_count'', JInt (sk_Count (ss_LargeSkipped sk))),
      (''save_skipped_large_bytes'', JInt (sk_Bytes (ss_LargeSkipped sk)))]"

definition envScope :: "'w system \<Rightarrow> string \<Rightarrow> jobScope" where
  "envScope S sid =
     \<lparr>jb_commit = getvar S ''GOCACHEPROG_GHA_COMMIT'', jb_baseCommit = getvar S ''GOCACHEPROG_GHA_BASE_COMMIT'',
      jb_changesID = getvar S ''GOCACHEPROG_GHA_CHANGES_ID'', jb_sessionID = sid\<rparr>"

definition envMaxFileBytes :: "'w system \<Rightarrow> int" where
  "envMaxFileBytes S =
     (case parseInt64 (getvar S ''GOCACHEPROG_GHA_MAX_FILE_BYTES'') of Inl _ \<Rightarrow> 0 | Inr n \<Rightarrow> n)"

definition newSessionID :: "env \<Rightarrow> 'w system \<Rightarrow> string" where
  "newSessionID E S = formatInt (sys_pid S) @ ''-'' @ formatInt (1000 * now E)"

definition doneGocacheMode ::
  "library \<Rightarrow> 'w transport \<Rightarrow> env \<Rightarrow> 'w system \<Rightarrow> fs \<Rightarrow> 'w \<Rightarrow> go_error option \<times> 'w" where
  "doneGocacheMode L T E S d w =
     (let cacheDir = getvar S ''GOCACHEPROG_GHA_CACHE_DIR''; url = getvar S ''GOCACHEPROG_GHA_REMOTE_URL'';
          buildType = getvar S ''GOCACHEPROG_GHA_BUILD_TYPE''; limit = envMaxFileBytes S;
          sid = (let v = getvar S ''GOCACHEPROG_GHA_SESSION_ID'' in if v = [] then newSessionID E S else v);
          jb = envScope S sid
      in if cacheDir = [] \<or> url = [] then (Some (ErrMsg ''github-actions-done: cache dir or remote URL is not set''), w)
         else (case newRemoteClientWithRetry L T S url (getvar S ''GOCACHEPROG_GHA_AUTH'')
                      (jobSession L E S sid cacheDir buildType jb) w of
             (Inl _, w') \<Rightarrow> (None, w')
           | (Inr c, _) \<Rightarrow>
               (let req = jobRequest jb buildType limit;
                    c1 = investigateTestcacheKeys L T E S d req c;
                    since = (let v = getvar S ''GOCACHEPROG_GHA_INIT_TIME'' in
                      if v = [] then None
                      else (case lib_parseTime L v of Inl _ \<Rightarrow> None | Inr t \<Rightarrow> Some t))
                in case SaveFreshNativeCache (lib_codec L) (lib_clientCodec L) T E (sys_pool S) cacheDir req
                          limit since (\<lambda>_. False) (sys_clock S) (sys_pid S) d c1 of
                     ((_, sk), c2) \<Rightarrow>
                       (None, cl_world (snd (MarkSessionDone (lib_clientCodec L) T
                          (mapsCopy (gocacheExtras sk) (collectReportExtras L E S d)) c2))))))"

section \<open>Mode local-gocache\<close>

definition localFallbackVars ::
  "githubActionsConfig \<Rightarrow> jobScope \<Rightarrow> (string \<times> string) list" where
  "localFallbackVars cfg jb =
     [(''GOCACHEPROG_GHA_LOCAL_FALLBACK'', ''1''), (''GOCACHEPROG_GHA_REMOTE_URL'', gc_remoteURL cfg),
      (''GOCACHEPROG_GHA_AUTH'', gc_authToken cfg), (''GOCACHEPROG_GHA_SESSION_ID'', jb_sessionID jb),
      (''GOCACHEPROG_GHA_COMMIT'', jb_commit jb), (''GOCACHEPROG_GHA_CHANGES_ID'', jb_changesID jb),
      (''GOCACHEPROG_GHA_BASE_COMMIT'', jb_baseCommit jb),
      (''GOCACHEPROG_GHA_MAX_FILE_BYTES'', formatInt (gc_maxFileBytes cfg))]"

text \<open>The variables for the later step are returned; an error only when there is no URL.\<close>

definition initLocalGocacheFallbackRestore ::
  "library \<Rightarrow> 'w transport \<Rightarrow> env \<Rightarrow> 'w system \<Rightarrow> githubActionsConfig \<Rightarrow> jobScope \<Rightarrow> path \<Rightarrow> usageStats \<Rightarrow>
     (string \<times> string) list \<Rightarrow> fs \<Rightarrow> 'w \<Rightarrow> (string \<times> string) list result \<times> fs \<times> 'w" where
  "initLocalGocacheFallbackRestore L T E S cfg jb cacheDir usage vars d w =
     (if map_of usage (localGocacheStatsBuildTypeKey (gc_buildType cfg)) \<noteq> None then (Inr vars, d, w)
      else if gc_remoteURL cfg = [] then (Inl (ErrMsg ''fallback_remote requires a remote URL in the DSN''), d, w)
      else (case newRemoteClientWithRetry L T S (gc_remoteURL cfg) (gc_authToken cfg)
                   (jobSession L E S (jb_sessionID jb) cacheDir (gc_buildType cfg) jb) w of
          (Inl _, w') \<Rightarrow> (Inr vars, d, w')
        | (Inr c, _) \<Rightarrow>
            (case RestoreNativeCache (lib_codec L) T E (sys_pool S) cacheDir
                    (jobRequest jb (gc_buildType cfg) (gc_maxFileBytes cfg)) (1000 * now E) d c of
               (Inl _, d', c') \<Rightarrow> (Inr vars, d', cl_world c')
             | (Inr _, d', c') \<Rightarrow>
                 (Inr (setReportFilesEnv L (gc_reportFiles cfg) (mapsCopy vars (localFallbackVars cfg jb))),
                  d', cl_world c'))))"

definition localGocacheVars :: "library \<Rightarrow> env \<Rightarrow> githubActionsConfig \<Rightarrow> path \<Rightarrow> (string \<times> string) list" where
  "localGocacheVars L E cfg cacheDir =
     [(''GOCACHE'', cacheDir), (''GOCACHEPROG_GHA_MODE'', ''local-gocache''),
      (''GOCACHEPROG_GHA_CACHE_DIR'', cacheDir), (''GOCACHEPROG_GHA_BUILD_TYPE'', gc_buildType cfg),
      (''GOCACHEPROG_GHA_INIT_TIME'', lib_formatTime L (now E))] @
     (if 0 < gc_maxCacheBytes cfg
      then [(''GOCACHEPROG_GHA_MAX_CACHE_BYTES'', formatInt (gc_maxCacheBytes cfg))] else [])"

definition initLocalGocacheMode ::
  "library \<Rightarrow> 'w transport \<Rightarrow> env \<Rightarrow> 'w system \<Rightarrow> githubActionsConfig \<Rightarrow> jobScope \<Rightarrow> fs \<Rightarrow> 'w \<Rightarrow>
     go_error option \<times> fs \<times> 'w" where
  "initLocalGocacheMode L T E S cfg jb d w =
     (case ResolveNativeCacheDir (sys_os S) (gc_cacheDir cfg) of
        Inl e \<Rightarrow> (Some e, d, w)
      | Inr cacheDir \<Rightarrow>
          (case ensureDir E cacheDir ''ensure native cache dir'' of
             Some e \<Rightarrow> (Some e, d, w)
           | None \<Rightarrow>
               (let usage = (case loadLocalGocacheStats (lib_readUsage L) E d cacheDir of Inl _ \<Rightarrow> [] | Inr m \<Rightarrow> m);
                    vars = localGocacheVars L E cfg cacheDir
                in case (if gc_fallbackRemote cfg
                         then initLocalGocacheFallbackRestore L T E S cfg jb cacheDir usage vars d w
                         else (Inr vars, d, w)) of
                     (Inl e, d', w') \<Rightarrow> (Some e, d', w')
                   | (Inr vars', d', w') \<Rightarrow>
                       (case setGitHubEnv E S vars' d' of (r, d'') \<Rightarrow> (r, d'', w')))))"

text \<open>The upload has a session of its own.\<close>

definition doneLocalGocacheFallbackUpload ::
  "library \<Rightarrow> 'w transport \<Rightarrow> env \<Rightarrow> 'w system \<Rightarrow> path \<Rightarrow> string \<Rightarrow> fs \<Rightarrow> 'w \<Rightarrow> 'w" where
  "doneLocalGocacheFallbackUpload L T E S cacheDir buildType d w =
     (let url = getvar S ''GOCACHEPROG_GHA_REMOTE_URL''; limit = envMaxFileBytes S;
          sid = newSessionID E S; jb = envScope S sid
      in if url = [] then w
         else (case lib_parseTime L (getvar S ''GOCACHEPROG_GHA_INIT_TIME'') of
             Inl _ \<Rightarrow> w
           | Inr t \<Rightarrow>
               (case newRemoteClientWithRetry L T S url (getvar S ''GOCACHEPROG_GHA_AUTH'')
                       (jobSession L E S sid cacheDir buildType jb) w of
                  (Inl _, w') \<Rightarrow> w'
                | (Inr c, _) \<Rightarrow>
                    cl_world (snd (SaveFreshNativeCache (lib_codec L) (lib_clientCodec L) T E (sys_pool S)
                      cacheDir (jobRequest jb buildType limit) limit (Some t) isLocalGocacheProtectedFile
                      (sys_clock S) (sys_pid S) d c)))))"

definition emptySummary :: statsSummary where
  "emptySummary =
     \<lparr>ss_Hits = 0, ss_Misses = 0, ss_Puts = 0, ss_HitRate = [], ss_Invocations = 0, ss_RoundTrips = 0,
      ss_BytesRead = [], ss_BytesWritten = [], ss_GetTotalTime = [], ss_GetCount = [],
      ss_PreloadedBytes = [], ss_TotalTime = [], ss_ForcedCloses = 0\<rparr>"

text \<open>The number of files and bytes before the eviction, and the file system after it.\<close>

definition trimLocalCache :: "env \<Rightarrow> 'w system \<Rightarrow> path \<Rightarrow> fs \<Rightarrow> (int \<times> int) \<times> fs" where
  "trimLocalCache E S cacheDir d =
     (case scanCacheDir E d cacheDir of
        Inl _ \<Rightarrow> ((0, 0), d)
      | Inr es \<Rightarrow>
          ((int (length es), sum_list (map ce_size es)),
           (case parseInt64 (getvar S ''GOCACHEPROG_GHA_MAX_CACHE_BYTES'') of
              Inl _ \<Rightarrow> d
            | Inr n \<Rightarrow> (if 0 < n then fst (evictOldestUntilFits E es n d) else d))))"

definition doneLocalGocacheMode ::
  "library \<Rightarrow> 'w transport \<Rightarrow> env \<Rightarrow> 'w system \<Rightarrow> fs \<Rightarrow> 'w \<Rightarrow> go_error option \<times> fs \<times> 'w" where
  "doneLocalGocacheMode L T E S d w =
     (let cacheDir = getvar S ''GOCACHEPROG_GHA_CACHE_DIR''; buildType = getvar S ''GOCACHEPROG_GHA_BUILD_TYPE'';
          fallback = (getvar S ''GOCACHEPROG_GHA_LOCAL_FALLBACK'' = ''1'')
      in if cacheDir = [] then (None, d, w)
         else (let d1 = snd (recordLocalGocacheUsage (lib_readUsage L) (lib_usage L) E d cacheDir (sys_pid S) buildType);
                   w1 = (if fallback then doneLocalGocacheFallbackUpload L T E S cacheDir buildType d1 w else w)
               in case trimLocalCache E S cacheDir d1 of
                    ((n, bytes), d2) \<Rightarrow>
                      (None, d2,
                       (if fallback
                        then markRemoteSessionDone L T S (getvar S ''GOCACHEPROG_GHA_REMOTE_URL'')
                               (getvar S ''GOCACHEPROG_GHA_AUTH'') (getvar S ''GOCACHEPROG_GHA_SESSION_ID'')
                               (AList.update ''local_cache_bytes'' (JInt bytes)
                                 (AList.update ''local_cache_files'' (JInt n)
                                   (sessionExtras L E S d2 ''local-gocache'' emptySummary))) w1
                        else w1))))"

section \<open>Byte sizes\<close>

definition byteSizeUnits :: "(string \<times> nat) list" where
  "byteSizeUnits = [(''EB'', 60), (''PB'', 50), (''TB'', 40), (''GB'', 30), (''MB'', 20), (''KB'', 10)]"

text \<open>The conversion of \<open>m * 2 ^ e\<close> to an integer, for numbers within 64 bits: towards zero.\<close>

definition truncFloat :: "int \<Rightarrow> int \<Rightarrow> int" where
  "truncFloat m e = (if 0 \<le> e then m * 2 ^ nat e else sgn m * (\<bar>m\<bar> div 2 ^ nat (- e)))"

definition parseByteSize :: "library \<Rightarrow> string \<Rightarrow> int result" where
  "parseByteSize L s =
     (let scaled = (\<lambda>num k. case lib_float L num of
            Inl e \<Rightarrow> Inl (ErrWrap ''invalid byte size'' e) | Inr (m, e) \<Rightarrow> Inr (truncFloat m (e + int k)))
      in case find (\<lambda>u. hasSuffix s (fst u)) byteSizeUnits of
           Some u \<Rightarrow> scaled (take (length s - 2) s) (snd u)
         | None \<Rightarrow>
             (if hasSuffix s ''B'' then scaled (butlast s) 0
              else Inl (ErrMsg ''invalid byte size: unrecognized unit'')))"

text \<open>The division is exact up to \<open>2 ^ 53\<close> bytes; the result is printed with one decimal, to even.\<close>

definition formatByteSize :: "int \<Rightarrow> string" where
  "formatByteSize n =
     (case find (\<lambda>u. 2 ^ snd u \<le> n) byteSizeUnits of
        Some u \<Rightarrow>
          (let t = halfEvenDiv (10 * n) (2 ^ snd u) in
           formatInt (t div 10) @ (if t mod 10 = 0 then [] else ''.'' @ formatInt (t mod 10)) @ fst u)
      | None \<Rightarrow> formatInt n @ ''B'')"

definition sumSizes :: "library \<Rightarrow> string list \<Rightarrow> int \<times> bool" where
  "sumSizes L ss =
     foldl (\<lambda>(n, got) s. if s = [] then (n, got)
       else (case parseByteSize L s of Inl _ \<Rightarrow> (n, got) | Inr k \<Rightarrow> (n + k, True))) (0, False) ss"

definition sumDurations :: "library \<Rightarrow> string list \<Rightarrow> int" where
  "sumDurations L ss =
     sum_list (map (\<lambda>s. if s = [] then 0 else (case lib_parseDuration L s of Inl _ \<Rightarrow> 0 | Inr t \<Rightarrow> t)) ss)"

definition sumStatsSummaries :: "library \<Rightarrow> statsSummary list \<Rightarrow> statsSummary" where
  "sumStatsSummaries L ss =
     (let hs = sum_list (map ss_Hits ss); ms = sum_list (map ss_Misses ss);
          t = sumDurations L (map ss_GetTotalTime ss);
          r = sumSizes L (map ss_BytesRead ss); wr = sumSizes L (map ss_BytesWritten ss)
      in emptySummary\<lparr>ss_Hits := hs, ss_Misses := ms, ss_Puts := sum_list (map ss_Puts ss),
           ss_RoundTrips := sum_list (map ss_RoundTrips ss), ss_HitRate := percent hs (hs + ms),
           ss_GetTotalTime := (if 0 < t then lib_duration L t else []),
           ss_BytesRead := (if snd r \<or> snd wr then formatByteSize (fst r) else []),
           ss_BytesWritten := (if snd r \<or> snd wr then formatByteSize (fst wr) else [])\<rparr>)"

section \<open>Mode direct\<close>

text \<open>The preload of a child process; its failure costs only a cold cache.\<close>

definition runPreloadOnly ::
  "'w system \<Rightarrow> path \<Rightarrow> path \<Rightarrow> githubActionsConfig \<Rightarrow> jobScope \<Rightarrow> fs \<times> 'w \<Rightarrow> fs \<times> 'w" where
  "runPreloadOnly S self cacheDir cfg jb st =
     (if gc_skipPreload cfg then st
      else snd (sys_run S self
        ([''-cache-dir'', cacheDir, ''-remote-url'', gc_remoteURL cfg, ''-preload-only'',
          ''-max-file-bytes'', formatInt (gc_maxFileBytes cfg)] @ commonScopeArgs cfg jb) st))"

definition helperArgs :: "githubActionsConfig \<Rightarrow> jobScope \<Rightarrow> path \<Rightarrow> string list" where
  "helperArgs cfg jb cacheDir =
     [''-cache-dir'', cacheDir, ''-remote-url'', gc_remoteURL cfg, ''-skip-preload'', ''-quiet'',
      ''-max-file-bytes'', formatInt (gc_maxFileBytes cfg)] @ commonScopeArgs cfg jb"

definition directVars ::
  "library \<Rightarrow> env \<Rightarrow> path \<Rightarrow> githubActionsConfig \<Rightarrow> jobScope \<Rightarrow> path \<Rightarrow> (string \<times> string) list" where
  "directVars L E self cfg jb cacheDir =
     [(''GOCACHEPROG'', shellJoin self (helperArgs cfg jb cacheDir)), (''GOCACHEPROG_GHA_MODE'', ''direct''),
      (''GOCACHEPROG_GHA_CACHE_DIR'', cacheDir), (''GOCACHEPROG_GHA_REMOTE_URL'', gc_remoteURL cfg),
      (''GOCACHEPROG_GHA_AUTH'', gc_authToken cfg), (''GOCACHEPROG_GHA_SESSION_ID'', jb_sessionID jb),
      (''GOCACHEPROG_GHA_INIT_TIME'', lib_formatTime L (now E))]"

definition initDirectMode ::
  "library \<Rightarrow> env \<Rightarrow> 'w system \<Rightarrow> path \<Rightarrow> githubActionsConfig \<Rightarrow> jobScope \<Rightarrow> fs \<Rightarrow> 'w \<Rightarrow>
     go_error option \<times> fs \<times> 'w" where
  "initDirectMode L E S self cfg jb d w =
     (case resolveHelperCacheDir (sys_os S) (gc_cacheDir cfg) of
        Inl e \<Rightarrow> (Some e, d, w)
      | Inr cacheDir \<Rightarrow>
          (case ensureDir E cacheDir ''ensure cache dir'' of
             Some e \<Rightarrow> (Some e, d, w)
           | None \<Rightarrow>
               (case runPreloadOnly S self cacheDir cfg jb (d, w) of
                  (d', w') \<Rightarrow>
                    (case setGitHubEnv E S
                            (setReportFilesEnv L (gc_reportFiles cfg) (directVars L E self cfg jb cacheDir)) d' of
                       (r, d'') \<Rightarrow> (r, d'', w')))))"

definition quietRunStatsFilename :: string where "quietRunStatsFilename = ''.gocacheprog-run-stats.jsonl''"

definition AppendQuietRunStats ::
  "library \<Rightarrow> env \<Rightarrow> 'w system \<Rightarrow> path \<Rightarrow> statsSummary \<Rightarrow> fs \<Rightarrow> go_error option \<times> fs" where
  "AppendQuietRunStats L E S cacheDir summary d =
     (if cacheDir = [] then (None, d)
      else (case lib_record L \<lparr>dr_Summary = summary, dr_ParentPID = fst (sys_parent S),
                   dr_ParentCmd = snd (sys_parent S)\<rparr> of
          Inl e \<Rightarrow> (Some (ErrWrap ''marshal run stats'' e), d)
        | Inr b \<Rightarrow>
            (case osAppend E d (joinPath [cacheDir, quietRunStatsFilename]) (b @ [newline]) 420 of
               (Some e, d') \<Rightarrow> (Some (ErrWrap ''open run stats file'' e), d') | (None, d') \<Rightarrow> (None, d'))))"

text \<open>\<open>None\<close> when the first command left no time.\<close>

definition elapsedSinceInit :: "library \<Rightarrow> env \<Rightarrow> 'w system \<Rightarrow> int option" where
  "elapsedSinceInit L E S =
     (let raw = getvar S ''GOCACHEPROG_GHA_INIT_TIME'' in
      if raw = [] then None
      else (case lib_parseTime L raw of Inl _ \<Rightarrow> None | Inr t \<Rightarrow> Some (now E - t)))"

definition withTotalTime :: "library \<Rightarrow> env \<Rightarrow> 'w system \<Rightarrow> statsSummary \<Rightarrow> statsSummary" where
  "withTotalTime L E S s =
     (case elapsedSinceInit L E S of None \<Rightarrow> s | Some t \<Rightarrow> s\<lparr>ss_TotalTime := lib_duration L t\<rparr>)"

definition runRecords :: "library \<Rightarrow> bytes \<Rightarrow> directRunRecord list" where
  "runRecords L b =
     concat (map (\<lambda>l. case lib_readRecord L l of Inl _ \<Rightarrow> [] | Inr r \<Rightarrow> [r])
       (filter (\<lambda>l. l \<noteq> []) (split_on newline (trimSpace b))))"

definition directSummary :: "library \<Rightarrow> env \<Rightarrow> 'w system \<Rightarrow> directRunRecord list \<Rightarrow> statsSummary" where
  "directSummary L E S rs =
     (case rs of
        [] \<Rightarrow> emptySummary
      | [r] \<Rightarrow> withTotalTime L E S (dr_Summary r)
      | _ \<Rightarrow> withTotalTime L E S (sumStatsSummaries L (map dr_Summary rs)))"

definition doneDirectMode ::
  "library \<Rightarrow> 'w transport \<Rightarrow> env \<Rightarrow> 'w system \<Rightarrow> fs \<Rightarrow> 'w \<Rightarrow> go_error option \<times> fs \<times> 'w" where
  "doneDirectMode L T E S d w =
     (let cacheDir = getvar S ''GOCACHEPROG_GHA_CACHE_DIR'';
          mark = (\<lambda>s. markRemoteSessionDone L T S (getvar S ''GOCACHEPROG_GHA_REMOTE_URL'')
             (getvar S ''GOCACHEPROG_GHA_AUTH'') (getvar S ''GOCACHEPROG_GHA_SESSION_ID'')
             (sessionExtras L E S d ''direct'' s) w);
          p = joinPath [cacheDir, quietRunStatsFilename]
      in if cacheDir = [] then (None, d, w)
         else (case readFile E d p of
             Inl e \<Rightarrow>
               (if isNotExist e then (None, d, mark emptySummary)
                else (Some (ErrWrap ''read run stats'' e), d, w))
           | Inr b \<Rightarrow> (None, snd (removeIfExists E d p), mark (directSummary L E S (runRecords L b)))))"

section \<open>Mode shim\<close>

fun waitForShimSocket ::
  "int \<Rightarrow> (int \<times> (go_error + go_error option)) list \<Rightarrow> go_error option \<Rightarrow> go_error option" where
  "waitForShimSocket deadline [] lastErr = lastErr"
| "waitForShimSocket deadline ((t, r) # as) lastErr =
     (if t < deadline
      then (case r of Inr closed \<Rightarrow> closed | Inl e \<Rightarrow> waitForShimSocket deadline as (Some e))
      else lastErr)"

definition githubActionsShimSocketWait :: int where "githubActionsShimSocketWait = 10 * 1000000"

definition githubActionsLogTailBytes :: nat where "githubActionsLogTailBytes = 8000"

definition daemonArgs :: "githubActionsConfig \<Rightarrow> jobScope \<Rightarrow> path \<Rightarrow> path \<Rightarrow> string list" where
  "daemonArgs cfg jb socket cacheDir =
     [''-http'', ''unix://'' @ socket, ''-cache-dir'', cacheDir, ''-remote-url'', gc_remoteURL cfg,
      ''-skip-preload'', ''-max-file-bytes'', formatInt (gc_maxFileBytes cfg)] @ commonScopeArgs cfg jb"

definition shimVars ::
  "library \<Rightarrow> env \<Rightarrow> path \<Rightarrow> githubActionsConfig \<Rightarrow> jobScope \<Rightarrow> path \<Rightarrow> path \<Rightarrow> path \<Rightarrow> (string \<times> string) list" where
  "shimVars L E self cfg jb socket pidFile logFile =
     [(''GOCACHEPROG'', shellJoin self ([''-remote-url'', ''unix://'' @ socket, ''-quiet''] @
         (if gc_authToken cfg = [] then [] else [''-auth-token'', gc_authToken cfg]))),
      (''GOCACHEPROG_GHA_MODE'', ''shim''), (''GOCACHEPROG_GHA_SOCKET'', socket),
      (''GOCACHEPROG_GHA_AUTH'', gc_authToken cfg), (''GOCACHEPROG_GHA_PID_FILE'', pidFile),
      (''GOCACHEPROG_GHA_LOG_FILE'', logFile), (''GOCACHEPROG_GHA_REMOTE_URL'', gc_remoteURL cfg),
      (''GOCACHEPROG_GHA_SESSION_ID'', jb_sessionID jb), (''GOCACHEPROG_GHA_INIT_TIME'', lib_formatTime L (now E))]"

text \<open>From the log file of the daemon on. The daemon writes to it while it runs.\<close>

definition startDaemon ::
  "library \<Rightarrow> env \<Rightarrow> 'w system \<Rightarrow> path \<Rightarrow> githubActionsConfig \<Rightarrow> jobScope \<Rightarrow> path \<Rightarrow> fs \<Rightarrow> 'w \<Rightarrow>
     go_error option \<times> fs \<times> 'w" where
  "startDaemon L E S self cfg jb cacheDir d w =
     (let socket = joinPath [osTempDir S, ''gocacheprog.sock'']; pidFile = joinPath [osTempDir S, ''gocacheprog.pid''];
          logFile = joinPath [osTempDir S, ''gocacheprog-daemon.log'']
      in case osWriteFile E d logFile [] 438 of
           (Some e, d1) \<Rightarrow> (Some (ErrWrap ''create daemon log file'' e), d1, w)
         | (None, d1) \<Rightarrow>
             (case sys_start S self (daemonArgs cfg jb socket cacheDir) (d1, w) of
                (Inl e, d2, w2) \<Rightarrow> (Some (ErrWrap ''start gocacheprog daemon'' e), d2, w2)
              | (Inr pid, d2, w2) \<Rightarrow>
                  (case osWriteFile E d2 pidFile (formatInt pid) 420 of
                     (Some e, d3) \<Rightarrow> (Some (ErrWrap ''write daemon pid file'' e), d3, w2)
                   | (None, d3) \<Rightarrow>
                       (case waitForShimSocket (now E + githubActionsShimSocketWait) (sys_dials S) None of
                          Some e \<Rightarrow>
                            (Some (ErrWrap (''gocacheprog daemon did not become ready: daemon log tail: '' @
                               tailFile E d3 logFile githubActionsLogTailBytes) e), d3, w2)
                        | None \<Rightarrow>
                            (case setGitHubEnv E S (setReportFilesEnv L (gc_reportFiles cfg)
                                    (shimVars L E self cfg jb socket pidFile logFile)) d3 of
                               (r, d4) \<Rightarrow> (r, d4, w2))))))"

definition initShimMode ::
  "library \<Rightarrow> env \<Rightarrow> 'w system \<Rightarrow> path \<Rightarrow> githubActionsConfig \<Rightarrow> jobScope \<Rightarrow> fs \<Rightarrow> 'w \<Rightarrow>
     go_error option \<times> fs \<times> 'w" where
  "initShimMode L E S self cfg jb d w =
     (case resolveHelperCacheDir (sys_os S) (gc_cacheDir cfg) of
        Inl e \<Rightarrow> (Some e, d, w)
      | Inr cacheDir \<Rightarrow>
          (case ensureDir E cacheDir ''ensure cache dir'' of
             Some e \<Rightarrow> (Some e, d, w)
           | None \<Rightarrow>
               (case runPreloadOnly S self cacheDir cfg jb (d, w) of
                  (d', w') \<Rightarrow> startDaemon L E S self cfg jb cacheDir d' w')))"

text \<open>The part of the daemon's client that asks it to stop; an error in its answer is an error.\<close>

definition StopShimServer ::
  "library \<Rightarrow> 'w system \<Rightarrow> string \<Rightarrow> string \<Rightarrow> 'w \<Rightarrow> (shimStopResponse \<times> statsSummary) result \<times> 'w" where
  "StopShimServer L S url auth w =
     (case shimNetworkAndAddr (lib_host L) url of
        Inl e \<Rightarrow> (Inl e, w)
      | Inr addr \<Rightarrow>
          (case sys_stop S addr \<lparr>hello_SessionID = [], hello_AuthToken = auth, hello_Stop = True\<rparr> w of
             (Inl e, w') \<Rightarrow> (Inl e, w')
           | (Inr answer, w') \<Rightarrow>
               (if stop_Err (fst answer) \<noteq> [] then (Inl (ErrMsg (stop_Err (fst answer))), w')
                else (Inr answer, w'))))"

text \<open>Finding a process succeeds, whether there is one or not.\<close>

definition killByPIDFile :: "env \<Rightarrow> 'w system \<Rightarrow> fs \<Rightarrow> path \<Rightarrow> 'w \<Rightarrow> 'w" where
  "killByPIDFile E S d p w =
     (case readFile E d p of
        Inl _ \<Rightarrow> w
      | Inr b \<Rightarrow> (case parseInt64 (trimSpace b) of Inl _ \<Rightarrow> w | Inr pid \<Rightarrow> sys_signal S pid w))"

definition doneShimMode ::
  "library \<Rightarrow> 'w transport \<Rightarrow> env \<Rightarrow> 'w system \<Rightarrow> fs \<Rightarrow> 'w \<Rightarrow> go_error option \<times> fs \<times> 'w" where
  "doneShimMode L T E S d w =
     (let socket = getvar S ''GOCACHEPROG_GHA_SOCKET''; auth = getvar S ''GOCACHEPROG_GHA_AUTH'';
          pidFile = getvar S ''GOCACHEPROG_GHA_PID_FILE'';
          mark = (\<lambda>d s. markRemoteSessionDone L T S (getvar S ''GOCACHEPROG_GHA_REMOTE_URL'') auth
             (getvar S ''GOCACHEPROG_GHA_SESSION_ID'') (sessionExtras L E S d ''shim'' s))
      in if socket = [] then (Some (ErrMsg ''github-actions-done: GOCACHEPROG_GHA_SOCKET is not set''), d, w)
         else (case StopShimServer L S (''unix://'' @ socket) auth w of
             (Inl _, w1) \<Rightarrow>
               (let w2 = (if pidFile = [] then w1 else killByPIDFile E S d pidFile w1) in
                (None, d, mark d emptySummary w2))
           | (Inr answer, w1) \<Rightarrow>
               (case CountShimForcedCloses (lib_host L) E (''unix://'' @ socket) d of
                  (n, d1) \<Rightarrow>
                    (None, d1, mark d1 (withTotalTime L E S ((snd answer)\<lparr>ss_ForcedCloses := n\<rparr>)) w1))))"

section \<open>The commands\<close>

definition canonicalizeRepo :: "library \<Rightarrow> env \<Rightarrow> 'w system \<Rightarrow> path \<Rightarrow> fs \<Rightarrow> go_error option \<times> fs" where
  "canonicalizeRepo L E S root d =
     (case filepathAbs (sys_os S) root of
        Inl e \<Rightarrow> (Some (ErrWrap ''abs repo root'' e), d)
      | Inr p \<Rightarrow> CanonicalizeTimestamps (lib_sha L) E d p)"

definition runInit ::
  "library \<Rightarrow> 'w transport \<Rightarrow> env \<Rightarrow> 'w system \<Rightarrow> githubActionsConfig \<Rightarrow> fs \<Rightarrow> 'w \<Rightarrow>
     go_error option \<times> fs \<times> 'w" where
  "runInit L T E S cfg d w =
     (case githubContext L E S d of
        Inl e \<Rightarrow> (Some (ErrWrap ''github-actions-init'' e), d, w)
      | Inr (commit, base, changes) \<Rightarrow>
          (case sys_executable S of
             Inl e \<Rightarrow> (Some (ErrWrap ''github-actions-init: resolve gocacheprog executable'' e), d, w)
           | Inr self \<Rightarrow>
               (let jb = \<lparr>jb_commit = commit, jb_baseCommit = base, jb_changesID = changes,
                          jb_sessionID = newSessionID E S\<rparr>; m = gc_mode cfg
                in if m = ''direct'' then initDirectMode L E S self cfg jb d w
                   else if m = ''shim'' then initShimMode L E S self cfg jb d w
                   else if m = ''gocache'' then initGocacheMode L T E S cfg jb d w
                   else if m = ''local-gocache'' then initLocalGocacheMode L T E S cfg jb d w
                   else (Some (ErrMsg ''github-actions-init: unsupported mode''), d, w))))"

definition startJob ::
  "library \<Rightarrow> 'w transport \<Rightarrow> env \<Rightarrow> 'w system \<Rightarrow> githubActionsConfig \<Rightarrow> fs \<Rightarrow> 'w \<Rightarrow>
     go_error option \<times> fs \<times> 'w" where
  "startJob L T E S cfg d w =
     (if gc_canonicalize cfg = [] then runInit L T E S cfg d w
      else (case canonicalizeRepo L E S (gc_canonicalize cfg) d of
          (Some e, d') \<Rightarrow> (Some (ErrWrap ''github-actions-init: canonicalize timestamps'' e), d', w)
        | (None, d') \<Rightarrow> runInit L T E S cfg d' w))"

definition GithubActionsInit ::
  "library \<Rightarrow> 'w transport \<Rightarrow> env \<Rightarrow> 'w system \<Rightarrow> string \<Rightarrow> fs \<Rightarrow> 'w \<Rightarrow> go_error option \<times> fs \<times> 'w" where
  "GithubActionsInit L T E S dsn d w =
     (case parseGithubActionsDSN L dsn of
        Inl e \<Rightarrow> (Some (ErrWrap ''github-actions-init'' e), d, w)
      | Inr cfg0 \<Rightarrow>
          (let cfg = cfg0\<lparr>gc_buildType := repoScopedBuildType S (gc_buildType cfg0)\<rparr> in
           case (if gc_maxFileBytes cfg = maxFileBytesUnset
                 then resolveMaxFileBytesDefault L T S (gc_remoteURL cfg) (gc_authToken cfg) (gc_buildType cfg) w
                 else (gc_maxFileBytes cfg, w)) of
             (n, w') \<Rightarrow> startJob L T E S (cfg\<lparr>gc_maxFileBytes := n\<rparr>) d w'))"

definition GithubActionsDone ::
  "library \<Rightarrow> 'w transport \<Rightarrow> env \<Rightarrow> 'w system \<Rightarrow> fs \<Rightarrow> 'w \<Rightarrow> go_error option \<times> fs \<times> 'w" where
  "GithubActionsDone L T E S d w =
     (let m = getvar S ''GOCACHEPROG_GHA_MODE'' in
      if m = ''direct'' then doneDirectMode L T E S d w
      else if m = ''shim'' then doneShimMode L T E S d w
      else if m = ''gocache'' then (case doneGocacheMode L T E S d w of (r, w') \<Rightarrow> (r, d, w'))
      else if m = ''local-gocache'' then doneLocalGocacheMode L T E S d w
      else if m = [] then (Some (ErrMsg ''github-actions-done: GOCACHEPROG_GHA_MODE is not set''), d, w)
      else (Some (ErrMsg ''github-actions-done: unknown mode''), d, w))"

end
