(* ===== verification/Github_Job.thy ===== *)
theory Github_Job
  imports Github_Actions Native_Content
begin

text \<open>
  What the two commands around a GitHub Actions job do together: the server cannot fail the job; the second
  command uploads from where the first restored to, under the same scope; and what the comments say about
  scopes and the local mode but the code does not do.
\<close>

section \<open>The server cannot fail the job\<close>

text \<open>The outcome of a mode as far as it does not depend on the server.\<close>

definition gocacheOutcome :: "env \<Rightarrow> 'w system \<Rightarrow> githubActionsConfig \<Rightarrow> go_error option" where
  "gocacheOutcome E S cfg =
     (case ResolveNativeCacheDir (sys_os S) (gc_cacheDir cfg) of
        Inl e \<Rightarrow> Some e
      | Inr cacheDir \<Rightarrow>
          (case ensureDir E cacheDir ''ensure native cache dir'' of
             Some e \<Rightarrow> Some e | None \<Rightarrow> fst (setGitHubEnv E S [] [])))"

lemma setGitHubEnv_outcome: "fst (setGitHubEnv E S vars d) = fst (setGitHubEnv E S [] [])"
  by (simp add: setGitHubEnv_def osAppend_def Let_def split: option.splits)

lemma setGitHubEnv_fst: "setGitHubEnv E S vars d = (r, d') \<Longrightarrow> r = fst (setGitHubEnv E S [] [])"
  by (metis fst_conv setGitHubEnv_outcome)

lemma initGocacheMode_outcome:
  assumes "\<forall>ts. \<exists>j. lib_stats L ts = Inr j"
  shows "fst (initGocacheMode L T E S cfg jb d w) = gocacheOutcome E S cfg"
proof -
  have "\<exists>j. lib_stats L ts = Inr j" for ts using assms by blast
  then show ?thesis
    by (auto simp: initGocacheMode_def gocacheOutcome_def dest: setGitHubEnv_fst
        split: sum.splits option.splits prod.splits)
      (metis Inl_Inr_False)+
qed
text \<open>The error of a result.\<close>

definition errorOf :: "'a result \<Rightarrow> go_error option" where
  "errorOf x = (case x of Inl e \<Rightarrow> Some e | Inr _ \<Rightarrow> None)"

lemma fallbackRestore_error:
  "errorOf (fst (initLocalGocacheFallbackRestore L T E S cfg jb cacheDir usage vars d w)) =
     (if map_of usage (localGocacheStatsBuildTypeKey (gc_buildType cfg)) = None \<and> gc_remoteURL cfg = []
      then Some (ErrMsg ''fallback_remote requires a remote URL in the DSN'') else None)"
  by (simp add: initLocalGocacheFallbackRestore_def errorOf_def split: sum.split prod.split)

definition localOutcome :: "library \<Rightarrow> env \<Rightarrow> 'w system \<Rightarrow> githubActionsConfig \<Rightarrow> fs \<Rightarrow> go_error option" where
  "localOutcome L E S cfg d =
     (case ResolveNativeCacheDir (sys_os S) (gc_cacheDir cfg) of
        Inl e \<Rightarrow> Some e
      | Inr cacheDir \<Rightarrow>
          (case ensureDir E cacheDir ''ensure native cache dir'' of
             Some e \<Rightarrow> Some e
           | None \<Rightarrow>
               (if gc_fallbackRemote cfg \<and> gc_remoteURL cfg = [] \<and>
                  map_of (case loadLocalGocacheStats (lib_readUsage L) E d cacheDir of Inl _ \<Rightarrow> [] | Inr m \<Rightarrow> m)
                    (localGocacheStatsBuildTypeKey (gc_buildType cfg)) = None
                then Some (ErrMsg ''fallback_remote requires a remote URL in the DSN'')
                else fst (setGitHubEnv E S [] []))))"

lemma initLocalGocacheMode_outcome:
  "fst (initLocalGocacheMode L T E S cfg jb d w) = localOutcome L E S cfg d"
proof (cases "ResolveNativeCacheDir (sys_os S) (gc_cacheDir cfg)")
  case (Inr cacheDir)
  let ?usage = "case loadLocalGocacheStats (lib_readUsage L) E d cacheDir of Inl _ \<Rightarrow> [] | Inr m \<Rightarrow> m"
  let ?x = "if gc_fallbackRemote cfg
    then initLocalGocacheFallbackRestore L T E S cfg jb cacheDir ?usage (localGocacheVars L E cfg cacheDir) d w
    else (Inr (localGocacheVars L E cfg cacheDir), d, w)"
  obtain x d1 w1 where x: "?x = (x, d1, w1)" by (metis prod.exhaust)
  have e: "errorOf x = (if gc_fallbackRemote cfg \<and> gc_remoteURL cfg = [] \<and>
        map_of ?usage (localGocacheStatsBuildTypeKey (gc_buildType cfg)) = None
      then Some (ErrMsg ''fallback_remote requires a remote URL in the DSN'') else None)"
  proof (cases "gc_fallbackRemote cfg")
    case True
    then have "x = fst (initLocalGocacheFallbackRestore L T E S cfg jb cacheDir ?usage
        (localGocacheVars L E cfg cacheDir) d w)"
      using x by simp
    then show ?thesis using True by (simp only: fallbackRestore_error) simp
  next
    case False
    then show ?thesis using x by (auto simp: errorOf_def)
  qed
  show ?thesis
  proof (cases "ensureDir E cacheDir ''ensure native cache dir''")
    case None
    have "fst (initLocalGocacheMode L T E S cfg jb d w) =
        (case errorOf x of Some e \<Rightarrow> Some e | None \<Rightarrow> fst (setGitHubEnv E S [] []))"
      using Inr None x
      by (simp add: initLocalGocacheMode_def Let_def errorOf_def split: sum.split prod.split)
        (metis setGitHubEnv_fst)
    then show ?thesis using e Inr None by (simp add: localOutcome_def)
  qed (simp add: initLocalGocacheMode_def localOutcome_def Inr)
qed (simp add: initLocalGocacheMode_def localOutcome_def)

definition nativeMode :: "string \<Rightarrow> bool" where
  "nativeMode m = (m = ''gocache'' \<or> m = ''local-gocache'')"

lemma runInit_outcome:
  assumes "\<forall>ts. \<exists>j. lib_stats L ts = Inr j" "nativeMode (gc_mode cfg)"
  shows "fst (runInit L T E S (cfg\<lparr>gc_maxFileBytes := n\<rparr>) d w) =
    fst (runInit L T' E S (cfg\<lparr>gc_maxFileBytes := n'\<rparr>) d w')"
proof -
  have "gocacheOutcome E S (cfg\<lparr>gc_maxFileBytes := k\<rparr>) = gocacheOutcome E S cfg"
    "localOutcome L E S (cfg\<lparr>gc_maxFileBytes := k\<rparr>) d = localOutcome L E S cfg d" for k
    by (simp_all add: gocacheOutcome_def localOutcome_def cong: sum.case_cong option.case_cong)
  note eq = this initGocacheMode_outcome [OF assms(1)] initLocalGocacheMode_outcome
  show ?thesis
  proof (cases "githubContext L E S d")
    case (Inr ctx)
    obtain commit base changes where c: "ctx = (commit, base, changes)" by (metis surj_pair)
    show ?thesis
      using assms(2)
      by (cases "sys_executable S") (auto simp: runInit_def Inr c Let_def nativeMode_def eq)
  qed (simp add: runInit_def)
qed

lemma startJob_outcome:
  assumes "\<forall>ts. \<exists>j. lib_stats L ts = Inr j" "nativeMode (gc_mode cfg)"
  shows "fst (startJob L T E S (cfg\<lparr>gc_maxFileBytes := n\<rparr>) d w) =
    fst (startJob L T' E S (cfg\<lparr>gc_maxFileBytes := n'\<rparr>) d w')"
proof (cases "gc_canonicalize cfg = []")
  case True
  then show ?thesis using runInit_outcome [OF assms] by (simp add: startJob_def)
next
  case False
  obtain r d' where "canonicalizeRepo L E S (gc_canonicalize cfg) d = (r, d')" by fastforce
  then show ?thesis
    using False runInit_outcome [OF assms, of T E S n d' w T' n' w']
    by (cases r) (simp_all add: startJob_def)
qed

lemma doneGocacheMode_outcome: "fst (doneGocacheMode L T E S d w) =
    (if getvar S ''GOCACHEPROG_GHA_CACHE_DIR'' = [] \<or> getvar S ''GOCACHEPROG_GHA_REMOTE_URL'' = []
     then Some (ErrMsg ''github-actions-done: cache dir or remote URL is not set'') else None)"
  by (simp add: doneGocacheMode_def Let_def split_beta split: sum.split)

lemma doneShimMode_outcome: "fst (doneShimMode L T E S d w) =
    (if getvar S ''GOCACHEPROG_GHA_SOCKET'' = []
     then Some (ErrMsg ''github-actions-done: GOCACHEPROG_GHA_SOCKET is not set'') else None)"
  by (simp add: doneShimMode_def Let_def split_beta split: sum.split)

lemma doneDirectMode_outcome: "fst (doneDirectMode L T E S d w) = fst (doneDirectMode L T' E S d w')"
  by (simp add: doneDirectMode_def Let_def split: sum.split)

lemma doneLocalGocacheMode_outcome: "fst (doneLocalGocacheMode L T E S d w) = None"
  by (simp add: doneLocalGocacheMode_def Let_def split_beta)

lemma GithubActionsDone_outcome: "fst (GithubActionsDone L T E S d w) = fst (GithubActionsDone L T' E S d w')"
  using doneDirectMode_outcome [of L T E S d w T' w']
  by (simp add: GithubActionsDone_def Let_def split_beta doneGocacheMode_outcome doneShimMode_outcome
      doneLocalGocacheMode_outcome)

text \<open>
  Claim C14. The server cannot fail the job. In the two modes for the native cache the first command ends with the
  same error, or with none, whatever the server and the network between do; and the second command does so
  in every mode. All that is required is that the numbers of a transfer can be encoded.\<close>

theorem remote_cannot_fail_job:
  assumes "\<forall>ts. \<exists>j. lib_stats L ts = Inr j"
    and "\<And>cfg. parseGithubActionsDSN L dsn = Inr cfg \<Longrightarrow> nativeMode (gc_mode cfg)"
  shows "fst (GithubActionsInit L T E S dsn d w) = fst (GithubActionsInit L T' E S dsn d w') \<and>
    fst (GithubActionsDone L T E S d w) = fst (GithubActionsDone L T' E S d w')"
proof
  show "fst (GithubActionsInit L T E S dsn d w) = fst (GithubActionsInit L T' E S dsn d w')"
  proof (cases "parseGithubActionsDSN L dsn")
    case (Inr cfg0)
    let ?cfg = "cfg0\<lparr>gc_buildType := repoScopedBuildType S (gc_buildType cfg0)\<rparr>"
    have m: "nativeMode (gc_mode ?cfg)" using assms(2) [OF Inr] by simp
    show ?thesis
      by (simp add: GithubActionsInit_def Inr Let_def split_beta startJob_outcome [OF assms(1) m, simplified])
  qed (simp add: GithubActionsInit_def)
  show "fst (GithubActionsDone L T E S d w) = fst (GithubActionsDone L T' E S d w')"
    by (rule GithubActionsDone_outcome)
qed

text \<open>The server of this transport is never there.\<close>

definition deadTransport :: "'w transport" where
  "deadTransport base r w = (Inl (ErrMsg ''connection refused''), w)"

text \<open>The one for which the DSN is the mode alone.\<close>

definition noJSON :: "'a result" where
  "noJSON = Inl (ErrMsg ''json'')"

definition toyLibrary :: library where
  "toyLibrary =
     (\<lparr>lib_url = (\<lambda>s. Inr ([(''mode'', [s]), (''skip_canonicalize_timestamps'', [''1'']), (''max_file_bytes'', [''9''])], ''http://h'')),
       lib_files = (\<lambda>_. noJSON), lib_readFiles = (\<lambda>_. noJSON), lib_stats = (\<lambda>_. Inr ''{}''), lib_event = (\<lambda>_. noJSON),
       lib_testKeys = (\<lambda>_. noJSON), lib_summary = (\<lambda>_. []), lib_value = (\<lambda>_. None), lib_record = (\<lambda>_. noJSON),
       lib_readRecord = (\<lambda>_. noJSON), lib_formatTime = formatInt, lib_parseTime = parseInt64,
       lib_duration = formatInt, lib_parseDuration = parseInt64, lib_float = (\<lambda>_. noJSON),
       lib_codec = toyCodec, lib_clientCodec = noKeys, lib_readUsage = (\<lambda>_. noJSON), lib_usage = (\<lambda>_. noJSON),
       lib_urlErr = (\<lambda>_. None), lib_sha = id, lib_host = Inr\<rparr>)"

definition toySystem :: "(string \<times> string) list \<Rightarrow> 'w system" where
  "toySystem vars =
     \<lparr>sys_os = \<lparr>homeDir = Inr ''/h'', userCacheDir = Inr ''/h/c'', workDir = Inr ''/w'',
        getenv = (\<lambda>k. case map_of vars k of None \<Rightarrow> [] | Some v \<Rightarrow> v)\<rparr>,
      sys_pid = 7, sys_parent = (1, []), sys_executable = Inr ''/x'', sys_version = ''v1'',
      sys_run = (\<lambda>_ _ st. (None, st)), sys_start = (\<lambda>_ _ st. (Inr 8, st)), sys_dials = [(0, Inr None)],
      sys_stop = (\<lambda>_ _ w. (Inl (ErrMsg ''gone''), w)), sys_signal = (\<lambda>_ w. w),
      sys_pool = newPool 4096 8388608 [], sys_clock = (\<lambda>_. 1)\<rparr>"

definition jobVars :: "(string \<times> string) list" where
  "jobVars = [(''GITHUB_ENV'', ''/env''), (''GITHUB_SHA'', ''c1''), (''GOCACHEPROG_GHA_MODE'', ''shim'')]"

theorem remote_cannot_fail_job_witness:
  "fst (GithubActionsInit toyLibrary deadTransport (calm 0) (toySystem jobVars) ''gocache'' [] ()) = None \<and>
   fst (GithubActionsDone toyLibrary deadTransport (calm 0) (toySystem jobVars) [] ()) \<noteq> None"
proof -
  have l: "\<forall>ts. \<exists>j. lib_stats toyLibrary ts = Inr j" by (simp add: toyLibrary_def)
  have m: "nativeMode (gc_mode cfg)" if "parseGithubActionsDSN toyLibrary ''gocache'' = Inr cfg" for cfg
  proof -
    have "case parseGithubActionsDSN toyLibrary ''gocache'' of Inr c \<Rightarrow> nativeMode (gc_mode c) | Inl _ \<Rightarrow> True"
      by code_simp
    then show ?thesis using that by simp
  qed
  have "fst (GithubActionsInit toyLibrary streamTransport (calm 0) (toySystem jobVars) ''gocache'' [] ()) = None"
    "fst (GithubActionsDone toyLibrary streamTransport (calm 0) (toySystem jobVars) [] ()) \<noteq> None"
    by code_simp+
  then show ?thesis
    using remote_cannot_fail_job [OF l m, where T = deadTransport and T' = streamTransport and E = "calm 0"
        and S = "toySystem jobVars" and d = "[]" and w = "()" and w' = "()"] by simp
qed

section \<open>The second command goes back where the first came from\<close>

lemma parse_formatInt_all:
  assumes "- (2 ^ 63) \<le> n" "n < 2 ^ 63"
  shows "parseInt64 (formatInt n) = Inr n"
proof (cases "n < 0")
  case True
  then show ?thesis using assms intDigits_dec [of "nat (- n)"] by (simp add: formatInt_def parseInt64_def int64Range_def)
next
  case False
  have "is_digit (hd (dec (nat n)))" by (rule dec_ends)
  then obtain ch cs where c: "dec (nat n) = ch # cs" "is_digit ch" using dec_nonempty by (cases "dec (nat n)") auto
  then have "parseInt64 (ch # cs) = (case intDigits (ch # cs) of Inl e \<Rightarrow> Inl e | Inr n \<Rightarrow> int64Range n)"
    using is_digit_cases [OF c(2)] by (auto simp: parseInt64_def)
  then show ?thesis
    using intDigits_dec [of "nat n"] assms False by (simp add: formatInt_def c(1) [symmetric] int64Range_def)
qed

text \<open>What the second command has to do in mode \<open>gocache\<close>, told in terms of the first.\<close>

definition uploadJob ::
  "library \<Rightarrow> 'w transport \<Rightarrow> env \<Rightarrow> 'w system \<Rightarrow> githubActionsConfig \<Rightarrow> jobScope \<Rightarrow> path \<Rightarrow> int \<Rightarrow> fs \<Rightarrow> 'w \<Rightarrow> 'w" where
  "uploadJob L T E S cfg jb cacheDir since d w =
     (case newRemoteClientWithRetry L T S (gc_remoteURL cfg) (gc_authToken cfg)
             (jobSession L E S (jb_sessionID jb) cacheDir (gc_buildType cfg) jb) w of
        (Inl _, w') \<Rightarrow> w'
      | (Inr c, _) \<Rightarrow>
          (let req = jobRequest jb (gc_buildType cfg) (gc_maxFileBytes cfg);
               c1 = investigateTestcacheKeys L T E S d req c;
               r = SaveFreshNativeCache (lib_codec L) (lib_clientCodec L) T E (sys_pool S) cacheDir req
                     (gc_maxFileBytes cfg) (Some since) (\<lambda>_. False) (sys_clock S) (sys_pid S) d c1
           in cl_world (snd (MarkSessionDone (lib_clientCodec L) T
                (mapsCopy (gocacheExtras (snd (fst r))) (collectReportExtras L E S d)) (snd r)))))"

lemma doneGocacheMode_uploadJob:
  assumes "\<And>k v. (k, v) \<in> set (gocacheVars L E cfg jb cacheDir j) \<Longrightarrow> getvar S' k = v"
    and "gc_remoteURL cfg \<noteq> []" "jb_sessionID jb \<noteq> []" "cacheDir \<noteq> []" "lib_formatTime L (now E) \<noteq> []"
    and "- (2 ^ 63) \<le> gc_maxFileBytes cfg" "gc_maxFileBytes cfg < 2 ^ 63"
    and "lib_parseTime L (lib_formatTime L (now E)) = Inr (now E)"
  shows "doneGocacheMode L T E' S' d w = (None, uploadJob L T E' S' cfg jb cacheDir (now E) d w)"
proof -
  have v: "getvar S' ''GOCACHEPROG_GHA_CACHE_DIR'' = cacheDir"
    "getvar S' ''GOCACHEPROG_GHA_REMOTE_URL'' = gc_remoteURL cfg"
    "getvar S' ''GOCACHEPROG_GHA_AUTH'' = gc_authToken cfg"
    "getvar S' ''GOCACHEPROG_GHA_COMMIT'' = jb_commit jb"
    "getvar S' ''GOCACHEPROG_GHA_CHANGES_ID'' = jb_changesID jb"
    "getvar S' ''GOCACHEPROG_GHA_BUILD_TYPE'' = gc_buildType cfg"
    "getvar S' ''GOCACHEPROG_GHA_BASE_COMMIT'' = jb_baseCommit jb"
    "getvar S' ''GOCACHEPROG_GHA_MAX_FILE_BYTES'' = formatInt (gc_maxFileBytes cfg)"
    "getvar S' ''GOCACHEPROG_GHA_INIT_TIME'' = lib_formatTime L (now E)"
    "getvar S' ''GOCACHEPROG_GHA_SESSION_ID'' = jb_sessionID jb"
    by (rule assms(1), simp add: gocacheVars_def)+
  have "envScope S' (jb_sessionID jb) = jb" by (simp add: envScope_def v)
  then show ?thesis
    using assms(2-) by (simp add: doneGocacheMode_def Let_def v envMaxFileBytes_def parse_formatInt_all
        uploadJob_def split_beta split: sum.split)
qed

lemma update_keeps: "kv \<in> set al \<Longrightarrow> fst kv \<noteq> k \<Longrightarrow> kv \<in> set (AList.update k v al)"
  by (induction al) auto

lemma gocacheVars_keys: "kv \<in> set (gocacheVars L E cfg jb cacheDir j) \<Longrightarrow> fst kv \<noteq> ''GOCACHEPROG_GHA_REPORT_FILES''"
  by (auto simp: gocacheVars_def split: if_splits)

lemma setReportFilesEnv_keeps:
  "kv \<in> set (gocacheVars L E cfg jb cacheDir j) \<Longrightarrow>
     kv \<in> set (setReportFilesEnv L fls (gocacheVars L E cfg jb cacheDir j))"
  using gocacheVars_keys [of kv L E cfg jb cacheDir j]
  by (simp add: setReportFilesEnv_def update_keeps split: sum.split)

lemma setGitHubEnv_written:
  assumes "setGitHubEnv E S vars d = (None, d')"
  shows "\<exists>f old. map_of d' (getvar S ''GITHUB_ENV'') = Some f \<and> content f = old @ concat (map envLine vars)"
proof (cases "map_of d (getvar S ''GITHUB_ENV'')")
  case None
  then show ?thesis
    using assms by (auto simp: setGitHubEnv_def osAppend_def Let_def split: if_splits option.splits)
next
  case (Some g)
  then have "d' = AList.update (getvar S ''GITHUB_ENV'') (g\<lparr>content := content g @ concat (map envLine vars), mtime := now E\<rparr>) d"
    using assms by (simp add: setGitHubEnv_def osAppend_def Let_def split: if_splits option.splits)
  then show ?thesis by simp
qed

text \<open>
  Claim C15. The two commands of mode \<open>gocache\<close> belong together. If the first ends without an error, then the file of
  \<open>$GITHUB_ENV\<close> ends in lines that set variables, and a second command that finds these variables set connects to
  the server from which the first restored, with the same token, session, directory and build type; asks and
  uploads under the same commit, changes-id and base commit, with the same size limit; considers only the files
  that have changed since the first command started; marks the session of the first as done; and has no error. The
  times have to be printed so that they can be read back, and the size limit has to fit 64 bits.\<close>

theorem done_uploads_where_init_restored:
  assumes "initGocacheMode L T E S cfg jb d w = (None, d', w')"
    and "ResolveNativeCacheDir (sys_os S) (gc_cacheDir cfg) = Inr cacheDir" "cacheDir \<noteq> []"
    and "gc_remoteURL cfg \<noteq> []" "jb_sessionID jb \<noteq> []"
    and "- (2 ^ 63) \<le> gc_maxFileBytes cfg" "gc_maxFileBytes cfg < 2 ^ 63"
    and "lib_formatTime L (now E) \<noteq> []" "lib_parseTime L (lib_formatTime L (now E)) = Inr (now E)"
  shows "\<exists>vars f old. map_of d' (getvar S ''GITHUB_ENV'') = Some f \<and> content f = old @ concat (map envLine vars) \<and>
    (\<forall>T' E' S' d1 w1. (\<forall>kv \<in> set vars. getvar S' (fst kv) = snd kv) \<longrightarrow>
       doneGocacheMode L T' E' S' d1 w1 = (None, uploadJob L T' E' S' cfg jb cacheDir (now E) d1 w1))"
proof -
  obtain ts d2 w2 where wg: "warmGocache L T E S cfg jb cacheDir d w = (ts, d2, w2)" by (metis surj_pair)
  then obtain j where j: "setGitHubEnv E S (setReportFilesEnv L (gc_reportFiles cfg) (gocacheVars L E cfg jb cacheDir j)) d2 =
      (None, d')"
    using assms(1,2) by (auto simp: initGocacheMode_def split: option.splits sum.splits prod.splits)
  let ?vars = "setReportFilesEnv L (gc_reportFiles cfg) (gocacheVars L E cfg jb cacheDir j)"
  obtain f old where f: "map_of d' (getvar S ''GITHUB_ENV'') = Some f" "content f = old @ concat (map envLine ?vars)"
    using setGitHubEnv_written [OF j] by blast
  have "doneGocacheMode L T' E' S' d1 w1 = (None, uploadJob L T' E' S' cfg jb cacheDir (now E) d1 w1)"
    if "\<forall>kv \<in> set ?vars. getvar S' (fst kv) = snd kv" for T' E' S' d1 w1
  proof (rule doneGocacheMode_uploadJob)
    show "getvar S' k = v" if "(k, v) \<in> set (gocacheVars L E cfg jb cacheDir j)" for k v
      using setReportFilesEnv_keeps [OF that] \<open>\<forall>kv \<in> set ?vars. getvar S' (fst kv) = snd kv\<close> by fastforce
  qed (use assms in simp_all)
  then show ?thesis
    using f by (intro exI [of _ ?vars] exI [of _ f] exI [of _ old] conjI allI impI) simp_all
qed

definition toyConfig :: githubActionsConfig where
  "toyConfig = projr (parseGithubActionsDSN toyLibrary ''gocache'')"

definition toyScope :: jobScope where
  "toyScope = \<lparr>jb_commit = ''c1'', jb_baseCommit = [], jb_changesID = [], jb_sessionID = ''s''\<rparr>"

theorem done_uploads_where_init_restored_witness:
  "\<exists>vars f old. map_of (fst (snd (initGocacheMode toyLibrary deadTransport (calm 0) (toySystem jobVars) toyConfig toyScope [] ())))
      ''/env'' = Some f \<and> content f = old @ concat (map envLine vars) \<and>
    (\<forall>T' E' S' d1 w1. (\<forall>kv \<in> set vars. getvar S' (fst kv) = snd kv) \<longrightarrow>
       doneGocacheMode toyLibrary T' E' (S' :: unit system) d1 w1 =
         (None, uploadJob toyLibrary T' E' S' toyConfig toyScope ''/h/c/go-build'' 0 d1 w1))"
proof -
  let ?S = "toySystem jobVars :: unit system"
  let ?r = "initGocacheMode toyLibrary deadTransport (calm 0) ?S toyConfig toyScope [] ()"
  have r: "fst ?r = None" by code_simp
  have i: "?r = (None, fst (snd ?r), ())" using r by (simp add: prod_eq_iff)
  have c: "ResolveNativeCacheDir (sys_os ?S) (gc_cacheDir toyConfig) = Inr ''/h/c/go-build''"
    "''/h/c/go-build'' \<noteq> ([] :: string)" "gc_remoteURL toyConfig \<noteq> []" "jb_sessionID toyScope \<noteq> []"
    "- (2 ^ 63) \<le> gc_maxFileBytes toyConfig" "gc_maxFileBytes toyConfig < 2 ^ 63"
    "lib_formatTime toyLibrary (now (calm 0)) \<noteq> []"
    "lib_parseTime toyLibrary (lib_formatTime toyLibrary (now (calm 0))) = Inr (now (calm 0))"
    by code_simp+
  have e: "getvar ?S ''GITHUB_ENV'' = ''/env''" "now (calm 0) = 0" by code_simp+
  show ?thesis using done_uploads_where_init_restored [OF i c] by (simp only: e)
qed

section \<open>What the comments promise\<close>

text \<open>The build type says in whose manifests a job writes. Two repositories can come to the same one.\<close>

theorem repositories_share_scope:
  "repoScopedBuildType (toySystem [(''GITHUB_REPOSITORY'', ''acme/app-race'')] :: unit system) ''unit'' =
     repoScopedBuildType (toySystem [(''GITHUB_REPOSITORY'', ''acme/app'')] :: unit system) ''race-unit''"
  "repoScopedBuildType (toySystem [(''GITHUB_REPOSITORY'', ''a-b/c'')] :: unit system) ''unit'' =
     repoScopedBuildType (toySystem [(''GITHUB_REPOSITORY'', ''a/b-c'')] :: unit system) ''unit''"
  by code_simp+

text \<open>Within one repository the build types stay apart.\<close>

theorem build_types_stay_apart:
  assumes "getvar S ''GITHUB_REPOSITORY'' \<noteq> []" "repoScopedBuildType S a = repoScopedBuildType S b"
  shows "a = b"
proof -
  obtain ch s where "getvar S ''GITHUB_REPOSITORY'' = ch # s" using assms(1) by (cases "getvar S ''GITHUB_REPOSITORY''") auto
  then have "replaceInvalid False (getvar S ''GITHUB_REPOSITORY'') \<noteq> []" by simp
  then show ?thesis using assms(2) by (auto simp: repoScopedBuildType_def Let_def split: if_splits)
qed

text \<open>The arguments of \<open>$GOCACHEPROG\<close> are joined by blanks and not quoted, so a directory with a blank in its name
  becomes two of them.\<close>

theorem shellJoin_forgets_arguments:
  "shellJoin ''/x'' [''-cache-dir'', ''/my cache''] = shellJoin ''/x'' [''-cache-dir'', ''/my'', ''cache'']"
  by code_simp

text \<open>A transport that counts requests.\<close>

definition countingTransport :: "nat transport" where
  "countingTransport base r w = (Inl (ErrMsg ''connection refused''), Suc w)"

text \<open>The mode that is to use no server asks it for the size limit when the DSN gives none.\<close>

theorem local_mode_asks_server:
  "snd (snd (GithubActionsInit (toyLibrary\<lparr>lib_url := (\<lambda>s. Inr ([(''mode'', [''local-gocache''])], ''http://h''))\<rparr>)
     countingTransport (calm 0) (toySystem jobVars) [] [] 0)) = 1"
  by code_simp

end
