(* ===== verification/Command_Line.thy ===== *)
theory Command_Line
  imports Github_Actions
begin

text \<open>
  The command line (\<open>cli/cli.go\<close>): which mode the flags select, after which checks; the addresses of a server;
  the batch mode of the native cache; and the last log lines that a daemon keeps for its stop. The flags come
  parsed; \<open>url.Parse\<close> is an argument. The modes that start a store, a proxy or a server are only
  named here: what runs in them is in the theories of these parts.
\<close>

section \<open>Flags\<close>

record flags =
  fl_cacheDir :: path
  fl_http :: string
  fl_https :: string
  fl_httpsHost :: string
  fl_stop :: string
  fl_remoteURL :: string
  fl_authToken :: string
  fl_preloadOnly :: bool
  fl_restoreCache :: bool
  fl_saveCache :: bool
  fl_maxFileBytes :: int
  fl_maxPreloadTotalBytes :: int
  fl_saveCacheMaxFileBytes :: int
  fl_saveCacheChunkBytes :: int
  fl_jobStartUnix :: int
  fl_canonicalize :: path
  fl_githubActionsInit :: string
  fl_githubActionsDone :: bool
  fl_quiet :: bool
  fl_sessionID :: string
  fl_version :: bool
  fl_params :: sessionParams

datatype action =
    PrintVersion
  | RunGithubInit string
  | RunGithubDone
  | RunCanonicalize path
  | RunStop string string
  | RunNative flags
  | RunShim string string
  | RunStoreServer flags
  | RunDaemon flags
  | RunPreloadOnly flags
  | RunHelper flags
  | Reject go_error

section \<open>Addresses\<close>

definition isUnixListen :: "string \<Rightarrow> bool" where
  "isUnixListen listen = prefix ''unix://'' listen"

fun lastColon :: "string \<Rightarrow> nat option" where
  "lastColon [] = None"
| "lastColon (x # s) =
     (case lastColon s of Some i \<Rightarrow> Some (Suc i) | None \<Rightarrow> if x = CHR '':'' then Some 0 else None)"

definition missingPort :: go_error where "missingPort = ErrMsg ''missing port in address''"

definition tooManyColons :: go_error where "tooManyColons = ErrMsg ''too many colons in address''"

text \<open>\<open>net.SplitHostPort\<close>.\<close>

definition checkBrackets :: "string \<Rightarrow> string \<Rightarrow> string \<times> string \<Rightarrow> (string \<times> string) result" where
  "checkBrackets opening closing res =
     (if CHR ''['' \<in> set opening then Inl (ErrMsg ''unexpected [ in address'')
      else if CHR '']'' \<in> set closing then Inl (ErrMsg ''unexpected ] in address'') else Inr res)"

definition splitHostPort :: "string \<Rightarrow> (string \<times> string) result" where
  "splitHostPort s =
     (case lastColon s of
        None \<Rightarrow> Inl missingPort
      | Some i \<Rightarrow>
          (if prefix ''['' s then
             (let close = length (takeWhile (\<lambda>ch. ch \<noteq> CHR '']'') s) in
              if close = length s then Inl (ErrMsg ''missing ] in address'')
              else if close + 1 = length s then Inl missingPort
              else if close + 1 \<noteq> i then Inl (if s ! (close + 1) = CHR '':'' then tooManyColons else missingPort)
              else checkBrackets (drop 1 s) (drop (close + 1) s) (drop 1 (take close s), drop (i + 1) s))
           else if CHR '':'' \<in> set (take i s) then Inl tooManyColons
           else checkBrackets s s (take i s, drop (i + 1) s)))"

text \<open>The network and the port.\<close>

definition listenPort :: "string \<Rightarrow> (string \<times> string) result" where
  "listenPort listen =
     (if listen = [] then Inr ([], [])
      else if isUnixListen listen then Inr (''unix'', [])
      else (case splitHostPort listen of
          Inr (_, port) \<Rightarrow> Inr (''tcp'', port)
        | Inl e \<Rightarrow>
            (let colons = length (filter (\<lambda>ch. ch = CHR '':'') listen);
                 joined = (if CHR '':'' \<in> set listen then ''['' @ listen @ '']:'' else listen @ '':'') in
             if e = missingPort then Inl e
             else if colons = 1 \<and> prefix '':'' listen then Inr (''tcp'', drop 1 listen)
             else if 1 < colons \<and> \<not> prefix ''['' listen then Inl e
             else (case splitHostPort joined of Inr (_, port) \<Rightarrow> Inr (''tcp'', port) | Inl _ \<Rightarrow> Inl e))))"

text \<open>The addresses for HTTP and HTTPS as they are then used.\<close>

definition normalizeServerFlags :: "string \<Rightarrow> string \<Rightarrow> string \<Rightarrow> (string \<times> string) result" where
  "normalizeServerFlags http https hostName =
     (if hostName = [] then
        (if https \<noteq> [] then Inl (ErrMsg ''-https requires -https-host'') else Inr (http, https))
      else if isUnixListen http then Inl (ErrMsg ''-https-host cannot be combined with unix -http'')
      else (let http1 = (if http = [] then '':80'' else http) in
        case listenPort http1 of
          Inl e \<Rightarrow> Inl (ErrWrap ''invalid -http for -https-host'' e)
        | Inr (network, port) \<Rightarrow>
            (if network \<noteq> ''tcp'' then Inl (ErrMsg ''-https-host requires TCP -http'')
             else if port \<noteq> ''80'' then Inl (ErrMsg ''-https-host requires -http on port 80'')
             else (let https1 = (if https = [] then '':443'' else https) in
               case listenPort https1 of
                 Inl e \<Rightarrow> Inl (ErrWrap ''invalid -https'' e)
               | Inr (network', _) \<Rightarrow>
                   (if network' \<noteq> ''tcp'' then Inl (ErrMsg ''-https must be a TCP address'')
                    else Inr (http1, https1))))))"

text \<open>\<open>urlHosts\<close> gives the host of a URL with and without the port.\<close>

definition isLocalRemoteURL :: "(string \<Rightarrow> (string \<times> string) result) \<Rightarrow> string \<Rightarrow> bool" where
  "isLocalRemoteURL urlHosts url =
     (if url = [] then False
      else if prefix ''unix://'' url then True
      else (case urlHosts url of
          Inl _ \<Rightarrow> False | Inr (host, name) \<Rightarrow> host \<noteq> [] \<and> (name = ''localhost'' \<or> name = ''127.0.0.1'')))"

section \<open>The choice of the mode\<close>

definition nonEmptyOr :: "string \<Rightarrow> string \<Rightarrow> string" where
  "nonEmptyOr v dflt = (if v = [] then dflt else v)"

definition serverFlags :: "flags \<Rightarrow> bool" where
  "serverFlags fl = (fl_http fl \<noteq> [] \<or> fl_https fl \<noteq> [] \<or> fl_httpsHost fl \<noteq> [])"

text \<open>From the cache directory on.\<close>

definition cacheAction :: "env \<Rightarrow> osinfo \<Rightarrow> flags \<Rightarrow> action" where
  "cacheAction E oi fl0 =
     (case (if fl_cacheDir fl0 \<noteq> [] then Inr (fl_cacheDir fl0)
            else (case userCacheDir oi of
                Inl e \<Rightarrow> Inl (ErrWrap ''user cache dir'' e) | Inr u \<Rightarrow> Inr (joinPath [u, ''gocacheprog'']))) of
        Inl e \<Rightarrow> Reject e
      | Inr cacheDir \<Rightarrow>
          (let fl = fl0\<lparr>fl_cacheDir := cacheDir\<rparr> in
           case ensureDir E cacheDir ''ensure cache dir'' of
             Some e \<Rightarrow> Reject e
           | None \<Rightarrow>
               (if fl_preloadOnly fl \<and> serverFlags fl
                then Reject (ErrMsg ''-preload-only cannot be combined with -http, -https, or -https-host'')
                else if fl_preloadOnly fl \<and> fl_remoteURL fl = []
                then Reject (ErrMsg ''-preload-only requires -remote-url'')
                else if serverFlags fl then
                  (if fl_remoteURL fl = [] then RunStoreServer fl
                   else if fl_httpsHost fl \<noteq> [] \<or> fl_https fl \<noteq> []
                   then Reject (ErrMsg ''-https and -https-host are only supported without -remote-url'')
                   else RunDaemon fl)
                else if fl_preloadOnly fl then RunPreloadOnly fl
                else RunHelper fl)))"

definition mainAction ::
  "(string \<Rightarrow> (string \<times> string) result) \<Rightarrow> env \<Rightarrow> osinfo \<Rightarrow> flags \<Rightarrow> action" where
  "mainAction urlHosts E oi fl0 =
     (let fl = fl0\<lparr>fl_authToken := nonEmptyOr (fl_authToken fl0) (getenv oi ''GOCACHEPROG_AUTH'')\<rparr> in
      if fl_version fl then PrintVersion
      else if fl_githubActionsInit fl \<noteq> [] then RunGithubInit (fl_githubActionsInit fl)
      else if fl_githubActionsDone fl then RunGithubDone
      else if fl_canonicalize fl \<noteq> [] then RunCanonicalize (fl_canonicalize fl)
      else if fl_stop fl \<noteq> [] then RunStop (fl_stop fl) (fl_authToken fl)
      else if fl_restoreCache fl \<or> fl_saveCache fl then
        RunNative (if fl_maxFileBytes fl = 0 \<and> fl_saveCacheMaxFileBytes fl \<noteq> 0
          then fl\<lparr>fl_maxFileBytes := fl_saveCacheMaxFileBytes fl\<rparr> else fl)
      else (case normalizeServerFlags (fl_http fl) (fl_https fl) (fl_httpsHost fl) of
          Inl e \<Rightarrow> Reject e
        | Inr (http, https) \<Rightarrow>
            (let fl1 = fl\<lparr>fl_http := http, fl_https := https\<rparr> in
             if isLocalRemoteURL urlHosts (fl_remoteURL fl1) \<and> http = [] \<and> \<not> fl_preloadOnly fl1
             then RunShim (fl_remoteURL fl1) (fl_authToken fl1)
             else cacheAction E oi fl1)))"

section \<open>The batch mode of the native cache\<close>

text \<open>A time in nanoseconds, to be compared with time stamps in microseconds.\<close>

definition microsUp :: "int \<Rightarrow> int" where
  "microsUp n = - (- n div 1000)"

lemma microsUp: "mt < microsUp n \<longleftrightarrow> 1000 * mt < n"
  by (simp add: microsUp_def) linarith

definition runNativeGOCACHEMode ::
  "library \<Rightarrow> 'w transport \<Rightarrow> env \<Rightarrow> 'w system \<Rightarrow> flags \<Rightarrow> fs \<Rightarrow> 'w \<Rightarrow> go_error option \<times> fs \<times> 'w" where
  "runNativeGOCACHEMode L T E S fl d w =
     (if fl_restoreCache fl \<and> fl_saveCache fl
      then (Some (ErrMsg ''-restore-cache and -save-cache are mutually exclusive''), d, w)
      else if fl_http fl \<noteq> [] then (Some (ErrMsg ''native GOCACHE batch mode cannot be combined with -http''), d, w)
      else if fl_remoteURL fl = [] then (Some (ErrMsg ''native GOCACHE batch mode requires -remote-url''), d, w)
      else (case ResolveNativeCacheDir (sys_os S) (fl_cacheDir fl) of
          Inl e \<Rightarrow> (Some e, d, w)
        | Inr cacheDir \<Rightarrow>
            (case ensureDir E cacheDir ''ensure native cache dir'' of
               Some e \<Rightarrow> (Some e, d, w)
             | None \<Rightarrow>
                 (case connect L T S (fl_remoteURL fl) (fl_authToken fl)
                         (Some \<lparr>si_SessionID = newSessionID E S, si_StartedAt = lib_formatTime L (now E),
                                si_PID = sys_pid S, si_CacheDir = cacheDir, si_JobURL = GithubActionsJobURL S,
                                si_Params = Some (fl_params fl)\<rparr>) w of
                    (Inl e, w') \<Rightarrow> (Some (ErrWrap ''remote client'' e), d, w')
                  | (Inr c0, _) \<Rightarrow>
                      (let c = SetSaveCacheChunkBytes (fl_saveCacheChunkBytes fl) c0; ps = fl_params fl;
                           req = \<lparr>Commit = sp_Commit ps, ChangesID = sp_ChangesID ps, BuildType = sp_BuildType ps,
                             BaseCommit = sp_BaseCommit ps, ParentCommit = sp_ParentCommit ps,
                             MaxFileBytes = fl_maxFileBytes fl,
                             MaxPreloadTotalBytes = fl_maxPreloadTotalBytes fl\<rparr>
                       in if fl_restoreCache fl then
                            (case RestoreNativeCache (lib_codec L) T E (sys_pool S) cacheDir req (1000 * now E) d c of
                               (Inl e, d', c') \<Rightarrow> (Some e, d', cl_world c')
                             | (Inr _, d', c') \<Rightarrow> (None, d', cl_world c'))
                          else (let since = (if fl_jobStartUnix fl \<noteq> 0 then Some (microsUp (fl_jobStartUnix fl))
                              else (case ReadJobStartMarker E d cacheDir of Inl _ \<Rightarrow> None | Inr t \<Rightarrow> Some (microsUp t)))
                            in case SaveFreshNativeCache (lib_codec L) (lib_clientCodec L) T E (sys_pool S) cacheDir
                                      req (fl_maxFileBytes fl) since (\<lambda>_. False) (sys_clock S) (sys_pid S) d c of
                                 ((Inl e, _), c') \<Rightarrow> (Some e, d, cl_world c')
                               | ((Inr _, _), c') \<Rightarrow> (None, d, cl_world c')))))))"

section \<open>The last lines of a daemon\<close>

record recentLogf =
  rl_limit :: nat
  rl_lines :: "string list"

definition newRecentLogf :: "nat \<Rightarrow> recentLogf" where
  "newRecentLogf n = \<lparr>rl_limit = n, rl_lines = []\<rparr>"

definition Logf :: "recentLogf \<Rightarrow> string \<Rightarrow> recentLogf" where
  "Logf r line =
     (let ls = rl_lines r @ [line] in
      r\<lparr>rl_lines := (if rl_limit r < length ls then drop (length ls - rl_limit r) ls else ls)\<rparr>)"

lemma Logf_limit: "rl_limit (foldl Logf r ls) = rl_limit r"
  by (induction ls arbitrary: r) (simp_all add: Logf_def Let_def)

lemma Logf_lines: "rl_lines (Logf r x) = drop (length (rl_lines r) + 1 - rl_limit r) (rl_lines r @ [x])"
  by (simp add: Logf_def Let_def)

text \<open>It keeps exactly the last lines.\<close>

theorem recent_lines_are_the_last:
  "rl_lines (foldl Logf (newRecentLogf n) ls) = drop (length ls - n) ls"
proof (induction ls rule: rev_induct)
  case (snoc x ls)
  have "rl_limit (foldl Logf (newRecentLogf n) ls) = n" by (simp add: Logf_limit) (simp add: newRecentLogf_def)
  then have "rl_lines (foldl Logf (newRecentLogf n) (ls @ [x])) =
      drop (length (drop (length ls - n) ls) + 1 - n) (drop (length ls - n) ls @ [x])"
    using snoc.IH by (simp only: foldl_append foldl_Cons foldl_Nil Logf_lines)
  then show ?case by (cases "n \<le> length ls") (auto simp: Suc_diff_le)
qed (simp add: newRecentLogf_def)

section \<open>What the checks secure\<close>

text \<open>A server with automatic certificates listens with TCP on both addresses, and answers challenges on port 80.\<close>

theorem normalizeServerFlags_ok:
  assumes "normalizeServerFlags http https hostName = Inr (http', https')" "hostName \<noteq> []"
  shows "listenPort http' = Inr (''tcp'', ''80'') \<and> (\<exists>port. listenPort https' = Inr (''tcp'', port)) \<and>
    http' \<noteq> [] \<and> https' \<noteq> [] \<and> (http \<noteq> [] \<longrightarrow> http' = http) \<and> (https \<noteq> [] \<longrightarrow> https' = https)"
  using assms by (auto simp: normalizeServerFlags_def Let_def split: if_splits sum.splits prod.splits)

definition startsStore :: "action \<Rightarrow> bool" where
  "startsStore a =
     (case a of RunStoreServer _ \<Rightarrow> True | RunDaemon _ \<Rightarrow> True | RunPreloadOnly _ \<Rightarrow> True | RunHelper _ \<Rightarrow> True
      | _ \<Rightarrow> False)"

lemma mainAction_starts:
  assumes "startsStore (mainAction urlHosts E oi fl)"
  shows "\<exists>fl1. mainAction urlHosts E oi fl = cacheAction E oi fl1"
proof (cases "normalizeServerFlags (fl_http fl) (fl_https fl) (fl_httpsHost fl)")
  case (Inl e)
  then show ?thesis using assms by (simp add: mainAction_def Let_def startsStore_def split: if_split_asm)
next
  case (Inr hs)
  obtain http https where hs: "hs = (http, https)" by (metis surj_pair)
  show ?thesis
    using assms unfolding mainAction_def Let_def
    by (simp add: Inr hs startsStore_def split: if_split_asm) blast
qed

lemma cacheAction_server:
  "cacheAction E oi fl = RunStoreServer fl' \<Longrightarrow> fl_remoteURL fl' = [] \<and> serverFlags fl'"
  by (auto simp: cacheAction_def Let_def split: if_split_asm sum.split_asm option.split_asm)

lemma cacheAction_daemon:
  "cacheAction E oi fl = RunDaemon fl' \<Longrightarrow>
     fl_remoteURL fl' \<noteq> [] \<and> fl_http fl' \<noteq> [] \<and> fl_https fl' = [] \<and> fl_httpsHost fl' = []"
  by (auto simp: cacheAction_def Let_def serverFlags_def split: if_split_asm sum.split_asm option.split_asm)

lemma cacheAction_helper:
  "cacheAction E oi fl = RunPreloadOnly fl' \<Longrightarrow> fl_remoteURL fl' \<noteq> [] \<and> \<not> serverFlags fl'"
  "cacheAction E oi fl = RunHelper fl' \<Longrightarrow> \<not> serverFlags fl' \<and> \<not> fl_preloadOnly fl'"
  by (auto simp: cacheAction_def Let_def split: if_split_asm sum.split_asm option.split_asm)

text \<open>With a remote server, no flags start a server for others but a daemon without TLS; without one, nothing that
  needs one is started.\<close>

theorem modes_fit_flags:
  "mainAction urlHosts E oi fl = RunStoreServer fl' \<Longrightarrow> fl_remoteURL fl' = [] \<and> serverFlags fl'"
  "mainAction urlHosts E oi fl = RunDaemon fl' \<Longrightarrow>
     fl_remoteURL fl' \<noteq> [] \<and> fl_http fl' \<noteq> [] \<and> fl_https fl' = [] \<and> fl_httpsHost fl' = []"
  "mainAction urlHosts E oi fl = RunPreloadOnly fl' \<Longrightarrow> fl_remoteURL fl' \<noteq> [] \<and> \<not> serverFlags fl'"
  "mainAction urlHosts E oi fl = RunHelper fl' \<Longrightarrow> \<not> serverFlags fl' \<and> \<not> fl_preloadOnly fl'"
  using mainAction_starts [of urlHosts E oi fl] cacheAction_server cacheAction_daemon cacheAction_helper
  by (auto simp: startsStore_def)

end
