(* ===== verification/Hash_Diff.thy ===== *)
theory Hash_Diff
  imports Native_Cache
begin

text \<open>
  The tool \<open>gocachehashdiff\<close> (\<open>cmd/gocachehashdiff/main.go\<close>): it reads one or two logs that the go command
  wrote with \<open>GODEBUG=gocachehash=1\<close>, and prints what their entries have in them or how they differ. The output
  is a list of lines. A map is a list of pairs, a set a list without repetitions. \<open>strconv.Unquote\<close> is an
  argument.
\<close>

section \<open>Strings and paths\<close>

text \<open>\<open>strings.Index\<close>, \<open>strings.Cut\<close>, and \<open>strings.ReplaceAll\<close> for a text that is not empty.\<close>

fun indexOf :: "string \<Rightarrow> string \<Rightarrow> nat option" where
  "indexOf sub [] = (if sub = [] then Some 0 else None)"
| "indexOf sub (ch # s) = (if prefix sub (ch # s) then Some 0 else map_option Suc (indexOf sub s))"

definition strContains :: "string \<Rightarrow> string \<Rightarrow> bool" where
  "strContains s sub = (indexOf sub s \<noteq> None)"

definition cutAt :: "string \<Rightarrow> string \<Rightarrow> (string \<times> string) option" where
  "cutAt s sub =
     (case indexOf sub s of None \<Rightarrow> None | Some i \<Rightarrow> Some (take i s, drop (i + length sub) s))"

function replaceAll :: "string \<Rightarrow> string \<Rightarrow> string \<Rightarrow> string" where
  "replaceAll old new s =
     (if old = [] then s
      else (case s of
          [] \<Rightarrow> []
        | ch # t \<Rightarrow> (if prefix old s then new @ replaceAll old new (drop (length old) s) else ch # replaceAll old new t)))"
  by pat_completeness auto
termination
  by (relation "measure (\<lambda>(old, new, s). length s)") auto

declare replaceAll.simps [simp del]

fun lastIndex :: "char \<Rightarrow> string \<Rightarrow> nat option" where
  "lastIndex ch [] = None"
| "lastIndex ch (x # s) =
     (case lastIndex ch s of Some i \<Rightarrow> Some (Suc i) | None \<Rightarrow> if x = ch then Some 0 else None)"

text \<open>\<open>filepath.Rel\<close>, for a base that is absolute.\<close>

definition pathElems :: "path \<Rightarrow> string list" where
  "pathElems p = (if p = ''.'' then [] else if p = [sep] then [[]] else split_on sep p)"

fun dropCommon :: "'a list \<Rightarrow> 'a list \<Rightarrow> 'a list \<times> 'a list" where
  "dropCommon (x # xs) (y # ys) = (if x = y then dropCommon xs ys else (x # xs, y # ys))"
| "dropCommon xs ys = (xs, ys)"

definition filepathRel :: "path \<Rightarrow> path \<Rightarrow> path result" where
  "filepathRel base0 targ0 =
     (let base = clean base0; targ = clean targ0 in
      if targ = base then Inr ''.''
      else if isAbs base \<noteq> isAbs targ then Inl (ErrMsg ''Rel: can not make path relative'')
      else (case dropCommon (pathElems base) (split_on sep targ) of
          (bs, ts) \<Rightarrow>
            (if bs \<noteq> [] \<and> ts \<noteq> [] \<and> hd bs = ''..'' then Inl (ErrMsg ''Rel: can not make path relative'')
             else Inr (join_with sep (map (\<lambda>_. ''..'') bs @ filter (\<lambda>e. e \<noteq> []) ts)))))"

definition isRepoLocalPath :: "path \<Rightarrow> path \<Rightarrow> bool" where
  "isRepoLocalPath p root =
     (if root = [] then False
      else if isAbs p then
        (case filepathRel root p of Inl _ \<Rightarrow> False | Inr rel \<Rightarrow> rel \<noteq> ''.'' \<and> \<not> prefix ''..'' rel)
      else True)"

section \<open>Reading a log\<close>

record entry =
  en_Kind :: string
  en_Payload :: string
  en_Package :: string

definition scrubGoBuildDir :: "string \<Rightarrow> string" where
  "scrubGoBuildDir s0 =
     (let s = replaceAll ''/tmp/go-build'' ''/TMPROOT/go-build'' (replaceAll ''/var/folders/'' ''/TMPROOT/'' s0) in
      case indexOf ''go-build'' s of
        None \<Rightarrow> s
      | Some i \<Rightarrow> take i s @ ''go-build<id>'' @ dropWhile is_digit (drop (i + 8) s))"

definition scrubTmpDir :: "string \<Rightarrow> string" where
  "scrubTmpDir s = (if strContains s ''/var/folders/'' then ''/TMPROOT/'' else s)"

definition normalizePayload :: "string \<Rightarrow> string \<Rightarrow> string" where
  "normalizePayload kind payload0 =
     (let payload = trimSpace payload0 in
      if kind = ''open'' \<or> kind = ''stat'' then scrubGoBuildDir payload
      else if kind = ''getenv'' then scrubTmpDir payload
      else if kind = ''testInputs'' \<or> kind = ''testcache'' then scrubTmpDir (scrubGoBuildDir payload)
      else payload)"

definition parseTestCacheEntry :: "string \<Rightarrow> entry option" where
  "parseTestCacheEntry line =
     (if \<not> prefix ''testcache: '' line then None
      else (case cutAt (drop 11 line) '': '' of
          None \<Rightarrow> None
        | Some (pkg, payload) \<Rightarrow>
            (if pkg = [] \<or> payload = [] then None
             else Some \<lparr>en_Kind = ''testcache'', en_Payload = normalizePayload ''testcache'' payload,
                        en_Package = pkg\<rparr>)))"

definition parseEntry :: "(string \<Rightarrow> string option) \<Rightarrow> string \<Rightarrow> entry option" where
  "parseEntry unquote line =
     (case parseTestCacheEntry line of
        Some e \<Rightarrow> Some e
      | None \<Rightarrow>
          (if \<not> prefix ''HASH['' line \<or> \<not> strContains line '']: '' then None
           else (case indexOf '']'' line of
               None \<Rightarrow> None
             | Some i \<Rightarrow>
                 (let kind = drop 5 (take i line); pre = ''HASH['' @ kind @ '']: '' in
                  if \<not> prefix pre line then None
                  else (let payload = drop (length pre) line;
                            text = (case unquote payload of None \<Rightarrow> payload | Some u \<Rightarrow> trimSuffixChar nl u)
                        in Some \<lparr>en_Kind = kind, en_Payload = normalizePayload kind text, en_Package = []\<rparr>)))))"

definition inputKinds :: "string list" where
  "inputKinds = [''moduleIndex'', ''open'', ''stat'', ''testInputs'', ''getenv'', ''testcache'', ''testResult'']"

definition allowByFocus :: "string \<Rightarrow> string \<Rightarrow> bool" where
  "allowByFocus kind focus = (if focus = ''inputs'' then kind \<in> set inputKinds else True)"

definition wantedEntry :: "string \<Rightarrow> string \<Rightarrow> entry \<Rightarrow> bool" where
  "wantedEntry wantKind focus e =
     (allowByFocus (en_Kind e) focus \<and> (wantKind = ''all'' \<or> en_Kind e = wantKind))"

definition parseEntries ::
  "(string \<Rightarrow> string option) \<Rightarrow> env \<Rightarrow> fs \<Rightarrow> path \<Rightarrow> string \<Rightarrow> string \<Rightarrow> entry list result" where
  "parseEntries unquote E d p wantKind focus =
     (case readFile E d p of
        Inl e \<Rightarrow> Inl e
      | Inr b \<Rightarrow>
          (case scan_lines (16 * 1024 * 1024) b of
             Inl e \<Rightarrow> Inl e
           | Inr ls \<Rightarrow> Inr (filter (wantedEntry wantKind focus) (List.map_filter (parseEntry unquote) ls))))"

section \<open>Counting and collecting\<close>

definition uniqSorted :: "string list \<Rightarrow> string list" where
  "uniqSorted vs = remdups_adj (sort vs)"

definition countKeys :: "string list \<Rightarrow> (string \<times> int) list" where
  "countKeys ks = foldl (\<lambda>m k. AList.update k (mget0 0 m k + 1) m) [] ks"

definition entryKey :: "entry \<Rightarrow> string" where
  "entryKey e = en_Kind e @ CHR 0x00 # en_Payload e"

definition countEntries :: "entry list \<Rightarrow> (string \<times> int) list" where
  "countEntries es = countKeys (map entryKey es)"

definition sortedCountMap :: "(string \<times> int) list \<Rightarrow> (string \<times> int) list" where
  "sortedCountMap m = sort_key (\<lambda>(k, n). (- n, k)) m"

definition padInt :: "int \<Rightarrow> string" where
  "padInt n = (let s = formatInt n in replicate (6 - length s) CHR '' '' @ s)"

definition countLines :: "(string \<times> int) list \<Rightarrow> string list" where
  "countLines m = map (\<lambda>(k, n). padInt n @ '' '' @ k) (sortedCountMap m)"

definition addSet :: "(string \<times> string list) list \<Rightarrow> string \<Rightarrow> string \<Rightarrow> (string \<times> string list) list" where
  "addSet m k v = AList.update k (List.insert v (mget0 [] m k)) m"

definition equalSet :: "string list \<Rightarrow> string list \<Rightarrow> bool" where
  "equalSet a b = (a = [] \<and> b = [] \<or> length a = length b \<and> list_all (\<lambda>k. k \<in> set b) a)"

definition countPayloadPrefix :: "entry list \<Rightarrow> string \<Rightarrow> string \<Rightarrow> nat" where
  "countPayloadPrefix es kind pre = length (filter (\<lambda>e. en_Kind e = kind \<and> prefix pre (en_Payload e)) es)"

definition parseModuleIndexFile :: "string \<Rightarrow> string option" where
  "parseModuleIndexFile payload =
     (let s = (if prefix ''file '' payload then drop 5 payload else payload) in
      case cutAt s '' '' of None \<Rightarrow> None | Some (p, _) \<Rightarrow> Some p)"

definition parseTestInputStat :: "string \<Rightarrow> (string \<times> string) option" where
  "parseTestInputStat payload =
     (if \<not> prefix ''stat '' payload then None
      else (let s = drop 5 payload in
        case lastIndex CHR '' '' s of
          None \<Rightarrow> None | Some i \<Rightarrow> (if i = 0 then None else Some (take i s, drop (i + 1) s))))"

definition tooNewSuffix :: string where "tooNewSuffix = '': file used as input is too new''"

definition parseTestCacheReason :: "path \<Rightarrow> entry \<Rightarrow> string option" where
  "parseTestCacheReason root e =
     (let pl = en_Payload e in
      if en_Kind e \<noteq> ''testcache'' then None
      else if prefix ''input list not found:'' pl then Some ''input list not found''
      else if prefix ''input file '' pl \<and> suffix tooNewSuffix pl then
        (let rest = drop 11 pl;
             p = (if suffix tooNewSuffix rest then take (length rest - length tooNewSuffix) rest else rest);
             q = (if isRepoLocalPath p root
                  then (case filepathRel root p of
                      Inl _ \<Rightarrow> p | Inr rel \<Rightarrow> (if rel \<noteq> ''.'' \<and> \<not> prefix ''..'' rel then rel else p))
                  else p)
         in Some (''input file too new: '' @ q))
      else None)"

definition collectTestCacheReasons :: "path \<Rightarrow> entry list \<Rightarrow> (string \<times> string list) list" where
  "collectTestCacheReasons root es =
     foldl (\<lambda>m e. case parseTestCacheReason root e of None \<Rightarrow> m | Some r \<Rightarrow> addSet m (en_Package e) r) [] es"

definition moduleIndexFiles :: "entry list \<Rightarrow> string list" where
  "moduleIndexFiles es =
     List.map_filter (\<lambda>e. if en_Kind e = ''moduleIndex'' \<and> prefix ''file '' (en_Payload e)
       then parseModuleIndexFile (en_Payload e) else None) es"

definition testInputStats :: "entry list \<Rightarrow> (string \<times> string) list" where
  "testInputStats es =
     List.map_filter (\<lambda>e. if en_Kind e = ''testInputs'' then parseTestInputStat (en_Payload e) else None) es"

section \<open>Printing\<close>

text \<open>A heading and at most the first lines below it.\<close>

definition itemLines :: "nat \<Rightarrow> string list \<Rightarrow> string list" where
  "itemLines n ps = map (\<lambda>p. ''  - '' @ p) (take n ps)"

definition headed :: "string \<Rightarrow> string \<Rightarrow> string list \<Rightarrow> string \<Rightarrow> string list" where
  "headed what unit ps none =
     (if ps = [] then [''- `'' @ what @ ''`: '' @ none]
      else (''- `'' @ what @ ''`: '' @ formatInt (int (length ps)) @ unit) # itemLines 10 ps)"

definition printSingleLogModuleIndexFiles :: "path \<Rightarrow> entry list \<Rightarrow> string list" where
  "printSingleLogModuleIndexFiles root es =
     headed ''moduleIndex'' '' repo-local file inputs''
       (uniqSorted (filter (\<lambda>p. isRepoLocalPath p root) (moduleIndexFiles es))) ''no repo-local file inputs''"

definition printSingleLogTestInputStats :: "path \<Rightarrow> entry list \<Rightarrow> string list" where
  "printSingleLogTestInputStats root es =
     headed ''testInputs'' '' repo-local stat inputs''
       (uniqSorted (filter (\<lambda>p. isRepoLocalPath p root) (map fst (testInputStats es)))) ''no repo-local stat inputs''"

definition joinComma :: "string list \<Rightarrow> string" where
  "joinComma ss = concat (case ss of [] \<Rightarrow> [] | s # rs \<Rightarrow> s # map (\<lambda>r. '', '' @ r) rs)"

definition printSingleLogEnv :: "entry list \<Rightarrow> string list" where
  "printSingleLogEnv es =
     (let has = (\<lambda>k p. 0 < countPayloadPrefix es k p);
          found = (if has ''testInputs'' ''env GODEBUG'' \<or> has ''getenv'' ''gocachehash=1'' then [''GODEBUG''] else []) @
            (if has ''testInputs'' ''env GOTMPDIR'' \<or> has ''getenv'' ''/TMPROOT/'' then [''GOTMPDIR''] else []) @
            (if has ''testInputs'' ''env TMPDIR'' \<or> has ''getenv'' ''/TMPROOT/'' then [''TMPDIR''] else [])
      in [if found = [] then ''- `env`: no interesting env signals'' else ''- `env`: '' @ joinComma found])"

definition printSingleLogTestCache :: "path \<Rightarrow> entry list \<Rightarrow> string list" where
  "printSingleLogTestCache root es =
     (let byPkg = collectTestCacheReasons root es; pkgs = sort (map fst byPkg) in
      if byPkg = [] then [''- `testcache`: no actionable package miss reasons'']
      else (''- `testcache`: '' @ formatInt (int (length pkgs)) @ '' package(s) with actionable miss reasons'') #
        concat (map (\<lambda>p. (''  - '' @ p) #
            map (\<lambda>r. ''    * '' @ r) (take 3 (sort (mget0 [] byPkg p)))) (take 5 pkgs)))"

definition printSummary :: "path \<Rightarrow> path \<Rightarrow> string \<Rightarrow> string \<Rightarrow> entry list \<Rightarrow> bool \<Rightarrow> string list" where
  "printSummary p root kind focus es verbose =
     [''log: '' @ p, ''kind: '' @ kind, ''focus: '' @ focus, ''lines: '' @ formatInt (int (length es)), [],
      ''Actionable summary:''] @
     printSingleLogModuleIndexFiles root es @ printSingleLogTestInputStats root es @
     printSingleLogTestCache root es @ printSingleLogEnv es @
     (if \<not> verbose then []
      else [[], ''Kinds:''] @ countLines (countKeys (map en_Kind es)) @ [[], ''Sample:''] @
        map (\<lambda>e. ''['' @ en_Kind e @ ''] '' @ en_Payload e) (take 20 es))"

text \<open>The keys of two maps whose values differ, in order.\<close>

definition changedKeys :: "('v \<Rightarrow> 'v \<Rightarrow> bool) \<Rightarrow> 'v \<Rightarrow> (string \<times> 'v) list \<Rightarrow> (string \<times> 'v) list \<Rightarrow> string list" where
  "changedKeys differ z am bm =
     sort (filter (\<lambda>k. differ (mget0 z am k) (mget0 z bm k)) (map fst am) @
       filter (\<lambda>k. map_of am k = None) (map fst bm))"

definition printModuleIndexFiles :: "entry list \<Rightarrow> entry list \<Rightarrow> string list" where
  "printModuleIndexFiles a b =
     headed ''moduleIndex'' '' file-list changes''
       (changedKeys (\<lambda>m n. m \<noteq> n) 0 (countKeys (moduleIndexFiles a)) (countKeys (moduleIndexFiles b)))
       ''no file-list changes''"

definition statSets :: "entry list \<Rightarrow> (string \<times> string list) list" where
  "statSets es = foldl (\<lambda>m (p, h). addSet m p h) [] (testInputStats es)"

definition printTestInputStatChanges :: "entry list \<Rightarrow> entry list \<Rightarrow> string list" where
  "printTestInputStatChanges a b =
     headed ''testInputs'' '' file stat input changes''
       (changedKeys (\<lambda>x y. \<not> equalSet x y) [] (statSets a) (statSets b)) ''no file stat input changes''"

definition changedReasonPackages ::
  "(string \<times> string list) list \<Rightarrow> (string \<times> string list) list \<Rightarrow> string list" where
  "changedReasonPackages am bm =
     sort (filter (\<lambda>k. \<not> equalSet (mget0 [] am k) (mget0 [] bm k)) (remdups (map fst am @ map fst bm)))"

definition diffReasonSets :: "string list \<Rightarrow> string list \<Rightarrow> string list \<times> string list" where
  "diffReasonSets a b = (sort (filter (\<lambda>k. k \<notin> set a) b), sort (filter (\<lambda>k. k \<notin> set b) a))"

definition printTestCacheChanges :: "path \<Rightarrow> entry list \<Rightarrow> entry list \<Rightarrow> string list" where
  "printTestCacheChanges root a b =
     (let am = collectTestCacheReasons root a; bm = collectTestCacheReasons root b;
          changed = changedReasonPackages am bm
      in if changed = [] then [''- `testcache`: no actionable package reason changes'']
         else (''- `testcache`: '' @ formatInt (int (length changed)) @ '' package reason changes'') #
           concat (map (\<lambda>p. case diffReasonSets (mget0 [] am p) (mget0 [] bm p) of
               (added, removed) \<Rightarrow> (''  - '' @ p) # map (\<lambda>r. ''    + '' @ r) (take 2 added) @
                 map (\<lambda>r. ''    - '' @ r) (take 2 removed)) (take 5 changed)))"

definition interestingEnv :: "string list" where
  "interestingEnv = [''env GODEBUG'', ''env GOTMPDIR'', ''env TMPDIR'']"

definition printEnvChanges :: "entry list \<Rightarrow> entry list \<Rightarrow> string list" where
  "printEnvChanges a b =
     (let changed = filter (\<lambda>p. countPayloadPrefix a ''testInputs'' p \<noteq> countPayloadPrefix b ''testInputs'' p \<or>
            countPayloadPrefix a ''getenv'' (drop 4 p) \<noteq> countPayloadPrefix b ''getenv'' (drop 4 p)) interestingEnv
      in if changed = [] then [''- `env`: no interesting env churn'']
         else ''- `env`: changed signals'' # map (\<lambda>c. ''  - '' @ c) changed)"

definition printActionableSummary :: "path \<Rightarrow> entry list \<Rightarrow> entry list \<Rightarrow> string list" where
  "printActionableSummary root a b =
     [[], ''Actionable summary:''] @ printModuleIndexFiles a b @ printTestInputStatChanges a b @
     printTestCacheChanges root a b @ printEnvChanges a b"

text \<open>One key of \<open>printDiff\<close>: what it prints, if the limit allows.\<close>

definition changeLines :: "string \<Rightarrow> int \<Rightarrow> int \<Rightarrow> string list" where
  "changeLines k ac bc =
     (case cutAt k [CHR 0x00] of
        None \<Rightarrow> []
      | Some (kind, payload) \<Rightarrow>
          (if ac = 0 then [[], ''ADDED ['' @ kind @ ''] x'' @ formatInt bc, ''  + '' @ payload]
           else if bc = 0 then [[], ''REMOVED ['' @ kind @ ''] x'' @ formatInt ac, ''  - '' @ payload]
           else [[], ''COUNT CHANGED ['' @ kind @ ''] '' @ formatInt ac @ '' -> '' @ formatInt bc, ''  = '' @ payload]))"

record diffState =
  df_changes :: "(string \<times> int) list"
  df_printed :: int
  df_lines :: "string list"

definition diffKey :: "(string \<times> int) list \<Rightarrow> (string \<times> int) list \<Rightarrow> int \<Rightarrow> diffState \<Rightarrow> string \<Rightarrow> diffState" where
  "diffKey am bm limit st k =
     (let ac = mget0 0 am k; bc = mget0 0 bm k; kind = takeWhile (\<lambda>ch. ch \<noteq> CHR 0x00) k in
      if ac = bc then st
      else (let st1 = st\<lparr>df_changes := AList.update kind (mget0 0 (df_changes st) kind + \<bar>ac - bc\<bar>) (df_changes st)\<rparr> in
        if limit \<le> df_printed st1 then st1
        else st1\<lparr>df_printed := df_printed st1 + 1, df_lines := df_lines st1 @ changeLines k ac bc\<rparr>))"

definition diffKeys :: "entry list \<Rightarrow> entry list \<Rightarrow> int \<Rightarrow> diffState" where
  "diffKeys a b limit =
     (let am = countEntries a; bm = countEntries b in
      foldl (diffKey am bm limit) \<lparr>df_changes = [], df_printed = 0, df_lines = []\<rparr>
        (sort (remdups (map fst am @ map fst bm))))"

definition printDiff ::
  "string \<Rightarrow> string \<Rightarrow> string \<Rightarrow> string \<Rightarrow> path \<Rightarrow> entry list \<Rightarrow> entry list \<Rightarrow> int \<Rightarrow> string list" where
  "printDiff aName bName kind focus root a b limit =
     (let st = diffKeys a b limit in
      [''compare kind='' @ kind @ '' focus='' @ focus, ''a: '' @ aName, ''b: '' @ bName] @
      printActionableSummary root a b @ df_lines st @
      (if df_changes st = [] then [[], ''no relevant changes'']
       else [[], ''Changed by kind:''] @ countLines (df_changes st) @
         (if limit \<le> df_printed st
          then [[], ''output truncated at '' @ formatInt limit @ '' changed lines''] else [])))"

section \<open>The command\<close>

record diffFlags =
  fl_kind :: string
  fl_focus :: string
  fl_moduleRoot :: path
  fl_limit :: int
  fl_verbose :: bool

definition moduleRoot :: "osinfo \<Rightarrow> path \<Rightarrow> path result" where
  "moduleRoot oi root =
     (case (if root = [] then (case workDir oi of Inl e \<Rightarrow> Inl (ErrWrap ''get cwd'' e) | Inr wd \<Rightarrow> Inr wd)
            else Inr root) of
        Inl e \<Rightarrow> Inl e
      | Inr r \<Rightarrow> (case filepathAbs oi r of Inl e \<Rightarrow> Inl (ErrWrap ''abs module root'' e) | Inr p \<Rightarrow> Inr p))"

definition runDiff ::
  "(string \<Rightarrow> string option) \<Rightarrow> osinfo \<Rightarrow> env \<Rightarrow> fs \<Rightarrow> diffFlags \<Rightarrow> string list \<Rightarrow> string list result" where
  "runDiff unquote oi E d fl args =
     (case args of
        [] \<Rightarrow> Inl (ErrMsg ''usage: gocachehashdiff [flags] <log-a> [log-b]'')
      | p # rs \<Rightarrow>
          (if 1 < length rs then Inl (ErrMsg ''usage: gocachehashdiff [flags] <log-a> [log-b]'')
           else (case moduleRoot oi (fl_moduleRoot fl) of
               Inl e \<Rightarrow> Inl e
             | Inr root \<Rightarrow>
                 (case parseEntries unquote E d p (fl_kind fl) (fl_focus fl) of
                    Inl e \<Rightarrow> Inl (ErrWrap ''parse'' e)
                  | Inr a \<Rightarrow>
                      (case rs of
                         [] \<Rightarrow> Inr (printSummary p root (fl_kind fl) (fl_focus fl) a (fl_verbose fl))
                       | q # _ \<Rightarrow>
                           (case parseEntries unquote E d q (fl_kind fl) (fl_focus fl) of
                              Inl e \<Rightarrow> Inl (ErrWrap ''parse'' e)
                            | Inr b \<Rightarrow>
                                Inr (printDiff p q (fl_kind fl) (fl_focus fl) root a b (fl_limit fl))))))))"

section \<open>What a comparison counts\<close>

lemma countKeys_foldl:
  "wf_map m \<Longrightarrow> wf_map (foldl (\<lambda>m k. AList.update k (mget0 0 m k + 1) m) m ks) \<and>
     set (mkeys (foldl (\<lambda>m k. AList.update k (mget0 0 m k + 1) m) m ks)) = set (mkeys m) \<union> set ks \<and>
     mget0 0 (foldl (\<lambda>m k. AList.update k (mget0 0 m k + 1) m) m ks) k =
       mget0 0 m k + (int (count (mset ks) k) :: int)"
  by (induction ks arbitrary: m) (auto simp: mget0_def)

lemma countEntries_count:
  "set (mkeys (countEntries es)) = set (map entryKey es)"
  "mget0 0 (countEntries es) k = int (count (mset (map entryKey es)) k)"
  using countKeys_foldl [of "[]" "map entryKey es" k] by (simp_all add: countEntries_def countKeys_def mget0_def)

lemma diffKey_foldl:
  fixes st :: diffState
  assumes "wf_map (df_changes st)"
  shows "wf_map (df_changes (foldl (diffKey am bm limit) st ks)) \<and>
    msum (\<lambda>n. n) (df_changes (foldl (diffKey am bm limit) st ks)) =
      msum (\<lambda>n. n) (df_changes st) + (\<Sum>k\<leftarrow>ks. \<bar>mget0 0 am k - mget0 0 bm k\<bar>) \<and>
    (df_changes (foldl (diffKey am bm limit) st ks) = [] \<longleftrightarrow>
      df_changes st = [] \<and> (\<forall>k \<in> set ks. mget0 0 am k = mget0 0 bm k))"
  using assms
proof (induction ks arbitrary: st)
  case (Cons k ks)
  let ?kind = "takeWhile (\<lambda>ch. ch \<noteq> CHR 0x00) k" and ?x = "\<bar>mget0 0 am k - mget0 0 bm k\<bar>"
  let ?m = "AList.update ?kind (mget0 0 (df_changes st) ?kind + ?x) (df_changes st)"
  have d: "df_changes (diffKey am bm limit st k) = (if mget0 0 am k = mget0 0 bm k then df_changes st else ?m)"
    by (simp add: diffKey_def Let_def)
  have s: "msum (\<lambda>n. n) ?m = msum (\<lambda>n. n) (df_changes st) + ?x"
    using Cons.prems by (simp add: msum_update mget0_def split: option.split)
  have ne: "?m \<noteq> []" by (cases "df_changes st") auto
  have w: "wf_map (df_changes (diffKey am bm limit st k))" using Cons.prems by (simp add: d)
  show ?case
  proof (cases "mget0 0 am k = mget0 0 bm k")
    case True
    then show ?thesis using Cons.IH [OF w] by (simp add: d)
  next
    case False
    then have "df_changes (diffKey am bm limit st k) = ?m" by (simp add: d)
    then show ?thesis using Cons.IH [OF w] False s ne by simp
  qed
qed simp

lemma sum_abs_counts:
  fixes A B :: "'a multiset"
  assumes "finite K" "set_mset A \<union> set_mset B \<subseteq> K"
  shows "(\<Sum>k\<in>K. \<bar>int (count A k) - int (count B k)\<bar>) = int (size (A - B) + size (B - A))"
proof -
  have sz: "size M = (\<Sum>k\<in>K. count M k)" if "set_mset M \<subseteq> K" for M :: "'a multiset"
    using that assms(1) by (auto simp: size_multiset_overloaded_eq not_in_iff intro!: sum.mono_neutral_left)
  have "set_mset (A - B) \<subseteq> K" "set_mset (B - A) \<subseteq> K"
    using assms(2) by (auto dest: in_diffD)
  then have "int (size (A - B) + size (B - A)) = (\<Sum>k\<in>K. int (count (A - B) k) + int (count (B - A) k))"
    by (simp add: sz sum.distrib)
  also have "\<dots> = (\<Sum>k\<in>K. \<bar>int (count A k) - int (count B k)\<bar>)"
    by (rule sum.cong) auto
  finally show ?thesis by simp
qed

text \<open>
  The counts of changed entries that a comparison prints add up to the number of entries that only one of
  the logs has, with their multiplicities; and it reports no change exactly if both logs have the same
  entries, in whatever order.\<close>

theorem diff_counts_changes:
  fixes a b :: "entry list"
  defines "A \<equiv> mset (map entryKey a)" and "B \<equiv> mset (map entryKey b)"
  shows "msum (\<lambda>n. n) (df_changes (diffKeys a b limit)) = int (size (A - B) + size (B - A))"
    and "df_changes (diffKeys a b limit) = [] \<longleftrightarrow> A = B"
proof -
  let ?ks = "sort (remdups (mkeys (countEntries a) @ mkeys (countEntries b)))"
  have ks: "set ?ks = set_mset A \<union> set_mset B" "distinct ?ks"
    using countEntries_count(1) [of a] countEntries_count(1) [of b] by (auto simp: A_def B_def)
  have fold: "diffKeys a b limit = foldl (diffKey (countEntries a) (countEntries b) limit)
      \<lparr>df_changes = [], df_printed = 0, df_lines = []\<rparr> ?ks"
    by (simp add: diffKeys_def Let_def)
  have "(\<Sum>k\<leftarrow>?ks. \<bar>int (count A k) - int (count B k)\<bar>) = int (size (A - B) + size (B - A))"
    using sum_abs_counts [of "set ?ks" A B] ks by (simp add: sum_list_distinct_conv_sum_set)
  then show "msum (\<lambda>n. n) (df_changes (diffKeys a b limit)) = int (size (A - B) + size (B - A))"
    unfolding fold using diffKey_foldl [of "\<lparr>df_changes = [], df_printed = 0, df_lines = []\<rparr>"]
    by (simp add: countEntries_count(2) A_def B_def)
  have "(\<forall>k \<in> set ?ks. count A k = count B k) \<longleftrightarrow> A = B"
    unfolding ks(1) by (metis UnI1 UnI2 multiset_eqI not_in_iff)
  then show "df_changes (diffKeys a b limit) = [] \<longleftrightarrow> A = B"
    unfolding fold using diffKey_foldl [of "\<lparr>df_changes = [], df_printed = 0, df_lines = []\<rparr>"]
    by (simp add: countEntries_count(2) A_def B_def)
qed

text \<open>The notice of truncation comes also when the limit is just reached and everything was printed.\<close>

definition oneEntry :: entry where
  "oneEntry = \<lparr>en_Kind = ''open'', en_Payload = ''f'', en_Package = []\<rparr>"

theorem truncation_notice_too_early:
  "''output truncated at 1 changed lines'' \<in> set (printDiff [] [] [] [] [] [oneEntry] [] 1)"
  "df_lines (diffKeys [oneEntry] [] 1) = df_lines (diffKeys [oneEntry] [] 100)"
  by code_simp+

end
