(* ===== verification/Spec2Isabelle.thy ===== *)
theory Spec2Isabelle
  imports Gocache_Content Wire_Pages Http_Safety Proxy_Content Shim_Routing Remote Native_Content Github_Job Command_Line Hash_Diff
begin

text \<open>
  The verification development of gocacheprog, a cache for Go builds: a server that keeps build
  actions, build outputs and saved \<open>GOCACHE\<close> directories, and the clients that talk to it.

  \<^bold>\<open>How the program is put together\<close>

  The server (\<open>internal/http\<close>) has two stores. The action cache (\<open>internal/local/store.go\<close>) maps the action
  ids of the go command to outputs, and keeps one copy of each output however many actions name it.
  The object store (\<open>internal/gocache/store.go\<close>) maps file paths of a \<open>GOCACHE\<close> directory to objects, and
  keeps manifests that say which objects belong to a commit, a pull request or a build type. Both put
  small bodies into a record pool (\<open>internal/recordpool\<close>), a directory of files cut into slots of equal
  size, and larger ones into files of their own; both evict when they are over a limit, the action cache
  by last use, the object store by a heap (\<open>internal/gocache/eviction_heap.go\<close>). Items travel in two
  formats (\<open>internal/cache/store.go\<close>, \<open>internal/gocache/store.go\<close>): a response, which is one JSON head and
  then all bodies, and a stream, in which each item has a head of its own.

  \<^bold>\<open>Theories\<close>

  \<^item> \<open>Prelude\<close>: errors and results, Go maps as association lists, sums over maps.
  \<^item> \<open>Go_Lib\<close>: what the code uses of \<open>strings\<close>, \<open>bufio\<close>, \<open>path/filepath\<close>, \<open>net/url\<close> and \<open>strconv\<close>.
  \<^item> \<open>Environment\<close>: the file system, the clock, failing system calls, the zstd package as a parameter.
  \<^item> \<open>Manifest\<close>: relative paths, the places of manifests, their text (\<open>gocache/store.go\<close>).
  \<^item> \<open>Record_Pool\<close>: \<open>recordpool.go\<close>, its invariant, and what each operation does to each record.
  \<^item> \<open>Eviction_Heap\<close>: \<open>eviction_heap.go\<close> with the sift loops of \<open>container/heap\<close>.
  \<^item> \<open>Cache_Item\<close>, \<open>Wire_Format\<close>, \<open>Wire_Roundtrip\<close>, \<open>Wire_Pages\<close>: items, their readers and writers, the two
    formats and their round trips; \<open>Wire_Pages\<close> keeps the shared buffer of \<open>pagesReader\<close> as a buffer.
  \<^item> \<open>Gocache_Store\<close> (state and operations of the object store), \<open>Gocache_Account\<close> (disk usage, eviction),
    \<open>Gocache_Content\<close> (what a restore returns).
  \<^item> \<open>Local_Store\<close> (state and operations of the action cache), \<open>Local_Account\<close> (reference counts),
    \<open>Local_Cache\<close> (eviction, the map it refines), \<open>Local_Content\<close> (what a lookup returns).
  \<^item> \<open>Http_Server\<close> (the server's state: authorization, sessions, settings, the combined disk budget),
    \<open>Http_Handlers\<close> (all handlers and \<open>ServeHTTP\<close>), \<open>Http_Budget\<close> and \<open>Http_Account\<close> (what holds of both
    stores under any traffic).
  \<^item> \<open>Http_Save\<close> (chunked uploads), \<open>Http_Safety\<close> (authorization, well-formedness, and how bytes can get in that
    nobody sent).
  \<^item> \<open>Proxy\<close> (\<open>local/proxy.go\<close>: the process the go command talks to, its goroutines as steps), \<open>Proxy_Answers\<close>
    (every lookup is answered once, and the proxy comes to rest), \<open>Proxy_Content\<close> (what it serves, counts and
    loses).
  \<^item> \<open>Shim\<close> (\<open>local/shim.go\<close>, \<open>local/app.go\<close>: the daemon that many go commands share, the sessions of its
    clients, and direct mode), \<open>Shim_Routing\<close> (each session gets its own responses).
  \<^item> \<open>Http_Client\<close> (\<open>http/client.go\<close>: requests, the retry after a gateway error, uploads in chunks), \<open>Http_Link\<close> (the
    client talking to the server: what its uploads come to), \<open>Remote\<close> (the proxy with the client as its
    upstream and the server behind it).
  \<^item> \<open>Native_Cache\<close> (the native GOCACHE directory: \<open>local/native_cache.go\<close>, the functions on cache directories in
    \<open>gocache/store.go\<close>, \<open>local_gocache_stats.go\<close>, \<open>canonicalize_timestamps.go\<close>), \<open>Native_Content\<close> (what a save
    leaves out, what eviction removes, what time stamps depend on).
  \<^item> \<open>Github_Actions\<close> (\<open>local/github_actions.go\<close>: the commands before and after a GitHub Actions job, in the
    modes direct, shim, gocache and local-gocache), \<open>Github_Job\<close> (no server can fail the job; the second command
    continues what the first began; scopes of repositories).
  \<^item> \<open>Command_Line\<close> (\<open>cli/cli.go\<close>: which mode the flags select, server addresses, the batch mode of the native
    cache), \<open>Hash_Diff\<close> (\<open>cmd/gocachehashdiff\<close>: reading and comparing the go command's hash logs).

  \<^bold>\<open>How state and operations correspond\<close>

  Each component's state is a record with the fields of the Go struct. An operation takes the
  environment it runs in and the state, and returns its result and the new state; a Go error is the
  left side of a sum, or an optional error where there is no other result. Run-time panics are errors
  too (\<open>ErrPanic\<close>). \<open>putOne\<close> of both stores, which releases the mutex while it writes the body, is three
  operations in sequence, so that other operations can come between; every other operation of the
  stores runs under its mutex and is one step. Integers of Go's 64-bit types are unbounded here, except
  where the code itself converts or checks a width: the pool's 32-bit page and slot numbers and the
  length fields of the formats are words. Files written under a temporary name and renamed appear at
  once or not at all. \<open>encoding/json\<close> is a parameter wherever its text is not examined.

  \<^bold>\<open>Termination\<close>

  Every loop of the model is a total function with its own measure; there is no fuel. The slot search of
  the pool, which can run forever, returns \<open>ErrHang\<close> exactly when it does. The loops of the eviction
  passes end because each step shortens the index or the heap.

  \<^bold>\<open>Not modelled\<close>

  Opening sockets and TLS certificates and the life of the server process
  (\<open>internal/local/server.go\<close>); the functions of \<open>cli/cli.go\<close> that only wire a store, a proxy and a daemon together;
  the writing of log lines; the HTML of the status page.\<close>

end
